(* ===== verification/Prelude.thy ===== *)
theory Prelude
  imports "HOL-Library.Word"
begin

text \<open>
  Shared vocabulary of the development.

  The C code computes with \<^verbatim>\<open>int32_t\<close>, \<^verbatim>\<open>int64_t\<close>, \<^verbatim>\<open>signed char\<close> and their
  unsigned counterparts. Signed machine integers are modelled by mathematical integers
  with the conversion of the declared type (\<open>i8\<close>, \<open>i32\<close>, \<open>i64\<close>) written at every
  assignment, so that a value that does not fit wraps around in two's complement.
  Unsigned words and the bytes of a buffer are \<open>w word\<close> values. The arithmetic right shift
  of a signed value is \<open>drop_bit\<close> on \<open>int\<close> (rounding towards minus infinity, which is
  what the compilers of this code do) and the left shift is \<open>push_bit\<close>.

  The theory also holds the range calculus \<open>bnd\<close>, the two carry steps that the field and
  the scalar arithmetic share, little-endian byte strings, and the loop over an index range.
\<close>

unbundle bit_operations_syntax

type_synonym byte = "8 word"
type_synonym u32 = "32 word"
type_synonym u64 = "64 word"

named_theorems wrap_id \<open>a conversion that does not change its argument\<close>
named_theorems bnd_intros \<open>ranges of sums, differences and products\<close>
named_theorems byte_simps \<open>reading and writing little-endian byte strings\<close>

section \<open>Conversions to signed machine integers\<close>

definition i8 :: "int \<Rightarrow> int" where
  "i8 x = (x + 2 ^ 7) mod 2 ^ 8 - 2 ^ 7"

definition i32 :: "int \<Rightarrow> int" where
  "i32 x = (x + 2 ^ 31) mod 2 ^ 32 - 2 ^ 31"

definition i64 :: "int \<Rightarrow> int" where
  "i64 x = (x + 2 ^ 63) mod 2 ^ 64 - 2 ^ 63"

lemma i8_id: "- (2 ^ 7) \<le> x \<Longrightarrow> x < 2 ^ 7 \<Longrightarrow> i8 x = x"
  by (simp add: i8_def)

lemma i32_id: "- (2 ^ 31) \<le> x \<Longrightarrow> x < 2 ^ 31 \<Longrightarrow> i32 x = x"
  by (simp add: i32_def)

lemma i64_id: "- (2 ^ 63) \<le> x \<Longrightarrow> x < 2 ^ 63 \<Longrightarrow> i64 x = x"
  by (simp add: i64_def)

lemma i32_range: "- (2 ^ 31) \<le> i32 x" "i32 x < 2 ^ 31"
  using pos_mod_bound [of "2 ^ 32" "x + 2 ^ 31"] pos_mod_sign [of "2 ^ 32" "x + 2 ^ 31"]
  by (simp_all add: i32_def)

lemma i64_mod: "i64 x mod 2 ^ 64 = x mod 2 ^ 64"
  unfolding i64_def by (metis mod_diff_left_eq add_diff_cancel_right')

lemma i64_eq_iff: "i64 x = i64 y \<longleftrightarrow> x mod 2 ^ 64 = y mod 2 ^ 64"
proof
  assume "i64 x = i64 y"
  then show "x mod 2 ^ 64 = y mod 2 ^ 64" by (metis i64_mod)
next
  assume "x mod 2 ^ 64 = y mod 2 ^ 64"
  then have "(x + 2 ^ 63) mod 2 ^ 64 = (y + 2 ^ 63) mod 2 ^ 64"
    by (rule mod_add_cong) simp
  then show "i64 x = i64 y" by (simp only: i64_def)
qed

text \<open>
  A sum of products is converted once: the conversions of the summands are absorbed by the
  conversion of the sum.
\<close>

lemma i64_sum5: "i64 (i64 a + i64 b + i64 c + i64 d + i64 e) = i64 (a + b + c + d + e)"
  unfolding i64_eq_iff by (intro mod_add_cong i64_mod)

lemma i64_sum6:
  "i64 (i64 a + i64 b + i64 c + i64 d + i64 e + i64 f) = i64 (a + b + c + d + e + f)"
  unfolding i64_eq_iff by (intro mod_add_cong i64_mod)

lemma i64_sum10:
  "i64 (i64 a + i64 b + i64 c + i64 d + i64 e + i64 f + i64 g + i64 h + i64 i + i64 j) =
   i64 (a + b + c + d + e + f + g + h + i + j)"
  unfolding i64_eq_iff by (intro mod_add_cong i64_mod)

section \<open>Ranges\<close>

text \<open>
  \<open>bnd a x\<close> says \<open>\<bar>x\<bar> \<le> a\<close>. It is kept opaque, so that a goal with many bounded
  variables does not make the arithmetic procedures split on every absolute value.
\<close>

definition bnd :: "int \<Rightarrow> int \<Rightarrow> bool" where
  "bnd a x \<longleftrightarrow> \<bar>x\<bar> \<le> a"

lemma bndI: "- a \<le> x \<Longrightarrow> x \<le> a \<Longrightarrow> bnd a x"
  by (simp add: bnd_def)

lemma bnd_lower: "bnd a x \<Longrightarrow> - a \<le> x"
  and bnd_upper: "bnd a x \<Longrightarrow> x \<le> a"
  by (simp_all add: bnd_def)

lemma bnd_mono: "bnd a x \<Longrightarrow> a \<le> b \<Longrightarrow> bnd b x"
  by (simp add: bnd_def)

lemma bnd_minus [simp]: "bnd a (- x) \<longleftrightarrow> bnd a x"
  by (simp add: bnd_def)

lemma bnd_add [bnd_intros]: "bnd a x \<Longrightarrow> bnd b y \<Longrightarrow> bnd (a + b) (x + y)"
  by (simp add: bnd_def)

lemma bnd_diff [bnd_intros]: "bnd a x \<Longrightarrow> bnd b y \<Longrightarrow> bnd (a + b) (x - y)"
  by (simp add: bnd_def)

lemma bnd_mult [bnd_intros]: "bnd a x \<Longrightarrow> bnd b y \<Longrightarrow> bnd (a * b) (x * y)"
  by (simp add: bnd_def abs_mult mult_mono')

lemma bnd_numeral [bnd_intros]: "bnd (numeral n) (numeral n)"
  by (simp add: bnd_def)

lemma i32_bnd: "bnd a x \<Longrightarrow> a < 2 ^ 31 \<Longrightarrow> i32 x = x"
  by (rule i32_id) (simp_all add: bnd_def)

lemma i64_bnd: "bnd a x \<Longrightarrow> a < 2 ^ 63 \<Longrightarrow> i64 x = x"
  by (rule i64_id) (simp_all add: bnd_def)

section \<open>Carry steps\<close>

text \<open>
  The two carry statements of the arithmetic code:
  \<^verbatim>\<open>c = (lo + (1 << (k-1))) >> k; hi += c; lo -= c << k;\<close> (rounding to nearest) and
  \<^verbatim>\<open>c = lo >> k; hi += c; lo -= c << k;\<close> (rounding down), on \<^verbatim>\<open>int64_t\<close> variables.
\<close>

definition carry_near :: "nat \<Rightarrow> int \<Rightarrow> int \<Rightarrow> int \<times> int" where
  "carry_near k lo hi =
     (let c = drop_bit k (i64 (lo + push_bit (k - 1) 1))
      in (i64 (lo - i64 (push_bit k c)), i64 (hi + c)))"

definition carry_down :: "nat \<Rightarrow> int \<Rightarrow> int \<Rightarrow> int \<times> int" where
  "carry_down k lo hi =
     (let c = drop_bit k lo
      in (i64 (lo - i64 (push_bit k c)), i64 (hi + c)))"

lemma i64_push_absorb: "i64 (x - i64 y) = i64 (x - y)"
  unfolding i64_eq_iff by (intro mod_diff_cong i64_mod refl)

lemma carry_near_cases:
  assumes "carry_near (Suc k) lo hi = (lo', hi')"
    and "bnd (2 ^ 62) lo" and "bnd (2 ^ 62) hi" and "k < 61"
  obtains c where "lo' = lo - 2 ^ Suc k * c" and "hi' = hi + c"
    and "- (2 ^ k) \<le> lo'" and "lo' < 2 ^ k"
proof -
  define K :: int where "K = 2 ^ k"
  define c where "c = (lo + K) div (2 * K)"
  have K: "1 \<le> K" "K \<le> 2 ^ 60"
    unfolding K_def using assms(4) by (simp, intro power_increasing) auto
  have lo: "- (2 ^ 62) \<le> lo" "lo \<le> 2 ^ 62" and hi: "- (2 ^ 62) \<le> hi" "hi \<le> 2 ^ 62"
    using assms(2,3) by (simp_all add: bnd_def)
  have "0 \<le> (lo + K) mod (2 * K)" "(lo + K) mod (2 * K) < 2 * K"
    using K by simp_all
  moreover have "lo + K = 2 * K * c + (lo + K) mod (2 * K)"
    unfolding c_def by (rule mult_div_mod_eq [symmetric])
  ultimately have r: "- K \<le> lo - 2 * K * c" "lo - 2 * K * c < K"
    by simp_all
  have "1 * \<bar>c\<bar> \<le> K * \<bar>c\<bar>"
    using K by (intro mult_right_mono) simp_all
  also have "\<dots> = \<bar>K * c\<bar>"
    using K by (simp add: abs_mult)
  also have "\<dots> \<le> 2 ^ 61 + 2 ^ 60"
    using r lo K by (simp add: abs_le_iff)
  finally have absc: "- (3 * 2 ^ 60) \<le> c" "c \<le> 3 * 2 ^ 60"
    by (simp_all add: abs_le_iff)
  have shift: "drop_bit (Suc k) x = x div (2 * K)" "push_bit (Suc k) x = 2 * K * x"
    "push_bit k (1 :: int) = K" for x :: int
    by (simp_all add: K_def drop_bit_eq_div push_bit_eq_mult)
  have step: "i64 (lo + K) = lo + K" "i64 (lo - 2 * K * c) = lo - 2 * K * c"
    "i64 (hi + c) = hi + c"
    using lo hi K r absc by (intro i64_id; simp)+
  have "lo' = lo - 2 * K * c \<and> hi' = hi + c"
    using assms(1)[unfolded carry_near_def Let_def diff_Suc_1 shift i64_push_absorb] step
    by (simp flip: c_def)
  then show thesis
    using r by (intro that [of c]) (simp_all add: K_def)
qed

lemma carry_down_cases:
  assumes "carry_down (Suc k) lo hi = (lo', hi')"
    and "bnd (2 ^ 62) lo" and "bnd (2 ^ 62) hi" and "k < 61"
  obtains c where "lo' = lo - 2 ^ Suc k * c" and "hi' = hi + c"
    and "0 \<le> lo'" and "lo' < 2 ^ Suc k"
proof -
  define K :: int where "K = 2 ^ k"
  define c where "c = lo div (2 * K)"
  have K: "1 \<le> K" "K \<le> 2 ^ 60"
    unfolding K_def using assms(4) by (simp, intro power_increasing) auto
  have lo: "- (2 ^ 62) \<le> lo" "lo \<le> 2 ^ 62" and hi: "- (2 ^ 62) \<le> hi" "hi \<le> 2 ^ 62"
    using assms(2,3) by (simp_all add: bnd_def)
  have "0 \<le> lo mod (2 * K)" "lo mod (2 * K) < 2 * K"
    using K by simp_all
  moreover have "lo = 2 * K * c + lo mod (2 * K)"
    unfolding c_def by (rule mult_div_mod_eq [symmetric])
  ultimately have r: "0 \<le> lo - 2 * K * c" "lo - 2 * K * c < 2 * K"
    by simp_all
  have "1 * \<bar>c\<bar> \<le> K * \<bar>c\<bar>"
    using K by (intro mult_right_mono) simp_all
  also have "\<dots> = \<bar>K * c\<bar>"
    using K by (simp add: abs_mult)
  also have "\<dots> \<le> 2 ^ 61 + 2 ^ 60"
    using r lo K by (simp add: abs_le_iff)
  finally have absc: "- (3 * 2 ^ 60) \<le> c" "c \<le> 3 * 2 ^ 60"
    by (simp_all add: abs_le_iff)
  have shift: "drop_bit (Suc k) x = x div (2 * K)" "push_bit (Suc k) x = 2 * K * x"
    for x :: int
    by (simp_all add: K_def drop_bit_eq_div push_bit_eq_mult)
  have step: "i64 (lo - 2 * K * c) = lo - 2 * K * c" "i64 (hi + c) = hi + c"
    using lo hi K r absc by (intro i64_id; simp)+
  have "lo' = lo - 2 * K * c \<and> hi' = hi + c"
    using assms(1)[unfolded carry_down_def Let_def diff_Suc_1 shift i64_push_absorb] step
    by (simp flip: c_def)
  then show thesis
    using r by (intro that [of c]) (simp_all add: K_def)
qed

section \<open>Little-endian byte strings\<close>

fun le_val :: "byte list \<Rightarrow> int" where
  "le_val [] = 0"
| "le_val (b # bs) = uint b + 256 * le_val bs"

lemma le_val_nonneg: "0 \<le> le_val bs"
  by (induction bs) auto

lemma le_val_less: "le_val bs < 256 ^ length bs"
proof (induction bs)
  case Nil
  then show ?case by simp
next
  case (Cons b bs)
  have "uint b < 256"
    using uint_lt2p [of b] by simp
  with Cons show ?case by simp
qed

lemma le_val_append: "le_val (as @ bs) = le_val as + 256 ^ length as * le_val bs"
  by (induction as) (simp_all add: algebra_simps)

lemma le_val_take_drop:
  "n \<le> length bs \<Longrightarrow> le_val bs = le_val (take n bs) + 256 ^ n * le_val (drop n bs)"
  using le_val_append [of "take n bs" "drop n bs"] by simp

lemma le_val_drop: "n \<le> length bs \<Longrightarrow> le_val (drop n bs) = le_val bs div 256 ^ n"
  and le_val_take: "n \<le> length bs \<Longrightarrow> le_val (take n bs) = le_val bs mod 256 ^ n"
proof -
  assume n: "n \<le> length bs"
  then have r: "0 \<le> le_val (take n bs)" "le_val (take n bs) < 256 ^ n"
    using le_val_nonneg [of "take n bs"] le_val_less [of "take n bs"] by (simp_all add: min_absorb2)
  then have "le_val (take n bs) div 256 ^ n = 0" "le_val (take n bs) mod 256 ^ n = le_val (take n bs)"
    by simp_all
  then show "le_val (drop n bs) = le_val bs div 256 ^ n" "le_val (take n bs) = le_val bs mod 256 ^ n"
    by (simp_all add: le_val_take_drop [OF n])
qed

lemma le_val_window:
  assumes "k + n \<le> length bs"
  shows "le_val (take n (drop k bs)) = le_val bs div 256 ^ k mod 256 ^ n"
  using assms by (simp add: le_val_take le_val_drop)

text \<open>Two bit strings that do not overlap are added by \<open>OR\<close>.\<close>

lemma or_push_bit:
  fixes x y :: int
  assumes "0 \<le> x" "x < 2 ^ n"
  shows "x OR push_bit n y = x + 2 ^ n * y"
proof -
  have "take_bit n x = x"
    using assms by (simp add: take_bit_int_eq_self)
  then have "\<not> bit x m" if "n \<le> m" for m
    using that by (metis bit_take_bit_iff not_less)
  then have "x AND push_bit n y = 0"
    by (intro bit_eqI) (auto simp: bit_simps)
  then have "x + push_bit n y = x OR push_bit n y"
    by (rule disjunctive_add_eq_or)
  then show ?thesis by (simp add: push_bit_eq_mult mult.commute)
qed

lemma uint_byte [byte_simps]: "uint (word_of_int x :: byte) = x mod 256"
  by (simp add: uint_word_of_int)

lemma uint_drop_word: "uint (drop_bit k x) = uint x div 2 ^ k" for x :: "'a :: len word"
proof -
  have "uint (drop_bit k x) = drop_bit k (take_bit LENGTH('a) (uint x))"
    by (rule unsigned_drop_bit_eq)
  also have "take_bit LENGTH('a) (uint x) = uint x"
    using uint_lt2p [of x] by (simp add: take_bit_int_eq_self)
  finally show ?thesis
    by (simp only: drop_bit_eq_div)
qed

section \<open>Bytes of limbs\<close>

text \<open>
  The encoders write limbs that are not whole bytes. A byte holds either bits of one limb or
  the top bits of one and the low bits of the next.
\<close>

lemma div_pow_less: "x div 2 ^ k < 2 ^ n" if "x < 2 ^ (k + n)" for x :: int
proof -
  have "2 ^ k * (x div 2 ^ k) \<le> x"
    using mult_div_mod_eq [of "2 ^ k" x] by (metis add_increasing2 order_refl pos_mod_sign zero_less_numeral zero_less_power)
  then have "2 ^ k * (x div 2 ^ k) < 2 ^ k * 2 ^ n"
    using that unfolding power_add by (rule le_less_trans)
  then show ?thesis
    by (rule mult_left_less_imp_less) simp
qed

lemma mod_mult_pow: "(x + 2 ^ n * y) mod 256 = x + 2 ^ n * (y mod 2 ^ (8 - n))"
  if "0 \<le> x" "x < 2 ^ n" "n \<le> 8" for x y :: int
proof -
  have e: "(256::int) = 2 ^ n * 2 ^ (8 - n)"
    using that(3) by (simp flip: power_add)
  have d: "(x + 2 ^ n * y) div 2 ^ n = y"
    using that(1,2) by simp
  have "(x + 2 ^ n * y) mod (2 ^ n * 2 ^ (8 - n)) =
    2 ^ n * ((x + 2 ^ n * y) div 2 ^ n mod 2 ^ (8 - n)) + (x + 2 ^ n * y) mod 2 ^ n"
    by (rule zmod_zmult2_eq) simp
  then show ?thesis
    unfolding e d using that(1,2) by simp
qed

lemma byte_one [byte_simps]: "uint (word_of_int (drop_bit k x) :: byte) = x div 2 ^ k mod 256"
  by (simp add: uint_word_of_int drop_bit_eq_div)

lemma byte_two:
  assumes "0 \<le> x" and "x < 2 ^ (k + n)" and "n \<le> 8"
  shows "uint (word_of_int (drop_bit k x OR push_bit n y) :: byte) = x div 2 ^ k + 2 ^ n * (y mod 2 ^ (8 - n))"
proof -
  have r: "0 \<le> x div 2 ^ k" "x div 2 ^ k < 2 ^ n"
    using assms(1,2) by (simp_all add: pos_imp_zdiv_nonneg_iff div_pow_less)
  show ?thesis
    using or_push_bit [OF r] mod_mult_pow [OF r assms(3)]
    by (simp only: uint_word_of_int drop_bit_eq_div) simp
qed

lemma byte_or_i32:
  "uint (word_of_int (x OR i32 y) :: byte) = uint (word_of_int (x OR y) :: byte)"
proof -
  have "take_bit 8 (i32 y) = take_bit 8 y"
    unfolding i32_def take_bit_eq_mod
    by (subst mod_diff_left_eq [symmetric], subst mod_mod_cancel) (simp_all add: mod_diff_left_eq)
  then show ?thesis by (simp add: uint_word_of_int flip: take_bit_eq_mod [of 8, simplified])
qed

lemma split_byte: "x div 2 ^ k = x div 2 ^ k mod 256 + 256 * (x div 2 ^ (k + 8))" for x :: int
proof -
  have "x div 2 ^ (k + 8) = x div 2 ^ k div 256"
    by (simp add: power_add zdiv_zmult2_eq)
  then show ?thesis by simp
qed

lemma top_byte: "0 \<le> x \<Longrightarrow> x < 2 ^ (k + 8) \<Longrightarrow> x div 2 ^ k mod 256 = x div 2 ^ k" for x :: int 
  using div_pow_less [of x k 8] by (simp add: pos_imp_zdiv_nonneg_iff)

end
