(* ===== verification/Fe_Base.thy ===== *)
theory Fe_Base
  imports Prelude
begin

text \<open>
  Field elements modulo \<open>2^255 - 19\<close> of \<^verbatim>\<open>crypto-ops.c\<close>: the type \<^verbatim>\<open>fe\<close>
  (\<^verbatim>\<open>int32_t[10]\<close>, alternating 26 and 25 bit limbs), the value it stands for, the
  limb ranges that the comments of the C file state, and the operations without carries
  (\<^verbatim>\<open>fe_0\<close>, \<^verbatim>\<open>fe_1\<close>, \<^verbatim>\<open>fe_add\<close>, \<^verbatim>\<open>fe_sub\<close>, \<^verbatim>\<open>fe_neg\<close>,
  \<^verbatim>\<open>fe_copy\<close>, \<^verbatim>\<open>fe_cmov\<close>).
\<close>

section \<open>The prime, congruence and representation\<close>

definition fe_p :: int where
  "fe_p = 2 ^ 255 - 19"

definition eqp :: "int \<Rightarrow> int \<Rightarrow> bool" where
  "eqp x y \<longleftrightarrow> x mod fe_p = y mod fe_p"

named_theorems eqp_cong \<open>congruence rules for arithmetic modulo the prime\<close>

lemma eqp_refl [simp, eqp_cong]: "eqp x x"
  by (simp add: eqp_def)

lemma eqp_sym: "eqp x y \<Longrightarrow> eqp y x"
  by (simp add: eqp_def)

lemma eqp_trans [trans]: "eqp x y \<Longrightarrow> eqp y z \<Longrightarrow> eqp x z"
  by (simp add: eqp_def)

lemma eqp_add [eqp_cong]: "eqp a b \<Longrightarrow> eqp c d \<Longrightarrow> eqp (a + c) (b + d)"
  unfolding eqp_def by (rule mod_add_cong)

lemma eqp_diff [eqp_cong]: "eqp a b \<Longrightarrow> eqp c d \<Longrightarrow> eqp (a - c) (b - d)"
  unfolding eqp_def by (rule mod_diff_cong)

lemma eqp_mult [eqp_cong]: "eqp a b \<Longrightarrow> eqp c d \<Longrightarrow> eqp (a * c) (b * d)"
  unfolding eqp_def by (rule mod_mult_cong)

lemma eqp_minus [eqp_cong]: "eqp a b \<Longrightarrow> eqp (- a) (- b)"
  unfolding eqp_def by (metis mod_minus_eq)

lemma eqp_power [eqp_cong]: "eqp a b \<Longrightarrow> eqp (a ^ n) (b ^ n)"
  unfolding eqp_def by (metis power_mod)

lemma eqp_iff_dvd: "eqp x y \<longleftrightarrow> fe_p dvd x - y"
  unfolding eqp_def by (rule mod_eq_dvd_iff)

lemma eqp_multiple: "x = y + fe_p * k \<Longrightarrow> eqp x y"
  by (simp add: eqp_def)

lemma eqp_mod [simp]: "eqp (x mod fe_p) y \<longleftrightarrow> eqp x y" "eqp x (y mod fe_p) \<longleftrightarrow> eqp x y"
  by (simp_all add: eqp_def)

lemma fe_p_pos [simp]: "0 < fe_p"
  by (simp add: fe_p_def)

datatype fe = Fe int int int int int int int int int int

fun fe_val :: "fe \<Rightarrow> int" where
  "fe_val (Fe h0 h1 h2 h3 h4 h5 h6 h7 h8 h9) =
     h0 + 2 ^ 26 * h1 + 2 ^ 51 * h2 + 2 ^ 77 * h3 + 2 ^ 102 * h4 + 2 ^ 128 * h5
     + 2 ^ 153 * h6 + 2 ^ 179 * h7 + 2 ^ 204 * h8 + 2 ^ 230 * h9"

text \<open>
  \<open>fe_bd a b h\<close>: the even limbs are bounded by \<open>a\<close> and the odd limbs by \<open>b\<close>. The
  comments of the C file use four such ranges: \<open>1.01 * 2^25\<close> for the results of the
  multiplications, \<open>1.1 * 2^25\<close> and \<open>1.1 * 2^26\<close> around additions, and \<open>1.65 * 2^26\<close> for
  the operands of the multiplications (half of that for the odd limbs).
\<close>

fun fe_bd :: "int \<Rightarrow> int \<Rightarrow> fe \<Rightarrow> bool" where
  "fe_bd a b (Fe h0 h1 h2 h3 h4 h5 h6 h7 h8 h9) \<longleftrightarrow>
     bnd a h0 \<and> bnd b h1 \<and> bnd a h2 \<and> bnd b h3 \<and> bnd a h4 \<and>
     bnd b h5 \<and> bnd a h6 \<and> bnd b h7 \<and> bnd a h8 \<and> bnd b h9"

definition fe_101_25 :: "fe \<Rightarrow> bool" where
  "fe_101_25 = fe_bd 33889976 16944988"

definition fe_11_25 :: "fe \<Rightarrow> bool" where
  "fe_11_25 = fe_bd 36909875 18454937"

definition fe_11_26 :: "fe \<Rightarrow> bool" where
  "fe_11_26 = fe_bd 73819750 36909875"

definition fe_165_26 :: "fe \<Rightarrow> bool" where
  "fe_165_26 = fe_bd 110729625 55364812"

lemmas fe_ranges = fe_101_25_def fe_11_25_def fe_11_26_def fe_165_26_def

lemma fe_bd_mono: "fe_bd a b h \<Longrightarrow> a \<le> a' \<Longrightarrow> b \<le> b' \<Longrightarrow> fe_bd a' b' h"
  by (cases h) (auto intro: bnd_mono)

lemma fe_101_25_le: "fe_101_25 h \<Longrightarrow> fe_11_25 h" "fe_101_25 h \<Longrightarrow> fe_165_26 h"
  "fe_101_25 h \<Longrightarrow> fe_11_26 h"
  unfolding fe_ranges by (erule fe_bd_mono; simp)+

lemma fe_11_26_le: "fe_11_26 h \<Longrightarrow> fe_165_26 h"
  unfolding fe_ranges by (erule fe_bd_mono; simp)

lemma fe_11_25_le: "fe_11_25 h \<Longrightarrow> fe_165_26 h" "fe_11_25 h \<Longrightarrow> fe_11_26 h"
  unfolding fe_ranges by (erule fe_bd_mono; simp)+

section \<open>Constants, copies and conditional moves\<close>

definition fe_0 :: fe where
  "fe_0 = Fe 0 0 0 0 0 0 0 0 0 0"

definition fe_1 :: fe where
  "fe_1 = Fe 1 0 0 0 0 0 0 0 0 0"

definition fe_copy :: "fe \<Rightarrow> fe" where
  "fe_copy f = (case f of Fe f0 f1 f2 f3 f4 f5 f6 f7 f8 f9 \<Rightarrow> Fe f0 f1 f2 f3 f4 f5 f6 f7 f8 f9)"

text \<open>
  \<^verbatim>\<open>fe_cmov\<close> masks the difference with \<^verbatim>\<open>-b\<close>, an \<^verbatim>\<open>unsigned int\<close>; its assertion is
  \<open>fe_cmov_assert\<close>, which every caller of the development satisfies.
\<close>

definition fe_cmov_assert :: "int \<Rightarrow> bool" where
  "fe_cmov_assert b \<longleftrightarrow>
     ((((b - 1) AND NOT b) OR ((b - 2) AND NOT (b - 1))) mod 2 ^ 32 = (- 1) mod 2 ^ 32)"

definition fe_cmov :: "fe \<Rightarrow> fe \<Rightarrow> int \<Rightarrow> fe" where
  "fe_cmov f g b =
    (case f of Fe f0 f1 f2 f3 f4 f5 f6 f7 f8 f9 \<Rightarrow>
     case g of Fe g0 g1 g2 g3 g4 g5 g6 g7 g8 g9 \<Rightarrow>
     let x0 = i32 (f0 XOR g0);
       x1 = i32 (f1 XOR g1);
       x2 = i32 (f2 XOR g2);
       x3 = i32 (f3 XOR g3);
       x4 = i32 (f4 XOR g4);
       x5 = i32 (f5 XOR g5);
       x6 = i32 (f6 XOR g6);
       x7 = i32 (f7 XOR g7);
       x8 = i32 (f8 XOR g8);
       x9 = i32 (f9 XOR g9);
       b' = (- b) mod 2 ^ 32;
       y0 = i32 (x0 mod 2 ^ 32 AND b');
       y1 = i32 (x1 mod 2 ^ 32 AND b');
       y2 = i32 (x2 mod 2 ^ 32 AND b');
       y3 = i32 (x3 mod 2 ^ 32 AND b');
       y4 = i32 (x4 mod 2 ^ 32 AND b');
       y5 = i32 (x5 mod 2 ^ 32 AND b');
       y6 = i32 (x6 mod 2 ^ 32 AND b');
       y7 = i32 (x7 mod 2 ^ 32 AND b');
       y8 = i32 (x8 mod 2 ^ 32 AND b');
       y9 = i32 (x9 mod 2 ^ 32 AND b')
     in Fe (i32 (f0 XOR y0)) (i32 (f1 XOR y1)) (i32 (f2 XOR y2)) (i32 (f3 XOR y3)) (i32 (f4 XOR y4))
           (i32 (f5 XOR y5)) (i32 (f6 XOR y6)) (i32 (f7 XOR y7)) (i32 (f8 XOR y8)) (i32 (f9 XOR y9)))"

section \<open>Addition, subtraction, negation\<close>

definition fe_add :: "fe \<Rightarrow> fe \<Rightarrow> fe" where
  "fe_add f g =
    (case f of Fe f0 f1 f2 f3 f4 f5 f6 f7 f8 f9 \<Rightarrow>
     case g of Fe g0 g1 g2 g3 g4 g5 g6 g7 g8 g9 \<Rightarrow>
     let h0 = i32 (f0 + g0);
       h1 = i32 (f1 + g1);
       h2 = i32 (f2 + g2);
       h3 = i32 (f3 + g3);
       h4 = i32 (f4 + g4);
       h5 = i32 (f5 + g5);
       h6 = i32 (f6 + g6);
       h7 = i32 (f7 + g7);
       h8 = i32 (f8 + g8);
       h9 = i32 (f9 + g9)
     in Fe h0 h1 h2 h3 h4 h5 h6 h7 h8 h9)"
definition fe_sub :: "fe \<Rightarrow> fe \<Rightarrow> fe" where
  "fe_sub f g =
    (case f of Fe f0 f1 f2 f3 f4 f5 f6 f7 f8 f9 \<Rightarrow>
     case g of Fe g0 g1 g2 g3 g4 g5 g6 g7 g8 g9 \<Rightarrow>
     let h0 = i32 (f0 - g0);
       h1 = i32 (f1 - g1);
       h2 = i32 (f2 - g2);
       h3 = i32 (f3 - g3);
       h4 = i32 (f4 - g4);
       h5 = i32 (f5 - g5);
       h6 = i32 (f6 - g6);
       h7 = i32 (f7 - g7);
       h8 = i32 (f8 - g8);
       h9 = i32 (f9 - g9)
     in Fe h0 h1 h2 h3 h4 h5 h6 h7 h8 h9)"
definition fe_neg :: "fe \<Rightarrow> fe" where
  "fe_neg f =
    (case f of Fe f0 f1 f2 f3 f4 f5 f6 f7 f8 f9 \<Rightarrow>
     let h0 = i32 (-f0);
       h1 = i32 (-f1);
       h2 = i32 (-f2);
       h3 = i32 (-f3);
       h4 = i32 (-f4);
       h5 = i32 (-f5);
       h6 = i32 (-f6);
       h7 = i32 (-f7);
       h8 = i32 (-f8);
       h9 = i32 (-f9)
     in Fe h0 h1 h2 h3 h4 h5 h6 h7 h8 h9)"
section \<open>Their values and ranges\<close>

lemma fe_val_0 [simp]: "fe_val fe_0 = 0" and fe_val_1 [simp]: "fe_val fe_1 = 1"
  by (simp_all add: fe_0_def fe_1_def)

lemma fe_101_25_0 [simp]: "fe_101_25 fe_0" and fe_101_25_1 [simp]: "fe_101_25 fe_1"
  by (simp_all add: fe_ranges fe_0_def fe_1_def bnd_def)

lemma fe_copy_eq [simp]: "fe_copy f = f"
  by (cases f) (simp add: fe_copy_def)

lemma fe_add_limbs:
  assumes "fe_bd a b (Fe f0 f1 f2 f3 f4 f5 f6 f7 f8 f9)" "fe_bd c d (Fe g0 g1 g2 g3 g4 g5 g6 g7 g8 g9)" "a + c < 2 ^ 31" "b + d < 2 ^ 31"
  shows "fe_add (Fe f0 f1 f2 f3 f4 f5 f6 f7 f8 f9) (Fe g0 g1 g2 g3 g4 g5 g6 g7 g8 g9) = Fe (f0 + g0) (f1 + g1) (f2 + g2) (f3 + g3) (f4 + g4) (f5 + g5) (f6 + g6) (f7 + g7) (f8 + g8) (f9 + g9)"
proof -
  have i: "i32 (x + y) = x + y" if "bnd a x \<and> bnd c y \<or> bnd b x \<and> bnd d y" for x y
    using that assms(3,4) i32_bnd [OF bnd_add, of a x c y] i32_bnd [OF bnd_add, of b x d y]
    by auto
  show ?thesis
    using assms(1,2) unfolding fe_add_def fe.case Let_def by (simp add: i)
qed

lemma fe_sub_limbs:
  assumes "fe_bd a b (Fe f0 f1 f2 f3 f4 f5 f6 f7 f8 f9)" "fe_bd c d (Fe g0 g1 g2 g3 g4 g5 g6 g7 g8 g9)" "a + c < 2 ^ 31" "b + d < 2 ^ 31"
  shows "fe_sub (Fe f0 f1 f2 f3 f4 f5 f6 f7 f8 f9) (Fe g0 g1 g2 g3 g4 g5 g6 g7 g8 g9) = Fe (f0 - g0) (f1 - g1) (f2 - g2) (f3 - g3) (f4 - g4) (f5 - g5) (f6 - g6) (f7 - g7) (f8 - g8) (f9 - g9)"
proof -
  have i: "i32 (x - y) = x - y" if "bnd a x \<and> bnd c y \<or> bnd b x \<and> bnd d y" for x y
    using that assms(3,4) i32_bnd [OF bnd_diff, of a x c y] i32_bnd [OF bnd_diff, of b x d y]
    by auto
  show ?thesis
    using assms(1,2) unfolding fe_sub_def fe.case Let_def by (simp add: i)
qed

lemma fe_neg_limbs:
  assumes "fe_bd a b (Fe f0 f1 f2 f3 f4 f5 f6 f7 f8 f9)" "a < 2 ^ 31" "b < 2 ^ 31"
  shows "fe_neg (Fe f0 f1 f2 f3 f4 f5 f6 f7 f8 f9) = Fe (- f0) (- f1) (- f2) (- f3) (- f4) (- f5) (- f6) (- f7) (- f8) (- f9)"
proof -
  have i: "i32 (- x) = - x" if "bnd a x \<or> bnd b x" for x
    using that assms(2,3) i32_bnd [of a "- x"] i32_bnd [of b "- x"] by auto
  show ?thesis
    using assms(1) unfolding fe_neg_def fe.case Let_def by (simp add: i)
qed

lemma fe_add_gen:
  assumes "fe_bd a b f" "fe_bd c d g" "a + c < 2 ^ 31" "b + d < 2 ^ 31"
  shows "fe_val (fe_add f g) = fe_val f + fe_val g" and "fe_bd (a + c) (b + d) (fe_add f g)"
proof -
  obtain f0 f1 f2 f3 f4 f5 f6 f7 f8 f9 where f: "f = Fe f0 f1 f2 f3 f4 f5 f6 f7 f8 f9"
    by (cases f)
  obtain g0 g1 g2 g3 g4 g5 g6 g7 g8 g9 where g: "g = Fe g0 g1 g2 g3 g4 g5 g6 g7 g8 g9"
    by (cases g)
  note l = fe_add_limbs [OF assms [unfolded f g]]
  show "fe_val (fe_add f g) = fe_val f + fe_val g"
    unfolding f g l by simp
  show "fe_bd (a + c) (b + d) (fe_add f g)"
    using assms(1,2) unfolding f g l by (simp add: bnd_add)
qed

lemma fe_sub_gen:
  assumes "fe_bd a b f" "fe_bd c d g" "a + c < 2 ^ 31" "b + d < 2 ^ 31"
  shows "fe_val (fe_sub f g) = fe_val f - fe_val g" and "fe_bd (a + c) (b + d) (fe_sub f g)"
proof -
  obtain f0 f1 f2 f3 f4 f5 f6 f7 f8 f9 where f: "f = Fe f0 f1 f2 f3 f4 f5 f6 f7 f8 f9"
    by (cases f)
  obtain g0 g1 g2 g3 g4 g5 g6 g7 g8 g9 where g: "g = Fe g0 g1 g2 g3 g4 g5 g6 g7 g8 g9"
    by (cases g)
  note l = fe_sub_limbs [OF assms [unfolded f g]]
  show "fe_val (fe_sub f g) = fe_val f - fe_val g"
    unfolding f g l by simp
  show "fe_bd (a + c) (b + d) (fe_sub f g)"
    using assms(1,2) unfolding f g l by (simp add: bnd_diff)
qed

lemma fe_neg_gen:
  assumes "fe_bd a b f" "a < 2 ^ 31" "b < 2 ^ 31"
  shows "fe_val (fe_neg f) = - fe_val f" and "fe_bd a b (fe_neg f)"
proof -
  obtain f0 f1 f2 f3 f4 f5 f6 f7 f8 f9 where f: "f = Fe f0 f1 f2 f3 f4 f5 f6 f7 f8 f9"
    by (cases f)
  note l = fe_neg_limbs [OF assms [unfolded f]]
  show "fe_val (fe_neg f) = - fe_val f"
    unfolding f l by simp
  show "fe_bd a b (fe_neg f)"
    using assms(1) unfolding f l by simp
qed

lemma fe_add_11:
  assumes "fe_11_25 f" "fe_11_25 g"
  shows "fe_val (fe_add f g) = fe_val f + fe_val g" and "fe_11_26 (fe_add f g)"
proof -
  note r = assms [unfolded fe_ranges]
  show "fe_val (fe_add f g) = fe_val f + fe_val g"
    using fe_add_gen(1) [OF r] by simp
  show "fe_11_26 (fe_add f g)"
    unfolding fe_ranges by (rule fe_bd_mono [OF fe_add_gen(2) [OF r]]) simp_all
qed

lemma fe_sub_11:
  assumes "fe_11_25 f" "fe_11_25 g"
  shows "fe_val (fe_sub f g) = fe_val f - fe_val g" and "fe_11_26 (fe_sub f g)"
proof -
  note r = assms [unfolded fe_ranges]
  show "fe_val (fe_sub f g) = fe_val f - fe_val g"
    using fe_sub_gen(1) [OF r] by simp
  show "fe_11_26 (fe_sub f g)"
    unfolding fe_ranges by (rule fe_bd_mono [OF fe_sub_gen(2) [OF r]]) simp_all
qed

lemma fe_neg_11:
  assumes "fe_11_25 f"
  shows "fe_val (fe_neg f) = - fe_val f" and "fe_11_25 (fe_neg f)"
  using fe_neg_gen [OF assms [unfolded fe_ranges]] by (simp_all add: fe_ranges)

lemma i32_signed: "i32 x = signed_take_bit 31 x"
  unfolding i32_def signed_take_bit_eq_take_bit_shift by (simp add: take_bit_eq_mod)

lemma i32_i32 [simp]: "i32 (i32 x) = i32 x"
  by (simp add: i32_signed)

lemma i32_xor: "i32 (i32 x XOR i32 y) = i32 x XOR i32 y"
  unfolding i32_signed by (rule bit_eqI) (simp add: bit_simps)

lemma i32_mod: "i32 (x mod 2 ^ 32) = i32 x"
  by (simp add: i32_def mod_add_left_eq)

text \<open>One limb of the conditional move.\<close>

definition cmov_limb :: "int \<Rightarrow> int \<Rightarrow> int \<Rightarrow> int" where
  "cmov_limb f g b = i32 (f XOR i32 (i32 (f XOR g) mod 2 ^ 32 AND (- b) mod 2 ^ 32))"

lemma cmov_limb_0: "i32 f = f \<Longrightarrow> cmov_limb f g 0 = f"
  by (simp add: cmov_limb_def i32_def [of 0])

lemma cmov_limb_1:
  assumes "i32 f = f" "i32 g = g"
  shows "cmov_limb f g 1 = g"
proof -
  have m: "(x mod 2 ^ 32) AND ((- 1) mod 2 ^ 32) = x mod 2 ^ 32" for x :: int
    by (metis take_bit_and take_bit_eq_mod and.right_neutral)
  have x: "i32 (f XOR g) = f XOR g"
    using i32_xor [of f g] by (simp add: assms)
  show ?thesis
    unfolding cmov_limb_def m i32_mod i32_i32 x by (simp add: assms flip: xor.assoc)
qed

fun fe_int32 :: "fe \<Rightarrow> bool" where
  "fe_int32 (Fe h0 h1 h2 h3 h4 h5 h6 h7 h8 h9) \<longleftrightarrow>
     i32 h0 = h0 \<and> i32 h1 = h1 \<and> i32 h2 = h2 \<and> i32 h3 = h3 \<and> i32 h4 = h4 \<and>
     i32 h5 = h5 \<and> i32 h6 = h6 \<and> i32 h7 = h7 \<and> i32 h8 = h8 \<and> i32 h9 = h9"

lemma fe_bd_int32: "fe_bd a b h \<Longrightarrow> a < 2 ^ 31 \<Longrightarrow> b < 2 ^ 31 \<Longrightarrow> fe_int32 h"
  by (cases h) (auto simp: i32_bnd)

lemma fe_cmov_limbs:
  "fe_cmov (Fe f0 f1 f2 f3 f4 f5 f6 f7 f8 f9) (Fe g0 g1 g2 g3 g4 g5 g6 g7 g8 g9) b = Fe (cmov_limb f0 g0 b) (cmov_limb f1 g1 b) (cmov_limb f2 g2 b) (cmov_limb f3 g3 b) (cmov_limb f4 g4 b) (cmov_limb f5 g5 b) (cmov_limb f6 g6 b) (cmov_limb f7 g7 b) (cmov_limb f8 g8 b) (cmov_limb f9 g9 b)"
  by (simp only: fe_cmov_def fe.case Let_def cmov_limb_def)

lemma fe_cmov_0: "fe_int32 f \<Longrightarrow> fe_cmov f g 0 = f"
  by (cases f; cases g) (simp add: fe_cmov_limbs cmov_limb_0)

lemma fe_cmov_1: "fe_int32 f \<Longrightarrow> fe_int32 g \<Longrightarrow> fe_cmov f g 1 = g"
  by (cases f; cases g) (simp add: fe_cmov_limbs cmov_limb_1)

lemma fe_cmov_assert_iff: "0 \<le> b \<Longrightarrow> b \<le> 1 \<Longrightarrow> fe_cmov_assert b"
  by (cases "b = 0") (simp_all add: fe_cmov_assert_def, cases "b = 1", simp_all)

end
