(* ===== verification/Fe_Mul.thy ===== *)
theory Fe_Mul
  imports Fe_Base
begin

text \<open>
  Multiplication and squaring of field elements (\<^verbatim>\<open>fe_mul\<close>, \<^verbatim>\<open>fe_sq\<close>,
  \<^verbatim>\<open>fe_sq2\<close>). Each C function is a schoolbook product on \<^verbatim>\<open>int64_t\<close> locals, with
  some factors precomputed in \<^verbatim>\<open>int32_t\<close>, followed by the same chain of twelve carries.
  The products are \<open>fe_mul_h\<close>, \<open>fe_sq_h\<close> and \<open>fe_sq2_h\<close>, the chain is \<open>fe_carry\<close>. The
  reference is \<open>fe_conv\<close>, the ten product sums over the integers: under the ranges that the
  comments state, no conversion of the products changes a value, and the carries keep the
  value modulo the prime and establish the stated range of the result.
\<close>

section \<open>The schoolbook products\<close>

definition fe_mul_h :: "fe \<Rightarrow> fe \<Rightarrow> fe" where
  "fe_mul_h f g =
    (case f of Fe f0 f1 f2 f3 f4 f5 f6 f7 f8 f9 \<Rightarrow>
     case g of Fe g0 g1 g2 g3 g4 g5 g6 g7 g8 g9 \<Rightarrow>
     let g1_19 = i32 (19 * g1);
       g2_19 = i32 (19 * g2);
       g3_19 = i32 (19 * g3);
       g4_19 = i32 (19 * g4);
       g5_19 = i32 (19 * g5);
       g6_19 = i32 (19 * g6);
       g7_19 = i32 (19 * g7);
       g8_19 = i32 (19 * g8);
       g9_19 = i32 (19 * g9);
       f1_2 = i32 (2 * f1);
       f3_2 = i32 (2 * f3);
       f5_2 = i32 (2 * f5);
       f7_2 = i32 (2 * f7);
       f9_2 = i32 (2 * f9);
       f0g0 = i64 (f0 * g0);
       f0g1 = i64 (f0 * g1);
       f0g2 = i64 (f0 * g2);
       f0g3 = i64 (f0 * g3);
       f0g4 = i64 (f0 * g4);
       f0g5 = i64 (f0 * g5);
       f0g6 = i64 (f0 * g6);
       f0g7 = i64 (f0 * g7);
       f0g8 = i64 (f0 * g8);
       f0g9 = i64 (f0 * g9);
       f1g0 = i64 (f1 * g0);
       f1g1_2 = i64 (f1_2 * g1);
       f1g2 = i64 (f1 * g2);
       f1g3_2 = i64 (f1_2 * g3);
       f1g4 = i64 (f1 * g4);
       f1g5_2 = i64 (f1_2 * g5);
       f1g6 = i64 (f1 * g6);
       f1g7_2 = i64 (f1_2 * g7);
       f1g8 = i64 (f1 * g8);
       f1g9_38 = i64 (f1_2 * g9_19);
       f2g0 = i64 (f2 * g0);
       f2g1 = i64 (f2 * g1);
       f2g2 = i64 (f2 * g2);
       f2g3 = i64 (f2 * g3);
       f2g4 = i64 (f2 * g4);
       f2g5 = i64 (f2 * g5);
       f2g6 = i64 (f2 * g6);
       f2g7 = i64 (f2 * g7);
       f2g8_19 = i64 (f2 * g8_19);
       f2g9_19 = i64 (f2 * g9_19);
       f3g0 = i64 (f3 * g0);
       f3g1_2 = i64 (f3_2 * g1);
       f3g2 = i64 (f3 * g2);
       f3g3_2 = i64 (f3_2 * g3);
       f3g4 = i64 (f3 * g4);
       f3g5_2 = i64 (f3_2 * g5);
       f3g6 = i64 (f3 * g6);
       f3g7_38 = i64 (f3_2 * g7_19);
       f3g8_19 = i64 (f3 * g8_19);
       f3g9_38 = i64 (f3_2 * g9_19);
       f4g0 = i64 (f4 * g0);
       f4g1 = i64 (f4 * g1);
       f4g2 = i64 (f4 * g2);
       f4g3 = i64 (f4 * g3);
       f4g4 = i64 (f4 * g4);
       f4g5 = i64 (f4 * g5);
       f4g6_19 = i64 (f4 * g6_19);
       f4g7_19 = i64 (f4 * g7_19);
       f4g8_19 = i64 (f4 * g8_19);
       f4g9_19 = i64 (f4 * g9_19);
       f5g0 = i64 (f5 * g0);
       f5g1_2 = i64 (f5_2 * g1);
       f5g2 = i64 (f5 * g2);
       f5g3_2 = i64 (f5_2 * g3);
       f5g4 = i64 (f5 * g4);
       f5g5_38 = i64 (f5_2 * g5_19);
       f5g6_19 = i64 (f5 * g6_19);
       f5g7_38 = i64 (f5_2 * g7_19);
       f5g8_19 = i64 (f5 * g8_19);
       f5g9_38 = i64 (f5_2 * g9_19);
       f6g0 = i64 (f6 * g0);
       f6g1 = i64 (f6 * g1);
       f6g2 = i64 (f6 * g2);
       f6g3 = i64 (f6 * g3);
       f6g4_19 = i64 (f6 * g4_19);
       f6g5_19 = i64 (f6 * g5_19);
       f6g6_19 = i64 (f6 * g6_19);
       f6g7_19 = i64 (f6 * g7_19);
       f6g8_19 = i64 (f6 * g8_19);
       f6g9_19 = i64 (f6 * g9_19);
       f7g0 = i64 (f7 * g0);
       f7g1_2 = i64 (f7_2 * g1);
       f7g2 = i64 (f7 * g2);
       f7g3_38 = i64 (f7_2 * g3_19);
       f7g4_19 = i64 (f7 * g4_19);
       f7g5_38 = i64 (f7_2 * g5_19);
       f7g6_19 = i64 (f7 * g6_19);
       f7g7_38 = i64 (f7_2 * g7_19);
       f7g8_19 = i64 (f7 * g8_19);
       f7g9_38 = i64 (f7_2 * g9_19);
       f8g0 = i64 (f8 * g0);
       f8g1 = i64 (f8 * g1);
       f8g2_19 = i64 (f8 * g2_19);
       f8g3_19 = i64 (f8 * g3_19);
       f8g4_19 = i64 (f8 * g4_19);
       f8g5_19 = i64 (f8 * g5_19);
       f8g6_19 = i64 (f8 * g6_19);
       f8g7_19 = i64 (f8 * g7_19);
       f8g8_19 = i64 (f8 * g8_19);
       f8g9_19 = i64 (f8 * g9_19);
       f9g0 = i64 (f9 * g0);
       f9g1_38 = i64 (f9_2 * g1_19);
       f9g2_19 = i64 (f9 * g2_19);
       f9g3_38 = i64 (f9_2 * g3_19);
       f9g4_19 = i64 (f9 * g4_19);
       f9g5_38 = i64 (f9_2 * g5_19);
       f9g6_19 = i64 (f9 * g6_19);
       f9g7_38 = i64 (f9_2 * g7_19);
       f9g8_19 = i64 (f9 * g8_19);
       f9g9_38 = i64 (f9_2 * g9_19);
       h0 = i64 (f0g0 + f1g9_38 + f2g8_19 + f3g7_38 + f4g6_19 + f5g5_38 + f6g4_19 + f7g3_38 + f8g2_19 + f9g1_38);
       h1 = i64 (f0g1 + f1g0 + f2g9_19 + f3g8_19 + f4g7_19 + f5g6_19 + f6g5_19 + f7g4_19 + f8g3_19 + f9g2_19);
       h2 = i64 (f0g2 + f1g1_2 + f2g0 + f3g9_38 + f4g8_19 + f5g7_38 + f6g6_19 + f7g5_38 + f8g4_19 + f9g3_38);
       h3 = i64 (f0g3 + f1g2 + f2g1 + f3g0 + f4g9_19 + f5g8_19 + f6g7_19 + f7g6_19 + f8g5_19 + f9g4_19);
       h4 = i64 (f0g4 + f1g3_2 + f2g2 + f3g1_2 + f4g0 + f5g9_38 + f6g8_19 + f7g7_38 + f8g6_19 + f9g5_38);
       h5 = i64 (f0g5 + f1g4 + f2g3 + f3g2 + f4g1 + f5g0 + f6g9_19 + f7g8_19 + f8g7_19 + f9g6_19);
       h6 = i64 (f0g6 + f1g5_2 + f2g4 + f3g3_2 + f4g2 + f5g1_2 + f6g0 + f7g9_38 + f8g8_19 + f9g7_38);
       h7 = i64 (f0g7 + f1g6 + f2g5 + f3g4 + f4g3 + f5g2 + f6g1 + f7g0 + f8g9_19 + f9g8_19);
       h8 = i64 (f0g8 + f1g7_2 + f2g6 + f3g5_2 + f4g4 + f5g3_2 + f6g2 + f7g1_2 + f8g0 + f9g9_38);
       h9 = i64 (f0g9 + f1g8 + f2g7 + f3g6 + f4g5 + f5g4 + f6g3 + f7g2 + f8g1 + f9g0)
     in Fe h0 h1 h2 h3 h4 h5 h6 h7 h8 h9)"
definition fe_sq_h :: "fe \<Rightarrow> fe" where
  "fe_sq_h f =
    (case f of Fe f0 f1 f2 f3 f4 f5 f6 f7 f8 f9 \<Rightarrow>
     let f0_2 = i32 (2 * f0);
       f1_2 = i32 (2 * f1);
       f2_2 = i32 (2 * f2);
       f3_2 = i32 (2 * f3);
       f4_2 = i32 (2 * f4);
       f5_2 = i32 (2 * f5);
       f6_2 = i32 (2 * f6);
       f7_2 = i32 (2 * f7);
       f5_38 = i32 (38 * f5);
       f6_19 = i32 (19 * f6);
       f7_38 = i32 (38 * f7);
       f8_19 = i32 (19 * f8);
       f9_38 = i32 (38 * f9);
       f0f0 = i64 (f0 * f0);
       f0f1_2 = i64 (f0_2 * f1);
       f0f2_2 = i64 (f0_2 * f2);
       f0f3_2 = i64 (f0_2 * f3);
       f0f4_2 = i64 (f0_2 * f4);
       f0f5_2 = i64 (f0_2 * f5);
       f0f6_2 = i64 (f0_2 * f6);
       f0f7_2 = i64 (f0_2 * f7);
       f0f8_2 = i64 (f0_2 * f8);
       f0f9_2 = i64 (f0_2 * f9);
       f1f1_2 = i64 (f1_2 * f1);
       f1f2_2 = i64 (f1_2 * f2);
       f1f3_4 = i64 (f1_2 * f3_2);
       f1f4_2 = i64 (f1_2 * f4);
       f1f5_4 = i64 (f1_2 * f5_2);
       f1f6_2 = i64 (f1_2 * f6);
       f1f7_4 = i64 (f1_2 * f7_2);
       f1f8_2 = i64 (f1_2 * f8);
       f1f9_76 = i64 (f1_2 * f9_38);
       f2f2 = i64 (f2 * f2);
       f2f3_2 = i64 (f2_2 * f3);
       f2f4_2 = i64 (f2_2 * f4);
       f2f5_2 = i64 (f2_2 * f5);
       f2f6_2 = i64 (f2_2 * f6);
       f2f7_2 = i64 (f2_2 * f7);
       f2f8_38 = i64 (f2_2 * f8_19);
       f2f9_38 = i64 (f2 * f9_38);
       f3f3_2 = i64 (f3_2 * f3);
       f3f4_2 = i64 (f3_2 * f4);
       f3f5_4 = i64 (f3_2 * f5_2);
       f3f6_2 = i64 (f3_2 * f6);
       f3f7_76 = i64 (f3_2 * f7_38);
       f3f8_38 = i64 (f3_2 * f8_19);
       f3f9_76 = i64 (f3_2 * f9_38);
       f4f4 = i64 (f4 * f4);
       f4f5_2 = i64 (f4_2 * f5);
       f4f6_38 = i64 (f4_2 * f6_19);
       f4f7_38 = i64 (f4 * f7_38);
       f4f8_38 = i64 (f4_2 * f8_19);
       f4f9_38 = i64 (f4 * f9_38);
       f5f5_38 = i64 (f5 * f5_38);
       f5f6_38 = i64 (f5_2 * f6_19);
       f5f7_76 = i64 (f5_2 * f7_38);
       f5f8_38 = i64 (f5_2 * f8_19);
       f5f9_76 = i64 (f5_2 * f9_38);
       f6f6_19 = i64 (f6 * f6_19);
       f6f7_38 = i64 (f6 * f7_38);
       f6f8_38 = i64 (f6_2 * f8_19);
       f6f9_38 = i64 (f6 * f9_38);
       f7f7_38 = i64 (f7 * f7_38);
       f7f8_38 = i64 (f7_2 * f8_19);
       f7f9_76 = i64 (f7_2 * f9_38);
       f8f8_19 = i64 (f8 * f8_19);
       f8f9_38 = i64 (f8 * f9_38);
       f9f9_38 = i64 (f9 * f9_38);
       h0 = i64 (f0f0 + f1f9_76 + f2f8_38 + f3f7_76 + f4f6_38 + f5f5_38);
       h1 = i64 (f0f1_2 + f2f9_38 + f3f8_38 + f4f7_38 + f5f6_38);
       h2 = i64 (f0f2_2 + f1f1_2 + f3f9_76 + f4f8_38 + f5f7_76 + f6f6_19);
       h3 = i64 (f0f3_2 + f1f2_2 + f4f9_38 + f5f8_38 + f6f7_38);
       h4 = i64 (f0f4_2 + f1f3_4 + f2f2 + f5f9_76 + f6f8_38 + f7f7_38);
       h5 = i64 (f0f5_2 + f1f4_2 + f2f3_2 + f6f9_38 + f7f8_38);
       h6 = i64 (f0f6_2 + f1f5_4 + f2f4_2 + f3f3_2 + f7f9_76 + f8f8_19);
       h7 = i64 (f0f7_2 + f1f6_2 + f2f5_2 + f3f4_2 + f8f9_38);
       h8 = i64 (f0f8_2 + f1f7_4 + f2f6_2 + f3f5_4 + f4f4 + f9f9_38);
       h9 = i64 (f0f9_2 + f1f8_2 + f2f7_2 + f3f6_2 + f4f5_2)
     in Fe h0 h1 h2 h3 h4 h5 h6 h7 h8 h9)"
definition fe_sq2_h :: "fe \<Rightarrow> fe" where
  "fe_sq2_h f =
    (case f of Fe f0 f1 f2 f3 f4 f5 f6 f7 f8 f9 \<Rightarrow>
     let f0_2 = i32 (2 * f0);
       f1_2 = i32 (2 * f1);
       f2_2 = i32 (2 * f2);
       f3_2 = i32 (2 * f3);
       f4_2 = i32 (2 * f4);
       f5_2 = i32 (2 * f5);
       f6_2 = i32 (2 * f6);
       f7_2 = i32 (2 * f7);
       f5_38 = i32 (38 * f5);
       f6_19 = i32 (19 * f6);
       f7_38 = i32 (38 * f7);
       f8_19 = i32 (19 * f8);
       f9_38 = i32 (38 * f9);
       f0f0 = i64 (f0 * f0);
       f0f1_2 = i64 (f0_2 * f1);
       f0f2_2 = i64 (f0_2 * f2);
       f0f3_2 = i64 (f0_2 * f3);
       f0f4_2 = i64 (f0_2 * f4);
       f0f5_2 = i64 (f0_2 * f5);
       f0f6_2 = i64 (f0_2 * f6);
       f0f7_2 = i64 (f0_2 * f7);
       f0f8_2 = i64 (f0_2 * f8);
       f0f9_2 = i64 (f0_2 * f9);
       f1f1_2 = i64 (f1_2 * f1);
       f1f2_2 = i64 (f1_2 * f2);
       f1f3_4 = i64 (f1_2 * f3_2);
       f1f4_2 = i64 (f1_2 * f4);
       f1f5_4 = i64 (f1_2 * f5_2);
       f1f6_2 = i64 (f1_2 * f6);
       f1f7_4 = i64 (f1_2 * f7_2);
       f1f8_2 = i64 (f1_2 * f8);
       f1f9_76 = i64 (f1_2 * f9_38);
       f2f2 = i64 (f2 * f2);
       f2f3_2 = i64 (f2_2 * f3);
       f2f4_2 = i64 (f2_2 * f4);
       f2f5_2 = i64 (f2_2 * f5);
       f2f6_2 = i64 (f2_2 * f6);
       f2f7_2 = i64 (f2_2 * f7);
       f2f8_38 = i64 (f2_2 * f8_19);
       f2f9_38 = i64 (f2 * f9_38);
       f3f3_2 = i64 (f3_2 * f3);
       f3f4_2 = i64 (f3_2 * f4);
       f3f5_4 = i64 (f3_2 * f5_2);
       f3f6_2 = i64 (f3_2 * f6);
       f3f7_76 = i64 (f3_2 * f7_38);
       f3f8_38 = i64 (f3_2 * f8_19);
       f3f9_76 = i64 (f3_2 * f9_38);
       f4f4 = i64 (f4 * f4);
       f4f5_2 = i64 (f4_2 * f5);
       f4f6_38 = i64 (f4_2 * f6_19);
       f4f7_38 = i64 (f4 * f7_38);
       f4f8_38 = i64 (f4_2 * f8_19);
       f4f9_38 = i64 (f4 * f9_38);
       f5f5_38 = i64 (f5 * f5_38);
       f5f6_38 = i64 (f5_2 * f6_19);
       f5f7_76 = i64 (f5_2 * f7_38);
       f5f8_38 = i64 (f5_2 * f8_19);
       f5f9_76 = i64 (f5_2 * f9_38);
       f6f6_19 = i64 (f6 * f6_19);
       f6f7_38 = i64 (f6 * f7_38);
       f6f8_38 = i64 (f6_2 * f8_19);
       f6f9_38 = i64 (f6 * f9_38);
       f7f7_38 = i64 (f7 * f7_38);
       f7f8_38 = i64 (f7_2 * f8_19);
       f7f9_76 = i64 (f7_2 * f9_38);
       f8f8_19 = i64 (f8 * f8_19);
       f8f9_38 = i64 (f8 * f9_38);
       f9f9_38 = i64 (f9 * f9_38);
       h0 = i64 (f0f0 + f1f9_76 + f2f8_38 + f3f7_76 + f4f6_38 + f5f5_38);
       h1 = i64 (f0f1_2 + f2f9_38 + f3f8_38 + f4f7_38 + f5f6_38);
       h2 = i64 (f0f2_2 + f1f1_2 + f3f9_76 + f4f8_38 + f5f7_76 + f6f6_19);
       h3 = i64 (f0f3_2 + f1f2_2 + f4f9_38 + f5f8_38 + f6f7_38);
       h4 = i64 (f0f4_2 + f1f3_4 + f2f2 + f5f9_76 + f6f8_38 + f7f7_38);
       h5 = i64 (f0f5_2 + f1f4_2 + f2f3_2 + f6f9_38 + f7f8_38);
       h6 = i64 (f0f6_2 + f1f5_4 + f2f4_2 + f3f3_2 + f7f9_76 + f8f8_19);
       h7 = i64 (f0f7_2 + f1f6_2 + f2f5_2 + f3f4_2 + f8f9_38);
       h8 = i64 (f0f8_2 + f1f7_4 + f2f6_2 + f3f5_4 + f4f4 + f9f9_38);
       h9 = i64 (f0f9_2 + f1f8_2 + f2f7_2 + f3f6_2 + f4f5_2);
       h0 = i64 (h0 + h0);
       h1 = i64 (h1 + h1);
       h2 = i64 (h2 + h2);
       h3 = i64 (h3 + h3);
       h4 = i64 (h4 + h4);
       h5 = i64 (h5 + h5);
       h6 = i64 (h6 + h6);
       h7 = i64 (h7 + h7);
       h8 = i64 (h8 + h8);
       h9 = i64 (h9 + h9)
     in Fe h0 h1 h2 h3 h4 h5 h6 h7 h8 h9)"

section \<open>The carry chain\<close>

text \<open>The ten \<^verbatim>\<open>int64_t\<close> locals are given as an \<open>fe\<close> value.\<close>

definition fe_carry :: "fe \<Rightarrow> fe" where
  "fe_carry h =
    (case h of Fe h0 h1 h2 h3 h4 h5 h6 h7 h8 h9 \<Rightarrow>
     let (h0, h1) = carry_near 26 h0 h1;
         (h4, h5) = carry_near 26 h4 h5;
         (h1, h2) = carry_near 25 h1 h2;
         (h5, h6) = carry_near 25 h5 h6;
         (h2, h3) = carry_near 26 h2 h3;
         (h6, h7) = carry_near 26 h6 h7;
         (h3, h4) = carry_near 25 h3 h4;
         (h7, h8) = carry_near 25 h7 h8;
         (h4, h5) = carry_near 26 h4 h5;
         (h8, h9) = carry_near 26 h8 h9;
         carry9 = drop_bit 25 (i64 (h9 + push_bit 24 1));
         h0 = i64 (h0 + i64 (carry9 * 19));
         h9 = i64 (h9 - i64 (push_bit 25 carry9));
         (h0, h1) = carry_near 26 h0 h1
     in Fe (i32 h0) (i32 h1) (i32 h2) (i32 h3) (i32 h4) (i32 h5) (i32 h6) (i32 h7) (i32 h8) (i32 h9))"

definition fe_mul :: "fe \<Rightarrow> fe \<Rightarrow> fe" where
  "fe_mul f g = fe_carry (fe_mul_h f g)"

definition fe_sq :: "fe \<Rightarrow> fe" where
  "fe_sq f = fe_carry (fe_sq_h f)"

definition fe_sq2 :: "fe \<Rightarrow> fe" where
  "fe_sq2 f = fe_carry (fe_sq2_h f)"

section \<open>The product sums over the integers\<close>

definition fe_conv :: "fe \<Rightarrow> fe \<Rightarrow> fe" where
  "fe_conv f g =
    (case f of Fe f0 f1 f2 f3 f4 f5 f6 f7 f8 f9 \<Rightarrow>
     case g of Fe g0 g1 g2 g3 g4 g5 g6 g7 g8 g9 \<Rightarrow>
     Fe (f0 * g0 + 38 * f1 * g9 + 19 * f2 * g8 + 38 * f3 * g7 + 19 * f4 * g6 + 38 * f5 * g5 + 19 * f6 * g4 + 38 * f7 * g3 + 19 * f8 * g2 + 38 * f9 * g1)
        (f0 * g1 + f1 * g0 + 19 * f2 * g9 + 19 * f3 * g8 + 19 * f4 * g7 + 19 * f5 * g6 + 19 * f6 * g5 + 19 * f7 * g4 + 19 * f8 * g3 + 19 * f9 * g2)
        (f0 * g2 + 2 * f1 * g1 + f2 * g0 + 38 * f3 * g9 + 19 * f4 * g8 + 38 * f5 * g7 + 19 * f6 * g6 + 38 * f7 * g5 + 19 * f8 * g4 + 38 * f9 * g3)
        (f0 * g3 + f1 * g2 + f2 * g1 + f3 * g0 + 19 * f4 * g9 + 19 * f5 * g8 + 19 * f6 * g7 + 19 * f7 * g6 + 19 * f8 * g5 + 19 * f9 * g4)
        (f0 * g4 + 2 * f1 * g3 + f2 * g2 + 2 * f3 * g1 + f4 * g0 + 38 * f5 * g9 + 19 * f6 * g8 + 38 * f7 * g7 + 19 * f8 * g6 + 38 * f9 * g5)
        (f0 * g5 + f1 * g4 + f2 * g3 + f3 * g2 + f4 * g1 + f5 * g0 + 19 * f6 * g9 + 19 * f7 * g8 + 19 * f8 * g7 + 19 * f9 * g6)
        (f0 * g6 + 2 * f1 * g5 + f2 * g4 + 2 * f3 * g3 + f4 * g2 + 2 * f5 * g1 + f6 * g0 + 38 * f7 * g9 + 19 * f8 * g8 + 38 * f9 * g7)
        (f0 * g7 + f1 * g6 + f2 * g5 + f3 * g4 + f4 * g3 + f5 * g2 + f6 * g1 + f7 * g0 + 19 * f8 * g9 + 19 * f9 * g8)
        (f0 * g8 + 2 * f1 * g7 + f2 * g6 + 2 * f3 * g5 + f4 * g4 + 2 * f5 * g3 + f6 * g2 + 2 * f7 * g1 + f8 * g0 + 38 * f9 * g9)
        (f0 * g9 + f1 * g8 + f2 * g7 + f3 * g6 + f4 * g5 + f5 * g4 + f6 * g3 + f7 * g2 + f8 * g1 + f9 * g0))"

lemma fe_conv_Fe:
  "fe_conv (Fe f0 f1 f2 f3 f4 f5 f6 f7 f8 f9) (Fe g0 g1 g2 g3 g4 g5 g6 g7 g8 g9) =
     Fe (f0 * g0 + 38 * f1 * g9 + 19 * f2 * g8 + 38 * f3 * g7 + 19 * f4 * g6 + 38 * f5 * g5 + 19 * f6 * g4 + 38 * f7 * g3 + 19 * f8 * g2 + 38 * f9 * g1)
        (f0 * g1 + f1 * g0 + 19 * f2 * g9 + 19 * f3 * g8 + 19 * f4 * g7 + 19 * f5 * g6 + 19 * f6 * g5 + 19 * f7 * g4 + 19 * f8 * g3 + 19 * f9 * g2)
        (f0 * g2 + 2 * f1 * g1 + f2 * g0 + 38 * f3 * g9 + 19 * f4 * g8 + 38 * f5 * g7 + 19 * f6 * g6 + 38 * f7 * g5 + 19 * f8 * g4 + 38 * f9 * g3)
        (f0 * g3 + f1 * g2 + f2 * g1 + f3 * g0 + 19 * f4 * g9 + 19 * f5 * g8 + 19 * f6 * g7 + 19 * f7 * g6 + 19 * f8 * g5 + 19 * f9 * g4)
        (f0 * g4 + 2 * f1 * g3 + f2 * g2 + 2 * f3 * g1 + f4 * g0 + 38 * f5 * g9 + 19 * f6 * g8 + 38 * f7 * g7 + 19 * f8 * g6 + 38 * f9 * g5)
        (f0 * g5 + f1 * g4 + f2 * g3 + f3 * g2 + f4 * g1 + f5 * g0 + 19 * f6 * g9 + 19 * f7 * g8 + 19 * f8 * g7 + 19 * f9 * g6)
        (f0 * g6 + 2 * f1 * g5 + f2 * g4 + 2 * f3 * g3 + f4 * g2 + 2 * f5 * g1 + f6 * g0 + 38 * f7 * g9 + 19 * f8 * g8 + 38 * f9 * g7)
        (f0 * g7 + f1 * g6 + f2 * g5 + f3 * g4 + f4 * g3 + f5 * g2 + f6 * g1 + f7 * g0 + 19 * f8 * g9 + 19 * f9 * g8)
        (f0 * g8 + 2 * f1 * g7 + f2 * g6 + 2 * f3 * g5 + f4 * g4 + 2 * f5 * g3 + f6 * g2 + 2 * f7 * g1 + f8 * g0 + 38 * f9 * g9)
        (f0 * g9 + f1 * g8 + f2 * g7 + f3 * g6 + f4 * g5 + f5 * g4 + f6 * g3 + f7 * g2 + f8 * g1 + f9 * g0)"
  by (simp add: fe_conv_def)

lemma fe_conv_val: "eqp (fe_val (fe_conv f g)) (fe_val f * fe_val g)"
proof -
  obtain f0 f1 f2 f3 f4 f5 f6 f7 f8 f9 where f: "f = Fe f0 f1 f2 f3 f4 f5 f6 f7 f8 f9"
    by (cases f)
  obtain g0 g1 g2 g3 g4 g5 g6 g7 g8 g9 where g: "g = Fe g0 g1 g2 g3 g4 g5 g6 g7 g8 g9"
    by (cases g)
  define G where "G = fe_val (Fe g0 g1 g2 g3 g4 g5 g6 g7 g8 g9)"
  have row: "f0 * G = f0 * g0 + 2 ^ 26 * (f0 * g1) + 2 ^ 51 * (f0 * g2) + 2 ^ 77 * (f0 * g3) + 2 ^ 102 * (f0 * g4) + 2 ^ 128 * (f0 * g5) + 2 ^ 153 * (f0 * g6) + 2 ^ 179 * (f0 * g7) + 2 ^ 204 * (f0 * g8) + 2 ^ 230 * (f0 * g9)"
    "2 ^ 26 * f1 * G = 38 * f1 * g9 + 2 ^ 26 * (f1 * g0) + 2 ^ 51 * (2 * f1 * g1) + 2 ^ 77 * (f1 * g2) + 2 ^ 102 * (2 * f1 * g3) + 2 ^ 128 * (f1 * g4) + 2 ^ 153 * (2 * f1 * g5) + 2 ^ 179 * (f1 * g6) + 2 ^ 204 * (2 * f1 * g7) + 2 ^ 230 * (f1 * g8) + fe_p * (f1 * (2 ^ 1 * g9))"
    "2 ^ 51 * f2 * G = 19 * f2 * g8 + 2 ^ 26 * (19 * f2 * g9) + 2 ^ 51 * (f2 * g0) + 2 ^ 77 * (f2 * g1) + 2 ^ 102 * (f2 * g2) + 2 ^ 128 * (f2 * g3) + 2 ^ 153 * (f2 * g4) + 2 ^ 179 * (f2 * g5) + 2 ^ 204 * (f2 * g6) + 2 ^ 230 * (f2 * g7) + fe_p * (f2 * (g8 + 2 ^ 26 * g9))"
    "2 ^ 77 * f3 * G = 38 * f3 * g7 + 2 ^ 26 * (19 * f3 * g8) + 2 ^ 51 * (38 * f3 * g9) + 2 ^ 77 * (f3 * g0) + 2 ^ 102 * (2 * f3 * g1) + 2 ^ 128 * (f3 * g2) + 2 ^ 153 * (2 * f3 * g3) + 2 ^ 179 * (f3 * g4) + 2 ^ 204 * (2 * f3 * g5) + 2 ^ 230 * (f3 * g6) + fe_p * (f3 * (2 ^ 1 * g7 + 2 ^ 26 * g8 + 2 ^ 52 * g9))"
    "2 ^ 102 * f4 * G = 19 * f4 * g6 + 2 ^ 26 * (19 * f4 * g7) + 2 ^ 51 * (19 * f4 * g8) + 2 ^ 77 * (19 * f4 * g9) + 2 ^ 102 * (f4 * g0) + 2 ^ 128 * (f4 * g1) + 2 ^ 153 * (f4 * g2) + 2 ^ 179 * (f4 * g3) + 2 ^ 204 * (f4 * g4) + 2 ^ 230 * (f4 * g5) + fe_p * (f4 * (g6 + 2 ^ 26 * g7 + 2 ^ 51 * g8 + 2 ^ 77 * g9))"
    "2 ^ 128 * f5 * G = 38 * f5 * g5 + 2 ^ 26 * (19 * f5 * g6) + 2 ^ 51 * (38 * f5 * g7) + 2 ^ 77 * (19 * f5 * g8) + 2 ^ 102 * (38 * f5 * g9) + 2 ^ 128 * (f5 * g0) + 2 ^ 153 * (2 * f5 * g1) + 2 ^ 179 * (f5 * g2) + 2 ^ 204 * (2 * f5 * g3) + 2 ^ 230 * (f5 * g4) + fe_p * (f5 * (2 ^ 1 * g5 + 2 ^ 26 * g6 + 2 ^ 52 * g7 + 2 ^ 77 * g8 + 2 ^ 103 * g9))"
    "2 ^ 153 * f6 * G = 19 * f6 * g4 + 2 ^ 26 * (19 * f6 * g5) + 2 ^ 51 * (19 * f6 * g6) + 2 ^ 77 * (19 * f6 * g7) + 2 ^ 102 * (19 * f6 * g8) + 2 ^ 128 * (19 * f6 * g9) + 2 ^ 153 * (f6 * g0) + 2 ^ 179 * (f6 * g1) + 2 ^ 204 * (f6 * g2) + 2 ^ 230 * (f6 * g3) + fe_p * (f6 * (g4 + 2 ^ 26 * g5 + 2 ^ 51 * g6 + 2 ^ 77 * g7 + 2 ^ 102 * g8 + 2 ^ 128 * g9))"
    "2 ^ 179 * f7 * G = 38 * f7 * g3 + 2 ^ 26 * (19 * f7 * g4) + 2 ^ 51 * (38 * f7 * g5) + 2 ^ 77 * (19 * f7 * g6) + 2 ^ 102 * (38 * f7 * g7) + 2 ^ 128 * (19 * f7 * g8) + 2 ^ 153 * (38 * f7 * g9) + 2 ^ 179 * (f7 * g0) + 2 ^ 204 * (2 * f7 * g1) + 2 ^ 230 * (f7 * g2) + fe_p * (f7 * (2 ^ 1 * g3 + 2 ^ 26 * g4 + 2 ^ 52 * g5 + 2 ^ 77 * g6 + 2 ^ 103 * g7 + 2 ^ 128 * g8 + 2 ^ 154 * g9))"
    "2 ^ 204 * f8 * G = 19 * f8 * g2 + 2 ^ 26 * (19 * f8 * g3) + 2 ^ 51 * (19 * f8 * g4) + 2 ^ 77 * (19 * f8 * g5) + 2 ^ 102 * (19 * f8 * g6) + 2 ^ 128 * (19 * f8 * g7) + 2 ^ 153 * (19 * f8 * g8) + 2 ^ 179 * (19 * f8 * g9) + 2 ^ 204 * (f8 * g0) + 2 ^ 230 * (f8 * g1) + fe_p * (f8 * (g2 + 2 ^ 26 * g3 + 2 ^ 51 * g4 + 2 ^ 77 * g5 + 2 ^ 102 * g6 + 2 ^ 128 * g7 + 2 ^ 153 * g8 + 2 ^ 179 * g9))"
    "2 ^ 230 * f9 * G = 38 * f9 * g1 + 2 ^ 26 * (19 * f9 * g2) + 2 ^ 51 * (38 * f9 * g3) + 2 ^ 77 * (19 * f9 * g4) + 2 ^ 102 * (38 * f9 * g5) + 2 ^ 128 * (19 * f9 * g6) + 2 ^ 153 * (38 * f9 * g7) + 2 ^ 179 * (19 * f9 * g8) + 2 ^ 204 * (38 * f9 * g9) + 2 ^ 230 * (f9 * g0) + fe_p * (f9 * (2 ^ 1 * g1 + 2 ^ 26 * g2 + 2 ^ 52 * g3 + 2 ^ 77 * g4 + 2 ^ 103 * g5 + 2 ^ 128 * g6 + 2 ^ 154 * g7 + 2 ^ 179 * g8 + 2 ^ 205 * g9))"
    by (simp_all add: G_def fe_p_def algebra_simps)
  have "fe_val f * fe_val g = f0 * G + 2 ^ 26 * f1 * G + 2 ^ 51 * f2 * G + 2 ^ 77 * f3 * G + 2 ^ 102 * f4 * G + 2 ^ 128 * f5 * G + 2 ^ 153 * f6 * G + 2 ^ 179 * f7 * G + 2 ^ 204 * f8 * G + 2 ^ 230 * f9 * G"
    unfolding f g G_def [symmetric] by (simp only: fe_val.simps distrib_right)
  also have "\<dots> = fe_val (fe_conv f g)
      + fe_p * (f1 * (2 ^ 1 * g9)
       + f2 * (g8 + 2 ^ 26 * g9)
       + f3 * (2 ^ 1 * g7 + 2 ^ 26 * g8 + 2 ^ 52 * g9)
       + f4 * (g6 + 2 ^ 26 * g7 + 2 ^ 51 * g8 + 2 ^ 77 * g9)
       + f5 * (2 ^ 1 * g5 + 2 ^ 26 * g6 + 2 ^ 52 * g7 + 2 ^ 77 * g8 + 2 ^ 103 * g9)
       + f6 * (g4 + 2 ^ 26 * g5 + 2 ^ 51 * g6 + 2 ^ 77 * g7 + 2 ^ 102 * g8 + 2 ^ 128 * g9)
       + f7 * (2 ^ 1 * g3 + 2 ^ 26 * g4 + 2 ^ 52 * g5 + 2 ^ 77 * g6 + 2 ^ 103 * g7 + 2 ^ 128 * g8 + 2 ^ 154 * g9)
       + f8 * (g2 + 2 ^ 26 * g3 + 2 ^ 51 * g4 + 2 ^ 77 * g5 + 2 ^ 102 * g6 + 2 ^ 128 * g7 + 2 ^ 153 * g8 + 2 ^ 179 * g9)
       + f9 * (2 ^ 1 * g1 + 2 ^ 26 * g2 + 2 ^ 52 * g3 + 2 ^ 77 * g4 + 2 ^ 103 * g5 + 2 ^ 128 * g6 + 2 ^ 154 * g7 + 2 ^ 179 * g8 + 2 ^ 205 * g9))"
    unfolding row fe_conv_Fe f g fe_val.simps
    by (simp only: distrib_left add.assoc add.commute add.left_commute)
  finally have "fe_val f * fe_val g = fe_val (fe_conv f g)
      + fe_p * (f1 * (2 ^ 1 * g9)
       + f2 * (g8 + 2 ^ 26 * g9)
       + f3 * (2 ^ 1 * g7 + 2 ^ 26 * g8 + 2 ^ 52 * g9)
       + f4 * (g6 + 2 ^ 26 * g7 + 2 ^ 51 * g8 + 2 ^ 77 * g9)
       + f5 * (2 ^ 1 * g5 + 2 ^ 26 * g6 + 2 ^ 52 * g7 + 2 ^ 77 * g8 + 2 ^ 103 * g9)
       + f6 * (g4 + 2 ^ 26 * g5 + 2 ^ 51 * g6 + 2 ^ 77 * g7 + 2 ^ 102 * g8 + 2 ^ 128 * g9)
       + f7 * (2 ^ 1 * g3 + 2 ^ 26 * g4 + 2 ^ 52 * g5 + 2 ^ 77 * g6 + 2 ^ 103 * g7 + 2 ^ 128 * g8 + 2 ^ 154 * g9)
       + f8 * (g2 + 2 ^ 26 * g3 + 2 ^ 51 * g4 + 2 ^ 77 * g5 + 2 ^ 102 * g6 + 2 ^ 128 * g7 + 2 ^ 153 * g8 + 2 ^ 179 * g9)
       + f9 * (2 ^ 1 * g1 + 2 ^ 26 * g2 + 2 ^ 52 * g3 + 2 ^ 77 * g4 + 2 ^ 103 * g5 + 2 ^ 128 * g6 + 2 ^ 154 * g7 + 2 ^ 179 * g8 + 2 ^ 205 * g9))" .
  then show ?thesis
    by (intro eqp_sym [OF eqp_multiple])
qed

lemma fe_conv_bd:
  assumes "fe_165_26 f" "fe_165_26 g"
  shows "fe_bd (3 * 2 ^ 59) (3 * 2 ^ 59) (fe_conv f g)"
proof -
  obtain f0 f1 f2 f3 f4 f5 f6 f7 f8 f9 where f: "f = Fe f0 f1 f2 f3 f4 f5 f6 f7 f8 f9"
    by (cases f)
  obtain g0 g1 g2 g3 g4 g5 g6 g7 g8 g9 where g: "g = Fe g0 g1 g2 g3 g4 g5 g6 g7 g8 g9"
    by (cases g)
  from assms have bd: "bnd 110729625 f0" "bnd 55364812 f1" "bnd 110729625 f2" "bnd 55364812 f3" "bnd 110729625 f4" "bnd 55364812 f5" "bnd 110729625 f6" "bnd 55364812 f7" "bnd 110729625 f8" "bnd 55364812 f9" "bnd 110729625 g0" "bnd 55364812 g1" "bnd 110729625 g2" "bnd 55364812 g3" "bnd 110729625 g4" "bnd 55364812 g5" "bnd 110729625 g6" "bnd 55364812 g7" "bnd 110729625 g8" "bnd 55364812 g9"
    unfolding f g fe_ranges by simp_all
  show ?thesis
    unfolding f g fe_conv_Fe fe_bd.simps
    by (intro conjI; rule bnd_mono, (rule bd bnd_intros)+, simp)
qed

lemma i32_times:
  "bnd 110729625 x \<Longrightarrow> i32 (19 * x) = 19 * x" "bnd 55364812 x \<Longrightarrow> i32 (19 * x) = 19 * x"
  "bnd 55364812 x \<Longrightarrow> i32 (38 * x) = 38 * x"
  "bnd 110729625 x \<Longrightarrow> i32 (2 * x) = 2 * x" "bnd 55364812 x \<Longrightarrow> i32 (2 * x) = 2 * x"
  by (rule i32_id; simp add: bnd_def abs_le_iff)+

lemma fe_i64_bd:
  assumes "fe_bd (3 * 2 ^ 59) (3 * 2 ^ 59) (Fe h0 h1 h2 h3 h4 h5 h6 h7 h8 h9)"
  shows "Fe (i64 h0) (i64 h1) (i64 h2) (i64 h3) (i64 h4) (i64 h5) (i64 h6) (i64 h7) (i64 h8) (i64 h9) =
     Fe h0 h1 h2 h3 h4 h5 h6 h7 h8 h9"
proof -
  have "i64 x = x" if "bnd (3 * 2 ^ 59) x" for x
    using that by (rule i64_bnd) simp
  then show ?thesis using assms by simp
qed

lemma fe_mul_h_conv:
  assumes "fe_165_26 f" "fe_165_26 g"
  shows "fe_mul_h f g = fe_conv f g"
proof -
  obtain f0 f1 f2 f3 f4 f5 f6 f7 f8 f9 where f: "f = Fe f0 f1 f2 f3 f4 f5 f6 f7 f8 f9"
    by (cases f)
  obtain g0 g1 g2 g3 g4 g5 g6 g7 g8 g9 where g: "g = Fe g0 g1 g2 g3 g4 g5 g6 g7 g8 g9"
    by (cases g)
  from assms have t: "i32 (19 * g1) = 19 * g1" "i32 (19 * g2) = 19 * g2" "i32 (19 * g3) = 19 * g3" "i32 (19 * g4) = 19 * g4" "i32 (19 * g5) = 19 * g5" "i32 (19 * g6) = 19 * g6" "i32 (19 * g7) = 19 * g7" "i32 (19 * g8) = 19 * g8" "i32 (19 * g9) = 19 * g9"
    "i32 (2 * f1) = 2 * f1" "i32 (2 * f3) = 2 * f3" "i32 (2 * f5) = 2 * f5" "i32 (2 * f7) = 2 * f7" "i32 (2 * f9) = 2 * f9"
    unfolding f g fe_ranges by (simp_all add: i32_times)
  show ?thesis
    unfolding f g fe_mul_h_def fe.case Let_def t i64_sum10
    using fe_i64_bd [OF fe_conv_bd [OF assms, unfolded f g fe_conv_Fe]]
    by (simp add: fe_conv_Fe mult.assoc mult.left_commute)
qed

lemma i32_times_sq:
  "bnd 110729625 x \<Longrightarrow> i32 (2 * x) = 2 * x" "bnd 55364812 x \<Longrightarrow> i32 (2 * x) = 2 * x"
  by (simp_all add: i32_times)

lemma fe_sq_h_conv:
  assumes "fe_165_26 f"
  shows "fe_sq_h f = fe_conv f f"
proof -
  obtain f0 f1 f2 f3 f4 f5 f6 f7 f8 f9 where f: "f = Fe f0 f1 f2 f3 f4 f5 f6 f7 f8 f9"
    by (cases f)
  from assms have t: "i32 (2 * f0) = 2 * f0" "i32 (2 * f1) = 2 * f1" "i32 (2 * f2) = 2 * f2" "i32 (2 * f3) = 2 * f3" "i32 (2 * f4) = 2 * f4" "i32 (2 * f5) = 2 * f5" "i32 (2 * f6) = 2 * f6" "i32 (2 * f7) = 2 * f7"
    "i32 (38 * f5) = 38 * f5" "i32 (19 * f6) = 19 * f6" "i32 (38 * f7) = 38 * f7" "i32 (19 * f8) = 19 * f8" "i32 (38 * f9) = 38 * f9"
    unfolding f fe_ranges by (simp_all add: i32_times)
  show ?thesis
    unfolding f fe_sq_h_def fe.case Let_def t i64_sum5 i64_sum6
    using fe_i64_bd [OF fe_conv_bd [OF assms assms, unfolded f fe_conv_Fe]]
    by (simp add: fe_conv_Fe algebra_simps)
qed

text \<open>Doubling all limbs.\<close>

fun fe_twice :: "fe \<Rightarrow> fe" where
  "fe_twice (Fe h0 h1 h2 h3 h4 h5 h6 h7 h8 h9) =
     Fe (h0 + h0) (h1 + h1) (h2 + h2) (h3 + h3) (h4 + h4) (h5 + h5) (h6 + h6) (h7 + h7) (h8 + h8) (h9 + h9)"

lemma fe_twice_val: "fe_val (fe_twice h) = 2 * fe_val h"
  by (cases h) simp

lemma fe_twice_bd: "fe_bd a b h \<Longrightarrow> fe_bd (2 * a) (2 * b) (fe_twice h)"
  by (cases h) (simp add: bnd_def abs_mult)

lemma fe_sq2_h_sq: 
  assumes "fe_165_26 f"
  shows "fe_sq2_h f = fe_twice (fe_conv f f)"
proof -
  obtain f0 f1 f2 f3 f4 f5 f6 f7 f8 f9 where f: "f = Fe f0 f1 f2 f3 f4 f5 f6 f7 f8 f9"
    by (cases f)
  from assms have t: "i32 (2 * f0) = 2 * f0" "i32 (2 * f1) = 2 * f1" "i32 (2 * f2) = 2 * f2" "i32 (2 * f3) = 2 * f3" "i32 (2 * f4) = 2 * f4" "i32 (2 * f5) = 2 * f5" "i32 (2 * f6) = 2 * f6" "i32 (2 * f7) = 2 * f7"
    "i32 (38 * f5) = 38 * f5" "i32 (19 * f6) = 19 * f6" "i32 (38 * f7) = 38 * f7" "i32 (19 * f8) = 19 * f8" "i32 (38 * f9) = 38 * f9"
    unfolding f fe_ranges by (simp_all add: i32_times)
  obtain h0 h1 h2 h3 h4 h5 h6 h7 h8 h9 where h: "fe_conv f f = Fe h0 h1 h2 h3 h4 h5 h6 h7 h8 h9"
    by (cases "fe_conv f f")
  have "fe_sq_h f = Fe h0 h1 h2 h3 h4 h5 h6 h7 h8 h9"
    using fe_sq_h_conv [OF assms] h by simp
  moreover have d: "i64 (x + x) = x + x" if "bnd (3 * 2 ^ 59) x" for x
    using bnd_add [OF that that] by (rule i64_bnd) simp
  moreover have "fe_bd (3 * 2 ^ 59) (3 * 2 ^ 59) (Fe h0 h1 h2 h3 h4 h5 h6 h7 h8 h9)"
    using fe_conv_bd [OF assms assms] h by simp
  ultimately show ?thesis
    unfolding h unfolding f fe_sq2_h_def fe_sq_h_def fe.case Let_def
    by simp
qed

section \<open>The carry chain keeps the value and bounds the limbs\<close>

lemma carry_near_26:
  assumes "carry_near 26 lo hi = (lo', hi')"
    and "- x \<le> lo" "lo \<le> x" "- y \<le> hi" "hi \<le> y" "x \<le> 2 ^ 62" "y \<le> 2 ^ 62"
  obtains c where "lo' = lo - 67108864 * c" and "hi' = hi + c"
    and "- 33554432 \<le> lo'" and "lo' \<le> 33554432"
proof -
  have "carry_near (Suc 25) lo hi = (lo', hi')" "bnd (2 ^ 62) lo" "bnd (2 ^ 62) hi"
    using assms by (simp_all add: bnd_def abs_le_iff)
  then obtain c where "lo' = lo - 2 ^ Suc 25 * c" "hi' = hi + c" "- (2 ^ 25) \<le> lo'" "lo' < 2 ^ 25"
    by (rule carry_near_cases) simp_all
  then show thesis
    by (intro that [of c]) simp_all
qed

lemma carry_near_25:
  assumes "carry_near 25 lo hi = (lo', hi')"
    and "- x \<le> lo" "lo \<le> x" "- y \<le> hi" "hi \<le> y" "x \<le> 2 ^ 62" "y \<le> 2 ^ 62"
  obtains c where "lo' = lo - 33554432 * c" and "hi' = hi + c"
    and "- 16777216 \<le> lo'" and "lo' \<le> 16777216"
proof -
  have "carry_near (Suc 24) lo hi = (lo', hi')" "bnd (2 ^ 62) lo" "bnd (2 ^ 62) hi"
    using assms by (simp_all add: bnd_def abs_le_iff)
  then obtain c where "lo' = lo - 2 ^ Suc 24 * c" "hi' = hi + c" "- (2 ^ 24) \<le> lo'" "lo' < 2 ^ 24"
    by (rule carry_near_cases) simp_all
  then show thesis
    by (intro that [of c]) simp_all
qed

lemma i64_drop_near_25:
  assumes "- x \<le> h" "h \<le> x" "x \<le> 2 ^ 62"
  shows "- 16777216 \<le> h - 33554432 * drop_bit 25 (i64 (h + push_bit 24 1))"
    and "h - 33554432 * drop_bit 25 (i64 (h + push_bit 24 1)) \<le> 16777216"
proof -
  have "i64 (h + push_bit 24 1) = h + 16777216"
    unfolding push_bit_eq_mult by (subst i64_id) (use assms in simp_all)
  then show "- 16777216 \<le> h - 33554432 * drop_bit 25 (i64 (h + push_bit 24 1))"
    "h - 33554432 * drop_bit 25 (i64 (h + push_bit 24 1)) \<le> 16777216"
    by (simp_all add: drop_bit_eq_div; presburger)+
qed

lemma fe_carry_spec:
  assumes "fe_bd (3 * 2 ^ 60) (3 * 2 ^ 60) h"
  shows "eqp (fe_val (fe_carry h)) (fe_val h)" and "fe_101_25 (fe_carry h)"
proof -
  obtain h0 h1 h2 h3 h4 h5 h6 h7 h8 h9 where h: "h = Fe h0 h1 h2 h3 h4 h5 h6 h7 h8 h9"
    by (cases h)
  from assms have bd0: "- 3458764513820540928 \<le> h0" "h0 \<le> 3458764513820540928" and bd1: "- 3458764513820540928 \<le> h1" "h1 \<le> 3458764513820540928" and bd2: "- 3458764513820540928 \<le> h2" "h2 \<le> 3458764513820540928" and bd3: "- 3458764513820540928 \<le> h3" "h3 \<le> 3458764513820540928" and bd4: "- 3458764513820540928 \<le> h4" "h4 \<le> 3458764513820540928" and bd5: "- 3458764513820540928 \<le> h5" "h5 \<le> 3458764513820540928" and bd6: "- 3458764513820540928 \<le> h6" "h6 \<le> 3458764513820540928" and bd7: "- 3458764513820540928 \<le> h7" "h7 \<le> 3458764513820540928" and bd8: "- 3458764513820540928 \<le> h8" "h8 \<le> 3458764513820540928" and bd9: "- 3458764513820540928 \<le> h9" "h9 \<le> 3458764513820540928"
    unfolding h by (simp_all add: bnd_def abs_le_iff)
  obtain h0a h1a where e0: "carry_near 26 h0 h1 = (h0a, h1a)"
    by fastforce
  obtain c0 where c0: "h0a = h0 - 67108864 * c0" "h1a = h1 + c0"
      and bh0a: "- 33554432 \<le> h0a" "h0a \<le> 33554432"
    by (rule carry_near_26 [OF e0 bd0 bd1]) simp_all
  have bh1a: "- 3458764565360148480 \<le> h1a" "h1a \<le> 3458764565360148480"
    using c0 bh0a bd0 bd1 by linarith+
  obtain h4a h5a where e1: "carry_near 26 h4 h5 = (h4a, h5a)"
    by fastforce
  obtain c1 where c1: "h4a = h4 - 67108864 * c1" "h5a = h5 + c1"
      and bh4a: "- 33554432 \<le> h4a" "h4a \<le> 33554432"
    by (rule carry_near_26 [OF e1 bd4 bd5]) simp_all
  have bh5a: "- 3458764565360148480 \<le> h5a" "h5a \<le> 3458764565360148480"
    using c1 bh4a bd4 bd5 by linarith+
  obtain h1b h2a where e2: "carry_near 25 h1a h2 = (h1b, h2a)"
    by fastforce
  obtain c2 where c2: "h1b = h1a - 33554432 * c2" "h2a = h2 + c2"
      and bh1b: "- 16777216 \<le> h1b" "h1b \<le> 16777216"
    by (rule carry_near_25 [OF e2 bh1a bd2]) simp_all
  have bh2a: "- 3458764616899757568 \<le> h2a" "h2a \<le> 3458764616899757568"
    using c2 bh1b bh1a bd2 by linarith+
  obtain h5b h6a where e3: "carry_near 25 h5a h6 = (h5b, h6a)"
    by fastforce
  obtain c3 where c3: "h5b = h5a - 33554432 * c3" "h6a = h6 + c3"
      and bh5b: "- 16777216 \<le> h5b" "h5b \<le> 16777216"
    by (rule carry_near_25 [OF e3 bh5a bd6]) simp_all
  have bh6a: "- 3458764616899757568 \<le> h6a" "h6a \<le> 3458764616899757568"
    using c3 bh5b bh5a bd6 by linarith+
  obtain h2b h3a where e4: "carry_near 26 h2a h3 = (h2b, h3a)"
    by fastforce
  obtain c4 where c4: "h2b = h2a - 67108864 * c4" "h3a = h3 + c4"
      and bh2b: "- 33554432 \<le> h2b" "h2b \<le> 33554432"
    by (rule carry_near_26 [OF e4 bh2a bd3]) simp_all
  have bh3a: "- 3458764565360150016 \<le> h3a" "h3a \<le> 3458764565360150016"
    using c4 bh2b bh2a bd3 by linarith+
  obtain h6b h7a where e5: "carry_near 26 h6a h7 = (h6b, h7a)"
    by fastforce
  obtain c5 where c5: "h6b = h6a - 67108864 * c5" "h7a = h7 + c5"
      and bh6b: "- 33554432 \<le> h6b" "h6b \<le> 33554432"
    by (rule carry_near_26 [OF e5 bh6a bd7]) simp_all
  have bh7a: "- 3458764565360150016 \<le> h7a" "h7a \<le> 3458764565360150016"
    using c5 bh6b bh6a bd7 by linarith+
  obtain h3b h4b where e6: "carry_near 25 h3a h4a = (h3b, h4b)"
    by fastforce
  obtain c6 where c6: "h3b = h3a - 33554432 * c6" "h4b = h4a + c6"
      and bh3b: "- 16777216 \<le> h3b" "h3b \<le> 16777216"
    by (rule carry_near_25 [OF e6 bh3a bh4a]) simp_all
  have bh4b: "- 103112771072 \<le> h4b" "h4b \<le> 103112771072"
    using c6 bh3b bh3a bh4a by linarith+
  obtain h7b h8a where e7: "carry_near 25 h7a h8 = (h7b, h8a)"
    by fastforce
  obtain c7 where c7: "h7b = h7a - 33554432 * c7" "h8a = h8 + c7"
      and bh7b: "- 16777216 \<le> h7b" "h7b \<le> 16777216"
    by (rule carry_near_25 [OF e7 bh7a bd8]) simp_all
  have bh8a: "- 3458764616899757568 \<le> h8a" "h8a \<le> 3458764616899757568"
    using c7 bh7b bh7a bd8 by linarith+
  obtain h4c h5c where e8: "carry_near 26 h4b h5b = (h4c, h5c)"
    by fastforce
  obtain c8 where c8: "h4c = h4b - 67108864 * c8" "h5c = h5b + c8"
      and bh4c: "- 33554432 \<le> h4c" "h4c \<le> 33554432"
    by (rule carry_near_26 [OF e8 bh4b bh5b]) simp_all
  have bh5c: "- 16778753 \<le> h5c" "h5c \<le> 16778753"
    using c8 bh4c bh4b bh5b by linarith+
  obtain h8b h9a where e9: "carry_near 26 h8a h9 = (h8b, h9a)"
    by fastforce
  obtain c9 where c9: "h8b = h8a - 67108864 * c9" "h9a = h9 + c9"
      and bh8b: "- 33554432 \<le> h8b" "h8b \<le> 33554432"
    by (rule carry_near_26 [OF e9 bh8a bd9]) simp_all
  have bh9a: "- 3458764565360150016 \<le> h9a" "h9a \<le> 3458764565360150016"
    using c9 bh8b bh8a bd9 by linarith+
  define c10 where "c10 = drop_bit 25 (i64 (h9a + push_bit 24 1))"
  have r9: "- 16777216 \<le> h9a - 33554432 * c10" "h9a - 33554432 * c10 \<le> 16777216"
    using i64_drop_near_25 [OF bh9a] by (simp_all add: c10_def)
  define h9b where "h9b = h9a - 33554432 * c10"
  define h0b where "h0b = h0a + 19 * c10"
  have c10: "- 103079216640 \<le> c10" "c10 \<le> 103079216640"
    using r9 bh9a by linarith+
  have bh9b: "- 16777216 \<le> h9b" "h9b \<le> 16777216"
    using r9 by (simp_all add: h9b_def)
  have bh0b: "- 1958538670592 \<le> h0b" "h0b \<le> 1958538670592"
    using c10 bh0a unfolding h0b_def by linarith+
  have d0: "i64 (h0a + i64 (c10 * 19)) = h0b"
    using c10 bh0b by (simp add: i64_id h0b_def mult.commute)
  have d9: "i64 (h9a - i64 (push_bit 25 c10)) = h9b"
    unfolding i64_push_absorb using bh9b by (simp add: i64_id h9b_def push_bit_eq_mult mult.commute)
  obtain h0c h1c where e11: "carry_near 26 h0b h1b = (h0c, h1c)"
    by fastforce
  obtain c11 where c11: "h0c = h0b - 67108864 * c11" "h1c = h1b + c11"
      and bh0c: "- 33554432 \<le> h0c" "h0c \<le> 33554432"
    by (rule carry_near_26 [OF e11 bh0b bh1b]) simp_all
  have bh1c: "- 16806401 \<le> h1c" "h1c \<le> 16806401"
    using c11 bh0c bh0b bh1b by linarith+
  have l: "fe_carry h = Fe (i32 h0c) (i32 h1c) (i32 h2b) (i32 h3b) (i32 h4c) (i32 h5c) (i32 h6b) (i32 h7b) (i32 h8b) (i32 h9b)"
    unfolding h fe_carry_def fe.case e0 e1 e2 e3 e4 e5 e6 e7 e8 e9 prod.case Let_def c10_def [symmetric] d0 d9 e11 ..
  have n: "i32 h0c = h0c" "i32 h1c = h1c" "i32 h2b = h2b" "i32 h3b = h3b" "i32 h4c = h4c" "i32 h5c = h5c" "i32 h6b = h6b" "i32 h7b = h7b" "i32 h8b = h8b" "i32 h9b = h9b"
    using bh0c bh1c bh2b bh3b bh4c bh5c bh6b bh7b bh8b bh9b by (intro i32_id; simp)+
  have "fe_val (fe_carry h) = fe_val h + fe_p * (- c10)"
    unfolding l n unfolding h fe_val.simps fe_p_def using c0(1,2) c1(1,2) c2(1,2) c3(1,2) c4(1,2) c5(1,2) c6(1,2) c7(1,2) c8(1,2) c9(1,2) c11(1,2) h9b_def h0b_def by (simp add: algebra_simps)
  then show "eqp (fe_val (fe_carry h)) (fe_val h)"
    by (rule eqp_multiple)
  show "fe_101_25 (fe_carry h)"
    unfolding l n fe_101_25_def fe_bd.simps using bh0c bh1c bh2b bh3b bh4c bh5c bh6b bh7b bh8b bh9b by (intro conjI bndI; simp)
qed

section \<open>Multiplication and squaring modulo the prime\<close>

lemma fe_mul_val: "fe_165_26 f \<Longrightarrow> fe_165_26 g \<Longrightarrow> eqp (fe_val (fe_mul f g)) (fe_val f * fe_val g)"
  and fe_mul_range: "fe_165_26 f \<Longrightarrow> fe_165_26 g \<Longrightarrow> fe_101_25 (fe_mul f g)"
proof -
  assume r: "fe_165_26 f" "fe_165_26 g"
  have b: "fe_bd (3 * 2 ^ 60) (3 * 2 ^ 60) (fe_conv f g)"
    by (rule fe_bd_mono [OF fe_conv_bd [OF r]]) simp_all
  note e = fe_mul_def fe_mul_h_conv [OF r]
  show "eqp (fe_val (fe_mul f g)) (fe_val f * fe_val g)"
    unfolding e by (rule eqp_trans [OF fe_carry_spec(1) [OF b] fe_conv_val])
  show "fe_101_25 (fe_mul f g)"
    unfolding e by (rule fe_carry_spec(2) [OF b])
qed

lemma fe_sq_val: "fe_165_26 f \<Longrightarrow> eqp (fe_val (fe_sq f)) (fe_val f * fe_val f)"
  and fe_sq_range: "fe_165_26 f \<Longrightarrow> fe_101_25 (fe_sq f)"
proof -
  assume r: "fe_165_26 f"
  have "fe_sq f = fe_mul f f"
    by (simp add: fe_sq_def fe_mul_def fe_sq_h_conv [OF r] fe_mul_h_conv [OF r r])
  then show "eqp (fe_val (fe_sq f)) (fe_val f * fe_val f)" "fe_101_25 (fe_sq f)"
    using fe_mul_val [OF r r] fe_mul_range [OF r r] by simp_all
qed

lemma fe_sq2_val: "fe_165_26 f \<Longrightarrow> eqp (fe_val (fe_sq2 f)) (2 * (fe_val f * fe_val f))"
  and fe_sq2_range: "fe_165_26 f \<Longrightarrow> fe_101_25 (fe_sq2 f)"
proof -
  assume r: "fe_165_26 f"
  have b: "fe_bd (3 * 2 ^ 60) (3 * 2 ^ 60) (fe_twice (fe_conv f f))"
    by (rule fe_bd_mono [OF fe_twice_bd [OF fe_conv_bd [OF r r]]]) simp_all
  note e = fe_sq2_def fe_sq2_h_sq [OF r]
  have "eqp (2 * fe_val (fe_conv f f)) (2 * (fe_val f * fe_val f))"
    by (intro eqp_cong fe_conv_val)
  then show "eqp (fe_val (fe_sq2 f)) (2 * (fe_val f * fe_val f))"
    unfolding e using fe_carry_spec(1) [OF b, unfolded fe_twice_val] by (rule eqp_trans [rotated])
  show "fe_101_25 (fe_sq2 f)"
    unfolding e by (rule fe_carry_spec(2) [OF b])
qed

end
