(* ===== verification/Fe_Pow.thy ===== *)
theory Fe_Pow
  imports Fe_Mul
begin

text \<open>
  The addition chains of \<^verbatim>\<open>fe_invert\<close> and \<^verbatim>\<open>fe_divpowm1\<close>. The squaring loops
  \<^verbatim>\<open>for (i = 0; i < n; ++i) fe_sq(t, t);\<close> are iterations \<open>(fe_sq ^^ n) t\<close>.

  What the chains rely on is the interface \<open>field_powers\<close>: an operation that multiplies and
  one that squares values modulo the prime and that produces operands they accept again. In
  it, the exponent of every intermediate result is computed; \<open>fe_mul\<close> and \<open>fe_sq\<close> provide it.
\<close>

section \<open>The chains\<close>

definition fe_invert :: "fe \<Rightarrow> fe" where
  "fe_invert z =
    (let t0 = fe_sq z;
         t1 = fe_sq t0;
         t1 = fe_sq t1;
         t1 = fe_mul z t1;
         t0 = fe_mul t0 t1;
         t2 = fe_sq t0;
         t1 = fe_mul t1 t2;
         t2 = fe_sq t1;
         t2 = (fe_sq ^^ 4) t2;
         t1 = fe_mul t2 t1;
         t2 = fe_sq t1;
         t2 = (fe_sq ^^ 9) t2;
         t2 = fe_mul t2 t1;
         t3 = fe_sq t2;
         t3 = (fe_sq ^^ 19) t3;
         t2 = fe_mul t3 t2;
         t2 = fe_sq t2;
         t2 = (fe_sq ^^ 9) t2;
         t1 = fe_mul t2 t1;
         t2 = fe_sq t1;
         t2 = (fe_sq ^^ 49) t2;
         t2 = fe_mul t2 t1;
         t3 = fe_sq t2;
         t3 = (fe_sq ^^ 99) t3;
         t2 = fe_mul t3 t2;
         t2 = fe_sq t2;
         t2 = (fe_sq ^^ 49) t2;
         t1 = fe_mul t2 t1;
         t1 = fe_sq t1;
         t1 = (fe_sq ^^ 4) t1
     in fe_mul t1 t0)"

definition fe_divpowm1 :: "fe \<Rightarrow> fe \<Rightarrow> fe" where
  "fe_divpowm1 u v =
    (let v3 = fe_sq v;
         v3 = fe_mul v3 v;
         uv7 = fe_sq v3;
         uv7 = fe_mul uv7 v;
         uv7 = fe_mul uv7 u;
         t0 = fe_sq uv7;
         t1 = fe_sq t0;
         t1 = fe_sq t1;
         t1 = fe_mul uv7 t1;
         t0 = fe_mul t0 t1;
         t0 = fe_sq t0;
         t0 = fe_mul t1 t0;
         t1 = fe_sq t0;
         t1 = (fe_sq ^^ 4) t1;
         t0 = fe_mul t1 t0;
         t1 = fe_sq t0;
         t1 = (fe_sq ^^ 9) t1;
         t1 = fe_mul t1 t0;
         t2 = fe_sq t1;
         t2 = (fe_sq ^^ 19) t2;
         t1 = fe_mul t2 t1;
         t1 = (fe_sq ^^ 10) t1;
         t0 = fe_mul t1 t0;
         t1 = fe_sq t0;
         t1 = (fe_sq ^^ 49) t1;
         t1 = fe_mul t1 t0;
         t2 = fe_sq t1;
         t2 = (fe_sq ^^ 99) t2;
         t1 = fe_mul t2 t1;
         t1 = (fe_sq ^^ 50) t1;
         t0 = fe_mul t1 t0;
         t0 = fe_sq t0;
         t0 = fe_sq t0;
         t0 = fe_mul t0 uv7;
         t0 = fe_mul t0 v3
     in fe_mul t0 u)"

section \<open>Powers through multiplications and squarings\<close>

locale field_powers =
  fixes vl :: "'a \<Rightarrow> int"
    and inp :: "'a \<Rightarrow> bool"
    and mul :: "'a \<Rightarrow> 'a \<Rightarrow> 'a"
    and sq :: "'a \<Rightarrow> 'a"
  assumes mul_vl: "inp f \<Longrightarrow> inp g \<Longrightarrow> eqp (vl (mul f g)) (vl f * vl g)"
    and mul_inp: "inp f \<Longrightarrow> inp g \<Longrightarrow> inp (mul f g)"
    and sq_vl: "inp f \<Longrightarrow> eqp (vl (sq f)) (vl f * vl f)"
    and sq_inp: "inp f \<Longrightarrow> inp (sq f)"
begin

text \<open>\<open>pw x n t\<close>: the operand \<open>t\<close> stands for the \<open>n\<close>-th power of \<open>x\<close>.\<close>

definition pw :: "int \<Rightarrow> nat \<Rightarrow> 'a \<Rightarrow> bool" where
  "pw x n t \<longleftrightarrow> inp t \<and> eqp (vl t) (x ^ n)"

lemma pw_base: "inp z \<Longrightarrow> eqp (vl z) x \<Longrightarrow> pw x 1 z"
  by (simp add: pw_def)

lemma pw_mul: "pw x n a \<Longrightarrow> pw x m b \<Longrightarrow> pw x (n + m) (mul a b)"
  unfolding pw_def power_add
  by (blast intro: mul_inp eqp_trans [OF mul_vl] eqp_mult)

lemma pw_sq: "pw x n a \<Longrightarrow> pw x (2 * n) (sq a)"
  unfolding pw_def mult_2 power_add
  by (blast intro: sq_inp eqp_trans [OF sq_vl] eqp_mult)

lemma pw_sqs: "pw x n a \<Longrightarrow> pw x (2 ^ k * n) ((sq ^^ k) a)"
proof (induction k)
  case 0
  then show ?case by simp
next
  case (Suc k)
  then show ?case using pw_sq [of x "2 ^ k * n" "(sq ^^ k) a"] by (simp add: ac_simps)
qed

text \<open>A run of squarings followed by a multiplication, the step of the addition chains.\<close>

lemma pw_run:
  assumes "pw x n a" "pw x m b"
  shows "pw x (2 ^ Suc k * n + m) (mul ((sq ^^ k) (sq a)) b)"
  using pw_mul [OF pw_sqs [OF pw_sq [OF assms(1)], of k] assms(2)] by (simp add: ac_simps)

lemma pw_D: "pw x n t \<Longrightarrow> eqp (vl t) (x ^ n)" "pw x n t \<Longrightarrow> inp t"
  by (simp_all add: pw_def)

end

interpretation fpow: field_powers fe_val fe_165_26 fe_mul fe_sq
  by unfold_locales
    (auto intro: fe_mul_val fe_sq_val fe_101_25_le(2) fe_mul_range fe_sq_range)

section \<open>Inversion\<close>

lemma fe_invert_pw:
  assumes "fe_165_26 z"
  shows "fpow.pw (fe_val z) (2 ^ 255 - 21) (fe_invert z)"
proof -
  define x where "x = fe_val z"
  have z: "fpow.pw x 1 z"
    unfolding x_def by (rule fpow.pw_base [OF assms eqp_refl])
  define a where "a = fe_sq z"
  have a: "fpow.pw x 2 a"
    unfolding a_def using fpow.pw_sq [OF z] by simp
  define b where "b = fe_mul z (fe_sq (fe_sq a))"
  have b: "fpow.pw x 9 b"
    unfolding b_def using fpow.pw_mul [OF z fpow.pw_sq [OF fpow.pw_sq [OF a]]] by simp
  define c where "c = fe_mul a b"
  have c: "fpow.pw x 11 c"
    unfolding c_def using fpow.pw_mul [OF a b] by simp
  define d where "d = fe_mul b (fe_sq c)"
  have d: "fpow.pw x (2 ^ 5 - 1) d"
    unfolding d_def using fpow.pw_mul [OF b fpow.pw_sq [OF c]] by simp
  define e where "e = fe_mul ((fe_sq ^^ 4) (fe_sq d)) d"
  have e: "fpow.pw x (2 ^ 10 - 1) e"
    unfolding e_def using fpow.pw_run [OF d d, of 4] by simp
  define f where "f = fe_mul ((fe_sq ^^ 9) (fe_sq e)) e"
  have f: "fpow.pw x (2 ^ 20 - 1) f"
    unfolding f_def using fpow.pw_run [OF e e, of 9] by simp
  define g where "g = fe_mul ((fe_sq ^^ 19) (fe_sq f)) f"
  have g: "fpow.pw x (2 ^ 40 - 1) g"
    unfolding g_def using fpow.pw_run [OF f f, of 19] by simp
  define h where "h = fe_mul ((fe_sq ^^ 9) (fe_sq g)) e"
  have h: "fpow.pw x (2 ^ 50 - 1) h"
    unfolding h_def using fpow.pw_run [OF g e, of 9] by simp
  define i where "i = fe_mul ((fe_sq ^^ 49) (fe_sq h)) h"
  have i: "fpow.pw x (2 ^ 100 - 1) i"
    unfolding i_def using fpow.pw_run [OF h h, of 49] by simp
  define j where "j = fe_mul ((fe_sq ^^ 99) (fe_sq i)) i"
  have j: "fpow.pw x (2 ^ 200 - 1) j"
    unfolding j_def using fpow.pw_run [OF i i, of 99] by simp
  define k where "k = fe_mul ((fe_sq ^^ 49) (fe_sq j)) h"
  have k: "fpow.pw x (2 ^ 250 - 1) k"
    unfolding k_def using fpow.pw_run [OF j h, of 49] by simp
  have "fe_invert z = fe_mul ((fe_sq ^^ 4) (fe_sq k)) c"
    unfolding fe_invert_def Let_def k_def j_def i_def h_def g_def f_def e_def d_def c_def b_def a_def ..
  then show ?thesis
    using fpow.pw_run [OF k c, of 4] by (simp add: x_def)
qed

lemma fe_invert_val: "fe_165_26 z \<Longrightarrow> eqp (fe_val (fe_invert z)) (fe_val z ^ (2 ^ 255 - 21))"
  by (rule fpow.pw_D [OF fe_invert_pw])

lemma fe_sqs_range: "fe_165_26 z \<Longrightarrow> fe_165_26 ((fe_sq ^^ k) z)"
  by (induction k) (auto intro: fe_sq_range fe_101_25_le)

lemma fe_invert_range: "fe_165_26 z \<Longrightarrow> fe_101_25 (fe_invert z)"
  unfolding fe_invert_def Let_def
  by (intro fe_mul_range fe_sqs_range fe_sq_range fe_101_25_le(2) [OF fe_mul_range]
      fe_101_25_le(2) [OF fe_sq_range])

section \<open>The power for square roots\<close>

lemma pow22523_pw:
  assumes "fe_165_26 w"
  defines "a \<equiv> fe_sq w"
  defines "b \<equiv> fe_mul w (fe_sq (fe_sq a))"
  defines "c \<equiv> fe_mul b (fe_sq (fe_mul a b))"
  defines "d \<equiv> fe_mul ((fe_sq ^^ 4) (fe_sq c)) c"
  defines "e \<equiv> fe_mul ((fe_sq ^^ 9) (fe_sq d)) d"
  defines "f \<equiv> fe_mul ((fe_sq ^^ 19) (fe_sq e)) e"
  defines "g \<equiv> fe_mul ((fe_sq ^^ 10) f) d"
  defines "h \<equiv> fe_mul ((fe_sq ^^ 49) (fe_sq g)) g"
  defines "i \<equiv> fe_mul ((fe_sq ^^ 99) (fe_sq h)) h"
  defines "j \<equiv> fe_mul ((fe_sq ^^ 50) i) g"
  shows "fpow.pw (fe_val w) (2 ^ 252 - 3) (fe_mul (fe_sq (fe_sq j)) w)"
proof -
  define x where "x = fe_val w"
  have w: "fpow.pw x 1 w"
    unfolding x_def by (rule fpow.pw_base [OF assms(1) eqp_refl])
  have a: "fpow.pw x 2 a"
    unfolding a_def using fpow.pw_sq [OF w] by simp
  have b: "fpow.pw x 9 b"
    unfolding b_def using fpow.pw_mul [OF w fpow.pw_sq [OF fpow.pw_sq [OF a]]] by simp
  have c: "fpow.pw x (2 ^ 5 - 1) c"
    unfolding c_def using fpow.pw_mul [OF b fpow.pw_sq [OF fpow.pw_mul [OF a b]]] by simp
  have d: "fpow.pw x (2 ^ 10 - 1) d"
    unfolding d_def using fpow.pw_run [OF c c, of 4] by simp
  have e: "fpow.pw x (2 ^ 20 - 1) e"
    unfolding e_def using fpow.pw_run [OF d d, of 9] by simp
  have f: "fpow.pw x (2 ^ 40 - 1) f"
    unfolding f_def using fpow.pw_run [OF e e, of 19] by simp
  have g: "fpow.pw x (2 ^ 50 - 1) g"
    unfolding g_def using fpow.pw_mul [OF fpow.pw_sqs [OF f, of 10] d] by simp
  have h: "fpow.pw x (2 ^ 100 - 1) h"
    unfolding h_def using fpow.pw_run [OF g g, of 49] by simp
  have i: "fpow.pw x (2 ^ 200 - 1) i"
    unfolding i_def using fpow.pw_run [OF h h, of 99] by simp
  have j: "fpow.pw x (2 ^ 250 - 1) j"
    unfolding j_def using fpow.pw_mul [OF fpow.pw_sqs [OF i, of 50] g] by simp
  show ?thesis
    using fpow.pw_mul [OF fpow.pw_sq [OF fpow.pw_sq [OF j]] w] by (simp add: x_def)
qed

lemma fe_divpowm1_val:
  assumes "fe_165_26 u" "fe_165_26 v"
  shows "eqp (fe_val (fe_divpowm1 u v))
     ((fe_val u * fe_val v ^ 7) ^ (2 ^ 252 - 3) * fe_val v ^ 3 * fe_val u)"
proof -
  note m = fe_101_25_le(2) [OF fe_mul_range] and s = fe_101_25_le(2) [OF fe_sq_range]
  define v3 where "v3 = fe_mul (fe_sq v) v"
  define w where "w = fe_mul (fe_mul (fe_sq v3) v) u"
  have v3: "fpow.pw (fe_val v) 3 v3"
    unfolding v3_def
    using fpow.pw_mul [OF fpow.pw_sq [OF fpow.pw_base [OF assms(2) eqp_refl]]
        fpow.pw_base [OF assms(2) eqp_refl]] by simp
  have v7: "fpow.pw (fe_val v) 7 (fe_mul (fe_sq v3) v)"
    using fpow.pw_mul [OF fpow.pw_sq [OF v3] fpow.pw_base [OF assms(2) eqp_refl]] by simp
  have w: "fe_165_26 w" "eqp (fe_val w) (fe_val u * fe_val v ^ 7)"
    unfolding w_def
    using m [OF fpow.pw_D(2) [OF v7] assms(1)]
      eqp_trans [OF fe_mul_val [OF fpow.pw_D(2) [OF v7] assms(1)] eqp_mult [OF fpow.pw_D(1) [OF v7] eqp_refl]]
    by (simp_all add: mult.commute)
  obtain t where t: "fe_divpowm1 u v = fe_mul (fe_mul t v3) u" "fpow.pw (fe_val w) (2 ^ 252 - 3) t"
    using pow22523_pw [OF w(1)]
    unfolding fe_divpowm1_def Let_def v3_def [symmetric] w_def [symmetric] by blast
  have p: "fe_165_26 t" "eqp (fe_val t) ((fe_val u * fe_val v ^ 7) ^ (2 ^ 252 - 3))"
    using fpow.pw_D [OF t(2)] eqp_power [OF w(2)] by (blast intro: eqp_trans)+
  have "eqp (fe_val (fe_mul t v3)) ((fe_val u * fe_val v ^ 7) ^ (2 ^ 252 - 3) * fe_val v ^ 3)"
    by (rule eqp_trans [OF fe_mul_val [OF p(1) fpow.pw_D(2) [OF v3]]
          eqp_mult [OF p(2) fpow.pw_D(1) [OF v3]]])
  then show ?thesis
    unfolding t(1)
    by (rule eqp_trans [OF fe_mul_val [OF m [OF p(1) fpow.pw_D(2) [OF v3]] assms(1)]
          eqp_mult [OF _ eqp_refl]])
qed

lemma fe_divpowm1_range:
  assumes "fe_165_26 u" "fe_165_26 v"
  shows "fe_101_25 (fe_divpowm1 u v)"
  unfolding fe_divpowm1_def Let_def
  by (intro fe_mul_range fe_sqs_range fe_sq_range fe_101_25_le(2) [OF fe_mul_range]
      fe_101_25_le(2) [OF fe_sq_range] assms)

end
