(* ===== verification/Fe_Bytes.thy ===== *)
theory Fe_Bytes
  imports Fe_Mul
begin

text \<open>
  Bytes and field elements: the little-endian loads \<^verbatim>\<open>load_3\<close> and \<^verbatim>\<open>load_4\<close>, the
  canonical encoding \<^verbatim>\<open>fe_tobytes\<close> with the predicates built on it
  (\<^verbatim>\<open>fe_isnegative\<close>, \<^verbatim>\<open>fe_isnonzero\<close>), and the decoding that
  \<^verbatim>\<open>ge_frombytes_vartime\<close> and \<^verbatim>\<open>ge_fromfe_frombytes_vartime\<close> start with.

  A pointer into a buffer is the buffer and an offset.
\<close>

section \<open>Loads\<close>

definition load_3 :: "byte list \<Rightarrow> nat \<Rightarrow> int" where
  "load_3 s k =
    (let result = uint (s ! k);
         result = result OR push_bit 8 (uint (s ! (k + 1)));
         result = result OR push_bit 16 (uint (s ! (k + 2)))
     in result)"

definition load_4 :: "byte list \<Rightarrow> nat \<Rightarrow> int" where
  "load_4 s k =
    (let result = uint (s ! k);
         result = result OR push_bit 8 (uint (s ! (k + 1)));
         result = result OR push_bit 16 (uint (s ! (k + 2)));
         result = result OR push_bit 24 (uint (s ! (k + 3)))
     in result)"

lemma uint_byte_less: "uint (b :: byte) < 256"
  using uint_lt2p [of b] by simp

lemma load_3_sum: "load_3 s k = uint (s ! k) + 256 * uint (s ! (k + 1)) + 65536 * uint (s ! (k + 2))"
proof -
  note lt = uint_byte_less [of "s ! k"] uint_byte_less [of "s ! (k + 1)"]
  have "uint (s ! k) OR push_bit 8 (uint (s ! (k + 1))) = uint (s ! k) + 256 * uint (s ! (k + 1))"
    using or_push_bit [of "uint (s ! k)" 8] lt by simp
  moreover have "uint (s ! k) + 256 * uint (s ! (k + 1)) < 2 ^ 16"
    using lt by simp
  ultimately show ?thesis
    unfolding load_3_def Let_def by (simp only: or_push_bit) (simp add: or_push_bit)
qed

lemma load_4_sum:
  "load_4 s k = load_3 s k + 16777216 * uint (s ! (k + 3))"
proof -
  note lt = uint_byte_less [of "s ! k"] uint_byte_less [of "s ! (k + 1)"] uint_byte_less [of "s ! (k + 2)"]
  have "0 \<le> load_3 s k" "load_3 s k < 2 ^ 24"
    using lt by (simp_all add: load_3_sum)
  then show ?thesis
    using or_push_bit [of "load_3 s k" 24] by (simp add: load_4_def load_3_def Let_def)
qed

lemma window_3: "k + 3 \<le> length s \<Longrightarrow> take 3 (drop k s) = [s ! k, s ! (k + 1), s ! (k + 2)]"
  by (auto simp: list_eq_iff_nth_eq nth_Cons' eval_nat_numeral less_Suc_eq)

lemma window_4: "k + 4 \<le> length s \<Longrightarrow> take 4 (drop k s) = [s ! k, s ! (k + 1), s ! (k + 2), s ! (k + 3)]"
  by (auto simp: list_eq_iff_nth_eq nth_Cons' eval_nat_numeral less_Suc_eq)

lemma load_3_window:
  assumes "k + 3 \<le> length s"
  shows "load_3 s k = le_val s div 256 ^ k mod 2 ^ 24"
  using le_val_window [OF assms] by (simp add: window_3 [OF assms] load_3_sum)

lemma load_4_window:
  assumes "k + 4 \<le> length s"
  shows "load_4 s k = le_val s div 256 ^ k mod 2 ^ 32"
  using le_val_window [OF assms] by (simp add: window_4 [OF assms] load_4_sum load_3_sum)

section \<open>The canonical encoding\<close>

text \<open>A carry on \<^verbatim>\<open>int32_t\<close> variables.\<close>

definition carry_down32 :: "nat \<Rightarrow> int \<Rightarrow> int \<Rightarrow> int \<times> int" where
  "carry_down32 k lo hi =
     (let c = drop_bit k lo
      in (i32 (lo - i32 (push_bit k c)), i32 (hi + c)))"

definition fe_quotient :: "fe \<Rightarrow> int" where
  "fe_quotient h =
    (case h of Fe h0 h1 h2 h3 h4 h5 h6 h7 h8 h9 \<Rightarrow>
     let q = drop_bit 25 (i32 (i32 (19 * h9) + push_bit 24 1));
         q = drop_bit 26 (i32 (h0 + q));
         q = drop_bit 25 (i32 (h1 + q));
         q = drop_bit 26 (i32 (h2 + q));
         q = drop_bit 25 (i32 (h3 + q));
         q = drop_bit 26 (i32 (h4 + q));
         q = drop_bit 25 (i32 (h5 + q));
         q = drop_bit 26 (i32 (h6 + q));
         q = drop_bit 25 (i32 (h7 + q));
         q = drop_bit 26 (i32 (h8 + q));
         q = drop_bit 25 (i32 (h9 + q))
     in q)"

definition fe_reduced :: "fe \<Rightarrow> int \<Rightarrow> fe" where
  "fe_reduced h q =
    (case h of Fe h0 h1 h2 h3 h4 h5 h6 h7 h8 h9 \<Rightarrow>
     let h0 = i32 (h0 + i32 (19 * q));
         (h0, h1) = carry_down32 26 h0 h1;
         (h1, h2) = carry_down32 25 h1 h2;
         (h2, h3) = carry_down32 26 h2 h3;
         (h3, h4) = carry_down32 25 h3 h4;
         (h4, h5) = carry_down32 26 h4 h5;
         (h5, h6) = carry_down32 25 h5 h6;
         (h6, h7) = carry_down32 26 h6 h7;
         (h7, h8) = carry_down32 25 h7 h8;
         (h8, h9) = carry_down32 26 h8 h9;
         carry9 = drop_bit 25 h9;
         h9 = i32 (h9 - i32 (push_bit 25 carry9))
     in Fe h0 h1 h2 h3 h4 h5 h6 h7 h8 h9)"

definition fe_store :: "fe \<Rightarrow> byte list" where
  "fe_store h =
    (case h of Fe h0 h1 h2 h3 h4 h5 h6 h7 h8 h9 \<Rightarrow>
     [word_of_int (drop_bit 0 h0),
       word_of_int (drop_bit 8 h0),
       word_of_int (drop_bit 16 h0),
       word_of_int (drop_bit 24 h0 OR i32 (push_bit 2 h1)),
       word_of_int (drop_bit 6 h1),
       word_of_int (drop_bit 14 h1),
       word_of_int (drop_bit 22 h1 OR i32 (push_bit 3 h2)),
       word_of_int (drop_bit 5 h2),
       word_of_int (drop_bit 13 h2),
       word_of_int (drop_bit 21 h2 OR i32 (push_bit 5 h3)),
       word_of_int (drop_bit 3 h3),
       word_of_int (drop_bit 11 h3),
       word_of_int (drop_bit 19 h3 OR i32 (push_bit 6 h4)),
       word_of_int (drop_bit 2 h4),
       word_of_int (drop_bit 10 h4),
       word_of_int (drop_bit 18 h4),
       word_of_int (drop_bit 0 h5),
       word_of_int (drop_bit 8 h5),
       word_of_int (drop_bit 16 h5),
       word_of_int (drop_bit 24 h5 OR i32 (push_bit 1 h6)),
       word_of_int (drop_bit 7 h6),
       word_of_int (drop_bit 15 h6),
       word_of_int (drop_bit 23 h6 OR i32 (push_bit 3 h7)),
       word_of_int (drop_bit 5 h7),
       word_of_int (drop_bit 13 h7),
       word_of_int (drop_bit 21 h7 OR i32 (push_bit 4 h8)),
       word_of_int (drop_bit 4 h8),
       word_of_int (drop_bit 12 h8),
       word_of_int (drop_bit 20 h8 OR i32 (push_bit 6 h9)),
       word_of_int (drop_bit 2 h9),
       word_of_int (drop_bit 10 h9),
       word_of_int (drop_bit 18 h9)])"

definition fe_tobytes :: "fe \<Rightarrow> byte list" where
  "fe_tobytes h = fe_store (fe_reduced h (fe_quotient h))"

definition fe_isnegative :: "fe \<Rightarrow> int" where
  "fe_isnegative f = (let s = fe_tobytes f in uint (s ! 0) AND 1)"

definition fe_isnonzero :: "fe \<Rightarrow> int" where
  "fe_isnonzero f =
    (let s = fe_tobytes f
     in i32 (drop_bit 8 (i32 (uint (foldl (OR) 0 s) - 1)) + 1))"

lemma div_bounds:
  fixes m x :: int
  assumes "0 < m"
  shows "m * (x div m) \<le> x" and "x < m * (x div m) + m"
  using mult_div_mod_eq [of m x] pos_mod_sign [OF assms, of x] pos_mod_bound [OF assms, of x]
  by linarith+

text \<open>
  The quotient: a cascade of floor divisions is one floor division, of the value plus the
  rounding term \<open>q0\<close>.
\<close>

lemma fe_quotient_spec:
  assumes "fe_165_26 h"
  obtains q0 R where "2 ^ 255 * fe_quotient h = fe_val h + q0 - R" and "0 \<le> R" and "R < 2 ^ 255"
    and "19 * (case h of Fe h0 h1 h2 h3 h4 h5 h6 h7 h8 h9 \<Rightarrow> h9) - 2 ^ 24 < 2 ^ 25 * q0"
    and "2 ^ 25 * q0 \<le> 19 * (case h of Fe h0 h1 h2 h3 h4 h5 h6 h7 h8 h9 \<Rightarrow> h9) + 2 ^ 24"
proof -
  obtain h0 h1 h2 h3 h4 h5 h6 h7 h8 h9 where h: "h = Fe h0 h1 h2 h3 h4 h5 h6 h7 h8 h9"
    by (cases h)
  from assms have bd0: "- 110729625 \<le> h0" "h0 \<le> 110729625" and bd1: "- 55364812 \<le> h1" "h1 \<le> 55364812" and bd2: "- 110729625 \<le> h2" "h2 \<le> 110729625" and bd3: "- 55364812 \<le> h3" "h3 \<le> 55364812" and bd4: "- 110729625 \<le> h4" "h4 \<le> 110729625" and bd5: "- 55364812 \<le> h5" "h5 \<le> 55364812" and bd6: "- 110729625 \<le> h6" "h6 \<le> 110729625" and bd7: "- 55364812 \<le> h7" "h7 \<le> 55364812" and bd8: "- 110729625 \<le> h8" "h8 \<le> 110729625" and bd9: "- 55364812 \<le> h9" "h9 \<le> 55364812"
    unfolding h fe_ranges by (simp_all add: bnd_def abs_le_iff)
  define q0 where "q0 = (19 * h9 + 16777216) div 33554432"
  have q0: "19 * h9 - 16777216 < 33554432 * q0" "33554432 * q0 \<le> 19 * h9 + 16777216"
    using div_bounds [of 33554432 "19 * h9 + 16777216"] unfolding q0_def by simp_all
  have bq0: "- 40 \<le> q0" "q0 \<le> 40"
    using q0 bd9 by linarith+
  define q1 where "q1 = (h0 + q0) div 67108864"
  define r0 where "r0 = (h0 + q0) mod 67108864"
  have q1: "h0 + q0 = 67108864 * q1 + r0" "0 \<le> r0" "r0 < 67108864"
    unfolding q1_def r0_def by simp_all
  have bq1: "- 40 \<le> q1" "q1 \<le> 40"
    using q1 bq0 bd0 by linarith+
  have s1: "drop_bit 26 (i32 (h0 + q0)) = q1"
    unfolding q1_def using bd0 bq0 by (simp add: drop_bit_eq_div i32_id)
  define q2 where "q2 = (h1 + q1) div 33554432"
  define r1 where "r1 = (h1 + q1) mod 33554432"
  have q2: "h1 + q1 = 33554432 * q2 + r1" "0 \<le> r1" "r1 < 33554432"
    unfolding q2_def r1_def by simp_all
  have bq2: "- 40 \<le> q2" "q2 \<le> 40"
    using q2 bq1 bd1 by linarith+
  have s2: "drop_bit 25 (i32 (h1 + q1)) = q2"
    unfolding q2_def using bd1 bq1 by (simp add: drop_bit_eq_div i32_id)
  define q3 where "q3 = (h2 + q2) div 67108864"
  define r2 where "r2 = (h2 + q2) mod 67108864"
  have q3: "h2 + q2 = 67108864 * q3 + r2" "0 \<le> r2" "r2 < 67108864"
    unfolding q3_def r2_def by simp_all
  have bq3: "- 40 \<le> q3" "q3 \<le> 40"
    using q3 bq2 bd2 by linarith+
  have s3: "drop_bit 26 (i32 (h2 + q2)) = q3"
    unfolding q3_def using bd2 bq2 by (simp add: drop_bit_eq_div i32_id)
  define q4 where "q4 = (h3 + q3) div 33554432"
  define r3 where "r3 = (h3 + q3) mod 33554432"
  have q4: "h3 + q3 = 33554432 * q4 + r3" "0 \<le> r3" "r3 < 33554432"
    unfolding q4_def r3_def by simp_all
  have bq4: "- 40 \<le> q4" "q4 \<le> 40"
    using q4 bq3 bd3 by linarith+
  have s4: "drop_bit 25 (i32 (h3 + q3)) = q4"
    unfolding q4_def using bd3 bq3 by (simp add: drop_bit_eq_div i32_id)
  define q5 where "q5 = (h4 + q4) div 67108864"
  define r4 where "r4 = (h4 + q4) mod 67108864"
  have q5: "h4 + q4 = 67108864 * q5 + r4" "0 \<le> r4" "r4 < 67108864"
    unfolding q5_def r4_def by simp_all
  have bq5: "- 40 \<le> q5" "q5 \<le> 40"
    using q5 bq4 bd4 by linarith+
  have s5: "drop_bit 26 (i32 (h4 + q4)) = q5"
    unfolding q5_def using bd4 bq4 by (simp add: drop_bit_eq_div i32_id)
  define q6 where "q6 = (h5 + q5) div 33554432"
  define r5 where "r5 = (h5 + q5) mod 33554432"
  have q6: "h5 + q5 = 33554432 * q6 + r5" "0 \<le> r5" "r5 < 33554432"
    unfolding q6_def r5_def by simp_all
  have bq6: "- 40 \<le> q6" "q6 \<le> 40"
    using q6 bq5 bd5 by linarith+
  have s6: "drop_bit 25 (i32 (h5 + q5)) = q6"
    unfolding q6_def using bd5 bq5 by (simp add: drop_bit_eq_div i32_id)
  define q7 where "q7 = (h6 + q6) div 67108864"
  define r6 where "r6 = (h6 + q6) mod 67108864"
  have q7: "h6 + q6 = 67108864 * q7 + r6" "0 \<le> r6" "r6 < 67108864"
    unfolding q7_def r6_def by simp_all
  have bq7: "- 40 \<le> q7" "q7 \<le> 40"
    using q7 bq6 bd6 by linarith+
  have s7: "drop_bit 26 (i32 (h6 + q6)) = q7"
    unfolding q7_def using bd6 bq6 by (simp add: drop_bit_eq_div i32_id)
  define q8 where "q8 = (h7 + q7) div 33554432"
  define r7 where "r7 = (h7 + q7) mod 33554432"
  have q8: "h7 + q7 = 33554432 * q8 + r7" "0 \<le> r7" "r7 < 33554432"
    unfolding q8_def r7_def by simp_all
  have bq8: "- 40 \<le> q8" "q8 \<le> 40"
    using q8 bq7 bd7 by linarith+
  have s8: "drop_bit 25 (i32 (h7 + q7)) = q8"
    unfolding q8_def using bd7 bq7 by (simp add: drop_bit_eq_div i32_id)
  define q9 where "q9 = (h8 + q8) div 67108864"
  define r8 where "r8 = (h8 + q8) mod 67108864"
  have q9: "h8 + q8 = 67108864 * q9 + r8" "0 \<le> r8" "r8 < 67108864"
    unfolding q9_def r8_def by simp_all
  have bq9: "- 40 \<le> q9" "q9 \<le> 40"
    using q9 bq8 bd8 by linarith+
  have s9: "drop_bit 26 (i32 (h8 + q8)) = q9"
    unfolding q9_def using bd8 bq8 by (simp add: drop_bit_eq_div i32_id)
  define q10 where "q10 = (h9 + q9) div 33554432"
  define r9 where "r9 = (h9 + q9) mod 33554432"
  have q10: "h9 + q9 = 33554432 * q10 + r9" "0 \<le> r9" "r9 < 33554432"
    unfolding q10_def r9_def by simp_all
  have bq10: "- 40 \<le> q10" "q10 \<le> 40"
    using q10 bq9 bd9 by linarith+
  have s10: "drop_bit 25 (i32 (h9 + q9)) = q10"
    unfolding q10_def using bd9 bq9 by (simp add: drop_bit_eq_div i32_id)
  have s0: "drop_bit 25 (i32 (i32 (19 * h9) + push_bit 24 1)) = q0"
    unfolding q0_def using bd9 by (simp add: drop_bit_eq_div push_bit_eq_mult i32_id)
  have Q: "fe_quotient h = q10"
    unfolding h fe_quotient_def fe.case Let_def s0 s1 s2 s3 s4 s5 s6 s7 s8 s9 s10 ..
  define R where "R = fe_val (Fe r0 r1 r2 r3 r4 r5 r6 r7 r8 r9)"
  have "2 ^ 255 * fe_quotient h = fe_val h + q0 - R"
    unfolding Q R_def unfolding h fe_val.simps
    using q1(1) q2(1) q3(1) q4(1) q5(1) q6(1) q7(1) q8(1) q9(1) q10(1) by simp
  moreover have "0 \<le> R" "R < 2 ^ 255"
    unfolding R_def fe_val.simps using q1(2,3) q2(2,3) q3(2,3) q4(2,3) q5(2,3) q6(2,3) q7(2,3) q8(2,3) q9(2,3) q10(2,3) by simp_all
  ultimately show thesis
    using q0 by (intro that [of q0 R]) (simp_all add: h)
qed

text \<open>A canonical digit string: every limb has its nominal width.\<close>

fun fe_digits :: "fe \<Rightarrow> bool" where
  "fe_digits (Fe h0 h1 h2 h3 h4 h5 h6 h7 h8 h9) \<longleftrightarrow>
     0 \<le> h0 \<and> h0 < 67108864 \<and>
     0 \<le> h1 \<and> h1 < 33554432 \<and>
     0 \<le> h2 \<and> h2 < 67108864 \<and>
     0 \<le> h3 \<and> h3 < 33554432 \<and>
     0 \<le> h4 \<and> h4 < 67108864 \<and>
     0 \<le> h5 \<and> h5 < 33554432 \<and>
     0 \<le> h6 \<and> h6 < 67108864 \<and>
     0 \<le> h7 \<and> h7 < 33554432 \<and>
     0 \<le> h8 \<and> h8 < 67108864 \<and>
     0 \<le> h9 \<and> h9 < 33554432"

lemma fe_store_val:
  assumes "fe_digits h"
  shows "le_val (fe_store h) = fe_val h" and "length (fe_store h) = 32"
proof -
  obtain h0 h1 h2 h3 h4 h5 h6 h7 h8 h9 where h: "h = Fe h0 h1 h2 h3 h4 h5 h6 h7 h8 h9"
    by (cases h)
  from assms have bd0: "0 \<le> h0" "h0 < 67108864" and bd1: "0 \<le> h1" "h1 < 33554432" and bd2: "0 \<le> h2" "h2 < 67108864" and bd3: "0 \<le> h3" "h3 < 33554432" and bd4: "0 \<le> h4" "h4 < 67108864" and bd5: "0 \<le> h5" "h5 < 33554432" and bd6: "0 \<le> h6" "h6 < 67108864" and bd7: "0 \<le> h7" "h7 < 33554432" and bd8: "0 \<le> h8" "h8 < 67108864" and bd9: "0 \<le> h9" "h9 < 33554432"
    unfolding h by simp_all
  define h0_0 where "h0_0 = h0 mod 256"
  define h0_8 where "h0_8 = h0 div 256 mod 256"
  define h0_16 where "h0_16 = h0 div 65536 mod 256"
  define h0_24 where "h0_24 = h0 div 16777216"
  define h1_0 where "h1_0 = h1 mod 64"
  define h1_6 where "h1_6 = h1 div 64 mod 256"
  define h1_14 where "h1_14 = h1 div 16384 mod 256"
  define h1_22 where "h1_22 = h1 div 4194304"
  define h2_0 where "h2_0 = h2 mod 32"
  define h2_5 where "h2_5 = h2 div 32 mod 256"
  define h2_13 where "h2_13 = h2 div 8192 mod 256"
  define h2_21 where "h2_21 = h2 div 2097152"
  define h3_0 where "h3_0 = h3 mod 8"
  define h3_3 where "h3_3 = h3 div 8 mod 256"
  define h3_11 where "h3_11 = h3 div 2048 mod 256"
  define h3_19 where "h3_19 = h3 div 524288"
  define h4_0 where "h4_0 = h4 mod 4"
  define h4_2 where "h4_2 = h4 div 4 mod 256"
  define h4_10 where "h4_10 = h4 div 1024 mod 256"
  define h4_18 where "h4_18 = h4 div 262144"
  define h5_0 where "h5_0 = h5 mod 256"
  define h5_8 where "h5_8 = h5 div 256 mod 256"
  define h5_16 where "h5_16 = h5 div 65536 mod 256"
  define h5_24 where "h5_24 = h5 div 16777216"
  define h6_0 where "h6_0 = h6 mod 128"
  define h6_7 where "h6_7 = h6 div 128 mod 256"
  define h6_15 where "h6_15 = h6 div 32768 mod 256"
  define h6_23 where "h6_23 = h6 div 8388608"
  define h7_0 where "h7_0 = h7 mod 32"
  define h7_5 where "h7_5 = h7 div 32 mod 256"
  define h7_13 where "h7_13 = h7 div 8192 mod 256"
  define h7_21 where "h7_21 = h7 div 2097152"
  define h8_0 where "h8_0 = h8 mod 16"
  define h8_4 where "h8_4 = h8 div 16 mod 256"
  define h8_12 where "h8_12 = h8 div 4096 mod 256"
  define h8_20 where "h8_20 = h8 div 1048576"
  define h9_0 where "h9_0 = h9 mod 4"
  define h9_2 where "h9_2 = h9 div 4 mod 256"
  define h9_10 where "h9_10 = h9 div 1024 mod 256"
  define h9_18 where "h9_18 = h9 div 262144"
  have h0e: "h0 = h0_0 + 256 * h0_8 + 65536 * h0_16 + 16777216 * h0_24"
    using mult_div_mod_eq [of 256 h0] split_byte [of h0 8, simplified] split_byte [of h0 16, simplified]
    unfolding h0_0_def h0_8_def h0_16_def h0_24_def by linarith
  have h1e: "h1 = h1_0 + 64 * h1_6 + 16384 * h1_14 + 4194304 * h1_22"
    using mult_div_mod_eq [of 64 h1] split_byte [of h1 6, simplified] split_byte [of h1 14, simplified]
    unfolding h1_0_def h1_6_def h1_14_def h1_22_def by linarith
  have h2e: "h2 = h2_0 + 32 * h2_5 + 8192 * h2_13 + 2097152 * h2_21"
    using mult_div_mod_eq [of 32 h2] split_byte [of h2 5, simplified] split_byte [of h2 13, simplified]
    unfolding h2_0_def h2_5_def h2_13_def h2_21_def by linarith
  have h3e: "h3 = h3_0 + 8 * h3_3 + 2048 * h3_11 + 524288 * h3_19"
    using mult_div_mod_eq [of 8 h3] split_byte [of h3 3, simplified] split_byte [of h3 11, simplified]
    unfolding h3_0_def h3_3_def h3_11_def h3_19_def by linarith
  have h4e: "h4 = h4_0 + 4 * h4_2 + 1024 * h4_10 + 262144 * h4_18"
    using mult_div_mod_eq [of 4 h4] split_byte [of h4 2, simplified] split_byte [of h4 10, simplified]
    unfolding h4_0_def h4_2_def h4_10_def h4_18_def by linarith
  have h5e: "h5 = h5_0 + 256 * h5_8 + 65536 * h5_16 + 16777216 * h5_24"
    using mult_div_mod_eq [of 256 h5] split_byte [of h5 8, simplified] split_byte [of h5 16, simplified]
    unfolding h5_0_def h5_8_def h5_16_def h5_24_def by linarith
  have h6e: "h6 = h6_0 + 128 * h6_7 + 32768 * h6_15 + 8388608 * h6_23"
    using mult_div_mod_eq [of 128 h6] split_byte [of h6 7, simplified] split_byte [of h6 15, simplified]
    unfolding h6_0_def h6_7_def h6_15_def h6_23_def by linarith
  have h7e: "h7 = h7_0 + 32 * h7_5 + 8192 * h7_13 + 2097152 * h7_21"
    using mult_div_mod_eq [of 32 h7] split_byte [of h7 5, simplified] split_byte [of h7 13, simplified]
    unfolding h7_0_def h7_5_def h7_13_def h7_21_def by linarith
  have h8e: "h8 = h8_0 + 16 * h8_4 + 4096 * h8_12 + 1048576 * h8_20"
    using mult_div_mod_eq [of 16 h8] split_byte [of h8 4, simplified] split_byte [of h8 12, simplified]
    unfolding h8_0_def h8_4_def h8_12_def h8_20_def by linarith
  have h9e: "h9 = h9_0 + 4 * h9_2 + 1024 * h9_10 + 262144 * h9_18"
    using mult_div_mod_eq [of 4 h9] split_byte [of h9 2, simplified] split_byte [of h9 10, simplified]
    unfolding h9_0_def h9_2_def h9_10_def h9_18_def by linarith
  have b0: "uint (word_of_int (drop_bit 0 h0) :: byte) = h0_0"
    unfolding h0_0_def byte_one by simp
  have b1: "uint (word_of_int (drop_bit 8 h0) :: byte) = h0_8"
    unfolding h0_8_def byte_one by simp
  have b2: "uint (word_of_int (drop_bit 16 h0) :: byte) = h0_16"
    unfolding h0_16_def byte_one by simp
  have b3: "uint (word_of_int (drop_bit 24 h0 OR i32 (push_bit 2 h1)) :: byte) = h0_24 + 4 * h1_0"
    unfolding h0_24_def h1_0_def using byte_two [of h0 24 2 h1] bd0 by (simp add: byte_or_i32)
  have b4: "uint (word_of_int (drop_bit 6 h1) :: byte) = h1_6"
    unfolding h1_6_def byte_one by simp
  have b5: "uint (word_of_int (drop_bit 14 h1) :: byte) = h1_14"
    unfolding h1_14_def byte_one by simp
  have b6: "uint (word_of_int (drop_bit 22 h1 OR i32 (push_bit 3 h2)) :: byte) = h1_22 + 8 * h2_0"
    unfolding h1_22_def h2_0_def using byte_two [of h1 22 3 h2] bd1 by (simp add: byte_or_i32)
  have b7: "uint (word_of_int (drop_bit 5 h2) :: byte) = h2_5"
    unfolding h2_5_def byte_one by simp
  have b8: "uint (word_of_int (drop_bit 13 h2) :: byte) = h2_13"
    unfolding h2_13_def byte_one by simp
  have b9: "uint (word_of_int (drop_bit 21 h2 OR i32 (push_bit 5 h3)) :: byte) = h2_21 + 32 * h3_0"
    unfolding h2_21_def h3_0_def using byte_two [of h2 21 5 h3] bd2 by (simp add: byte_or_i32)
  have b10: "uint (word_of_int (drop_bit 3 h3) :: byte) = h3_3"
    unfolding h3_3_def byte_one by simp
  have b11: "uint (word_of_int (drop_bit 11 h3) :: byte) = h3_11"
    unfolding h3_11_def byte_one by simp
  have b12: "uint (word_of_int (drop_bit 19 h3 OR i32 (push_bit 6 h4)) :: byte) = h3_19 + 64 * h4_0"
    unfolding h3_19_def h4_0_def using byte_two [of h3 19 6 h4] bd3 by (simp add: byte_or_i32)
  have b13: "uint (word_of_int (drop_bit 2 h4) :: byte) = h4_2"
    unfolding h4_2_def byte_one by simp
  have b14: "uint (word_of_int (drop_bit 10 h4) :: byte) = h4_10"
    unfolding h4_10_def byte_one by simp
  have b15: "uint (word_of_int (drop_bit 18 h4) :: byte) = h4_18"
    unfolding h4_18_def byte_one using top_byte [of h4 18] bd4 by simp
  have b16: "uint (word_of_int (drop_bit 0 h5) :: byte) = h5_0"
    unfolding h5_0_def byte_one by simp
  have b17: "uint (word_of_int (drop_bit 8 h5) :: byte) = h5_8"
    unfolding h5_8_def byte_one by simp
  have b18: "uint (word_of_int (drop_bit 16 h5) :: byte) = h5_16"
    unfolding h5_16_def byte_one by simp
  have b19: "uint (word_of_int (drop_bit 24 h5 OR i32 (push_bit 1 h6)) :: byte) = h5_24 + 2 * h6_0"
    unfolding h5_24_def h6_0_def using byte_two [of h5 24 1 h6] bd5 by (simp add: byte_or_i32)
  have b20: "uint (word_of_int (drop_bit 7 h6) :: byte) = h6_7"
    unfolding h6_7_def byte_one by simp
  have b21: "uint (word_of_int (drop_bit 15 h6) :: byte) = h6_15"
    unfolding h6_15_def byte_one by simp
  have b22: "uint (word_of_int (drop_bit 23 h6 OR i32 (push_bit 3 h7)) :: byte) = h6_23 + 8 * h7_0"
    unfolding h6_23_def h7_0_def using byte_two [of h6 23 3 h7] bd6 by (simp add: byte_or_i32)
  have b23: "uint (word_of_int (drop_bit 5 h7) :: byte) = h7_5"
    unfolding h7_5_def byte_one by simp
  have b24: "uint (word_of_int (drop_bit 13 h7) :: byte) = h7_13"
    unfolding h7_13_def byte_one by simp
  have b25: "uint (word_of_int (drop_bit 21 h7 OR i32 (push_bit 4 h8)) :: byte) = h7_21 + 16 * h8_0"
    unfolding h7_21_def h8_0_def using byte_two [of h7 21 4 h8] bd7 by (simp add: byte_or_i32)
  have b26: "uint (word_of_int (drop_bit 4 h8) :: byte) = h8_4"
    unfolding h8_4_def byte_one by simp
  have b27: "uint (word_of_int (drop_bit 12 h8) :: byte) = h8_12"
    unfolding h8_12_def byte_one by simp
  have b28: "uint (word_of_int (drop_bit 20 h8 OR i32 (push_bit 6 h9)) :: byte) = h8_20 + 64 * h9_0"
    unfolding h8_20_def h9_0_def using byte_two [of h8 20 6 h9] bd8 by (simp add: byte_or_i32)
  have b29: "uint (word_of_int (drop_bit 2 h9) :: byte) = h9_2"
    unfolding h9_2_def byte_one by simp
  have b30: "uint (word_of_int (drop_bit 10 h9) :: byte) = h9_10"
    unfolding h9_10_def byte_one by simp
  have b31: "uint (word_of_int (drop_bit 18 h9) :: byte) = h9_18"
    unfolding h9_18_def byte_one using top_byte [of h9 18] bd9 by simp
  show "le_val (fe_store h) = fe_val h"
    unfolding h fe_store_def fe.case le_val.simps fe_val.simps b0 b1 b2 b3 b4 b5 b6 b7 b8 b9 b10 b11 b12 b13 b14 b15 b16 b17 b18 b19 b20 b21 b22 b23 b24 b25 b26 b27 b28 b29 b30 b31
    using h0e h1e h2e h3e h4e h5e h6e h7e h8e h9e by (simp add: algebra_simps)
  show "length (fe_store h) = 32"
    by (simp add: h fe_store_def)
qed

lemma carry_down32_step:
  assumes "bnd (2 ^ 29) lo" and "bnd (2 ^ 29) hi" and "0 < k" and "k \<le> 26"
  shows "carry_down32 k lo hi = (lo mod 2 ^ k, hi + lo div 2 ^ k)"
proof -
  have K: "2 ^ k \<le> (2 :: int) ^ 26"
    using assms(4) by (intro power_increasing) auto
  have "lo mod 2 ^ k < 2 ^ 26"
    by (rule less_le_trans [OF pos_mod_bound K]) simp
  then have m: "0 \<le> lo mod 2 ^ k" "lo mod 2 ^ k < 67108864"
    by simp_all
  have e: "lo = 2 ^ k * (lo div 2 ^ k) + lo mod 2 ^ k"
    by simp
  have "1 * \<bar>lo div 2 ^ k\<bar> \<le> 2 ^ k * \<bar>lo div 2 ^ k\<bar>"
    by (intro mult_right_mono) simp_all
  also have "\<dots> = \<bar>lo - lo mod 2 ^ k\<bar>"
    by (simp add: minus_mod_eq_mult_div abs_mult)
  also have "\<dots> \<le> 2 ^ 29 + 67108864"
    using m assms(1) unfolding bnd_def by linarith
  finally have c: "\<bar>lo div 2 ^ k\<bar> \<le> 2 ^ 29 + 67108864"
    by simp
  have p: "push_bit k (drop_bit k lo) = lo - lo mod 2 ^ k"
    by (simp add: push_bit_eq_mult drop_bit_eq_div minus_mod_eq_mult_div mult.commute)
  have "i32 (lo - lo mod 2 ^ k) = lo - lo mod 2 ^ k"
    by (rule i32_bnd [of "2 ^ 29 + 67108864"]) (use m assms(1) in \<open>unfold bnd_def, linarith\<close>, simp)
  moreover have "i32 (lo mod 2 ^ k) = lo mod 2 ^ k"
    by (rule i32_bnd [of "67108864"]) (use m in \<open>unfold bnd_def, linarith\<close>, simp)
  moreover have "i32 (hi + lo div 2 ^ k) = hi + lo div 2 ^ k"
    by (rule i32_bnd [of "2 ^ 29 + (2 ^ 29 + 67108864)"])
      (use c assms(2) in \<open>unfold bnd_def, simp_all\<close>)
  ultimately show ?thesis
    unfolding carry_down32_def Let_def p by (simp add: drop_bit_eq_div)
qed

lemma fe_digits_val: "fe_digits h \<Longrightarrow> 0 \<le> fe_val h" "fe_digits h \<Longrightarrow> fe_val h < 2 ^ 255"
  by (cases h, simp)+

lemma fe_reduced_spec:
  assumes "fe_165_26 h" and q: "- 40 \<le> q" "q \<le> 40"
  shows "fe_digits (fe_reduced h q)" and "fe_val (fe_reduced h q) = (fe_val h + 19 * q) mod 2 ^ 255"
proof -
  obtain h0 h1 h2 h3 h4 h5 h6 h7 h8 h9 where h: "h = Fe h0 h1 h2 h3 h4 h5 h6 h7 h8 h9"
    by (cases h)
  from assms have bd0: "- 110729625 \<le> h0" "h0 \<le> 110729625" and bd1: "- 55364812 \<le> h1" "h1 \<le> 55364812" and bd2: "- 110729625 \<le> h2" "h2 \<le> 110729625" and bd3: "- 55364812 \<le> h3" "h3 \<le> 55364812" and bd4: "- 110729625 \<le> h4" "h4 \<le> 110729625" and bd5: "- 55364812 \<le> h5" "h5 \<le> 55364812" and bd6: "- 110729625 \<le> h6" "h6 \<le> 110729625" and bd7: "- 55364812 \<le> h7" "h7 \<le> 55364812" and bd8: "- 110729625 \<le> h8" "h8 \<le> 110729625" and bd9: "- 55364812 \<le> h9" "h9 \<le> 55364812"
    unfolding h fe_ranges by (simp_all add: bnd_def abs_le_iff)
  define c0 where "c0 = (h0 + 19 * q) div 67108864"
  define d0 where "d0 = (h0 + 19 * q) mod 67108864"
  have e0: "h0 = 67108864 * c0 + d0 - 19 * q" "0 \<le> d0" "d0 < 67108864"
    unfolding c0_def d0_def by simp_all
  have bc0: "- 40 \<le> c0" "c0 \<le> 40"
    using e0 q bd0 by linarith+
  have s0: "carry_down32 26 (h0 + 19 * q) h1 = (d0, h1 + c0)"
    unfolding c0_def d0_def using q bd0 bd1
    by (subst carry_down32_step) (simp_all add: bnd_def abs_le_iff)
  define c1 where "c1 = (h1 + c0) div 33554432"
  define d1 where "d1 = (h1 + c0) mod 33554432"
  have e1: "h1 = 33554432 * c1 + d1 - c0" "0 \<le> d1" "d1 < 33554432"
    unfolding c1_def d1_def by simp_all
  have bc1: "- 40 \<le> c1" "c1 \<le> 40"
    using e1 bc0 bd1 by linarith+
  have s1: "carry_down32 25 (h1 + c0) h2 = (d1, h2 + c1)"
    unfolding c1_def d1_def using bc0 bd1 bd2
    by (subst carry_down32_step) (simp_all add: bnd_def abs_le_iff)
  define c2 where "c2 = (h2 + c1) div 67108864"
  define d2 where "d2 = (h2 + c1) mod 67108864"
  have e2: "h2 = 67108864 * c2 + d2 - c1" "0 \<le> d2" "d2 < 67108864"
    unfolding c2_def d2_def by simp_all
  have bc2: "- 40 \<le> c2" "c2 \<le> 40"
    using e2 bc1 bd2 by linarith+
  have s2: "carry_down32 26 (h2 + c1) h3 = (d2, h3 + c2)"
    unfolding c2_def d2_def using bc1 bd2 bd3
    by (subst carry_down32_step) (simp_all add: bnd_def abs_le_iff)
  define c3 where "c3 = (h3 + c2) div 33554432"
  define d3 where "d3 = (h3 + c2) mod 33554432"
  have e3: "h3 = 33554432 * c3 + d3 - c2" "0 \<le> d3" "d3 < 33554432"
    unfolding c3_def d3_def by simp_all
  have bc3: "- 40 \<le> c3" "c3 \<le> 40"
    using e3 bc2 bd3 by linarith+
  have s3: "carry_down32 25 (h3 + c2) h4 = (d3, h4 + c3)"
    unfolding c3_def d3_def using bc2 bd3 bd4
    by (subst carry_down32_step) (simp_all add: bnd_def abs_le_iff)
  define c4 where "c4 = (h4 + c3) div 67108864"
  define d4 where "d4 = (h4 + c3) mod 67108864"
  have e4: "h4 = 67108864 * c4 + d4 - c3" "0 \<le> d4" "d4 < 67108864"
    unfolding c4_def d4_def by simp_all
  have bc4: "- 40 \<le> c4" "c4 \<le> 40"
    using e4 bc3 bd4 by linarith+
  have s4: "carry_down32 26 (h4 + c3) h5 = (d4, h5 + c4)"
    unfolding c4_def d4_def using bc3 bd4 bd5
    by (subst carry_down32_step) (simp_all add: bnd_def abs_le_iff)
  define c5 where "c5 = (h5 + c4) div 33554432"
  define d5 where "d5 = (h5 + c4) mod 33554432"
  have e5: "h5 = 33554432 * c5 + d5 - c4" "0 \<le> d5" "d5 < 33554432"
    unfolding c5_def d5_def by simp_all
  have bc5: "- 40 \<le> c5" "c5 \<le> 40"
    using e5 bc4 bd5 by linarith+
  have s5: "carry_down32 25 (h5 + c4) h6 = (d5, h6 + c5)"
    unfolding c5_def d5_def using bc4 bd5 bd6
    by (subst carry_down32_step) (simp_all add: bnd_def abs_le_iff)
  define c6 where "c6 = (h6 + c5) div 67108864"
  define d6 where "d6 = (h6 + c5) mod 67108864"
  have e6: "h6 = 67108864 * c6 + d6 - c5" "0 \<le> d6" "d6 < 67108864"
    unfolding c6_def d6_def by simp_all
  have bc6: "- 40 \<le> c6" "c6 \<le> 40"
    using e6 bc5 bd6 by linarith+
  have s6: "carry_down32 26 (h6 + c5) h7 = (d6, h7 + c6)"
    unfolding c6_def d6_def using bc5 bd6 bd7
    by (subst carry_down32_step) (simp_all add: bnd_def abs_le_iff)
  define c7 where "c7 = (h7 + c6) div 33554432"
  define d7 where "d7 = (h7 + c6) mod 33554432"
  have e7: "h7 = 33554432 * c7 + d7 - c6" "0 \<le> d7" "d7 < 33554432"
    unfolding c7_def d7_def by simp_all
  have bc7: "- 40 \<le> c7" "c7 \<le> 40"
    using e7 bc6 bd7 by linarith+
  have s7: "carry_down32 25 (h7 + c6) h8 = (d7, h8 + c7)"
    unfolding c7_def d7_def using bc6 bd7 bd8
    by (subst carry_down32_step) (simp_all add: bnd_def abs_le_iff)
  define c8 where "c8 = (h8 + c7) div 67108864"
  define d8 where "d8 = (h8 + c7) mod 67108864"
  have e8: "h8 = 67108864 * c8 + d8 - c7" "0 \<le> d8" "d8 < 67108864"
    unfolding c8_def d8_def by simp_all
  have bc8: "- 40 \<le> c8" "c8 \<le> 40"
    using e8 bc7 bd8 by linarith+
  have s8: "carry_down32 26 (h8 + c7) h9 = (d8, h9 + c8)"
    unfolding c8_def d8_def using bc7 bd8 bd9
    by (subst carry_down32_step) (simp_all add: bnd_def abs_le_iff)
  define c9 where "c9 = (h9 + c8) div 33554432"
  define d9 where "d9 = (h9 + c8) mod 33554432"
  have e9: "h9 = 33554432 * c9 + d9 - c8" "0 \<le> d9" "d9 < 33554432"
    unfolding c9_def d9_def by simp_all
  have bc9: "- 40 \<le> c9" "c9 \<le> 40"
    using e9 bc8 bd9 by linarith+
  have i0: "i32 (h0 + i32 (19 * q)) = h0 + 19 * q"
    using q bd0 by (simp add: i32_id)
  have i9: "i32 (h9 + c8 - i32 (push_bit 25 (drop_bit 25 (h9 + c8)))) = d9"
  proof -
    have "h9 + c8 - 33554432 * c9 = d9"
      using e9 by simp
    then show ?thesis
      using bc9 e9(2,3) by (simp add: push_bit_eq_mult drop_bit_eq_div i32_id mult.commute flip: c9_def)
  qed
  have f: "fe_reduced h q = Fe d0 d1 d2 d3 d4 d5 d6 d7 d8 d9"
    unfolding h fe_reduced_def fe.case Let_def i0 s0 s1 s2 s3 s4 s5 s6 s7 s8 prod.case i9 ..
  show dig: "fe_digits (fe_reduced h q)"
    unfolding f using e0(2,3) e1(2,3) e2(2,3) e3(2,3) e4(2,3) e5(2,3) e6(2,3) e7(2,3) e8(2,3) e9(2,3) by simp
  have "fe_val h + 19 * q = 2 ^ 255 * c9 + fe_val (fe_reduced h q)"
    unfolding f unfolding h fe_val.simps e0(1) e1(1) e2(1) e3(1) e4(1) e5(1) e6(1) e7(1) e8(1) e9(1)
    by (simp add: algebra_simps)
  then have "(fe_val h + 19 * q) mod 2 ^ 255 = fe_val (fe_reduced h q) mod 2 ^ 255"
    by simp
  then show "fe_val (fe_reduced h q) = (fe_val h + 19 * q) mod 2 ^ 255"
    using fe_digits_val [OF dig] by simp
qed

text \<open>The quotient is \<open>\<lfloor>h / p\<rfloor>\<close>, so that what is stored is the residue of \<open>h\<close>.\<close>

lemma fe_quotient_div:
  assumes "fe_165_26 h"
  shows "fe_quotient h = fe_val h div fe_p" and "- 40 \<le> fe_quotient h" and "fe_quotient h \<le> 40"
proof -
  obtain h0 h1 h2 h3 h4 h5 h6 h7 h8 h9 where h: "h = Fe h0 h1 h2 h3 h4 h5 h6 h7 h8 h9"
    by (cases h)
  from assms have bd0: "- 110729625 \<le> h0" "h0 \<le> 110729625" and bd1: "- 55364812 \<le> h1" "h1 \<le> 55364812" and bd2: "- 110729625 \<le> h2" "h2 \<le> 110729625" and bd3: "- 55364812 \<le> h3" "h3 \<le> 55364812" and bd4: "- 110729625 \<le> h4" "h4 \<le> 110729625" and bd5: "- 55364812 \<le> h5" "h5 \<le> 55364812" and bd6: "- 110729625 \<le> h6" "h6 \<le> 110729625" and bd7: "- 55364812 \<le> h7" "h7 \<le> 55364812" and bd8: "- 110729625 \<le> h8" "h8 \<le> 110729625" and bd9: "- 55364812 \<le> h9" "h9 \<le> 55364812"
    unfolding h fe_ranges by (simp_all add: bnd_def abs_le_iff)
  define q where "q = fe_quotient h"
  obtain q0 R where e: "2 ^ 255 * q = fe_val h + q0 - R" and R: "0 \<le> R" "R < 2 ^ 255"
    and q0: "19 * h9 - 2 ^ 24 < 2 ^ 25 * q0" "2 ^ 25 * q0 \<le> 19 * h9 + 2 ^ 24"
    using fe_quotient_spec [OF assms] unfolding q_def h fe.case by metis
  define L where "L = fe_val h - 2 ^ 230 * h9"
  have L: "- (2 ^ 231) \<le> L" "L \<le> 2 ^ 231"
    unfolding L_def h fe_val.simps using bd0 bd1 bd2 bd3 bd4 bd5 bd6 bd7 bd8 by simp_all
  have v: "fe_val h = 2 ^ 230 * h9 + L"
    by (simp add: L_def)
  define N where "N = fe_val h - fe_p * q"
  have N: "N = R - q0 + 19 * q"
    unfolding N_def fe_p_def using e by (simp add: algebra_simps)
  have q0b: "- 40 \<le> q0" "q0 \<le> 40"
    using q0 bd9 by simp_all
  have "2 ^ 255 * N = 2 ^ 255 * R - 2 ^ 255 * q0 + 19 * (2 ^ 255 * q)"
    unfolding N by (simp add: algebra_simps)
  then have k: "2 ^ 255 * N = fe_p * R + 19 * L + 19 * q0 + 2 ^ 230 * (19 * h9 - 2 ^ 25 * q0)"
    unfolding e v fe_p_def by (simp add: algebra_simps)
  have R': "0 \<le> fe_p * R" "fe_p * R \<le> fe_p * (2 ^ 255 - 1)"
    using R by (simp_all add: fe_p_def)
  have "- (2 ^ 255) < 2 ^ 255 * N" "2 ^ 255 * N < 2 ^ 255 * fe_p"
    unfolding k using R' L q0 q0b by (simp_all add: fe_p_def)
  then have N': "0 \<le> N" "N < fe_p"
    by simp_all
  have "fe_val h = fe_p * q + N"
    by (simp add: N_def)
  then have "fe_val h div fe_p = q"
    using N' by simp
  then show "fe_quotient h = fe_val h div fe_p"
    by (simp add: q_def)
  have "- (2 ^ 255) * 40 \<le> 2 ^ 255 * q" "2 ^ 255 * q \<le> 2 ^ 255 * 40"
    unfolding e v using R L q0b bd9 by simp_all
  then show "- 40 \<le> fe_quotient h" "fe_quotient h \<le> 40"
    unfolding q_def by simp_all
qed

lemma fe_tobytes_reduced:
  assumes "fe_165_26 h"
  shows "fe_digits (fe_reduced h (fe_quotient h))"
    and "fe_val (fe_reduced h (fe_quotient h)) = fe_val h mod fe_p"
proof -
  note r = fe_reduced_spec [OF assms fe_quotient_div(2,3) [OF assms]]
  show "fe_digits (fe_reduced h (fe_quotient h))"
    by (rule r)
  have m: "fe_val h + 19 * fe_quotient h = fe_val h mod fe_p + 2 ^ 255 * fe_quotient h"
    using mult_div_mod_eq [of fe_p "fe_val h"] unfolding fe_quotient_div(1) [OF assms]
    by (simp add: fe_p_def algebra_simps)
  have "0 \<le> fe_val h mod fe_p" "fe_val h mod fe_p < fe_p"
    by simp_all
  then show "fe_val (fe_reduced h (fe_quotient h)) = fe_val h mod fe_p"
    unfolding r(2) m by (simp add: fe_p_def)
qed

lemma fe_tobytes_val: "fe_165_26 h \<Longrightarrow> le_val (fe_tobytes h) = fe_val h mod fe_p"
  and length_fe_tobytes: "fe_165_26 h \<Longrightarrow> length (fe_tobytes h) = 32"
  using fe_store_val [OF fe_tobytes_reduced(1)] fe_tobytes_reduced(2) by (simp_all add: fe_tobytes_def)


end
