(* ===== verification/Fe_Load.thy ===== *)
theory Fe_Load
  imports Fe_Bytes
begin

text \<open>
  Decoding of field elements: the loads and the carries with which \<^verbatim>\<open>ge_frombytes_vartime\<close>
  and \<^verbatim>\<open>ge_fromfe_frombytes_vartime\<close> start (the former clears the top bit and has a test
  for encodings that are not canonical), and the predicates of \<^verbatim>\<open>fe_isnegative\<close> and
  \<^verbatim>\<open>fe_isnonzero\<close> in terms of the value.
\<close>

section \<open>Loading limbs\<close>

definition fe_load_masked :: "byte list \<Rightarrow> fe" where
  "fe_load_masked s =
     Fe (i64 (load_4 s 0)) (i64 (push_bit 6 (load_3 s 4))) (i64 (push_bit 5 (load_3 s 7)))
        (i64 (push_bit 3 (load_3 s 10))) (i64 (push_bit 2 (load_3 s 13)))
        (i64 (load_4 s 16)) (i64 (push_bit 7 (load_3 s 20))) (i64 (push_bit 5 (load_3 s 23)))
        (i64 (push_bit 4 (load_3 s 26))) (i64 (push_bit 2 (load_3 s 29 AND 8388607)))"

definition fe_load_full :: "byte list \<Rightarrow> fe" where
  "fe_load_full s =
     Fe (i64 (load_4 s 0)) (i64 (push_bit 6 (load_3 s 4))) (i64 (push_bit 5 (load_3 s 7)))
        (i64 (push_bit 3 (load_3 s 10))) (i64 (push_bit 2 (load_3 s 13)))
        (i64 (load_4 s 16)) (i64 (push_bit 7 (load_3 s 20))) (i64 (push_bit 5 (load_3 s 23)))
        (i64 (push_bit 4 (load_3 s 26))) (i64 (push_bit 2 (load_3 s 29)))"

definition fe_noncanonical :: "fe \<Rightarrow> bool" where
  "fe_noncanonical h =
    (case h of Fe h0 h1 h2 h3 h4 h5 h6 h7 h8 h9 \<Rightarrow>
      h9 = 33554428 \<and> h8 = 268435440 \<and> h7 = 536870880 \<and> h6 = 2147483520 \<and>
      h5 = 4294967295 \<and> h4 = 67108860 \<and> h3 = 134217720 \<and>
      h2 = 536870880 \<and> h1 = 1073741760 \<and> 4294967277 \<le> h0)"

text \<open>The ten \<^verbatim>\<open>int64_t\<close> locals are given as an \<open>fe\<close> value.\<close>

definition fe_load_carry :: "fe \<Rightarrow> fe" where
  "fe_load_carry h =
    (case h of Fe h0 h1 h2 h3 h4 h5 h6 h7 h8 h9 \<Rightarrow>
     let carry9 = drop_bit 25 (i64 (h9 + push_bit 24 1));
         h0 = i64 (h0 + i64 (carry9 * 19));
         h9 = i64 (h9 - i64 (push_bit 25 carry9));
         (h1, h2) = carry_near 25 h1 h2;
         (h3, h4) = carry_near 25 h3 h4;
         (h5, h6) = carry_near 25 h5 h6;
         (h7, h8) = carry_near 25 h7 h8;
         (h0, h1) = carry_near 26 h0 h1;
         (h2, h3) = carry_near 26 h2 h3;
         (h4, h5) = carry_near 26 h4 h5;
         (h6, h7) = carry_near 26 h6 h7;
         (h8, h9) = carry_near 26 h8 h9
     in Fe (i32 h0) (i32 h1) (i32 h2) (i32 h3) (i32 h4) (i32 h5) (i32 h6) (i32 h7) (i32 h8) (i32 h9))"

text \<open>What the loads produce: shifted 24 and 32 bit windows.\<close>

fun fe_loaded :: "fe \<Rightarrow> bool" where
  "fe_loaded (Fe h0 h1 h2 h3 h4 h5 h6 h7 h8 h9) \<longleftrightarrow>
     0 \<le> h0 \<and> h0 \<le> 4294967295 \<and>
     0 \<le> h1 \<and> h1 \<le> 1073741760 \<and>
     0 \<le> h2 \<and> h2 \<le> 536870880 \<and>
     0 \<le> h3 \<and> h3 \<le> 134217720 \<and>
     0 \<le> h4 \<and> h4 \<le> 67108860 \<and>
     0 \<le> h5 \<and> h5 \<le> 4294967295 \<and>
     0 \<le> h6 \<and> h6 \<le> 2147483520 \<and>
     0 \<le> h7 \<and> h7 \<le> 536870880 \<and>
     0 \<le> h8 \<and> h8 \<le> 268435440 \<and>
     0 \<le> h9 \<and> h9 \<le> 67108860"

lemma fe_load_carry_spec:
  assumes "fe_loaded h"
  shows "eqp (fe_val (fe_load_carry h)) (fe_val h)" and "fe_101_25 (fe_load_carry h)"
proof -
  obtain h0 h1 h2 h3 h4 h5 h6 h7 h8 h9 where h: "h = Fe h0 h1 h2 h3 h4 h5 h6 h7 h8 h9"
    by (cases h)
  from assms have bd0: "- 4294967295 \<le> h0" "h0 \<le> 4294967295" and bd1: "- 1073741760 \<le> h1" "h1 \<le> 1073741760" and bd2: "- 536870880 \<le> h2" "h2 \<le> 536870880" and bd3: "- 134217720 \<le> h3" "h3 \<le> 134217720" and bd4: "- 67108860 \<le> h4" "h4 \<le> 67108860" and bd5: "- 4294967295 \<le> h5" "h5 \<le> 4294967295" and bd6: "- 2147483520 \<le> h6" "h6 \<le> 2147483520" and bd7: "- 536870880 \<le> h7" "h7 \<le> 536870880" and bd8: "- 268435440 \<le> h8" "h8 \<le> 268435440" and bd9: "- 67108860 \<le> h9" "h9 \<le> 67108860"
    unfolding h by simp_all
  define q where "q = drop_bit 25 (i64 (h9 + push_bit 24 1))"
  have r9: "- 16777216 \<le> h9 - 33554432 * q" "h9 - 33554432 * q \<le> 16777216"
    using i64_drop_near_25 [OF bd9] by (simp_all add: q_def)
  define h9a where "h9a = h9 - 33554432 * q"
  define h0a where "h0a = h0 + 19 * q"
  have q: "- 2 \<le> q" "q \<le> 2"
    using r9 bd9 by linarith+
  have bh9a: "- 16777216 \<le> h9a" "h9a \<le> 16777216"
    using r9 by (simp_all add: h9a_def)
  have bh0a: "- 4294967333 \<le> h0a" "h0a \<le> 4294967333"
    using q bd0 unfolding h0a_def by linarith+
  have d0: "i64 (h0 + i64 (q * 19)) = h0a"
    using q bh0a by (simp add: i64_id h0a_def mult.commute)
  have d9: "i64 (h9 - i64 (push_bit 25 q)) = h9a"
    unfolding i64_push_absorb using bh9a by (simp add: i64_id h9a_def push_bit_eq_mult mult.commute)
  obtain h1a h2a where e0: "carry_near 25 h1 h2 = (h1a, h2a)"
    by fastforce
  obtain c0 where c0: "h1a = h1 - 33554432 * c0" "h2a = h2 + c0"
      and bh1a: "- 16777216 \<le> h1a" "h1a \<le> 16777216"
    by (rule carry_near_25 [OF e0 bd1 bd2]) simp_all
  have bh2a: "- 536870912 \<le> h2a" "h2a \<le> 536870912"
    using c0 bh1a bd1 bd2 by linarith+
  obtain h3a h4a where e1: "carry_near 25 h3 h4 = (h3a, h4a)"
    by fastforce
  obtain c1 where c1: "h3a = h3 - 33554432 * c1" "h4a = h4 + c1"
      and bh3a: "- 16777216 \<le> h3a" "h3a \<le> 16777216"
    by (rule carry_near_25 [OF e1 bd3 bd4]) simp_all
  have bh4a: "- 67108864 \<le> h4a" "h4a \<le> 67108864"
    using c1 bh3a bd3 bd4 by linarith+
  obtain h5a h6a where e2: "carry_near 25 h5 h6 = (h5a, h6a)"
    by fastforce
  obtain c2 where c2: "h5a = h5 - 33554432 * c2" "h6a = h6 + c2"
      and bh5a: "- 16777216 \<le> h5a" "h5a \<le> 16777216"
    by (rule carry_near_25 [OF e2 bd5 bd6]) simp_all
  have bh6a: "- 2147483648 \<le> h6a" "h6a \<le> 2147483648"
    using c2 bh5a bd5 bd6 by linarith+
  obtain h7a h8a where e3: "carry_near 25 h7 h8 = (h7a, h8a)"
    by fastforce
  obtain c3 where c3: "h7a = h7 - 33554432 * c3" "h8a = h8 + c3"
      and bh7a: "- 16777216 \<le> h7a" "h7a \<le> 16777216"
    by (rule carry_near_25 [OF e3 bd7 bd8]) simp_all
  have bh8a: "- 268435456 \<le> h8a" "h8a \<le> 268435456"
    using c3 bh7a bd7 bd8 by linarith+
  obtain h0b h1b where e4: "carry_near 26 h0a h1a = (h0b, h1b)"
    by fastforce
  obtain c4 where c4: "h0b = h0a - 67108864 * c4" "h1b = h1a + c4"
      and bh0b: "- 33554432 \<le> h0b" "h0b \<le> 33554432"
    by (rule carry_near_26 [OF e4 bh0a bh1a]) simp_all
  have bh1b: "- 16777280 \<le> h1b" "h1b \<le> 16777280"
    using c4 bh0b bh0a bh1a by linarith+
  obtain h2b h3b where e5: "carry_near 26 h2a h3a = (h2b, h3b)"
    by fastforce
  obtain c5 where c5: "h2b = h2a - 67108864 * c5" "h3b = h3a + c5"
      and bh2b: "- 33554432 \<le> h2b" "h2b \<le> 33554432"
    by (rule carry_near_26 [OF e5 bh2a bh3a]) simp_all
  have bh3b: "- 16777224 \<le> h3b" "h3b \<le> 16777224"
    using c5 bh2b bh2a bh3a by linarith+
  obtain h4b h5b where e6: "carry_near 26 h4a h5a = (h4b, h5b)"
    by fastforce
  obtain c6 where c6: "h4b = h4a - 67108864 * c6" "h5b = h5a + c6"
      and bh4b: "- 33554432 \<le> h4b" "h4b \<le> 33554432"
    by (rule carry_near_26 [OF e6 bh4a bh5a]) simp_all
  have bh5b: "- 16777217 \<le> h5b" "h5b \<le> 16777217"
    using c6 bh4b bh4a bh5a by linarith+
  obtain h6b h7b where e7: "carry_near 26 h6a h7a = (h6b, h7b)"
    by fastforce
  obtain c7 where c7: "h6b = h6a - 67108864 * c7" "h7b = h7a + c7"
      and bh6b: "- 33554432 \<le> h6b" "h6b \<le> 33554432"
    by (rule carry_near_26 [OF e7 bh6a bh7a]) simp_all
  have bh7b: "- 16777248 \<le> h7b" "h7b \<le> 16777248"
    using c7 bh6b bh6a bh7a by linarith+
  obtain h8b h9b where e8: "carry_near 26 h8a h9a = (h8b, h9b)"
    by fastforce
  obtain c8 where c8: "h8b = h8a - 67108864 * c8" "h9b = h9a + c8"
      and bh8b: "- 33554432 \<le> h8b" "h8b \<le> 33554432"
    by (rule carry_near_26 [OF e8 bh8a bh9a]) simp_all
  have bh9b: "- 16777220 \<le> h9b" "h9b \<le> 16777220"
    using c8 bh8b bh8a bh9a by linarith+
  have l: "fe_load_carry h = Fe (i32 h0b) (i32 h1b) (i32 h2b) (i32 h3b) (i32 h4b) (i32 h5b) (i32 h6b) (i32 h7b) (i32 h8b) (i32 h9b)"
    unfolding h fe_load_carry_def fe.case Let_def q_def [symmetric] d0 d9 e0 e1 e2 e3 e4 e5 e6 e7 e8 prod.case ..
  have n: "i32 h0b = h0b" "i32 h1b = h1b" "i32 h2b = h2b" "i32 h3b = h3b" "i32 h4b = h4b" "i32 h5b = h5b" "i32 h6b = h6b" "i32 h7b = h7b" "i32 h8b = h8b" "i32 h9b = h9b"
    using bh0b bh1b bh2b bh3b bh4b bh5b bh6b bh7b bh8b bh9b by (intro i32_id; simp)+
  have "fe_val (fe_load_carry h) = fe_val h + fe_p * (- q)"
    unfolding l n unfolding h fe_val.simps fe_p_def
    using c0(1,2) c1(1,2) c2(1,2) c3(1,2) c4(1,2) c5(1,2) c6(1,2) c7(1,2) c8(1,2) h9a_def h0a_def by (simp add: algebra_simps)
  then show "eqp (fe_val (fe_load_carry h)) (fe_val h)"
    by (rule eqp_multiple)
  show "fe_101_25 (fe_load_carry h)"
    unfolding l n fe_101_25_def fe_bd.simps using bh0b bh1b bh2b bh3b bh4b bh5b bh6b bh7b bh8b bh9b by (intro conjI bndI; simp)
qed

section \<open>The loaded value\<close>

lemma load_3_range: "0 \<le> load_3 s k" "load_3 s k \<le> 16777215"
  using uint_byte_less [of "s ! k"] uint_byte_less [of "s ! (k + 1)"] uint_byte_less [of "s ! (k + 2)"]
  by (simp_all add: load_3_sum)

lemma load_4_range: "0 \<le> load_4 s k" "load_4 s k \<le> 4294967295"
  using load_3_range [of s k] uint_byte_less [of "s ! (k + 3)"]
  by (simp_all add: load_4_sum)

lemma i64_push_24:
  assumes x: "0 \<le> x" "x \<le> 16777215" and n: "n \<le> 7"
  shows "i64 (push_bit n x) = 2 ^ n * x"
proof -
  have "(2 :: int) ^ n \<le> 2 ^ 7"
    using n by (intro power_increasing) auto
  then have "2 ^ n * x \<le> 2 ^ 7 * 16777215"
    using x by (intro mult_mono) simp_all
  moreover have "0 \<le> 2 ^ n * x"
    using x by simp
  ultimately show ?thesis
    unfolding push_bit_eq_mult mult.commute [of x] by (intro i64_id) simp_all
qed

lemma i64_load: "i64 (load_4 s k) = load_4 s k"
  "n \<le> 7 \<Longrightarrow> i64 (push_bit n (load_3 s k)) = 2 ^ n * load_3 s k"
  using load_3_range [of s k] load_4_range [of s k] by (simp_all add: i64_id i64_push_24)

lemma and_23: "x AND 8388607 = x mod 8388608" for x :: int
  using take_bit_eq_mask [of 23 x] by (simp add: take_bit_eq_mod mask_eq_exp_minus_1)

lemma i64_load_masked_29:
  "i64 (push_bit 2 (load_3 s 29 AND 8388607)) = 4 * (load_3 s 29 mod 8388608)"
proof -
  have "load_3 s 29 mod 8388608 < 8388608"
    by simp
  then show ?thesis
    unfolding and_23 by (subst i64_push_24) simp_all
qed

lemma fe_load_full_eq:
  "fe_load_full s = Fe (load_4 s 0) (64 * load_3 s 4) (32 * load_3 s 7) (8 * load_3 s 10)
     (4 * load_3 s 13) (load_4 s 16) (128 * load_3 s 20) (32 * load_3 s 23) (16 * load_3 s 26)
     (4 * load_3 s 29)"
  unfolding fe_load_full_def by (simp add: i64_load)

lemma fe_load_masked_eq:
  "fe_load_masked s = Fe (load_4 s 0) (64 * load_3 s 4) (32 * load_3 s 7) (8 * load_3 s 10)
     (4 * load_3 s 13) (load_4 s 16) (128 * load_3 s 20) (32 * load_3 s 23) (16 * load_3 s 26)
     (4 * (load_3 s 29 mod 8388608))"
  unfolding fe_load_masked_def i64_load_masked_29 by (simp add: i64_load and_23)

lemma fe_loaded_full: "fe_loaded (fe_load_full s)"
  by (simp add: fe_load_full_eq load_3_range load_4_range)

lemma fe_loaded_masked: "fe_loaded (fe_load_masked s)"
proof -
  have "load_3 s 29 mod 8388608 \<le> 8388607"
    using pos_mod_bound [of 8388608 "load_3 s 29"] by linarith
  then show ?thesis
    by (simp add: fe_load_masked_eq load_3_range load_4_range)
qed

lemma le_val_32:
  assumes "length s = 32"
  shows "le_val s = le_val ([s ! 0, s ! 1, s ! 2, s ! 3, s ! 4, s ! 5, s ! 6, s ! 7, s ! 8, s ! 9,
    s ! 10, s ! 11, s ! 12, s ! 13, s ! 14, s ! 15, s ! 16, s ! 17, s ! 18, s ! 19, s ! 20, s ! 21,
    s ! 22, s ! 23, s ! 24, s ! 25, s ! 26, s ! 27, s ! 28, s ! 29, s ! 30, s ! 31])" (is "_ = le_val ?t")
proof -
  have "s = map ((!) s) [0..<32]"
    using map_nth [of s] by (simp add: assms)
  also have "\<dots> = ?t"
    by (simp add: upt_conv_Cons eval_nat_numeral)
  finally show ?thesis
    by (rule arg_cong)
qed

lemma fe_load_full_val:
  assumes "length s = 32"
  shows "fe_val (fe_load_full s) = le_val s"
proof -
  show ?thesis
    unfolding fe_load_full_eq fe_val.simps load_4_sum load_3_sum le_val_32 [OF assms] le_val.simps
    by simp (simp add: numeral_2_eq_2)
qed

lemma fe_load_masked_val:
  assumes "length s = 32"
  shows "fe_val (fe_load_masked s) = le_val s mod 2 ^ 255"
proof -
  define t where "t = load_3 s 29 div 8388608"
  have t: "load_3 s 29 mod 8388608 = load_3 s 29 - 8388608 * t"
    by (simp add: t_def minus_mult_div_eq_mod)
  have "fe_val (fe_load_masked s) = le_val s - 2 ^ 255 * t"
    unfolding fe_load_full_val [OF assms, symmetric] fe_load_full_eq fe_load_masked_eq t fe_val.simps
    by simp
  then have m: "le_val s mod 2 ^ 255 = fe_val (fe_load_masked s) mod 2 ^ 255"
    by (metis mod_mult_self2 diff_add_cancel)
  have "0 \<le> load_3 s 29 mod 8388608" "load_3 s 29 mod 8388608 < 8388608"
    by simp_all
  then have "0 \<le> fe_val (fe_load_masked s)" "fe_val (fe_load_masked s) < 2 ^ 255"
    unfolding fe_load_masked_eq fe_val.simps
    using load_4_range [of s 0] load_3_range [of s 4] load_3_range [of s 7] load_3_range [of s 10] load_3_range [of s 13] load_4_range [of s 16] load_3_range [of s 20] load_3_range [of s 23] load_3_range [of s 26] by simp_all
  then show ?thesis
    unfolding m by simp
qed

section \<open>The test for canonical encodings\<close>

lemma fe_noncanonical_limbs:
  assumes "0 \<le> a0" "a0 \<le> 4294967295" "0 \<le> a1" "a1 \<le> 16777215" "0 \<le> a2" "a2 \<le> 16777215" "0 \<le> a3" "a3 \<le> 16777215" "0 \<le> a4" "a4 \<le> 16777215" "0 \<le> a5" "a5 \<le> 4294967295" "0 \<le> a6" "a6 \<le> 16777215" "0 \<le> a7" "a7 \<le> 16777215" "0 \<le> a8" "a8 \<le> 16777215" "0 \<le> a9" "a9 \<le> 8388607"
  shows "fe_noncanonical (Fe a0 (64 * a1) (32 * a2) (8 * a3) (4 * a4) a5 (128 * a6) (32 * a7) (16 * a8) (4 * a9)) \<longleftrightarrow> fe_p \<le> fe_val (Fe a0 (64 * a1) (32 * a2) (8 * a3) (4 * a4) a5 (128 * a6) (32 * a7) (16 * a8) (4 * a9))"
proof
  assume "fe_noncanonical (Fe a0 (64 * a1) (32 * a2) (8 * a3) (4 * a4) a5 (128 * a6) (32 * a7) (16 * a8) (4 * a9))"
  then show "fe_p \<le> fe_val (Fe a0 (64 * a1) (32 * a2) (8 * a3) (4 * a4) a5 (128 * a6) (32 * a7) (16 * a8) (4 * a9))"
    by (simp add: fe_noncanonical_def fe_p_def)
next
  assume p: "fe_p \<le> fe_val (Fe a0 (64 * a1) (32 * a2) (8 * a3) (4 * a4) a5 (128 * a6) (32 * a7) (16 * a8) (4 * a9))"
  have e9: "a9 = 8388607"
  proof (rule ccontr)
    assume "a9 \<noteq> 8388607"
    then have "a9 \<le> 8388606"
      using assms by linarith
    then show False
      using p assms unfolding fe_val.simps fe_p_def by simp
  qed
  have e8: "a8 = 16777215"
  proof (rule ccontr)
    assume "a8 \<noteq> 16777215"
    then have "a8 \<le> 16777214"
      using assms by linarith
    then show False
      using p assms unfolding fe_val.simps fe_p_def by simp
  qed
  have e7: "a7 = 16777215"
  proof (rule ccontr)
    assume "a7 \<noteq> 16777215"
    then have "a7 \<le> 16777214"
      using assms by linarith
    then show False
      using p assms unfolding fe_val.simps fe_p_def by simp
  qed
  have e6: "a6 = 16777215"
  proof (rule ccontr)
    assume "a6 \<noteq> 16777215"
    then have "a6 \<le> 16777214"
      using assms by linarith
    then show False
      using p assms unfolding fe_val.simps fe_p_def by simp
  qed
  have e5: "a5 = 4294967295"
  proof (rule ccontr)
    assume "a5 \<noteq> 4294967295"
    then have "a5 \<le> 4294967294"
      using assms by linarith
    then show False
      using p assms unfolding fe_val.simps fe_p_def by simp
  qed
  have e4: "a4 = 16777215"
  proof (rule ccontr)
    assume "a4 \<noteq> 16777215"
    then have "a4 \<le> 16777214"
      using assms by linarith
    then show False
      using p assms unfolding fe_val.simps fe_p_def by simp
  qed
  have e3: "a3 = 16777215"
  proof (rule ccontr)
    assume "a3 \<noteq> 16777215"
    then have "a3 \<le> 16777214"
      using assms by linarith
    then show False
      using p assms unfolding fe_val.simps fe_p_def by simp
  qed
  have e2: "a2 = 16777215"
  proof (rule ccontr)
    assume "a2 \<noteq> 16777215"
    then have "a2 \<le> 16777214"
      using assms by linarith
    then show False
      using p assms unfolding fe_val.simps fe_p_def by simp
  qed
  have e1: "a1 = 16777215"
  proof (rule ccontr)
    assume "a1 \<noteq> 16777215"
    then have "a1 \<le> 16777214"
      using assms by linarith
    then show False
      using p assms unfolding fe_val.simps fe_p_def by simp
  qed
  have "4294967277 \<le> a0"
    using p unfolding e1 e2 e3 e4 e5 e6 e7 e8 e9 fe_val.simps fe_p_def by simp
  then show "fe_noncanonical (Fe a0 (64 * a1) (32 * a2) (8 * a3) (4 * a4) a5 (128 * a6) (32 * a7) (16 * a8) (4 * a9))"
    by (simp add: fe_noncanonical_def e1 e2 e3 e4 e5 e6 e7 e8 e9)
qed

lemma fe_noncanonical_iff:
  assumes "length s = 32"
  shows "fe_noncanonical (fe_load_masked s) \<longleftrightarrow> fe_p \<le> le_val s mod 2 ^ 255"
proof -
  have "load_3 s 29 mod 8388608 \<le> 8388607"
    using pos_mod_bound [of 8388608 "load_3 s 29"] by linarith
  then show ?thesis
    unfolding fe_load_masked_val [OF assms, symmetric] fe_load_masked_eq
    by (intro fe_noncanonical_limbs) (simp_all add: load_3_range load_4_range)
qed

lemma top_bit:
  assumes "length s = 32"
  shows "uint (s ! 31) div 128 = le_val s div 2 ^ 255"
proof -
  have "le_val s = le_val (take 31 s) + 256 ^ 31 * le_val (drop 31 s)"
    by (rule le_val_take_drop) (simp add: assms)
  moreover have "drop 31 s = [s ! 31]"
    using Cons_nth_drop_Suc [of 31 s] by (simp add: assms)
  ultimately have "le_val s div 256 ^ 31 = uint (s ! 31)"
    using le_val_nonneg [of "take 31 s"] le_val_less [of "take 31 s"] by (simp add: assms)
  then have "uint (s ! 31) div 128 = le_val s div 256 ^ 31 div 128"
    by simp
  also have "\<dots> = le_val s div (256 ^ 31 * 128)"
    by (rule zdiv_zmult2_eq [symmetric]) simp
  finally show ?thesis
    by simp
qed

section \<open>The predicates on values\<close>

lemma fe_isnegative_val:
  assumes "fe_165_26 f"
  shows "fe_isnegative f = fe_val f mod fe_p mod 2"
proof -
  obtain b bs where b: "fe_tobytes f = b # bs"
    using length_fe_tobytes [OF assms] by (cases "fe_tobytes f") auto
  have "fe_isnegative f = uint b mod 2"
    by (simp add: fe_isnegative_def b and_one_eq)
  also have "\<dots> = le_val (fe_tobytes f) mod 2"
    unfolding b le_val.simps by (simp add: mod_add_right_eq [symmetric]) 
  finally show ?thesis
    by (simp add: fe_tobytes_val [OF assms])
qed

lemma foldl_or_zero: "foldl (OR) a s = 0 \<longleftrightarrow> a = 0 \<and> le_val s = 0" for a :: byte
proof (induction s arbitrary: a)
  case Nil
  then show ?case by simp
next
  case (Cons b s)
  have "a OR b = 0 \<longleftrightarrow> a = 0 \<and> b = 0"
    by (metis or.left_neutral or_eq_0_iff)
  moreover have "le_val (b # s) = 0 \<longleftrightarrow> b = 0 \<and> le_val s = 0"
    using le_val_nonneg [of s] uint_byte_less [of b] by (auto simp: add_nonneg_eq_0_iff uint_0_iff)
  ultimately show ?case
    by (simp add: Cons.IH)
qed

lemma fe_isnonzero_val:
  assumes "fe_165_26 f"
  shows "fe_isnonzero f = (if eqp (fe_val f) 0 then 0 else 1)"
proof -
  define b where "b = foldl (OR) 0 (fe_tobytes f)"
  have "b = 0 \<longleftrightarrow> eqp (fe_val f) 0"
    unfolding b_def foldl_or_zero by (simp add: fe_tobytes_val [OF assms] eqp_def)
  moreover have "fe_isnonzero f = (if b = 0 then 0 else 1)"
  proof (cases "b = 0")
    case True
    then show ?thesis
      unfolding fe_isnonzero_def Let_def b_def [symmetric] by (simp add: i32_id drop_bit_eq_div)
  next
    case False
    then have "1 \<le> uint b" "uint b < 256"
      using uint_byte_less [of b] by (simp_all add: word_neq_0_conv uint_0_iff) (metis linorder_not_less unsigned_eq_0_iff int_one_le_iff_zero_less uint_ge_0 order_le_less)
    then show ?thesis
      using False unfolding fe_isnonzero_def Let_def b_def [symmetric]
      by (simp add: i32_id drop_bit_eq_div)
  qed
  ultimately show ?thesis
    by simp
qed

end
