(* ===== verification/Field_Properties.thy ===== *)
theory Field_Properties
  imports Fe_Pow Fe_Load
begin

text \<open>
  The contract of the field arithmetic of \<^verbatim>\<open>crypto-ops.c\<close>: what its callers rely on,
  stated over the values of the operands. The proofs only combine the lemmas of the
  component theories.
\<close>

text \<open>Operands used by the witnesses.\<close>

definition fe_ex1 :: fe where
  "fe_ex1 = Fe 40000000 (- 20000000) 40000000 3 0 0 (- 5) 0 7 20000000"

definition fe_ex2 :: fe where
  "fe_ex2 = Fe (- 110000000) 55000000 1 0 0 9 0 0 0 (- 55000000)"

lemma fe_ex_ranges: "fe_11_26 fe_ex1" "fe_165_26 fe_ex1" "fe_165_26 fe_ex2"
  by (simp_all add: fe_ex1_def fe_ex2_def fe_ranges bnd_def)

text \<open>
  C1: Multiplication and both squarings, on operands within \<open>1.65 * 2^26\<close>: no intermediate
  product or carry overflows, the result is the product modulo \<open>2^255 - 19\<close>, and its limbs
  are within \<open>1.01 * 2^25\<close>.
\<close>

theorem fe_mul_correct:
  assumes "fe_165_26 f" and "fe_165_26 g"
  shows "fe_val (fe_mul f g) mod fe_p = fe_val f * fe_val g mod fe_p \<and>
    fe_val (fe_sq f) mod fe_p = fe_val f * fe_val f mod fe_p \<and>
    fe_val (fe_sq2 f) mod fe_p = 2 * (fe_val f * fe_val f) mod fe_p \<and>
    fe_101_25 (fe_mul f g) \<and> fe_101_25 (fe_sq f) \<and> fe_101_25 (fe_sq2 f)"
  using assms fe_mul_val [of f g] fe_sq_val [of f] fe_sq2_val [of f]
  by (simp add: eqp_def fe_mul_range fe_sq_range fe_sq2_range)

theorem fe_mul_correct_witness:
  "fe_165_26 fe_ex1 \<and> fe_165_26 fe_ex2 \<and>
   fe_val (fe_mul fe_ex1 fe_ex2) mod fe_p = fe_val fe_ex1 * fe_val fe_ex2 mod fe_p"
  using fe_ex_ranges fe_mul_correct [OF fe_ex_ranges(2,3)] by blast

text \<open>
  C2: Inversion: the addition chain of \<^verbatim>\<open>fe_invert\<close> raises its argument to the power
  \<open>p - 2\<close>, so that by Fermat's theorem it is the inverse wherever one exists; the chain of
  \<^verbatim>\<open>fe_divpowm1\<close> computes \<open>u v^3 (u v^7)^((p - 5) / 8)\<close>. Both results are within
  \<open>1.01 * 2^25\<close>.
\<close>

theorem fe_chains_correct:
  assumes "fe_165_26 z" and "fe_165_26 u" and "fe_165_26 v"
  shows "fe_val (fe_invert z) mod fe_p = fe_val z ^ nat (fe_p - 2) mod fe_p \<and>
    fe_val (fe_divpowm1 u v) mod fe_p =
      (fe_val u * fe_val v ^ 7) ^ nat ((fe_p - 5) div 8) * fe_val v ^ 3 * fe_val u mod fe_p \<and>
    fe_101_25 (fe_invert z) \<and> fe_101_25 (fe_divpowm1 u v)"
proof -
  have "nat (fe_p - 2) = 2 ^ 255 - 21" "nat ((fe_p - 5) div 8) = 2 ^ 252 - 3"
    by (simp_all add: fe_p_def)
  then show ?thesis
    using fe_invert_val [OF assms(1)] fe_divpowm1_val [OF assms(2,3)] assms
    by (simp only: eqp_def fe_invert_range fe_divpowm1_range simp_thms)
qed

theorem fe_chains_correct_witness:
  "fe_165_26 fe_ex1 \<and> fe_165_26 fe_ex2 \<and>
   fe_val (fe_invert fe_ex2) mod fe_p = fe_val fe_ex2 ^ nat (fe_p - 2) mod fe_p"
  using fe_ex_ranges fe_chains_correct [OF fe_ex_ranges(3,2,2)] by blast

text \<open>
  C3: The canonical encoding: on operands within \<open>1.65 * 2^26\<close> (half as much again
  as the C comment asks for), \<^verbatim>\<open>fe_tobytes\<close> writes the
  32 little-endian bytes of the residue of its argument, between \<open>0\<close> and \<open>p - 1\<close>;
  \<^verbatim>\<open>fe_isnegative\<close> is the parity of that residue and \<^verbatim>\<open>fe_isnonzero\<close> tests it.
\<close>

theorem fe_tobytes_canonical:
  assumes "fe_165_26 h"
  shows "le_val (fe_tobytes h) = fe_val h mod fe_p \<and> length (fe_tobytes h) = 32 \<and>
    fe_isnegative h = fe_val h mod fe_p mod 2 \<and>
    fe_isnonzero h = (if fe_val h mod fe_p = 0 then 0 else 1)"
  using assms fe_isnonzero_val [OF assms]
  by (simp add: fe_tobytes_val length_fe_tobytes fe_isnegative_val eqp_def)

theorem fe_tobytes_canonical_witness:
  "fe_165_26 fe_ex2 \<and> le_val (fe_tobytes fe_ex2) = fe_val fe_ex2 mod fe_p"
  using fe_ex_ranges(3) fe_tobytes_canonical [OF fe_ex_ranges(3)] by blast

text \<open>
  C4: Decoding inverts encoding: the loads and carries at the start of
  \<^verbatim>\<open>ge_frombytes_vartime\<close> give back, from the bytes that \<^verbatim>\<open>fe_tobytes\<close> wrote, a
  field element of the same residue and of the reduced range, and its test for encodings that
  are not canonical accepts them; on any 32 bytes that test rejects exactly the values of the
  low 255 bits that are \<open>p\<close> or more.
\<close>

theorem fe_bytes_roundtrip:
  assumes "fe_165_26 h" and "length s = 32"
  shows "fe_val (fe_load_carry (fe_load_masked (fe_tobytes h))) mod fe_p = fe_val h mod fe_p \<and>
    fe_101_25 (fe_load_carry (fe_load_masked (fe_tobytes h))) \<and>
    \<not> fe_noncanonical (fe_load_masked (fe_tobytes h)) \<and>
    (fe_noncanonical (fe_load_masked s) \<longleftrightarrow> fe_p \<le> le_val s mod 2 ^ 255)"
proof -
  have n: "length (fe_tobytes h) = 32" and v: "le_val (fe_tobytes h) = fe_val h mod fe_p"
    using assms(1) by (simp_all add: length_fe_tobytes fe_tobytes_val)
  have "fe_val h mod fe_p < fe_p"
    by simp
  also have "fe_p < 2 ^ 255"
    by (simp add: fe_p_def)
  finally have m: "le_val (fe_tobytes h) mod 2 ^ 255 = fe_val h mod fe_p"
    unfolding v by (intro mod_pos_pos_trivial pos_mod_sign) simp_all
  show ?thesis
    using fe_load_carry_spec [OF fe_loaded_masked [of "fe_tobytes h"]]
      fe_noncanonical_iff [OF n] fe_noncanonical_iff [OF assms(2)]
    unfolding eqp_def fe_load_masked_val [OF n] m by (simp add: not_le)
qed

theorem fe_bytes_roundtrip_witness:
  "fe_165_26 fe_ex1 \<and> length (replicate 32 (255 :: byte)) = 32 \<and>
   \<not> fe_noncanonical (fe_load_masked (fe_tobytes fe_ex1))"
  using fe_ex_ranges(2) fe_bytes_roundtrip [OF fe_ex_ranges(2), of "replicate 32 255"] by simp

end
