(* ===== verification/Sc_Base.thy ===== *)
theory Sc_Base
  imports Fe_Bytes
begin

text \<open>
  Scalars modulo the order \<open>l\<close> of the base point, in limbs of 21 bits: the common part of
  \<^verbatim>\<open>sc_reduce\<close>, \<^verbatim>\<open>sc_reduce32\<close>, \<^verbatim>\<open>sc_add\<close>, \<^verbatim>\<open>sc_sub\<close> and \<^verbatim>\<open>sc_mulsub\<close> of
  \<^verbatim>\<open>crypto-ops.c\<close>. After their loads, the bodies of these functions are straight-line code
  over the \<^verbatim>\<open>int64_t\<close> locals \<^verbatim>\<open>s0\<close>, \<^verbatim>\<open>s1\<close>, \<dots> that consists of four kinds of statement
  (groups): the six assignments that fold a limb \<open>s_j\<close> by \<open>2^252 = 2^252 - l\<close>, the two carries, and
  \<^verbatim>\<open>s12 = 0\<close>. The locals are the list \<open>s\<close>, a statement is an \<open>sc_op\<close>, and \<open>sc_exec\<close> runs it.

  The theory gives an interval analysis of such code, \<open>sc_bounds\<close>: it follows the ranges of
  the live limbs and fails where an operation might leave the range of \<^verbatim>\<open>int64_t\<close>. Its
  soundness \<open>sc_run_sound\<close> says that wherever it succeeds the code keeps the value modulo \<open>l\<close>
  and ends with limbs in the computed ranges.
\<close>

definition sc_l :: int where
  "sc_l = 2 ^ 252 + 27742317777372353535851937790883648493"

section \<open>Statements\<close>

datatype sc_op = Fold nat | Near nat | Down nat | Clear nat

text \<open>
  \<open>Fold j\<close> stands for \<^verbatim>\<open>s_(j-12) += s_j * 666643; s_(j-11) += s_j * 470296; s_(j-10) += s_j * 654183;
  s_(j-9) -= s_j * 997805; s_(j-8) += s_j * 136657; s_(j-7) -= s_j * 683901;\<close>
\<close>

definition sc_fold :: "nat \<Rightarrow> int list \<Rightarrow> int list" where
  "sc_fold j s =
    (let x = s ! j; k = j - 12;
         s = s[k := i64 (s ! k + i64 (x * 666643))];
         s = s[k + 1 := i64 (s ! (k + 1) + i64 (x * 470296))];
         s = s[k + 2 := i64 (s ! (k + 2) + i64 (x * 654183))];
         s = s[k + 3 := i64 (s ! (k + 3) - i64 (x * 997805))];
         s = s[k + 4 := i64 (s ! (k + 4) + i64 (x * 136657))];
         s = s[k + 5 := i64 (s ! (k + 5) - i64 (x * 683901))]
     in s)"

fun sc_exec :: "sc_op \<Rightarrow> int list \<Rightarrow> int list" where
  "sc_exec (Fold j) s = sc_fold j s"
| "sc_exec (Near i) s = (let (a, b) = carry_near 21 (s ! i) (s ! (i + 1)) in s[i := a, i + 1 := b])"
| "sc_exec (Down i) s = (let (a, b) = carry_down 21 (s ! i) (s ! (i + 1)) in s[i := a, i + 1 := b])"
| "sc_exec (Clear i) s = s[i := 0]"

definition sc_run :: "sc_op list \<Rightarrow> int list \<Rightarrow> int list" where
  "sc_run ops s = fold sc_exec ops s"

section \<open>Values\<close>

definition sc_val :: "nat \<Rightarrow> int list \<Rightarrow> int" where
  "sc_val n s = (\<Sum>i<n. 2 ^ (21 * i) * s ! i)"

lemma sc_val_Suc: "sc_val (Suc n) s = sc_val n s + 2 ^ (21 * n) * s ! n"
  by (simp add: sc_val_def)

lemma sc_val_update:
  assumes "i < n" and "n \<le> length s"
  shows "sc_val n (s[i := x]) = sc_val n s + 2 ^ (21 * i) * (x - s ! i)"
proof -
  have "sc_val n (s[i := x]) = (\<Sum>k<n. 2 ^ (21 * k) * s ! k + (if k = i then 2 ^ (21 * k) * (x - s ! i) else 0))"
    unfolding sc_val_def using assms
    by (intro sum.cong refl) (auto simp: nth_list_update algebra_simps)
  also have "\<dots> = sc_val n s + 2 ^ (21 * i) * (x - s ! i)"
    using assms(1) by (simp add: sc_val_def sum.distrib)
  finally show ?thesis .
qed

lemma sc_val_update_ge:
  assumes "n \<le> i"
  shows "sc_val n (s[i := x]) = sc_val n s"
  unfolding sc_val_def using assms by (intro sum.cong refl) simp

text \<open>The multipliers represent \<open>2^252 - l\<close>.\<close>

lemma sc_l_digits:
  "2 ^ 252 - sc_l = 666643 + 2 ^ 21 * 470296 + 2 ^ 42 * 654183 - 2 ^ 63 * 997805 + 2 ^ 84 * 136657 - 2 ^ 105 * 683901"
  by (simp add: sc_l_def)

section \<open>Intervals\<close>

type_synonym iv = "int \<times> int"

definition iv_ok :: "iv \<Rightarrow> bool" where
  "iv_ok r \<longleftrightarrow> - (2 ^ 62) \<le> fst r \<and> snd r \<le> 2 ^ 62"

definition in_iv :: "iv \<Rightarrow> int \<Rightarrow> bool" where
  "in_iv r x \<longleftrightarrow> fst r \<le> x \<and> x \<le> snd r"

definition iv_add :: "iv \<Rightarrow> iv \<Rightarrow> iv" where
  "iv_add r q = (fst r + fst q, snd r + snd q)"

definition iv_times :: "iv \<Rightarrow> int \<Rightarrow> iv" where
  "iv_times r m = (if 0 \<le> m then (fst r * m, snd r * m) else (snd r * m, fst r * m))"

lemma in_iv_add: "in_iv r x \<Longrightarrow> in_iv q y \<Longrightarrow> in_iv (iv_add r q) (x + y)"
  by (simp add: in_iv_def iv_add_def)

lemma in_iv_times: "in_iv r x \<Longrightarrow> in_iv (iv_times r m) (x * m)"
  by (auto simp: in_iv_def iv_times_def mult_right_mono mult_right_mono_neg)

lemma in_iv_ok: "in_iv r x \<Longrightarrow> iv_ok r \<Longrightarrow> i64 x = x"
  by (rule i64_id) (auto simp: in_iv_def iv_ok_def)

section \<open>The interval analysis\<close>

text \<open>
  The list \<open>b\<close> holds the ranges of the live limbs \<open>s ! 0\<close>, \<dots>, \<open>s ! (length b - 1)\<close> among the
  \<open>N\<close> locals of the function. Folding the last live limb makes it dead; clearing the first dead
  limb makes it live again.
\<close>

definition iv_madd :: "nat \<Rightarrow> int \<Rightarrow> iv \<Rightarrow> iv list \<Rightarrow> iv list option" where
  "iv_madd k m r b =
    (let p = iv_times r m; q = iv_add (b ! k) p
     in if k < length b \<and> iv_ok p \<and> iv_ok q then Some (b[k := q]) else None)"

fun iv_madds :: "nat \<Rightarrow> int list \<Rightarrow> iv \<Rightarrow> iv list \<Rightarrow> iv list option" where
  "iv_madds k [] r b = Some b"
| "iv_madds k (m # ms) r b =
    (case iv_madd k m r b of None \<Rightarrow> None | Some b \<Rightarrow> iv_madds (Suc k) ms r b)"

fun sc_bounds :: "nat \<Rightarrow> sc_op \<Rightarrow> iv list \<Rightarrow> iv list option" where
  "sc_bounds N (Fold j) b =
    (if length b = Suc j \<and> 12 \<le> j
     then iv_madds (j - 12) [666643, 470296, 654183, - 997805, 136657, - 683901] (b ! j) (take j b)
     else None)"
| "sc_bounds N (Near i) b =
    (if Suc i < length b \<and> iv_ok (b ! i) \<and> iv_ok (b ! Suc i)
     then Some (b[i := (- 1048576, 1048575),
       Suc i := iv_add (b ! Suc i) ((fst (b ! i) + 1048576) div 2097152, (snd (b ! i) + 1048576) div 2097152)])
     else None)"
| "sc_bounds N (Down i) b =
    (if Suc i < length b \<and> iv_ok (b ! i) \<and> iv_ok (b ! Suc i)
     then Some (b[i := (0, 2097151),
       Suc i := iv_add (b ! Suc i) (fst (b ! i) div 2097152, snd (b ! i) div 2097152)])
     else None)"
| "sc_bounds N (Clear i) b = (if length b = i \<and> i < N then Some (b @ [(0, 0)]) else None)"

fun sc_bounds_run :: "nat \<Rightarrow> sc_op list \<Rightarrow> iv list \<Rightarrow> iv list option" where
  "sc_bounds_run N [] b = Some b"
| "sc_bounds_run N (op # ops) b =
    (case sc_bounds N op b of None \<Rightarrow> None | Some b \<Rightarrow> sc_bounds_run N ops b)"

definition sc_rel :: "nat \<Rightarrow> iv list \<Rightarrow> int list \<Rightarrow> bool" where
  "sc_rel N b s \<longleftrightarrow> length s = N \<and> length b \<le> N \<and> (\<forall>i < length b. in_iv (b ! i) (s ! i))"

lemma sc_rel_update:
  "sc_rel N b s \<Longrightarrow> in_iv r x \<Longrightarrow> sc_rel N (b[i := r]) (s[i := x])"
  by (cases "i < length b") (auto simp: sc_rel_def nth_list_update)

lemma sc_rel_nth: "sc_rel N b s \<Longrightarrow> i < length b \<Longrightarrow> in_iv (b ! i) (s ! i)"
  and sc_rel_length: "sc_rel N b s \<Longrightarrow> length s = N" "sc_rel N b s \<Longrightarrow> length b \<le> N"
  by (simp_all add: sc_rel_def)

subsection \<open>Carries\<close>

lemma sc_near_sound:
  assumes rel: "sc_rel N b s" and b: "sc_bounds N (Near i) b = Some b'"
  shows "sc_rel N b' (sc_exec (Near i) s)" and "length b' = length b"
    and "sc_val (length b) (sc_exec (Near i) s) = sc_val (length b) s"
proof -
  from b have i: "Suc i < length b" and ok: "iv_ok (b ! i)" "iv_ok (b ! Suc i)"
    and b': "b' = b[i := (- 1048576, 1048575), Suc i := iv_add (b ! Suc i)
      ((fst (b ! i) + 1048576) div 2097152, (snd (b ! i) + 1048576) div 2097152)]"
    by (auto split: if_splits)
  have in0: "in_iv (b ! i) (s ! i)" and in1: "in_iv (b ! Suc i) (s ! Suc i)"
    using sc_rel_nth [OF rel] i by simp_all
  obtain x y where e: "carry_near (Suc 20) (s ! i) (s ! Suc i) = (x, y)"
    by fastforce
  have "bnd (2 ^ 62) (s ! i)" "bnd (2 ^ 62) (s ! Suc i)"
    using in0 in1 ok by (auto simp: in_iv_def iv_ok_def bnd_def abs_le_iff)
  then obtain c where c: "x = s ! i - 2097152 * c" "y = s ! Suc i + c" "- 1048576 \<le> x" "x < 1048576"
    by (rule carry_near_cases [OF e]) simp_all
  have cd: "c = (s ! i + 1048576) div 2097152"
    using c by (intro int_div_pos_eq [symmetric, where r = "x + 1048576"]) simp_all
  have "in_iv ((fst (b ! i) + 1048576) div 2097152, (snd (b ! i) + 1048576) div 2097152) c"
    using in0 unfolding cd in_iv_def by (auto intro!: zdiv_mono1)
  then have inc: "in_iv (iv_add (b ! Suc i) ((fst (b ! i) + 1048576) div 2097152, (snd (b ! i) + 1048576) div 2097152)) y"
    unfolding c(2) by (intro in_iv_add in1)
  have ex: "sc_exec (Near i) s = s[i := x, Suc i := y]"
    using e by simp
  show "length b' = length b"
    by (simp add: b')
  show "sc_rel N b' (sc_exec (Near i) s)"
    unfolding ex b' using c(3,4) inc by (intro sc_rel_update rel) (simp_all add: in_iv_def)
  show "sc_val (length b) (sc_exec (Near i) s) = sc_val (length b) s"
    unfolding ex using i sc_rel_length [OF rel]
    by (simp add: sc_val_update c(1,2) power_add algebra_simps)
qed

lemma sc_down_sound:
  assumes rel: "sc_rel N b s" and b: "sc_bounds N (Down i) b = Some b'"
  shows "sc_rel N b' (sc_exec (Down i) s)" and "length b' = length b"
    and "sc_val (length b) (sc_exec (Down i) s) = sc_val (length b) s"
proof -
  from b have i: "Suc i < length b" and ok: "iv_ok (b ! i)" "iv_ok (b ! Suc i)"
    and b': "b' = b[i := (0, 2097151), Suc i := iv_add (b ! Suc i)
      (fst (b ! i) div 2097152, snd (b ! i) div 2097152)]"
    by (auto split: if_splits)
  have in0: "in_iv (b ! i) (s ! i)" and in1: "in_iv (b ! Suc i) (s ! Suc i)"
    using sc_rel_nth [OF rel] i by simp_all
  obtain x y where e: "carry_down (Suc 20) (s ! i) (s ! Suc i) = (x, y)"
    by fastforce
  have "bnd (2 ^ 62) (s ! i)" "bnd (2 ^ 62) (s ! Suc i)"
    using in0 in1 ok by (auto simp: in_iv_def iv_ok_def bnd_def abs_le_iff)
  then obtain c where c: "x = s ! i - 2097152 * c" "y = s ! Suc i + c" "0 \<le> x" "x < 2097152"
    by (rule carry_down_cases [OF e]) simp_all
  have cd: "c = s ! i div 2097152"
    using c by (intro int_div_pos_eq [symmetric, where r = "x"]) simp_all
  have "in_iv (fst (b ! i) div 2097152, snd (b ! i) div 2097152) c"
    using in0 unfolding cd in_iv_def by (auto intro!: zdiv_mono1)
  then have inc: "in_iv (iv_add (b ! Suc i) (fst (b ! i) div 2097152, snd (b ! i) div 2097152)) y"
    unfolding c(2) by (intro in_iv_add in1)
  have ex: "sc_exec (Down i) s = s[i := x, Suc i := y]"
    using e by simp
  show "length b' = length b"
    by (simp add: b')
  show "sc_rel N b' (sc_exec (Down i) s)"
    unfolding ex b' using c(3,4) inc by (intro sc_rel_update rel) (simp_all add: in_iv_def)
  show "sc_val (length b) (sc_exec (Down i) s) = sc_val (length b) s"
    unfolding ex using i sc_rel_length [OF rel]
    by (simp add: sc_val_update c(1,2) power_add algebra_simps)
qed

subsection \<open>Folds\<close>

lemma iv_madd_sound:
  assumes rel: "sc_rel N b s" and x: "in_iv r x" and b: "iv_madd k m r b = Some b'"
  shows "sc_rel N b' (s[k := s ! k + x * m])" and "length b' = length b" and "k < length b"
    and "i64 (s ! k + i64 (x * m)) = s ! k + x * m" and "i64 (s ! k - i64 (x * - m)) = s ! k + x * m"
proof -
  from b have k: "k < length b" and ok: "iv_ok (iv_times r m)" "iv_ok (iv_add (b ! k) (iv_times r m))"
    and b': "b' = b[k := iv_add (b ! k) (iv_times r m)]"
    by (auto simp: iv_madd_def Let_def split: if_splits)
  have p: "in_iv (iv_times r m) (x * m)"
    by (rule in_iv_times [OF x])
  have q: "in_iv (iv_add (b ! k) (iv_times r m)) (s ! k + x * m)"
    by (intro in_iv_add p sc_rel_nth [OF rel] k)
  have "i64 (x * - m) = x * - m"
    using p ok(1) by (intro i64_id) (auto simp: in_iv_def iv_ok_def)
  then show "i64 (s ! k - i64 (x * - m)) = s ! k + x * m"
    using in_iv_ok [OF q ok(2)] by simp
  show "i64 (s ! k + i64 (x * m)) = s ! k + x * m"
    using in_iv_ok [OF p ok(1)] in_iv_ok [OF q ok(2)] by simp
  show "length b' = length b" "k < length b"
    by (simp_all add: b' k)
  show "sc_rel N b' (s[k := s ! k + x * m])"
    unfolding b' by (intro sc_rel_update rel q)
qed

text \<open>The same six assignments, without the conversions.\<close>

definition sc_fold_int :: "nat \<Rightarrow> int \<Rightarrow> int list \<Rightarrow> int list" where
  "sc_fold_int k x s =
    (let s = s[k := s ! k + x * 666643];
         s = s[Suc k := s ! Suc k + x * 470296];
         s = s[Suc (Suc k) := s ! Suc (Suc k) + x * 654183];
         s = s[Suc (Suc (Suc k)) := s ! Suc (Suc (Suc k)) + x * (- 997805)];
         s = s[Suc (Suc (Suc (Suc k))) := s ! Suc (Suc (Suc (Suc k))) + x * 136657];
         s = s[Suc (Suc (Suc (Suc (Suc k)))) := s ! Suc (Suc (Suc (Suc (Suc k)))) + x * (- 683901)]
     in s)"

lemma sc_fold_sound:
  assumes rel: "sc_rel N b s" and b: "sc_bounds N (Fold j) b = Some b'"
  shows "sc_rel N b' (sc_exec (Fold j) s)" and "length b = Suc (length b')"
    and "sc_val (length b') (sc_exec (Fold j) s) =
      sc_val (length b) s - sc_l * (s ! j * 2 ^ (21 * (j - 12)))"
proof -
  define k where "k = j - 12"
  define x where "x = s ! j"
  from b have j: "length b = Suc j" "12 \<le> j"
    and m: "iv_madds k [666643, 470296, 654183, - 997805, 136657, - 683901] (b ! j) (take j b) = Some b'"
    by (auto simp: k_def split: if_splits)
  have x: "in_iv (b ! j) x"
    unfolding x_def by (rule sc_rel_nth [OF rel]) (simp add: j)
  have rel0: "sc_rel N (take j b) s"
    using rel j by (auto simp: sc_rel_def)
  from m obtain b1 b2 b3 b4 b5 where
    m1: "iv_madd k 666643 (b ! j) (take j b) = Some b1" and
    m2: "iv_madd (Suc k) 470296 (b ! j) b1 = Some b2" and
    m3: "iv_madd (Suc (Suc k)) 654183 (b ! j) b2 = Some b3" and
    m4: "iv_madd (Suc (Suc (Suc k))) (- 997805) (b ! j) b3 = Some b4" and
    m5: "iv_madd (Suc (Suc (Suc (Suc k)))) 136657 (b ! j) b4 = Some b5" and
    m6: "iv_madd (Suc (Suc (Suc (Suc (Suc k))))) (- 683901) (b ! j) b5 = Some b'"
    by (simp split: option.splits)
  note s1 = iv_madd_sound [OF rel0 x m1]
  note s2 = iv_madd_sound [OF s1(1) x m2]
  note s3 = iv_madd_sound [OF s2(1) x m3]
  note s4 = iv_madd_sound [OF s3(1) x m4]
  note s5 = iv_madd_sound [OF s4(1) x m5]
  note s6 = iv_madd_sound [OF s5(1) x m6]
  have n: "k + 1 = Suc k" "k + 2 = Suc (Suc k)" "k + 3 = Suc (Suc (Suc k))"
    "k + 4 = Suc (Suc (Suc (Suc k)))" "k + 5 = Suc (Suc (Suc (Suc (Suc k))))"
    by simp_all
  have ex: "sc_exec (Fold j) s = sc_fold_int k x s"
    unfolding sc_exec.simps sc_fold_def sc_fold_int_def Let_def k_def [symmetric] x_def [symmetric] n
    unfolding s1(4) s2(4) s3(4) s4(5) [unfolded minus_minus] s5(4) s6(5) [unfolded minus_minus] ..
  have len: "length b' = j"
    using s1(2) s2(2) s3(2) s4(2) s5(2) s6(2) j by simp
  then show "length b = Suc (length b')"
    by (simp add: j)
  show "sc_rel N b' (sc_exec (Fold j) s)"
    unfolding ex sc_fold_int_def Let_def by (rule s6(1))
  have jk: "j = k + 12"
    using j by (simp add: k_def)
  have lens: "k + 12 < length s"
    using sc_rel_length [OF rel] j jk by simp
  have "sc_val j (sc_fold_int k x s) = sc_val j s + 2 ^ (21 * k) * (x * (2 ^ 252 - sc_l))"
    using lens unfolding jk sc_fold_int_def Let_def sc_l_digits
    by (simp add: sc_val_update) (simp add: power_add algebra_simps)
  also have "\<dots> = sc_val (Suc j) s - sc_l * (s ! j * 2 ^ (21 * (j - 12)))"
    unfolding sc_val_Suc by (simp add: x_def jk power_add algebra_simps)
  finally show "sc_val (length b') (sc_exec (Fold j) s) =
      sc_val (length b) s - sc_l * (s ! j * 2 ^ (21 * (j - 12)))"
    unfolding len ex j(1) .
qed

subsection \<open>Whole functions\<close>

lemma sc_step_sound:
  assumes "sc_rel N b s" and "sc_bounds N op b = Some b'"
  shows "sc_rel N b' (sc_exec op s)"
    and "\<exists>q. sc_val (length b') (sc_exec op s) = sc_val (length b) s - sc_l * q"
proof -
  have "sc_rel N b' (sc_exec op s) \<and>
    (\<exists>q. sc_val (length b') (sc_exec op s) = sc_val (length b) s - sc_l * q)"
  proof (cases op)
    case (Fold j)
    then show ?thesis
      using sc_fold_sound [of N b s j b'] assms by blast
  next
    case (Near i)
    then show ?thesis
      using sc_near_sound [of N b s i b'] assms by (auto intro: exI [of _ 0])
  next
    case (Down i)
    then show ?thesis
      using sc_down_sound [of N b s i b'] assms by (auto intro: exI [of _ 0])
  next
    case (Clear i)
    with assms(2) have i: "length b = i" "i < N" and b': "b' = b @ [(0, 0)]"
      by (simp_all split: if_splits)
    have "sc_rel N b' (s[i := 0])"
      using assms(1) i unfolding b' sc_rel_def by (auto simp: nth_append nth_list_update less_Suc_eq in_iv_def)
    moreover have "sc_val (length b') (s[i := 0]) = sc_val (length b) s"
      using i assms(1) unfolding b' by (simp add: sc_val_Suc sc_val_update_ge sc_rel_def)
    ultimately show ?thesis
      unfolding Clear sc_exec.simps by (auto intro: exI [of _ 0])
  qed
  then show "sc_rel N b' (sc_exec op s)"
    "\<exists>q. sc_val (length b') (sc_exec op s) = sc_val (length b) s - sc_l * q"
    by simp_all
qed

lemma sc_run_simps: "sc_run [] s = s" "sc_run (op # ops) s = sc_run ops (sc_exec op s)"
  "sc_run (ops @ ops') s = sc_run ops' (sc_run ops s)"
  by (simp_all add: sc_run_def)

lemma sc_run_sound:
  assumes "sc_rel N b s" and "sc_bounds_run N ops b = Some b'"
  shows "sc_rel N b' (sc_run ops s) \<and>
    sc_val (length b') (sc_run ops s) mod sc_l = sc_val (length b) s mod sc_l"
  using assms
proof (induction ops arbitrary: b s)
  case Nil
  then show ?case by (simp add: sc_run_simps)
next
  case (Cons op ops)
  from Cons.prems(2) obtain b1 where b1: "sc_bounds N op b = Some b1" "sc_bounds_run N ops b1 = Some b'"
    by (simp split: option.splits)
  note st = sc_step_sound [OF Cons.prems(1) b1(1)]
  obtain q where "sc_val (length b1) (sc_exec op s) = sc_val (length b) s - sc_l * q"
    using st(2) by blast
  then have "sc_val (length b1) (sc_exec op s) mod sc_l = sc_val (length b) s mod sc_l"
    by (simp add: mod_diff_eq [symmetric])
  then show ?case
    using Cons.IH [OF st(1) b1(2)] by (simp add: sc_run_simps)
qed

end
