(* ===== verification/Sc_Ops.thy ===== *)
theory Sc_Ops
  imports Sc_Base
begin

text \<open>
  The scalar functions of \<^verbatim>\<open>crypto-ops.c\<close>: loads of 12 and 24 limbs, the statements of each
  function, the stores, and the functions themselves. The statements of \<^verbatim>\<open>sc_add\<close> and
  \<^verbatim>\<open>sc_sub\<close> are those of \<^verbatim>\<open>sc_reduce32\<close>; the ones of \<^verbatim>\<open>sc_reduce\<close> end with them and
  the ones of \<^verbatim>\<open>sc_mulsub\<close> end with those of \<^verbatim>\<open>sc_reduce\<close>.
\<close>

section \<open>Definitions\<close>

definition sc_load12 :: "byte list \<Rightarrow> int list" where
  "sc_load12 s =
     [2097151 AND load_3 s 0,
      2097151 AND drop_bit 5 (load_4 s 2),
      2097151 AND drop_bit 2 (load_3 s 5),
      2097151 AND drop_bit 7 (load_4 s 7),
      2097151 AND drop_bit 4 (load_4 s 10),
      2097151 AND drop_bit 1 (load_3 s 13),
      2097151 AND drop_bit 6 (load_4 s 15),
      2097151 AND drop_bit 3 (load_3 s 18),
      2097151 AND load_3 s 21,
      2097151 AND drop_bit 5 (load_4 s 23),
      2097151 AND drop_bit 2 (load_3 s 26),
      drop_bit 7 (load_4 s 28)]"

definition sc_load24 :: "byte list \<Rightarrow> int list" where
  "sc_load24 s =
     [2097151 AND load_3 s 0,
      2097151 AND drop_bit 5 (load_4 s 2),
      2097151 AND drop_bit 2 (load_3 s 5),
      2097151 AND drop_bit 7 (load_4 s 7),
      2097151 AND drop_bit 4 (load_4 s 10),
      2097151 AND drop_bit 1 (load_3 s 13),
      2097151 AND drop_bit 6 (load_4 s 15),
      2097151 AND drop_bit 3 (load_3 s 18),
      2097151 AND load_3 s 21,
      2097151 AND drop_bit 5 (load_4 s 23),
      2097151 AND drop_bit 2 (load_3 s 26),
      2097151 AND drop_bit 7 (load_4 s 28),
      2097151 AND drop_bit 4 (load_4 s 31),
      2097151 AND drop_bit 1 (load_3 s 34),
      2097151 AND drop_bit 6 (load_4 s 36),
      2097151 AND drop_bit 3 (load_3 s 39),
      2097151 AND load_3 s 42,
      2097151 AND drop_bit 5 (load_4 s 44),
      2097151 AND drop_bit 2 (load_3 s 47),
      2097151 AND drop_bit 7 (load_4 s 49),
      2097151 AND drop_bit 4 (load_4 s 52),
      2097151 AND drop_bit 1 (load_3 s 55),
      2097151 AND drop_bit 6 (load_4 s 57),
      drop_bit 3 (load_4 s 60)]"

definition sc_store :: "int list \<Rightarrow> byte list" where
  "sc_store s =
    (let s0 = s ! 0;
         s1 = s ! 1;
         s2 = s ! 2;
         s3 = s ! 3;
         s4 = s ! 4;
         s5 = s ! 5;
         s6 = s ! 6;
         s7 = s ! 7;
         s8 = s ! 8;
         s9 = s ! 9;
         s10 = s ! 10;
         s11 = s ! 11
     in [word_of_int (drop_bit 0 s0),
         word_of_int (drop_bit 8 s0),
         word_of_int (drop_bit 16 s0 OR push_bit 5 s1),
         word_of_int (drop_bit 3 s1),
         word_of_int (drop_bit 11 s1),
         word_of_int (drop_bit 19 s1 OR push_bit 2 s2),
         word_of_int (drop_bit 6 s2),
         word_of_int (drop_bit 14 s2 OR push_bit 7 s3),
         word_of_int (drop_bit 1 s3),
         word_of_int (drop_bit 9 s3),
         word_of_int (drop_bit 17 s3 OR push_bit 4 s4),
         word_of_int (drop_bit 4 s4),
         word_of_int (drop_bit 12 s4),
         word_of_int (drop_bit 20 s4 OR push_bit 1 s5),
         word_of_int (drop_bit 7 s5),
         word_of_int (drop_bit 15 s5 OR push_bit 6 s6),
         word_of_int (drop_bit 2 s6),
         word_of_int (drop_bit 10 s6),
         word_of_int (drop_bit 18 s6 OR push_bit 3 s7),
         word_of_int (drop_bit 5 s7),
         word_of_int (drop_bit 13 s7),
         word_of_int (drop_bit 0 s8),
         word_of_int (drop_bit 8 s8),
         word_of_int (drop_bit 16 s8 OR push_bit 5 s9),
         word_of_int (drop_bit 3 s9),
         word_of_int (drop_bit 11 s9),
         word_of_int (drop_bit 19 s9 OR push_bit 2 s10),
         word_of_int (drop_bit 6 s10),
         word_of_int (drop_bit 14 s10 OR push_bit 7 s11),
         word_of_int (drop_bit 1 s11),
         word_of_int (drop_bit 9 s11),
         word_of_int (drop_bit 17 s11)])"

definition sc_last_ops :: "sc_op list" where
  "sc_last_ops =
     [Fold 12, Down 0, Down 1, Down 2, Down 3, Down 4, Down 5, Down 6, Down 7, Down 8, 
      Down 9, Down 10]"

definition sc_reduce32_ops :: "sc_op list" where
  "sc_reduce32_ops =
     [Near 0, Near 2, Near 4, Near 6, Near 8, Near 10, Near 1, Near 3, Near 5, Near 7, 
      Near 9, Near 11, Fold 12, Clear 12, Down 0, Down 1, Down 2, Down 3, Down 4, Down 5, 
      Down 6, Down 7, Down 8, Down 9, Down 10, Down 11]
     @ sc_last_ops"

definition sc_reduce_ops :: "sc_op list" where
  "sc_reduce_ops =
     [Fold 23, Fold 22, Fold 21, Fold 20, Fold 19, Fold 18, Near 6, Near 8, Near 10, 
      Near 12, Near 14, Near 16, Near 7, Near 9, Near 11, Near 13, Near 15, Fold 17, 
      Fold 16, Fold 15, Fold 14, Fold 13, Fold 12, Clear 12]
     @ sc_reduce32_ops"

definition sc_mulsub_ops :: "sc_op list" where
  "sc_mulsub_ops =
     [Near 0, Near 2, Near 4, Near 6, Near 8, Near 10, Near 12, Near 14, Near 16, Near 18, 
      Near 20, Near 22, Near 1, Near 3, Near 5, Near 7, Near 9, Near 11, Near 13, Near 15, 
      Near 17, Near 19, Near 21]
     @ sc_reduce_ops"

definition sc_reduce :: "byte list \<Rightarrow> byte list" where
  "sc_reduce s = sc_store (sc_run sc_reduce_ops (sc_load24 s))"

definition sc_reduce32 :: "byte list \<Rightarrow> byte list" where
  "sc_reduce32 s = sc_store (sc_run sc_reduce32_ops (sc_load12 s @ [0]))"

definition sc_reduce32copy :: "byte list \<Rightarrow> byte list" where
  "sc_reduce32copy s = sc_store (sc_run sc_reduce32_ops (sc_load12 s @ [0]))"

definition sc_add :: "byte list \<Rightarrow> byte list \<Rightarrow> byte list" where
  "sc_add a b =
     sc_store (sc_run sc_reduce32_ops (map2 (\<lambda>x y. i64 (x + y)) (sc_load12 a) (sc_load12 b) @ [0]))"

definition sc_sub :: "byte list \<Rightarrow> byte list \<Rightarrow> byte list" where
  "sc_sub a b =
     sc_store (sc_run sc_reduce32_ops (map2 (\<lambda>x y. i64 (x - y)) (sc_load12 a) (sc_load12 b) @ [0]))"

text \<open>The limbs of \<open>c - a b\<close>; all operations of an expression are on \<^verbatim>\<open>int64_t\<close>.\<close>

definition sc_mulsub_limbs :: "int list \<Rightarrow> int list \<Rightarrow> int list \<Rightarrow> int list" where
  "sc_mulsub_limbs a b c =
     [i64 (c ! 0 - a ! 0 * b ! 0),
      i64 (c ! 1 - (a ! 0 * b ! 1 + a ! 1 * b ! 0)),
      i64 (c ! 2 - (a ! 0 * b ! 2 + a ! 1 * b ! 1 + a ! 2 * b ! 0)),
      i64 (c ! 3 - (a ! 0 * b ! 3 + a ! 1 * b ! 2 + a ! 2 * b ! 1 + a ! 3 * b ! 0)),
      i64 (c ! 4 - (a ! 0 * b ! 4 + a ! 1 * b ! 3 + a ! 2 * b ! 2 + a ! 3 * b ! 1 + a ! 4 * b ! 0)),
      i64 (c ! 5 - (a ! 0 * b ! 5 + a ! 1 * b ! 4 + a ! 2 * b ! 3 + a ! 3 * b ! 2 + a ! 4 * b ! 1 + a ! 5 * b ! 0)),
      i64 (c ! 6 - (a ! 0 * b ! 6 + a ! 1 * b ! 5 + a ! 2 * b ! 4 + a ! 3 * b ! 3 + a ! 4 * b ! 2 + a ! 5 * b ! 1 + a ! 6 * b ! 0)),
      i64 (c ! 7 - (a ! 0 * b ! 7 + a ! 1 * b ! 6 + a ! 2 * b ! 5 + a ! 3 * b ! 4 + a ! 4 * b ! 3 + a ! 5 * b ! 2 + a ! 6 * b ! 1 + a ! 7 * b ! 0)),
      i64 (c ! 8 - (a ! 0 * b ! 8 + a ! 1 * b ! 7 + a ! 2 * b ! 6 + a ! 3 * b ! 5 + a ! 4 * b ! 4 + a ! 5 * b ! 3 + a ! 6 * b ! 2 + a ! 7 * b ! 1 + a ! 8 * b ! 0)),
      i64 (c ! 9 - (a ! 0 * b ! 9 + a ! 1 * b ! 8 + a ! 2 * b ! 7 + a ! 3 * b ! 6 + a ! 4 * b ! 5 + a ! 5 * b ! 4 + a ! 6 * b ! 3 + a ! 7 * b ! 2 + a ! 8 * b ! 1 + a ! 9 * b ! 0)),
      i64 (c ! 10 - (a ! 0 * b ! 10 + a ! 1 * b ! 9 + a ! 2 * b ! 8 + a ! 3 * b ! 7 + a ! 4 * b ! 6 + a ! 5 * b ! 5 + a ! 6 * b ! 4 + a ! 7 * b ! 3 + a ! 8 * b ! 2 + a ! 9 * b ! 1 + a ! 10 * b ! 0)),
      i64 (c ! 11 - (a ! 0 * b ! 11 + a ! 1 * b ! 10 + a ! 2 * b ! 9 + a ! 3 * b ! 8 + a ! 4 * b ! 7 + a ! 5 * b ! 6 + a ! 6 * b ! 5 + a ! 7 * b ! 4 + a ! 8 * b ! 3 + a ! 9 * b ! 2 + a ! 10 * b ! 1 + a ! 11 * b ! 0)),
      i64 (- (a ! 1 * b ! 11 + a ! 2 * b ! 10 + a ! 3 * b ! 9 + a ! 4 * b ! 8 + a ! 5 * b ! 7 + a ! 6 * b ! 6 + a ! 7 * b ! 5 + a ! 8 * b ! 4 + a ! 9 * b ! 3 + a ! 10 * b ! 2 + a ! 11 * b ! 1)),
      i64 (- (a ! 2 * b ! 11 + a ! 3 * b ! 10 + a ! 4 * b ! 9 + a ! 5 * b ! 8 + a ! 6 * b ! 7 + a ! 7 * b ! 6 + a ! 8 * b ! 5 + a ! 9 * b ! 4 + a ! 10 * b ! 3 + a ! 11 * b ! 2)),
      i64 (- (a ! 3 * b ! 11 + a ! 4 * b ! 10 + a ! 5 * b ! 9 + a ! 6 * b ! 8 + a ! 7 * b ! 7 + a ! 8 * b ! 6 + a ! 9 * b ! 5 + a ! 10 * b ! 4 + a ! 11 * b ! 3)),
      i64 (- (a ! 4 * b ! 11 + a ! 5 * b ! 10 + a ! 6 * b ! 9 + a ! 7 * b ! 8 + a ! 8 * b ! 7 + a ! 9 * b ! 6 + a ! 10 * b ! 5 + a ! 11 * b ! 4)),
      i64 (- (a ! 5 * b ! 11 + a ! 6 * b ! 10 + a ! 7 * b ! 9 + a ! 8 * b ! 8 + a ! 9 * b ! 7 + a ! 10 * b ! 6 + a ! 11 * b ! 5)),
      i64 (- (a ! 6 * b ! 11 + a ! 7 * b ! 10 + a ! 8 * b ! 9 + a ! 9 * b ! 8 + a ! 10 * b ! 7 + a ! 11 * b ! 6)),
      i64 (- (a ! 7 * b ! 11 + a ! 8 * b ! 10 + a ! 9 * b ! 9 + a ! 10 * b ! 8 + a ! 11 * b ! 7)),
      i64 (- (a ! 8 * b ! 11 + a ! 9 * b ! 10 + a ! 10 * b ! 9 + a ! 11 * b ! 8)),
      i64 (- (a ! 9 * b ! 11 + a ! 10 * b ! 10 + a ! 11 * b ! 9)),
      i64 (- (a ! 10 * b ! 11 + a ! 11 * b ! 10)),
      i64 (- (a ! 11 * b ! 11)),
      0]"

definition sc_mulsub :: "byte list \<Rightarrow> byte list \<Rightarrow> byte list \<Rightarrow> byte list" where
  "sc_mulsub a b c =
     sc_store (sc_run sc_mulsub_ops (sc_mulsub_limbs (sc_load12 a) (sc_load12 b) (sc_load12 c)))"

section \<open>Loads\<close>

lemma and_21: "2097151 AND x = x mod 2097152" for x :: int
  using take_bit_eq_mask [of 21 x] by (simp add: take_bit_eq_mod mask_eq_exp_minus_1 and.commute)

lemma limb_window_4:
  assumes "k + 4 \<le> length s" and "n \<le> 11"
  shows "drop_bit n (load_4 s k) mod 2097152 = le_val s div 2 ^ (8 * k + n) mod 2097152"
proof -
  have "drop_bit n (load_4 s k) mod 2 ^ 21 = take_bit 21 (drop_bit n (take_bit 32 (drop_bit (8 * k) (le_val s))))"
    unfolding load_4_window [OF assms(1)] by (simp add: take_bit_eq_mod drop_bit_eq_div power_mult)
  also have "\<dots> = take_bit 21 (drop_bit (8 * k + n) (le_val s))"
    using assms(2) by (simp add: drop_bit_take_bit min_absorb1 add.commute)
  finally show ?thesis
    by (simp add: take_bit_eq_mod drop_bit_eq_div)
qed

lemma limb_window_3:
  assumes "k + 3 \<le> length s" and "n \<le> 3"
  shows "drop_bit n (load_3 s k) mod 2097152 = le_val s div 2 ^ (8 * k + n) mod 2097152"
proof -
  have "drop_bit n (load_3 s k) mod 2 ^ 21 = take_bit 21 (drop_bit n (take_bit 24 (drop_bit (8 * k) (le_val s))))"
    unfolding load_3_window [OF assms(1)] by (simp add: take_bit_eq_mod drop_bit_eq_div power_mult)
  also have "\<dots> = take_bit 21 (drop_bit (8 * k + n) (le_val s))"
    using assms(2) by (simp add: drop_bit_take_bit min_absorb1 add.commute)
  finally show ?thesis
    by (simp add: take_bit_eq_mod drop_bit_eq_div)
qed

lemma limb_window_end:
  assumes "length s = k + 4"
  shows "drop_bit n (load_4 s k) = le_val s div 2 ^ (8 * k + n)"
proof -
  have "le_val s div 256 ^ k < 256 ^ 4"
    using le_val_less [of "drop k s"] assms by (simp add: le_val_drop)
  then have "load_4 s k = le_val s div 2 ^ (8 * k)"
    using le_val_nonneg [of s] assms by (simp add: load_4_window power_mult pos_imp_zdiv_nonneg_iff)
  then show ?thesis
    by (simp add: drop_bit_eq_div power_add zdiv_zmult2_eq)
qed

definition sc_limb :: "int \<Rightarrow> nat \<Rightarrow> int" where
  "sc_limb v i = v div 2 ^ (21 * i) mod 2097152"

lemma sc_limb_range: "0 \<le> sc_limb v i" "sc_limb v i \<le> 2097151"
  using pos_mod_bound [of 2097152 "v div 2 ^ (21 * i)"] by (simp_all add: sc_limb_def)

lemma sc_limb_sum: "(\<Sum>i<n. 2 ^ (21 * i) * sc_limb v i) + 2 ^ (21 * n) * (v div 2 ^ (21 * n)) = v"
proof (induction n)
  case 0
  then show ?case by simp
next
  case (Suc n)
  define w where "w = v div 2 ^ (21 * n)"
  have a: "v div (2 ^ (21 * n) * 2097152) = w div 2097152"
    by (simp add: w_def zdiv_zmult2_eq)
  have p: "2 ^ (21 * Suc n) = 2 ^ (21 * n) * (2097152 :: int)"
    by (simp add: power_add)
  have b: "sc_limb v n = w mod 2097152"
    by (simp add: sc_limb_def w_def)
  have "(\<Sum>i<Suc n. 2 ^ (21 * i) * sc_limb v i) + 2 ^ (21 * Suc n) * (v div 2 ^ (21 * Suc n)) =
    (\<Sum>i<n. 2 ^ (21 * i) * sc_limb v i) + 2 ^ (21 * n) * (2097152 * (w div 2097152) + w mod 2097152)"
    unfolding sum.lessThan_Suc p a b by (simp only: distrib_left mult.assoc add.assoc add.commute)
  also have "\<dots> = v"
    using Suc by (simp add: w_def)
  finally show ?case .
qed

lemma sc_load12_eq:
  assumes "length s = 32"
  shows "sc_load12 s = map (sc_limb (le_val s)) [0..<11] @ [le_val s div 2 ^ 231]"
proof -
  note w = limb_window_3 [of _ s 0] limb_window_3 limb_window_4 limb_window_end
  show ?thesis
    unfolding sc_load12_def and_21 using assms limb_window_3 [of _ s 0]
    by (simp add: w upt_conv_Cons sc_limb_def)
qed

lemma sc_load24_eq:
  assumes "length s = 64"
  shows "sc_load24 s = map (sc_limb (le_val s)) [0..<23] @ [le_val s div 2 ^ 483]"
proof -
  note w = limb_window_3 limb_window_4 limb_window_end
  show ?thesis
    unfolding sc_load24_def and_21 using assms limb_window_3 [of _ s 0]
    by (simp add: w upt_conv_Cons sc_limb_def)
qed

lemma sc_load_val:
  assumes "s = map (sc_limb v) [0..<n] @ [v div 2 ^ (21 * n)] @ t"
  shows "sc_val (Suc n) s = v"
proof -
  have "sc_val (Suc n) s = (\<Sum>i<n. 2 ^ (21 * i) * sc_limb v i) + 2 ^ (21 * n) * (v div 2 ^ (21 * n))"
    unfolding sc_val_Suc unfolding sc_val_def assms
    by (intro arg_cong2 [of _ _ _ _ "(+)"] sum.cong refl) (simp_all add: nth_append)
  then show ?thesis
    by (simp add: sc_limb_sum)
qed

lemma le_val_div_range:
  assumes "length s = 32"
  shows "0 \<le> le_val s div 2 ^ 231" and "le_val s div 2 ^ 231 \<le> 33554431"
proof -
  have "le_val s < 2 ^ 256"
    using le_val_less [of s] by (simp add: assms)
  then have "le_val s div 2 ^ 231 < 2 ^ 25"
    by (intro div_pow_less) simp
  then show "le_val s div 2 ^ 231 \<le> 33554431"
    by simp
  show "0 \<le> le_val s div 2 ^ 231"
    using le_val_nonneg [of s] by (simp add: pos_imp_zdiv_nonneg_iff)
qed

lemma sc_load12_val: "length s = 32 \<Longrightarrow> sc_val 12 (sc_load12 s @ t) = le_val s"
  using sc_load_val [of "sc_load12 s @ t" "le_val s" 11 t]
  by (simp add: sc_load12_eq eval_nat_numeral)

lemma length_sc_load12: "length (sc_load12 s) = 12"
  by (simp add: sc_load12_def)

lemma sc_load12_range:
  assumes "length s = 32" and "i < 12"
  shows "0 \<le> sc_load12 s ! i" and "sc_load12 s ! i \<le> (if i = 11 then 33554431 else 2097151)"
  using assms(2) le_val_div_range [OF assms(1)] sc_limb_range [of "le_val s" i]
  unfolding sc_load12_eq [OF assms(1)] by (auto simp: nth_append less_Suc_eq eval_nat_numeral)

section \<open>The last statements and the stores\<close>

text \<open>
  Before its last fold, each function has reached limbs of 21 bits and a top limb \<open>s12\<close> that is
  \<open>0\<close> or \<open>-1\<close>. Then the fold gives a value between \<open>0\<close> and \<open>l - 1\<close>.
\<close>

lemma sc_digits_val:
  assumes "sc_rel N (replicate n (0, 2097151) @ b) s"
  shows "0 \<le> sc_val n s" and "sc_val n s < 2 ^ (21 * n)"
proof -
  have d: "0 \<le> s ! i \<and> s ! i \<le> 2097151" if "i < n" for i
    using sc_rel_nth [OF assms, of i] that by (simp add: nth_append in_iv_def)
  have "0 \<le> sc_val k s \<and> sc_val k s < 2 ^ (21 * k)" if "k \<le> n" for k
    using that
  proof (induction k)
    case 0
    then show ?case by (simp add: sc_val_def)
  next
    case (Suc k)
    define K :: int where "K = 2 ^ (21 * k)"
    have K: "0 \<le> K" "2 ^ (21 * Suc k) = K * 2097152"
      by (simp_all add: K_def power_add)
    have "K * s ! k \<le> K * 2097151" "0 \<le> K * s ! k"
      using d [of k] Suc.prems K(1) by (simp_all add: mult_left_mono)
    moreover have "0 \<le> sc_val k s" "sc_val k s < K"
      using Suc unfolding K_def by simp_all
    ultimately show ?case
      unfolding sc_val_Suc K(2) K_def [symmetric] by linarith
  qed
  then show "0 \<le> sc_val n s" "sc_val n s < 2 ^ (21 * n)"
    by simp_all
qed

lemma sc_downs_val:
  assumes "sc_rel N b s" and "sc_bounds_run N (map Down is) b = Some b'"
  shows "sc_val (length b) (sc_run (map Down is) s) = sc_val (length b) s"
  using assms
proof (induction "is" arbitrary: b s)
  case Nil
  then show ?case by (simp add: sc_run_simps)
next
  case (Cons i "is")
  from Cons.prems(2) obtain b1 where b1: "sc_bounds N (Down i) b = Some b1"
    "sc_bounds_run N (map Down is) b1 = Some b'"
    by (simp split: option.splits)
  note st = sc_down_sound [OF Cons.prems(1) b1(1)]
  show ?case
    using Cons.IH [OF st(1) b1(2)] st(2,3) by (simp add: sc_run_simps)
qed

lemma sc_store_val:
  assumes "0 \<le> s ! 0" "s ! 0 < 2097152" "0 \<le> s ! 1" "s ! 1 < 2097152" "0 \<le> s ! 2" "s ! 2 < 2097152" "0 \<le> s ! 3" "s ! 3 < 2097152" "0 \<le> s ! 4" "s ! 4 < 2097152" "0 \<le> s ! 5" "s ! 5 < 2097152" "0 \<le> s ! 6" "s ! 6 < 2097152" "0 \<le> s ! 7" "s ! 7 < 2097152" "0 \<le> s ! 8" "s ! 8 < 2097152" "0 \<le> s ! 9" "s ! 9 < 2097152" "0 \<le> s ! 10" "s ! 10 < 2097152" "0 \<le> s ! 11" "s ! 11 < 33554432"
  shows "le_val (sc_store s) = sc_val 12 s"
proof -
  define s0 where "s0 = s ! 0"
  define s1 where "s1 = s ! 1"
  define s2 where "s2 = s ! 2"
  define s3 where "s3 = s ! 3"
  define s4 where "s4 = s ! 4"
  define s5 where "s5 = s ! 5"
  define s6 where "s6 = s ! 6"
  define s7 where "s7 = s ! 7"
  define s8 where "s8 = s ! 8"
  define s9 where "s9 = s ! 9"
  define s10 where "s10 = s ! 10"
  define s11 where "s11 = s ! 11"
  have bd0: "0 \<le> s0" "s0 < 2097152" and bd1: "0 \<le> s1" "s1 < 2097152" and bd2: "0 \<le> s2" "s2 < 2097152" and bd3: "0 \<le> s3" "s3 < 2097152" and bd4: "0 \<le> s4" "s4 < 2097152" and bd5: "0 \<le> s5" "s5 < 2097152" and bd6: "0 \<le> s6" "s6 < 2097152" and bd7: "0 \<le> s7" "s7 < 2097152" and bd8: "0 \<le> s8" "s8 < 2097152" and bd9: "0 \<le> s9" "s9 < 2097152" and bd10: "0 \<le> s10" "s10 < 2097152" and bd11: "0 \<le> s11" "s11 < 33554432"
    using assms by (simp_all add: s0_def s1_def s2_def s3_def s4_def s5_def s6_def s7_def s8_def s9_def s10_def s11_def)
  define s0_0 where "s0_0 = s0 mod 256"
  define s0_8 where "s0_8 = s0 div 256 mod 256"
  define s0_16 where "s0_16 = s0 div 65536"
  define s1_0 where "s1_0 = s1 mod 8"
  define s1_3 where "s1_3 = s1 div 8 mod 256"
  define s1_11 where "s1_11 = s1 div 2048 mod 256"
  define s1_19 where "s1_19 = s1 div 524288"
  define s2_0 where "s2_0 = s2 mod 64"
  define s2_6 where "s2_6 = s2 div 64 mod 256"
  define s2_14 where "s2_14 = s2 div 16384"
  define s3_0 where "s3_0 = s3 mod 2"
  define s3_1 where "s3_1 = s3 div 2 mod 256"
  define s3_9 where "s3_9 = s3 div 512 mod 256"
  define s3_17 where "s3_17 = s3 div 131072"
  define s4_0 where "s4_0 = s4 mod 16"
  define s4_4 where "s4_4 = s4 div 16 mod 256"
  define s4_12 where "s4_12 = s4 div 4096 mod 256"
  define s4_20 where "s4_20 = s4 div 1048576"
  define s5_0 where "s5_0 = s5 mod 128"
  define s5_7 where "s5_7 = s5 div 128 mod 256"
  define s5_15 where "s5_15 = s5 div 32768"
  define s6_0 where "s6_0 = s6 mod 4"
  define s6_2 where "s6_2 = s6 div 4 mod 256"
  define s6_10 where "s6_10 = s6 div 1024 mod 256"
  define s6_18 where "s6_18 = s6 div 262144"
  define s7_0 where "s7_0 = s7 mod 32"
  define s7_5 where "s7_5 = s7 div 32 mod 256"
  define s7_13 where "s7_13 = s7 div 8192"
  define s8_0 where "s8_0 = s8 mod 256"
  define s8_8 where "s8_8 = s8 div 256 mod 256"
  define s8_16 where "s8_16 = s8 div 65536"
  define s9_0 where "s9_0 = s9 mod 8"
  define s9_3 where "s9_3 = s9 div 8 mod 256"
  define s9_11 where "s9_11 = s9 div 2048 mod 256"
  define s9_19 where "s9_19 = s9 div 524288"
  define s10_0 where "s10_0 = s10 mod 64"
  define s10_6 where "s10_6 = s10 div 64 mod 256"
  define s10_14 where "s10_14 = s10 div 16384"
  define s11_0 where "s11_0 = s11 mod 2"
  define s11_1 where "s11_1 = s11 div 2 mod 256"
  define s11_9 where "s11_9 = s11 div 512 mod 256"
  define s11_17 where "s11_17 = s11 div 131072"
  have s0e: "s0 = s0_0 + 256 * s0_8 + 65536 * s0_16"
    using mult_div_mod_eq [of 256 s0] split_byte [of s0 8, simplified]
    unfolding s0_0_def s0_8_def s0_16_def by linarith
  have s1e: "s1 = s1_0 + 8 * s1_3 + 2048 * s1_11 + 524288 * s1_19"
    using mult_div_mod_eq [of 8 s1] split_byte [of s1 3, simplified] split_byte [of s1 11, simplified]
    unfolding s1_0_def s1_3_def s1_11_def s1_19_def by linarith
  have s2e: "s2 = s2_0 + 64 * s2_6 + 16384 * s2_14"
    using mult_div_mod_eq [of 64 s2] split_byte [of s2 6, simplified]
    unfolding s2_0_def s2_6_def s2_14_def by linarith
  have s3e: "s3 = s3_0 + 2 * s3_1 + 512 * s3_9 + 131072 * s3_17"
    using mult_div_mod_eq [of 2 s3] split_byte [of s3 1, simplified] split_byte [of s3 9, simplified]
    unfolding s3_0_def s3_1_def s3_9_def s3_17_def by linarith
  have s4e: "s4 = s4_0 + 16 * s4_4 + 4096 * s4_12 + 1048576 * s4_20"
    using mult_div_mod_eq [of 16 s4] split_byte [of s4 4, simplified] split_byte [of s4 12, simplified]
    unfolding s4_0_def s4_4_def s4_12_def s4_20_def by linarith
  have s5e: "s5 = s5_0 + 128 * s5_7 + 32768 * s5_15"
    using mult_div_mod_eq [of 128 s5] split_byte [of s5 7, simplified]
    unfolding s5_0_def s5_7_def s5_15_def by linarith
  have s6e: "s6 = s6_0 + 4 * s6_2 + 1024 * s6_10 + 262144 * s6_18"
    using mult_div_mod_eq [of 4 s6] split_byte [of s6 2, simplified] split_byte [of s6 10, simplified]
    unfolding s6_0_def s6_2_def s6_10_def s6_18_def by linarith
  have s7e: "s7 = s7_0 + 32 * s7_5 + 8192 * s7_13"
    using mult_div_mod_eq [of 32 s7] split_byte [of s7 5, simplified]
    unfolding s7_0_def s7_5_def s7_13_def by linarith
  have s8e: "s8 = s8_0 + 256 * s8_8 + 65536 * s8_16"
    using mult_div_mod_eq [of 256 s8] split_byte [of s8 8, simplified]
    unfolding s8_0_def s8_8_def s8_16_def by linarith
  have s9e: "s9 = s9_0 + 8 * s9_3 + 2048 * s9_11 + 524288 * s9_19"
    using mult_div_mod_eq [of 8 s9] split_byte [of s9 3, simplified] split_byte [of s9 11, simplified]
    unfolding s9_0_def s9_3_def s9_11_def s9_19_def by linarith
  have s10e: "s10 = s10_0 + 64 * s10_6 + 16384 * s10_14"
    using mult_div_mod_eq [of 64 s10] split_byte [of s10 6, simplified]
    unfolding s10_0_def s10_6_def s10_14_def by linarith
  have s11e: "s11 = s11_0 + 2 * s11_1 + 512 * s11_9 + 131072 * s11_17"
    using mult_div_mod_eq [of 2 s11] split_byte [of s11 1, simplified] split_byte [of s11 9, simplified]
    unfolding s11_0_def s11_1_def s11_9_def s11_17_def by linarith
  have b0: "uint (word_of_int (drop_bit 0 s0) :: byte) = s0_0"
    unfolding s0_0_def byte_one by simp
  have b1: "uint (word_of_int (drop_bit 8 s0) :: byte) = s0_8"
    unfolding s0_8_def byte_one by simp
  have b2: "uint (word_of_int (drop_bit 16 s0 OR push_bit 5 s1) :: byte) = s0_16 + 32 * s1_0"
    unfolding s0_16_def s1_0_def using byte_two [of s0 16 5 s1] bd0 by (simp)
  have b3: "uint (word_of_int (drop_bit 3 s1) :: byte) = s1_3"
    unfolding s1_3_def byte_one by simp
  have b4: "uint (word_of_int (drop_bit 11 s1) :: byte) = s1_11"
    unfolding s1_11_def byte_one by simp
  have b5: "uint (word_of_int (drop_bit 19 s1 OR push_bit 2 s2) :: byte) = s1_19 + 4 * s2_0"
    unfolding s1_19_def s2_0_def using byte_two [of s1 19 2 s2] bd1 by (simp)
  have b6: "uint (word_of_int (drop_bit 6 s2) :: byte) = s2_6"
    unfolding s2_6_def byte_one by simp
  have b7: "uint (word_of_int (drop_bit 14 s2 OR push_bit 7 s3) :: byte) = s2_14 + 128 * s3_0"
    unfolding s2_14_def s3_0_def using byte_two [of s2 14 7 s3] bd2 by (simp)
  have b8: "uint (word_of_int (drop_bit 1 s3) :: byte) = s3_1"
    unfolding s3_1_def byte_one by simp
  have b9: "uint (word_of_int (drop_bit 9 s3) :: byte) = s3_9"
    unfolding s3_9_def byte_one by simp
  have b10: "uint (word_of_int (drop_bit 17 s3 OR push_bit 4 s4) :: byte) = s3_17 + 16 * s4_0"
    unfolding s3_17_def s4_0_def using byte_two [of s3 17 4 s4] bd3 by (simp)
  have b11: "uint (word_of_int (drop_bit 4 s4) :: byte) = s4_4"
    unfolding s4_4_def byte_one by simp
  have b12: "uint (word_of_int (drop_bit 12 s4) :: byte) = s4_12"
    unfolding s4_12_def byte_one by simp
  have b13: "uint (word_of_int (drop_bit 20 s4 OR push_bit 1 s5) :: byte) = s4_20 + 2 * s5_0"
    unfolding s4_20_def s5_0_def using byte_two [of s4 20 1 s5] bd4 by (simp)
  have b14: "uint (word_of_int (drop_bit 7 s5) :: byte) = s5_7"
    unfolding s5_7_def byte_one by simp
  have b15: "uint (word_of_int (drop_bit 15 s5 OR push_bit 6 s6) :: byte) = s5_15 + 64 * s6_0"
    unfolding s5_15_def s6_0_def using byte_two [of s5 15 6 s6] bd5 by (simp)
  have b16: "uint (word_of_int (drop_bit 2 s6) :: byte) = s6_2"
    unfolding s6_2_def byte_one by simp
  have b17: "uint (word_of_int (drop_bit 10 s6) :: byte) = s6_10"
    unfolding s6_10_def byte_one by simp
  have b18: "uint (word_of_int (drop_bit 18 s6 OR push_bit 3 s7) :: byte) = s6_18 + 8 * s7_0"
    unfolding s6_18_def s7_0_def using byte_two [of s6 18 3 s7] bd6 by (simp)
  have b19: "uint (word_of_int (drop_bit 5 s7) :: byte) = s7_5"
    unfolding s7_5_def byte_one by simp
  have b20: "uint (word_of_int (drop_bit 13 s7) :: byte) = s7_13"
    unfolding s7_13_def byte_one using top_byte [of s7 13] bd7 by simp
  have b21: "uint (word_of_int (drop_bit 0 s8) :: byte) = s8_0"
    unfolding s8_0_def byte_one by simp
  have b22: "uint (word_of_int (drop_bit 8 s8) :: byte) = s8_8"
    unfolding s8_8_def byte_one by simp
  have b23: "uint (word_of_int (drop_bit 16 s8 OR push_bit 5 s9) :: byte) = s8_16 + 32 * s9_0"
    unfolding s8_16_def s9_0_def using byte_two [of s8 16 5 s9] bd8 by (simp)
  have b24: "uint (word_of_int (drop_bit 3 s9) :: byte) = s9_3"
    unfolding s9_3_def byte_one by simp
  have b25: "uint (word_of_int (drop_bit 11 s9) :: byte) = s9_11"
    unfolding s9_11_def byte_one by simp
  have b26: "uint (word_of_int (drop_bit 19 s9 OR push_bit 2 s10) :: byte) = s9_19 + 4 * s10_0"
    unfolding s9_19_def s10_0_def using byte_two [of s9 19 2 s10] bd9 by (simp)
  have b27: "uint (word_of_int (drop_bit 6 s10) :: byte) = s10_6"
    unfolding s10_6_def byte_one by simp
  have b28: "uint (word_of_int (drop_bit 14 s10 OR push_bit 7 s11) :: byte) = s10_14 + 128 * s11_0"
    unfolding s10_14_def s11_0_def using byte_two [of s10 14 7 s11] bd10 by (simp)
  have b29: "uint (word_of_int (drop_bit 1 s11) :: byte) = s11_1"
    unfolding s11_1_def byte_one by simp
  have b30: "uint (word_of_int (drop_bit 9 s11) :: byte) = s11_9"
    unfolding s11_9_def byte_one by simp
  have b31: "uint (word_of_int (drop_bit 17 s11) :: byte) = s11_17"
    unfolding s11_17_def byte_one using top_byte [of s11 17] bd11 by simp
  have v: "sc_val 12 s = s0 + 2097152 * s1 + 4398046511104 * s2 + 9223372036854775808 * s3 + 19342813113834066795298816 * s4 + 40564819207303340847894502572032 * s5 + 85070591730234615865843651857942052864 * s6 + 178405961588244985132285746181186892047843328 * s7 + 374144419156711147060143317175368453031918731001856 * s8 + 784637716923335095479473677900958302012794430558004314112 * s9 + 1645504557321206042154969182557350504982735865633579863348609024 * s10 + 3450873173395281893717377931138512726225554486085193277581262111899648 * s11"
    by (simp add: sc_val_def eval_nat_numeral s0_def s1_def s2_def s3_def s4_def s5_def s6_def s7_def s8_def s9_def s10_def s11_def)
  show ?thesis
    unfolding sc_store_def Let_def s0_def [symmetric] s1_def [symmetric] s2_def [symmetric] s3_def [symmetric] s4_def [symmetric] s5_def [symmetric] s6_def [symmetric] s7_def [symmetric] s8_def [symmetric] s9_def [symmetric] s10_def [symmetric] s11_def [symmetric] le_val.simps v
      b0 b1 b2 b3 b4 b5 b6 b7 b8 b9 b10 b11 b12 b13 b14 b15 b16 b17 b18 b19 b20 b21 b22 b23 b24 b25 b26 b27 b28 b29 b30 b31
    using s0e s1e s2e s3e s4e s5e s6e s7e s8e s9e s10e s11e by (simp add: algebra_simps)
qed

end
