(* ===== verification/Sc_Correct.thy ===== *)
theory Sc_Correct
  imports Sc_Ops
begin

text \<open>
  The scalar functions are correct: on 32 byte strings (64 for \<^verbatim>\<open>sc_reduce\<close>) no statement
  overflows, and the result is the canonical residue modulo \<open>l\<close>. The bounds are computed by
  the interval analysis of \<open>Sc_Base\<close>, once per function.
\<close>

section \<open>Bounds\<close>

definition sc_mid :: "iv list" where
  "sc_mid = replicate 12 (0, 2097151) @ [(- 1, 0)]"

definition sc_start12 :: "int \<Rightarrow> int \<Rightarrow> iv list" where
  "sc_start12 lo hi = replicate 11 (lo * 2097151, hi * 2097151) @ [(lo * 33554431, hi * 33554431), (0, 0)]"

definition sc_start24 :: "iv list" where
  "sc_start24 = replicate 23 (0, 2097151) @ [(0, 536870911)]"

definition sc_start_mulsub :: "iv list" where
  "sc_start_mulsub =
     [(- 4398042316801, 2097151), (- 8796084633602, 2097151), (- 13194126950403, 2097151), (-
      17592169267204, 2097151), (- 21990211584005, 2097151), (- 26388253900806, 2097151), (-
      30786296217607, 2097151), (- 35184338534408, 2097151), (- 39582380851209, 2097151), (-
      43980423168010, 2097151), (- 48378465484811, 2097151), (- 184717840220172, 33554431), (-
      180319797903371, 0), (- 175921755586570, 0), (- 171523713269769, 0), (- 167125670952968,
      0), (- 162727628636167, 0), (- 158329586319366, 0), (- 153931544002565, 0), (-
      149533501685764, 0), (- 145135459368963, 0), (- 140737417052162, 0), (- 1125899839733761,
      0), (0, 0)]"

lemma sc_bounds_run_append:
  "sc_bounds_run N (xs @ ys) b = (case sc_bounds_run N xs b of None \<Rightarrow> None | Some b \<Rightarrow> sc_bounds_run N ys b)"
  by (induction xs arbitrary: b) (simp_all split: option.split)

lemma sc_reduce32_bounds: "sc_bounds_run 13 (take 26 sc_reduce32_ops) (sc_start12 0 1) = Some sc_mid"
  by code_simp

lemma sc_add_bounds: "sc_bounds_run 13 (take 26 sc_reduce32_ops) (sc_start12 0 2) = Some sc_mid"
  by code_simp

lemma sc_sub_bounds: "sc_bounds_run 13 (take 26 sc_reduce32_ops) (sc_start12 (- 1) 1) = Some sc_mid"
  by code_simp

lemma sc_reduce_bounds: "sc_bounds_run 24 (take 50 sc_reduce_ops) sc_start24 = Some sc_mid"
  by code_simp

lemma sc_mulsub_bounds: "sc_bounds_run 24 (take 73 sc_mulsub_ops) sc_start_mulsub = Some sc_mid"
  by code_simp

lemma sc_ops_split:
  "sc_reduce32_ops = take 26 sc_reduce32_ops @ sc_last_ops"
  "sc_reduce_ops = take 50 sc_reduce_ops @ sc_last_ops"
  "sc_mulsub_ops = take 73 sc_mulsub_ops @ sc_last_ops"
  by code_simp+

section \<open>The last fold and the result\<close>

lemma sc_bounds_run_Cons:
  "sc_bounds_run N (op # ops) b = Some b' \<longleftrightarrow>
     (\<exists>b1. sc_bounds N op b = Some b1 \<and> sc_bounds_run N ops b1 = Some b')"
  by (simp split: option.split)

lemma sc_last_bounds:
  "sc_bounds_run 13 sc_last_ops sc_mid = Some (replicate 11 (0, 2097151) @ [(- 1, 2097152)])"
  "sc_bounds_run 24 sc_last_ops sc_mid = Some (replicate 11 (0, 2097151) @ [(- 1, 2097152)])"
  by code_simp+

lemma sc_last_ops_eq: "sc_last_ops = Fold 12 # map Down [0..<11]"
  by code_simp

lemma sc_last_sound:
  assumes rel: "sc_rel N sc_mid s"
    and b: "sc_bounds_run N sc_last_ops sc_mid = Some (replicate 11 (0, 2097151) @ [(- 1, 2097152)])"
  shows "le_val (sc_store (sc_run sc_last_ops s)) = sc_val 13 s mod sc_l"
proof -
  from b obtain b1 where b1: "sc_bounds N (Fold 12) sc_mid = Some b1"
    "sc_bounds_run N (map Down [0..<11]) b1 = Some (replicate 11 (0, 2097151) @ [(- 1, 2097152)])"
    unfolding sc_last_ops_eq sc_bounds_run_Cons by blast
  note f = sc_fold_sound [OF rel b1(1)]
  define t where "t = sc_run sc_last_ops s"
  have t: "t = sc_run (map Down [0..<11]) (sc_exec (Fold 12) s)"
    by (simp only: t_def sc_last_ops_eq sc_run_simps)
  have len: "length b1 = 12" "length sc_mid = 13"
    using f(2) by (simp_all add: sc_mid_def)
  have "sc_val 12 t = sc_val 12 (sc_exec (Fold 12) s)"
    using sc_downs_val [OF f(1) b1(2)] by (simp add: t len)
  also have "\<dots> = sc_val 13 s - sc_l * s ! 12"
    using f(3) by (simp add: len)
  finally have v: "sc_val 12 t = sc_val 13 s - sc_l * s ! 12" .
  have s13: "sc_val 13 s = sc_val 12 s + 2 ^ 252 * s ! 12"
    using sc_val_Suc [of 12 s] by simp
  have "in_iv (- 1, 0) (s ! 12)"
    using sc_rel_nth [OF rel, of 12] by (simp add: sc_mid_def nth_append)
  then have "s ! 12 = - 1 \<or> s ! 12 = 0"
    by (auto simp: in_iv_def)
  moreover have "0 \<le> sc_val 12 s" "sc_val 12 s < 2 ^ 252"
    using sc_digits_val [OF rel [unfolded sc_mid_def]] by simp_all
  ultimately have r: "0 \<le> sc_val 12 t" "sc_val 12 t < sc_l"
    unfolding v s13 by (auto simp: sc_l_def)
  have "sc_val 13 s = sc_l * s ! 12 + sc_val 12 t"
    unfolding v by simp
  then have m: "sc_val 13 s mod sc_l = sc_val 12 t"
    using r by simp
  have rel': "sc_rel N (replicate 11 (0, 2097151) @ [(- 1, 2097152)]) t"
    using sc_run_sound [OF f(1) b1(2)] by (simp add: t)
  have d: "0 \<le> t ! i \<and> t ! i < 2097152" if "i < 11" for i
    using sc_rel_nth [OF rel', of i] that by (simp add: nth_append in_iv_def)
  have "sc_val 12 t = sc_val 11 t + 2 ^ 231 * t ! 11"
    using sc_val_Suc [of 11 t] by simp
  moreover have "0 \<le> sc_val 11 t" "sc_val 11 t < 2 ^ 231"
    using sc_digits_val [OF rel'] by simp_all
  ultimately have "0 \<le> t ! 11" "t ! 11 < 33554432"
    using r by (simp_all add: sc_l_def)
  then show ?thesis
    unfolding m t_def [symmetric] by (intro sc_store_val) (simp_all add: d)
qed

text \<open>The whole code of a function, from the limbs it starts with.\<close>

lemma sc_code_sound:
  assumes rel: "sc_rel N b s" and N: "N = 13 \<or> N = 24"
    and b: "sc_bounds_run N (take n ops) b = Some sc_mid" and ops: "ops = take n ops @ sc_last_ops"
  shows "le_val (sc_store (sc_run ops s)) = sc_val (length b) s mod sc_l"
proof -
  define t where "t = sc_run (take n ops) s"
  have t: "sc_rel N sc_mid t" "sc_val 13 t mod sc_l = sc_val (length b) s mod sc_l"
    using sc_run_sound [OF rel b] by (simp_all add: t_def sc_mid_def)
  have l: "sc_bounds_run N sc_last_ops sc_mid = Some (replicate 11 (0, 2097151) @ [(- 1, 2097152)])"
    using N sc_last_bounds by blast
  have "sc_run ops s = sc_run sc_last_ops t"
    by (subst ops) (simp add: sc_run_simps t_def)
  then show ?thesis
    using sc_last_sound [OF t(1) l] t(2) by simp
qed

section \<open>The functions\<close>

lemma length_sc_store: "length (sc_store s) = 32"
  by (simp add: sc_store_def Let_def)

definition sc_top :: "nat \<Rightarrow> int" where
  "sc_top i = (if i = 11 then 33554431 else 2097151)"

lemma in_start12:
  assumes "\<And>i. i < 12 \<Longrightarrow> lo * sc_top i \<le> x ! i \<and> x ! i \<le> hi * sc_top i"
    and "length x = 12"
  shows "sc_rel 13 (sc_start12 lo hi) (x @ [0])"
  unfolding sc_rel_def
proof (intro conjI allI impI)
  fix i
  assume "i < length (sc_start12 lo hi)"
  then consider "i < 11" | "i = 11" | "i = 12"
    by (fastforce simp: sc_start12_def)
  then show "in_iv (sc_start12 lo hi ! i) ((x @ [0]) ! i)"
    using assms(1) [of i] assms(2)
    by cases (simp_all add: sc_start12_def nth_append in_iv_def sc_top_def)
qed (simp_all add: assms(2) sc_start12_def)

lemma sc_load12_top:
  assumes "length s = 32" and "i < 12"
  shows "0 \<le> sc_load12 s ! i" and "sc_load12 s ! i \<le> sc_top i"
  using sc_load12_range [OF assms] by (simp_all add: sc_top_def)

lemma sc_top_le: "0 \<le> sc_top i" "sc_top i \<le> 33554431"
  by (simp_all add: sc_top_def)

lemma sc_reduce32_val:
  assumes "length s = 32"
  shows "le_val (sc_reduce32 s) = le_val s mod sc_l"
proof -
  have "sc_rel 13 (sc_start12 0 1) (sc_load12 s @ [0])"
    using sc_load12_top [OF assms] by (intro in_start12) (simp_all add: length_sc_load12)
  then have "le_val (sc_reduce32 s) = sc_val 13 (sc_load12 s @ [0]) mod sc_l"
    using sc_code_sound [OF _ disjI1 [OF refl] sc_reduce32_bounds sc_ops_split(1)]
    by (simp add: sc_reduce32_def sc_start12_def)
  also have "sc_val 13 (sc_load12 s @ [0]) = le_val s"
    using sc_val_Suc [of 12 "sc_load12 s @ [0]"] sc_load12_val [OF assms]
    by (simp add: nth_append length_sc_load12)
  finally show ?thesis .
qed

lemma sc_val_map2:
  assumes "length a = 12" and "length b = 12"
    and "\<And>i. i < 12 \<Longrightarrow> f (a ! i) (b ! i) = a ! i + m * b ! i"
  shows "sc_val 13 (map2 f a b @ [0]) = sc_val 12 a + m * sc_val 12 b"
proof -
  have "sc_val 13 (map2 f a b @ [0]) = sc_val 12 (map2 f a b @ [0])"
    using sc_val_Suc [of 12 "map2 f a b @ [0]"] assms by (simp add: nth_append)
  also have "\<dots> = (\<Sum>i<12. 2 ^ (21 * i) * (a ! i + m * b ! i))"
    unfolding sc_val_def using assms by (intro sum.cong refl) (simp add: nth_append)
  also have "\<dots> = sc_val 12 a + m * sc_val 12 b"
    by (simp add: sc_val_def sum_distrib_left sum.distrib algebra_simps)
  finally show ?thesis .
qed

lemma sc_add_val:
  assumes "length a = 32" and "length b = 32"
  shows "le_val (sc_add a b) = (le_val a + le_val b) mod sc_l"
proof -
  note r = sc_load12_top [OF assms(1)] sc_load12_top [OF assms(2)]
  have n: "i64 (sc_load12 a ! i + sc_load12 b ! i) = sc_load12 a ! i + 1 * sc_load12 b ! i" if "i < 12" for i
    using r [OF that] sc_top_le [of i] by (subst i64_id) simp_all
  have "sc_rel 13 (sc_start12 0 2) (map2 (\<lambda>x y. i64 (x + y)) (sc_load12 a) (sc_load12 b) @ [0])"
  proof (rule in_start12)
    fix i :: nat
    assume i: "i < 12"
    show "0 * sc_top i \<le> map2 (\<lambda>x y. i64 (x + y)) (sc_load12 a) (sc_load12 b) ! i \<and>
        map2 (\<lambda>x y. i64 (x + y)) (sc_load12 a) (sc_load12 b) ! i \<le> 2 * sc_top i"
      using r [OF i] i n [OF i] by (simp add: length_sc_load12)
  qed (simp add: length_sc_load12)
  then have "le_val (sc_add a b) =
      sc_val 13 (map2 (\<lambda>x y. i64 (x + y)) (sc_load12 a) (sc_load12 b) @ [0]) mod sc_l"
    using sc_code_sound [OF _ disjI1 [OF refl] sc_add_bounds sc_ops_split(1)]
    by (simp add: sc_add_def sc_start12_def)
  also have "sc_val 13 (map2 (\<lambda>x y. i64 (x + y)) (sc_load12 a) (sc_load12 b) @ [0]) = le_val a + le_val b"
    using sc_val_map2 [of "sc_load12 a" "sc_load12 b" _ 1] n sc_load12_val [of a "[]"] sc_load12_val [of b "[]"] assms
    by (simp add: length_sc_load12)
  finally show ?thesis .
qed

lemma sc_sub_val:
  assumes "length a = 32" and "length b = 32"
  shows "le_val (sc_sub a b) = (le_val a - le_val b) mod sc_l"
proof -
  note r = sc_load12_top [OF assms(1)] sc_load12_top [OF assms(2)]
  have n: "i64 (sc_load12 a ! i - sc_load12 b ! i) = sc_load12 a ! i + (- 1) * sc_load12 b ! i" if "i < 12" for i
    using r [OF that] sc_top_le [of i] by (subst i64_id) simp_all
  have "sc_rel 13 (sc_start12 (- 1) 1) (map2 (\<lambda>x y. i64 (x - y)) (sc_load12 a) (sc_load12 b) @ [0])"
  proof (rule in_start12)
    fix i :: nat
    assume i: "i < 12"
    show "- 1 * sc_top i \<le> map2 (\<lambda>x y. i64 (x - y)) (sc_load12 a) (sc_load12 b) ! i \<and>
        map2 (\<lambda>x y. i64 (x - y)) (sc_load12 a) (sc_load12 b) ! i \<le> 1 * sc_top i"
      using r [OF i] i n [OF i] by (simp add: length_sc_load12)
  qed (simp add: length_sc_load12)
  then have "le_val (sc_sub a b) =
      sc_val 13 (map2 (\<lambda>x y. i64 (x - y)) (sc_load12 a) (sc_load12 b) @ [0]) mod sc_l"
    using sc_code_sound [OF _ disjI1 [OF refl] sc_sub_bounds sc_ops_split(1)]
    by (simp add: sc_sub_def sc_start12_def)
  also have "sc_val 13 (map2 (\<lambda>x y. i64 (x - y)) (sc_load12 a) (sc_load12 b) @ [0]) = le_val a - le_val b"
    using sc_val_map2 [of "sc_load12 a" "sc_load12 b" _ "- 1"] n sc_load12_val [of a "[]"] sc_load12_val [of b "[]"] assms
    by (simp add: length_sc_load12)
  finally show ?thesis .
qed

lemma sc_reduce_val:
  assumes "length s = 64"
  shows "le_val (sc_reduce s) = le_val s mod sc_l"
proof -
  have e: "sc_load24 s = map (sc_limb (le_val s)) [0..<23] @ [le_val s div 2 ^ (21 * 23)] @ []"
    by (simp add: sc_load24_eq [OF assms])
  have "le_val s < 2 ^ 512"
    using le_val_less [of s] by (simp add: assms)
  then have "le_val s div 2 ^ 483 < 2 ^ 29"
    by (intro div_pow_less) simp
  then have "in_iv (0, 536870911) (le_val s div 2 ^ 483)"
    using le_val_nonneg [of s] by (simp add: in_iv_def pos_imp_zdiv_nonneg_iff)
  then have "sc_rel 24 sc_start24 (sc_load24 s)"
    unfolding sc_rel_def e sc_start24_def using sc_limb_range
    by (auto simp: nth_append in_iv_def)
  then have "le_val (sc_reduce s) = sc_val 24 (sc_load24 s) mod sc_l"
    using sc_code_sound [OF _ disjI2 [OF refl] sc_reduce_bounds sc_ops_split(2)]
    by (simp add: sc_reduce_def sc_start24_def)
  also have "sc_val 24 (sc_load24 s) = le_val s"
    using sc_load_val [OF e] by simp
  finally show ?thesis .
qed

section \<open>Multiply and subtract\<close>

lemma prod_range:
  fixes x y :: int
  assumes "0 \<le> x \<and> x \<le> X" and "0 \<le> y \<and> y \<le> Y"
  shows "0 \<le> x * y" and "x * y \<le> X * Y"
  using assms by (simp_all add: mult_mono')

lemma sc_mulsub_limbs_explicit:
  assumes ra0: "0 \<le> a0 \<and> a0 \<le> 2097151" and ra1: "0 \<le> a1 \<and> a1 \<le> 2097151" and ra2: "0 \<le> a2 \<and> a2 \<le> 2097151" and ra3: "0 \<le> a3 \<and> a3 \<le> 2097151" and ra4: "0 \<le> a4 \<and> a4 \<le> 2097151" and ra5: "0 \<le> a5 \<and> a5 \<le> 2097151" and ra6: "0 \<le> a6 \<and> a6 \<le> 2097151" and ra7: "0 \<le> a7 \<and> a7 \<le> 2097151" and ra8: "0 \<le> a8 \<and> a8 \<le> 2097151" and ra9: "0 \<le> a9 \<and> a9 \<le> 2097151" and ra10: "0 \<le> a10 \<and> a10 \<le> 2097151" and ra11: "0 \<le> a11 \<and> a11 \<le> 33554431" and rb0: "0 \<le> b0 \<and> b0 \<le> 2097151" and rb1: "0 \<le> b1 \<and> b1 \<le> 2097151" and rb2: "0 \<le> b2 \<and> b2 \<le> 2097151" and rb3: "0 \<le> b3 \<and> b3 \<le> 2097151" and rb4: "0 \<le> b4 \<and> b4 \<le> 2097151" and rb5: "0 \<le> b5 \<and> b5 \<le> 2097151" and rb6: "0 \<le> b6 \<and> b6 \<le> 2097151" and rb7: "0 \<le> b7 \<and> b7 \<le> 2097151" and rb8: "0 \<le> b8 \<and> b8 \<le> 2097151" and rb9: "0 \<le> b9 \<and> b9 \<le> 2097151" and rb10: "0 \<le> b10 \<and> b10 \<le> 2097151" and rb11: "0 \<le> b11 \<and> b11 \<le> 33554431" and rc0: "0 \<le> c0 \<and> c0 \<le> 2097151" and rc1: "0 \<le> c1 \<and> c1 \<le> 2097151" and rc2: "0 \<le> c2 \<and> c2 \<le> 2097151" and rc3: "0 \<le> c3 \<and> c3 \<le> 2097151" and rc4: "0 \<le> c4 \<and> c4 \<le> 2097151" and rc5: "0 \<le> c5 \<and> c5 \<le> 2097151" and rc6: "0 \<le> c6 \<and> c6 \<le> 2097151" and rc7: "0 \<le> c7 \<and> c7 \<le> 2097151" and rc8: "0 \<le> c8 \<and> c8 \<le> 2097151" and rc9: "0 \<le> c9 \<and> c9 \<le> 2097151" and rc10: "0 \<le> c10 \<and> c10 \<le> 2097151" and rc11: "0 \<le> c11 \<and> c11 \<le> 33554431"
  shows "sc_mulsub_limbs [a0, a1, a2, a3, a4, a5, a6, a7, a8, a9, a10, a11] [b0, b1, b2, b3, b4, b5, b6, b7, b8, b9, b10, b11] [c0, c1, c2, c3, c4, c5, c6, c7, c8, c9, c10, c11] =
     [c0 - (a0 * b0), c1 - (a0 * b1 + a1 * b0), c2 - (a0 * b2 + a1 * b1 + a2 * b0), c3 - (a0 * b3 + a1 * b2 + a2 * b1 + a3 * b0), c4 - (a0 * b4 + a1 * b3 + a2 * b2 + a3 * b1 + a4 * b0), c5 - (a0 * b5 + a1 * b4 + a2 * b3 + a3 * b2 + a4 * b1 + a5 * b0), c6 - (a0 * b6 + a1 * b5 + a2 * b4 + a3 * b3 + a4 * b2 + a5 * b1 + a6 * b0), c7 - (a0 * b7 + a1 * b6 + a2 * b5 + a3 * b4 + a4 * b3 + a5 * b2 + a6 * b1 + a7 * b0), c8 - (a0 * b8 + a1 * b7 + a2 * b6 + a3 * b5 + a4 * b4 + a5 * b3 + a6 * b2 + a7 * b1 + a8 * b0), c9 - (a0 * b9 + a1 * b8 + a2 * b7 + a3 * b6 + a4 * b5 + a5 * b4 + a6 * b3 + a7 * b2 + a8 * b1 + a9 * b0), c10 - (a0 * b10 + a1 * b9 + a2 * b8 + a3 * b7 + a4 * b6 + a5 * b5 + a6 * b4 + a7 * b3 + a8 * b2 + a9 * b1 + a10 * b0), c11 - (a0 * b11 + a1 * b10 + a2 * b9 + a3 * b8 + a4 * b7 + a5 * b6 + a6 * b5 + a7 * b4 + a8 * b3 + a9 * b2 + a10 * b1 + a11 * b0), - (a1 * b11 + a2 * b10 + a3 * b9 + a4 * b8 + a5 * b7 + a6 * b6 + a7 * b5 + a8 * b4 + a9 * b3 + a10 * b2 + a11 * b1), - (a2 * b11 + a3 * b10 + a4 * b9 + a5 * b8 + a6 * b7 + a7 * b6 + a8 * b5 + a9 * b4 + a10 * b3 + a11 * b2), - (a3 * b11 + a4 * b10 + a5 * b9 + a6 * b8 + a7 * b7 + a8 * b6 + a9 * b5 + a10 * b4 + a11 * b3), - (a4 * b11 + a5 * b10 + a6 * b9 + a7 * b8 + a8 * b7 + a9 * b6 + a10 * b5 + a11 * b4), - (a5 * b11 + a6 * b10 + a7 * b9 + a8 * b8 + a9 * b7 + a10 * b6 + a11 * b5), - (a6 * b11 + a7 * b10 + a8 * b9 + a9 * b8 + a10 * b7 + a11 * b6), - (a7 * b11 + a8 * b10 + a9 * b9 + a10 * b8 + a11 * b7), - (a8 * b11 + a9 * b10 + a10 * b9 + a11 * b8), - (a9 * b11 + a10 * b10 + a11 * b9), - (a10 * b11 + a11 * b10), - (a11 * b11), 0]" (is ?A)
    and "list_all2 in_iv sc_start_mulsub
     [c0 - (a0 * b0), c1 - (a0 * b1 + a1 * b0), c2 - (a0 * b2 + a1 * b1 + a2 * b0), c3 - (a0 * b3 + a1 * b2 + a2 * b1 + a3 * b0), c4 - (a0 * b4 + a1 * b3 + a2 * b2 + a3 * b1 + a4 * b0), c5 - (a0 * b5 + a1 * b4 + a2 * b3 + a3 * b2 + a4 * b1 + a5 * b0), c6 - (a0 * b6 + a1 * b5 + a2 * b4 + a3 * b3 + a4 * b2 + a5 * b1 + a6 * b0), c7 - (a0 * b7 + a1 * b6 + a2 * b5 + a3 * b4 + a4 * b3 + a5 * b2 + a6 * b1 + a7 * b0), c8 - (a0 * b8 + a1 * b7 + a2 * b6 + a3 * b5 + a4 * b4 + a5 * b3 + a6 * b2 + a7 * b1 + a8 * b0), c9 - (a0 * b9 + a1 * b8 + a2 * b7 + a3 * b6 + a4 * b5 + a5 * b4 + a6 * b3 + a7 * b2 + a8 * b1 + a9 * b0), c10 - (a0 * b10 + a1 * b9 + a2 * b8 + a3 * b7 + a4 * b6 + a5 * b5 + a6 * b4 + a7 * b3 + a8 * b2 + a9 * b1 + a10 * b0), c11 - (a0 * b11 + a1 * b10 + a2 * b9 + a3 * b8 + a4 * b7 + a5 * b6 + a6 * b5 + a7 * b4 + a8 * b3 + a9 * b2 + a10 * b1 + a11 * b0), - (a1 * b11 + a2 * b10 + a3 * b9 + a4 * b8 + a5 * b7 + a6 * b6 + a7 * b5 + a8 * b4 + a9 * b3 + a10 * b2 + a11 * b1), - (a2 * b11 + a3 * b10 + a4 * b9 + a5 * b8 + a6 * b7 + a7 * b6 + a8 * b5 + a9 * b4 + a10 * b3 + a11 * b2), - (a3 * b11 + a4 * b10 + a5 * b9 + a6 * b8 + a7 * b7 + a8 * b6 + a9 * b5 + a10 * b4 + a11 * b3), - (a4 * b11 + a5 * b10 + a6 * b9 + a7 * b8 + a8 * b7 + a9 * b6 + a10 * b5 + a11 * b4), - (a5 * b11 + a6 * b10 + a7 * b9 + a8 * b8 + a9 * b7 + a10 * b6 + a11 * b5), - (a6 * b11 + a7 * b10 + a8 * b9 + a9 * b8 + a10 * b7 + a11 * b6), - (a7 * b11 + a8 * b10 + a9 * b9 + a10 * b8 + a11 * b7), - (a8 * b11 + a9 * b10 + a10 * b9 + a11 * b8), - (a9 * b11 + a10 * b10 + a11 * b9), - (a10 * b11 + a11 * b10), - (a11 * b11), 0]" (is ?B)
proof -
  have m0_0: "0 \<le> a0 * b0" "a0 * b0 \<le> 4398042316801"
    using prod_range [OF ra0 rb0] by simp_all
  have m0_1: "0 \<le> a0 * b1" "a0 * b1 \<le> 4398042316801"
    using prod_range [OF ra0 rb1] by simp_all
  have m0_2: "0 \<le> a0 * b2" "a0 * b2 \<le> 4398042316801"
    using prod_range [OF ra0 rb2] by simp_all
  have m0_3: "0 \<le> a0 * b3" "a0 * b3 \<le> 4398042316801"
    using prod_range [OF ra0 rb3] by simp_all
  have m0_4: "0 \<le> a0 * b4" "a0 * b4 \<le> 4398042316801"
    using prod_range [OF ra0 rb4] by simp_all
  have m0_5: "0 \<le> a0 * b5" "a0 * b5 \<le> 4398042316801"
    using prod_range [OF ra0 rb5] by simp_all
  have m0_6: "0 \<le> a0 * b6" "a0 * b6 \<le> 4398042316801"
    using prod_range [OF ra0 rb6] by simp_all
  have m0_7: "0 \<le> a0 * b7" "a0 * b7 \<le> 4398042316801"
    using prod_range [OF ra0 rb7] by simp_all
  have m0_8: "0 \<le> a0 * b8" "a0 * b8 \<le> 4398042316801"
    using prod_range [OF ra0 rb8] by simp_all
  have m0_9: "0 \<le> a0 * b9" "a0 * b9 \<le> 4398042316801"
    using prod_range [OF ra0 rb9] by simp_all
  have m0_10: "0 \<le> a0 * b10" "a0 * b10 \<le> 4398042316801"
    using prod_range [OF ra0 rb10] by simp_all
  have m0_11: "0 \<le> a0 * b11" "a0 * b11 \<le> 70368708526081"
    using prod_range [OF ra0 rb11] by simp_all
  have m1_0: "0 \<le> a1 * b0" "a1 * b0 \<le> 4398042316801"
    using prod_range [OF ra1 rb0] by simp_all
  have m1_1: "0 \<le> a1 * b1" "a1 * b1 \<le> 4398042316801"
    using prod_range [OF ra1 rb1] by simp_all
  have m1_2: "0 \<le> a1 * b2" "a1 * b2 \<le> 4398042316801"
    using prod_range [OF ra1 rb2] by simp_all
  have m1_3: "0 \<le> a1 * b3" "a1 * b3 \<le> 4398042316801"
    using prod_range [OF ra1 rb3] by simp_all
  have m1_4: "0 \<le> a1 * b4" "a1 * b4 \<le> 4398042316801"
    using prod_range [OF ra1 rb4] by simp_all
  have m1_5: "0 \<le> a1 * b5" "a1 * b5 \<le> 4398042316801"
    using prod_range [OF ra1 rb5] by simp_all
  have m1_6: "0 \<le> a1 * b6" "a1 * b6 \<le> 4398042316801"
    using prod_range [OF ra1 rb6] by simp_all
  have m1_7: "0 \<le> a1 * b7" "a1 * b7 \<le> 4398042316801"
    using prod_range [OF ra1 rb7] by simp_all
  have m1_8: "0 \<le> a1 * b8" "a1 * b8 \<le> 4398042316801"
    using prod_range [OF ra1 rb8] by simp_all
  have m1_9: "0 \<le> a1 * b9" "a1 * b9 \<le> 4398042316801"
    using prod_range [OF ra1 rb9] by simp_all
  have m1_10: "0 \<le> a1 * b10" "a1 * b10 \<le> 4398042316801"
    using prod_range [OF ra1 rb10] by simp_all
  have m1_11: "0 \<le> a1 * b11" "a1 * b11 \<le> 70368708526081"
    using prod_range [OF ra1 rb11] by simp_all
  have m2_0: "0 \<le> a2 * b0" "a2 * b0 \<le> 4398042316801"
    using prod_range [OF ra2 rb0] by simp_all
  have m2_1: "0 \<le> a2 * b1" "a2 * b1 \<le> 4398042316801"
    using prod_range [OF ra2 rb1] by simp_all
  have m2_2: "0 \<le> a2 * b2" "a2 * b2 \<le> 4398042316801"
    using prod_range [OF ra2 rb2] by simp_all
  have m2_3: "0 \<le> a2 * b3" "a2 * b3 \<le> 4398042316801"
    using prod_range [OF ra2 rb3] by simp_all
  have m2_4: "0 \<le> a2 * b4" "a2 * b4 \<le> 4398042316801"
    using prod_range [OF ra2 rb4] by simp_all
  have m2_5: "0 \<le> a2 * b5" "a2 * b5 \<le> 4398042316801"
    using prod_range [OF ra2 rb5] by simp_all
  have m2_6: "0 \<le> a2 * b6" "a2 * b6 \<le> 4398042316801"
    using prod_range [OF ra2 rb6] by simp_all
  have m2_7: "0 \<le> a2 * b7" "a2 * b7 \<le> 4398042316801"
    using prod_range [OF ra2 rb7] by simp_all
  have m2_8: "0 \<le> a2 * b8" "a2 * b8 \<le> 4398042316801"
    using prod_range [OF ra2 rb8] by simp_all
  have m2_9: "0 \<le> a2 * b9" "a2 * b9 \<le> 4398042316801"
    using prod_range [OF ra2 rb9] by simp_all
  have m2_10: "0 \<le> a2 * b10" "a2 * b10 \<le> 4398042316801"
    using prod_range [OF ra2 rb10] by simp_all
  have m2_11: "0 \<le> a2 * b11" "a2 * b11 \<le> 70368708526081"
    using prod_range [OF ra2 rb11] by simp_all
  have m3_0: "0 \<le> a3 * b0" "a3 * b0 \<le> 4398042316801"
    using prod_range [OF ra3 rb0] by simp_all
  have m3_1: "0 \<le> a3 * b1" "a3 * b1 \<le> 4398042316801"
    using prod_range [OF ra3 rb1] by simp_all
  have m3_2: "0 \<le> a3 * b2" "a3 * b2 \<le> 4398042316801"
    using prod_range [OF ra3 rb2] by simp_all
  have m3_3: "0 \<le> a3 * b3" "a3 * b3 \<le> 4398042316801"
    using prod_range [OF ra3 rb3] by simp_all
  have m3_4: "0 \<le> a3 * b4" "a3 * b4 \<le> 4398042316801"
    using prod_range [OF ra3 rb4] by simp_all
  have m3_5: "0 \<le> a3 * b5" "a3 * b5 \<le> 4398042316801"
    using prod_range [OF ra3 rb5] by simp_all
  have m3_6: "0 \<le> a3 * b6" "a3 * b6 \<le> 4398042316801"
    using prod_range [OF ra3 rb6] by simp_all
  have m3_7: "0 \<le> a3 * b7" "a3 * b7 \<le> 4398042316801"
    using prod_range [OF ra3 rb7] by simp_all
  have m3_8: "0 \<le> a3 * b8" "a3 * b8 \<le> 4398042316801"
    using prod_range [OF ra3 rb8] by simp_all
  have m3_9: "0 \<le> a3 * b9" "a3 * b9 \<le> 4398042316801"
    using prod_range [OF ra3 rb9] by simp_all
  have m3_10: "0 \<le> a3 * b10" "a3 * b10 \<le> 4398042316801"
    using prod_range [OF ra3 rb10] by simp_all
  have m3_11: "0 \<le> a3 * b11" "a3 * b11 \<le> 70368708526081"
    using prod_range [OF ra3 rb11] by simp_all
  have m4_0: "0 \<le> a4 * b0" "a4 * b0 \<le> 4398042316801"
    using prod_range [OF ra4 rb0] by simp_all
  have m4_1: "0 \<le> a4 * b1" "a4 * b1 \<le> 4398042316801"
    using prod_range [OF ra4 rb1] by simp_all
  have m4_2: "0 \<le> a4 * b2" "a4 * b2 \<le> 4398042316801"
    using prod_range [OF ra4 rb2] by simp_all
  have m4_3: "0 \<le> a4 * b3" "a4 * b3 \<le> 4398042316801"
    using prod_range [OF ra4 rb3] by simp_all
  have m4_4: "0 \<le> a4 * b4" "a4 * b4 \<le> 4398042316801"
    using prod_range [OF ra4 rb4] by simp_all
  have m4_5: "0 \<le> a4 * b5" "a4 * b5 \<le> 4398042316801"
    using prod_range [OF ra4 rb5] by simp_all
  have m4_6: "0 \<le> a4 * b6" "a4 * b6 \<le> 4398042316801"
    using prod_range [OF ra4 rb6] by simp_all
  have m4_7: "0 \<le> a4 * b7" "a4 * b7 \<le> 4398042316801"
    using prod_range [OF ra4 rb7] by simp_all
  have m4_8: "0 \<le> a4 * b8" "a4 * b8 \<le> 4398042316801"
    using prod_range [OF ra4 rb8] by simp_all
  have m4_9: "0 \<le> a4 * b9" "a4 * b9 \<le> 4398042316801"
    using prod_range [OF ra4 rb9] by simp_all
  have m4_10: "0 \<le> a4 * b10" "a4 * b10 \<le> 4398042316801"
    using prod_range [OF ra4 rb10] by simp_all
  have m4_11: "0 \<le> a4 * b11" "a4 * b11 \<le> 70368708526081"
    using prod_range [OF ra4 rb11] by simp_all
  have m5_0: "0 \<le> a5 * b0" "a5 * b0 \<le> 4398042316801"
    using prod_range [OF ra5 rb0] by simp_all
  have m5_1: "0 \<le> a5 * b1" "a5 * b1 \<le> 4398042316801"
    using prod_range [OF ra5 rb1] by simp_all
  have m5_2: "0 \<le> a5 * b2" "a5 * b2 \<le> 4398042316801"
    using prod_range [OF ra5 rb2] by simp_all
  have m5_3: "0 \<le> a5 * b3" "a5 * b3 \<le> 4398042316801"
    using prod_range [OF ra5 rb3] by simp_all
  have m5_4: "0 \<le> a5 * b4" "a5 * b4 \<le> 4398042316801"
    using prod_range [OF ra5 rb4] by simp_all
  have m5_5: "0 \<le> a5 * b5" "a5 * b5 \<le> 4398042316801"
    using prod_range [OF ra5 rb5] by simp_all
  have m5_6: "0 \<le> a5 * b6" "a5 * b6 \<le> 4398042316801"
    using prod_range [OF ra5 rb6] by simp_all
  have m5_7: "0 \<le> a5 * b7" "a5 * b7 \<le> 4398042316801"
    using prod_range [OF ra5 rb7] by simp_all
  have m5_8: "0 \<le> a5 * b8" "a5 * b8 \<le> 4398042316801"
    using prod_range [OF ra5 rb8] by simp_all
  have m5_9: "0 \<le> a5 * b9" "a5 * b9 \<le> 4398042316801"
    using prod_range [OF ra5 rb9] by simp_all
  have m5_10: "0 \<le> a5 * b10" "a5 * b10 \<le> 4398042316801"
    using prod_range [OF ra5 rb10] by simp_all
  have m5_11: "0 \<le> a5 * b11" "a5 * b11 \<le> 70368708526081"
    using prod_range [OF ra5 rb11] by simp_all
  have m6_0: "0 \<le> a6 * b0" "a6 * b0 \<le> 4398042316801"
    using prod_range [OF ra6 rb0] by simp_all
  have m6_1: "0 \<le> a6 * b1" "a6 * b1 \<le> 4398042316801"
    using prod_range [OF ra6 rb1] by simp_all
  have m6_2: "0 \<le> a6 * b2" "a6 * b2 \<le> 4398042316801"
    using prod_range [OF ra6 rb2] by simp_all
  have m6_3: "0 \<le> a6 * b3" "a6 * b3 \<le> 4398042316801"
    using prod_range [OF ra6 rb3] by simp_all
  have m6_4: "0 \<le> a6 * b4" "a6 * b4 \<le> 4398042316801"
    using prod_range [OF ra6 rb4] by simp_all
  have m6_5: "0 \<le> a6 * b5" "a6 * b5 \<le> 4398042316801"
    using prod_range [OF ra6 rb5] by simp_all
  have m6_6: "0 \<le> a6 * b6" "a6 * b6 \<le> 4398042316801"
    using prod_range [OF ra6 rb6] by simp_all
  have m6_7: "0 \<le> a6 * b7" "a6 * b7 \<le> 4398042316801"
    using prod_range [OF ra6 rb7] by simp_all
  have m6_8: "0 \<le> a6 * b8" "a6 * b8 \<le> 4398042316801"
    using prod_range [OF ra6 rb8] by simp_all
  have m6_9: "0 \<le> a6 * b9" "a6 * b9 \<le> 4398042316801"
    using prod_range [OF ra6 rb9] by simp_all
  have m6_10: "0 \<le> a6 * b10" "a6 * b10 \<le> 4398042316801"
    using prod_range [OF ra6 rb10] by simp_all
  have m6_11: "0 \<le> a6 * b11" "a6 * b11 \<le> 70368708526081"
    using prod_range [OF ra6 rb11] by simp_all
  have m7_0: "0 \<le> a7 * b0" "a7 * b0 \<le> 4398042316801"
    using prod_range [OF ra7 rb0] by simp_all
  have m7_1: "0 \<le> a7 * b1" "a7 * b1 \<le> 4398042316801"
    using prod_range [OF ra7 rb1] by simp_all
  have m7_2: "0 \<le> a7 * b2" "a7 * b2 \<le> 4398042316801"
    using prod_range [OF ra7 rb2] by simp_all
  have m7_3: "0 \<le> a7 * b3" "a7 * b3 \<le> 4398042316801"
    using prod_range [OF ra7 rb3] by simp_all
  have m7_4: "0 \<le> a7 * b4" "a7 * b4 \<le> 4398042316801"
    using prod_range [OF ra7 rb4] by simp_all
  have m7_5: "0 \<le> a7 * b5" "a7 * b5 \<le> 4398042316801"
    using prod_range [OF ra7 rb5] by simp_all
  have m7_6: "0 \<le> a7 * b6" "a7 * b6 \<le> 4398042316801"
    using prod_range [OF ra7 rb6] by simp_all
  have m7_7: "0 \<le> a7 * b7" "a7 * b7 \<le> 4398042316801"
    using prod_range [OF ra7 rb7] by simp_all
  have m7_8: "0 \<le> a7 * b8" "a7 * b8 \<le> 4398042316801"
    using prod_range [OF ra7 rb8] by simp_all
  have m7_9: "0 \<le> a7 * b9" "a7 * b9 \<le> 4398042316801"
    using prod_range [OF ra7 rb9] by simp_all
  have m7_10: "0 \<le> a7 * b10" "a7 * b10 \<le> 4398042316801"
    using prod_range [OF ra7 rb10] by simp_all
  have m7_11: "0 \<le> a7 * b11" "a7 * b11 \<le> 70368708526081"
    using prod_range [OF ra7 rb11] by simp_all
  have m8_0: "0 \<le> a8 * b0" "a8 * b0 \<le> 4398042316801"
    using prod_range [OF ra8 rb0] by simp_all
  have m8_1: "0 \<le> a8 * b1" "a8 * b1 \<le> 4398042316801"
    using prod_range [OF ra8 rb1] by simp_all
  have m8_2: "0 \<le> a8 * b2" "a8 * b2 \<le> 4398042316801"
    using prod_range [OF ra8 rb2] by simp_all
  have m8_3: "0 \<le> a8 * b3" "a8 * b3 \<le> 4398042316801"
    using prod_range [OF ra8 rb3] by simp_all
  have m8_4: "0 \<le> a8 * b4" "a8 * b4 \<le> 4398042316801"
    using prod_range [OF ra8 rb4] by simp_all
  have m8_5: "0 \<le> a8 * b5" "a8 * b5 \<le> 4398042316801"
    using prod_range [OF ra8 rb5] by simp_all
  have m8_6: "0 \<le> a8 * b6" "a8 * b6 \<le> 4398042316801"
    using prod_range [OF ra8 rb6] by simp_all
  have m8_7: "0 \<le> a8 * b7" "a8 * b7 \<le> 4398042316801"
    using prod_range [OF ra8 rb7] by simp_all
  have m8_8: "0 \<le> a8 * b8" "a8 * b8 \<le> 4398042316801"
    using prod_range [OF ra8 rb8] by simp_all
  have m8_9: "0 \<le> a8 * b9" "a8 * b9 \<le> 4398042316801"
    using prod_range [OF ra8 rb9] by simp_all
  have m8_10: "0 \<le> a8 * b10" "a8 * b10 \<le> 4398042316801"
    using prod_range [OF ra8 rb10] by simp_all
  have m8_11: "0 \<le> a8 * b11" "a8 * b11 \<le> 70368708526081"
    using prod_range [OF ra8 rb11] by simp_all
  have m9_0: "0 \<le> a9 * b0" "a9 * b0 \<le> 4398042316801"
    using prod_range [OF ra9 rb0] by simp_all
  have m9_1: "0 \<le> a9 * b1" "a9 * b1 \<le> 4398042316801"
    using prod_range [OF ra9 rb1] by simp_all
  have m9_2: "0 \<le> a9 * b2" "a9 * b2 \<le> 4398042316801"
    using prod_range [OF ra9 rb2] by simp_all
  have m9_3: "0 \<le> a9 * b3" "a9 * b3 \<le> 4398042316801"
    using prod_range [OF ra9 rb3] by simp_all
  have m9_4: "0 \<le> a9 * b4" "a9 * b4 \<le> 4398042316801"
    using prod_range [OF ra9 rb4] by simp_all
  have m9_5: "0 \<le> a9 * b5" "a9 * b5 \<le> 4398042316801"
    using prod_range [OF ra9 rb5] by simp_all
  have m9_6: "0 \<le> a9 * b6" "a9 * b6 \<le> 4398042316801"
    using prod_range [OF ra9 rb6] by simp_all
  have m9_7: "0 \<le> a9 * b7" "a9 * b7 \<le> 4398042316801"
    using prod_range [OF ra9 rb7] by simp_all
  have m9_8: "0 \<le> a9 * b8" "a9 * b8 \<le> 4398042316801"
    using prod_range [OF ra9 rb8] by simp_all
  have m9_9: "0 \<le> a9 * b9" "a9 * b9 \<le> 4398042316801"
    using prod_range [OF ra9 rb9] by simp_all
  have m9_10: "0 \<le> a9 * b10" "a9 * b10 \<le> 4398042316801"
    using prod_range [OF ra9 rb10] by simp_all
  have m9_11: "0 \<le> a9 * b11" "a9 * b11 \<le> 70368708526081"
    using prod_range [OF ra9 rb11] by simp_all
  have m10_0: "0 \<le> a10 * b0" "a10 * b0 \<le> 4398042316801"
    using prod_range [OF ra10 rb0] by simp_all
  have m10_1: "0 \<le> a10 * b1" "a10 * b1 \<le> 4398042316801"
    using prod_range [OF ra10 rb1] by simp_all
  have m10_2: "0 \<le> a10 * b2" "a10 * b2 \<le> 4398042316801"
    using prod_range [OF ra10 rb2] by simp_all
  have m10_3: "0 \<le> a10 * b3" "a10 * b3 \<le> 4398042316801"
    using prod_range [OF ra10 rb3] by simp_all
  have m10_4: "0 \<le> a10 * b4" "a10 * b4 \<le> 4398042316801"
    using prod_range [OF ra10 rb4] by simp_all
  have m10_5: "0 \<le> a10 * b5" "a10 * b5 \<le> 4398042316801"
    using prod_range [OF ra10 rb5] by simp_all
  have m10_6: "0 \<le> a10 * b6" "a10 * b6 \<le> 4398042316801"
    using prod_range [OF ra10 rb6] by simp_all
  have m10_7: "0 \<le> a10 * b7" "a10 * b7 \<le> 4398042316801"
    using prod_range [OF ra10 rb7] by simp_all
  have m10_8: "0 \<le> a10 * b8" "a10 * b8 \<le> 4398042316801"
    using prod_range [OF ra10 rb8] by simp_all
  have m10_9: "0 \<le> a10 * b9" "a10 * b9 \<le> 4398042316801"
    using prod_range [OF ra10 rb9] by simp_all
  have m10_10: "0 \<le> a10 * b10" "a10 * b10 \<le> 4398042316801"
    using prod_range [OF ra10 rb10] by simp_all
  have m10_11: "0 \<le> a10 * b11" "a10 * b11 \<le> 70368708526081"
    using prod_range [OF ra10 rb11] by simp_all
  have m11_0: "0 \<le> a11 * b0" "a11 * b0 \<le> 70368708526081"
    using prod_range [OF ra11 rb0] by simp_all
  have m11_1: "0 \<le> a11 * b1" "a11 * b1 \<le> 70368708526081"
    using prod_range [OF ra11 rb1] by simp_all
  have m11_2: "0 \<le> a11 * b2" "a11 * b2 \<le> 70368708526081"
    using prod_range [OF ra11 rb2] by simp_all
  have m11_3: "0 \<le> a11 * b3" "a11 * b3 \<le> 70368708526081"
    using prod_range [OF ra11 rb3] by simp_all
  have m11_4: "0 \<le> a11 * b4" "a11 * b4 \<le> 70368708526081"
    using prod_range [OF ra11 rb4] by simp_all
  have m11_5: "0 \<le> a11 * b5" "a11 * b5 \<le> 70368708526081"
    using prod_range [OF ra11 rb5] by simp_all
  have m11_6: "0 \<le> a11 * b6" "a11 * b6 \<le> 70368708526081"
    using prod_range [OF ra11 rb6] by simp_all
  have m11_7: "0 \<le> a11 * b7" "a11 * b7 \<le> 70368708526081"
    using prod_range [OF ra11 rb7] by simp_all
  have m11_8: "0 \<le> a11 * b8" "a11 * b8 \<le> 70368708526081"
    using prod_range [OF ra11 rb8] by simp_all
  have m11_9: "0 \<le> a11 * b9" "a11 * b9 \<le> 70368708526081"
    using prod_range [OF ra11 rb9] by simp_all
  have m11_10: "0 \<le> a11 * b10" "a11 * b10 \<le> 70368708526081"
    using prod_range [OF ra11 rb10] by simp_all
  have m11_11: "0 \<le> a11 * b11" "a11 * b11 \<le> 1125899839733761"
    using prod_range [OF ra11 rb11] by simp_all
  have p0: "0 \<le> a0 * b0" "a0 * b0 \<le> 4398042316801"
    using m0_0 by linarith+
  have p1: "0 \<le> a0 * b1 + a1 * b0" "a0 * b1 + a1 * b0 \<le> 8796084633602"
    using m0_1 m1_0 by linarith+
  have p2: "0 \<le> a0 * b2 + a1 * b1 + a2 * b0" "a0 * b2 + a1 * b1 + a2 * b0 \<le> 13194126950403"
    using m0_2 m1_1 m2_0 by linarith+
  have p3: "0 \<le> a0 * b3 + a1 * b2 + a2 * b1 + a3 * b0" "a0 * b3 + a1 * b2 + a2 * b1 + a3 * b0 \<le> 17592169267204"
    using m0_3 m1_2 m2_1 m3_0 by linarith+
  have p4: "0 \<le> a0 * b4 + a1 * b3 + a2 * b2 + a3 * b1 + a4 * b0" "a0 * b4 + a1 * b3 + a2 * b2 + a3 * b1 + a4 * b0 \<le> 21990211584005"
    using m0_4 m1_3 m2_2 m3_1 m4_0 by linarith+
  have p5: "0 \<le> a0 * b5 + a1 * b4 + a2 * b3 + a3 * b2 + a4 * b1 + a5 * b0" "a0 * b5 + a1 * b4 + a2 * b3 + a3 * b2 + a4 * b1 + a5 * b0 \<le> 26388253900806"
    using m0_5 m1_4 m2_3 m3_2 m4_1 m5_0 by linarith+
  have p6: "0 \<le> a0 * b6 + a1 * b5 + a2 * b4 + a3 * b3 + a4 * b2 + a5 * b1 + a6 * b0" "a0 * b6 + a1 * b5 + a2 * b4 + a3 * b3 + a4 * b2 + a5 * b1 + a6 * b0 \<le> 30786296217607"
    using m0_6 m1_5 m2_4 m3_3 m4_2 m5_1 m6_0 by linarith+
  have p7: "0 \<le> a0 * b7 + a1 * b6 + a2 * b5 + a3 * b4 + a4 * b3 + a5 * b2 + a6 * b1 + a7 * b0" "a0 * b7 + a1 * b6 + a2 * b5 + a3 * b4 + a4 * b3 + a5 * b2 + a6 * b1 + a7 * b0 \<le> 35184338534408"
    using m0_7 m1_6 m2_5 m3_4 m4_3 m5_2 m6_1 m7_0 by linarith+
  have p8: "0 \<le> a0 * b8 + a1 * b7 + a2 * b6 + a3 * b5 + a4 * b4 + a5 * b3 + a6 * b2 + a7 * b1 + a8 * b0" "a0 * b8 + a1 * b7 + a2 * b6 + a3 * b5 + a4 * b4 + a5 * b3 + a6 * b2 + a7 * b1 + a8 * b0 \<le> 39582380851209"
    using m0_8 m1_7 m2_6 m3_5 m4_4 m5_3 m6_2 m7_1 m8_0 by linarith+
  have p9: "0 \<le> a0 * b9 + a1 * b8 + a2 * b7 + a3 * b6 + a4 * b5 + a5 * b4 + a6 * b3 + a7 * b2 + a8 * b1 + a9 * b0" "a0 * b9 + a1 * b8 + a2 * b7 + a3 * b6 + a4 * b5 + a5 * b4 + a6 * b3 + a7 * b2 + a8 * b1 + a9 * b0 \<le> 43980423168010"
    using m0_9 m1_8 m2_7 m3_6 m4_5 m5_4 m6_3 m7_2 m8_1 m9_0 by linarith+
  have p10: "0 \<le> a0 * b10 + a1 * b9 + a2 * b8 + a3 * b7 + a4 * b6 + a5 * b5 + a6 * b4 + a7 * b3 + a8 * b2 + a9 * b1 + a10 * b0" "a0 * b10 + a1 * b9 + a2 * b8 + a3 * b7 + a4 * b6 + a5 * b5 + a6 * b4 + a7 * b3 + a8 * b2 + a9 * b1 + a10 * b0 \<le> 48378465484811"
    using m0_10 m1_9 m2_8 m3_7 m4_6 m5_5 m6_4 m7_3 m8_2 m9_1 m10_0 by linarith+
  have p11: "0 \<le> a0 * b11 + a1 * b10 + a2 * b9 + a3 * b8 + a4 * b7 + a5 * b6 + a6 * b5 + a7 * b4 + a8 * b3 + a9 * b2 + a10 * b1 + a11 * b0" "a0 * b11 + a1 * b10 + a2 * b9 + a3 * b8 + a4 * b7 + a5 * b6 + a6 * b5 + a7 * b4 + a8 * b3 + a9 * b2 + a10 * b1 + a11 * b0 \<le> 184717840220172"
    using m0_11 m1_10 m2_9 m3_8 m4_7 m5_6 m6_5 m7_4 m8_3 m9_2 m10_1 m11_0 by linarith+
  have p12: "0 \<le> a1 * b11 + a2 * b10 + a3 * b9 + a4 * b8 + a5 * b7 + a6 * b6 + a7 * b5 + a8 * b4 + a9 * b3 + a10 * b2 + a11 * b1" "a1 * b11 + a2 * b10 + a3 * b9 + a4 * b8 + a5 * b7 + a6 * b6 + a7 * b5 + a8 * b4 + a9 * b3 + a10 * b2 + a11 * b1 \<le> 180319797903371"
    using m1_11 m2_10 m3_9 m4_8 m5_7 m6_6 m7_5 m8_4 m9_3 m10_2 m11_1 by linarith+
  have p13: "0 \<le> a2 * b11 + a3 * b10 + a4 * b9 + a5 * b8 + a6 * b7 + a7 * b6 + a8 * b5 + a9 * b4 + a10 * b3 + a11 * b2" "a2 * b11 + a3 * b10 + a4 * b9 + a5 * b8 + a6 * b7 + a7 * b6 + a8 * b5 + a9 * b4 + a10 * b3 + a11 * b2 \<le> 175921755586570"
    using m2_11 m3_10 m4_9 m5_8 m6_7 m7_6 m8_5 m9_4 m10_3 m11_2 by linarith+
  have p14: "0 \<le> a3 * b11 + a4 * b10 + a5 * b9 + a6 * b8 + a7 * b7 + a8 * b6 + a9 * b5 + a10 * b4 + a11 * b3" "a3 * b11 + a4 * b10 + a5 * b9 + a6 * b8 + a7 * b7 + a8 * b6 + a9 * b5 + a10 * b4 + a11 * b3 \<le> 171523713269769"
    using m3_11 m4_10 m5_9 m6_8 m7_7 m8_6 m9_5 m10_4 m11_3 by linarith+
  have p15: "0 \<le> a4 * b11 + a5 * b10 + a6 * b9 + a7 * b8 + a8 * b7 + a9 * b6 + a10 * b5 + a11 * b4" "a4 * b11 + a5 * b10 + a6 * b9 + a7 * b8 + a8 * b7 + a9 * b6 + a10 * b5 + a11 * b4 \<le> 167125670952968"
    using m4_11 m5_10 m6_9 m7_8 m8_7 m9_6 m10_5 m11_4 by linarith+
  have p16: "0 \<le> a5 * b11 + a6 * b10 + a7 * b9 + a8 * b8 + a9 * b7 + a10 * b6 + a11 * b5" "a5 * b11 + a6 * b10 + a7 * b9 + a8 * b8 + a9 * b7 + a10 * b6 + a11 * b5 \<le> 162727628636167"
    using m5_11 m6_10 m7_9 m8_8 m9_7 m10_6 m11_5 by linarith+
  have p17: "0 \<le> a6 * b11 + a7 * b10 + a8 * b9 + a9 * b8 + a10 * b7 + a11 * b6" "a6 * b11 + a7 * b10 + a8 * b9 + a9 * b8 + a10 * b7 + a11 * b6 \<le> 158329586319366"
    using m6_11 m7_10 m8_9 m9_8 m10_7 m11_6 by linarith+
  have p18: "0 \<le> a7 * b11 + a8 * b10 + a9 * b9 + a10 * b8 + a11 * b7" "a7 * b11 + a8 * b10 + a9 * b9 + a10 * b8 + a11 * b7 \<le> 153931544002565"
    using m7_11 m8_10 m9_9 m10_8 m11_7 by linarith+
  have p19: "0 \<le> a8 * b11 + a9 * b10 + a10 * b9 + a11 * b8" "a8 * b11 + a9 * b10 + a10 * b9 + a11 * b8 \<le> 149533501685764"
    using m8_11 m9_10 m10_9 m11_8 by linarith+
  have p20: "0 \<le> a9 * b11 + a10 * b10 + a11 * b9" "a9 * b11 + a10 * b10 + a11 * b9 \<le> 145135459368963"
    using m9_11 m10_10 m11_9 by linarith+
  have p21: "0 \<le> a10 * b11 + a11 * b10" "a10 * b11 + a11 * b10 \<le> 140737417052162"
    using m10_11 m11_10 by linarith+
  have p22: "0 \<le> a11 * b11" "a11 * b11 \<le> 1125899839733761"
    using m11_11 by linarith+
  have i0: "i64 (c0 - (a0 * b0)) = c0 - (a0 * b0)"
    by (rule i64_id) (use p0 rc0 in simp_all)
  have i1: "i64 (c1 - (a0 * b1 + a1 * b0)) = c1 - (a0 * b1 + a1 * b0)"
    by (rule i64_id) (use p1 rc1 in simp_all)
  have i2: "i64 (c2 - (a0 * b2 + a1 * b1 + a2 * b0)) = c2 - (a0 * b2 + a1 * b1 + a2 * b0)"
    by (rule i64_id) (use p2 rc2 in simp_all)
  have i3: "i64 (c3 - (a0 * b3 + a1 * b2 + a2 * b1 + a3 * b0)) = c3 - (a0 * b3 + a1 * b2 + a2 * b1 + a3 * b0)"
    by (rule i64_id) (use p3 rc3 in simp_all)
  have i4: "i64 (c4 - (a0 * b4 + a1 * b3 + a2 * b2 + a3 * b1 + a4 * b0)) = c4 - (a0 * b4 + a1 * b3 + a2 * b2 + a3 * b1 + a4 * b0)"
    by (rule i64_id) (use p4 rc4 in simp_all)
  have i5: "i64 (c5 - (a0 * b5 + a1 * b4 + a2 * b3 + a3 * b2 + a4 * b1 + a5 * b0)) = c5 - (a0 * b5 + a1 * b4 + a2 * b3 + a3 * b2 + a4 * b1 + a5 * b0)"
    by (rule i64_id) (use p5 rc5 in simp_all)
  have i6: "i64 (c6 - (a0 * b6 + a1 * b5 + a2 * b4 + a3 * b3 + a4 * b2 + a5 * b1 + a6 * b0)) = c6 - (a0 * b6 + a1 * b5 + a2 * b4 + a3 * b3 + a4 * b2 + a5 * b1 + a6 * b0)"
    by (rule i64_id) (use p6 rc6 in simp_all)
  have i7: "i64 (c7 - (a0 * b7 + a1 * b6 + a2 * b5 + a3 * b4 + a4 * b3 + a5 * b2 + a6 * b1 + a7 * b0)) = c7 - (a0 * b7 + a1 * b6 + a2 * b5 + a3 * b4 + a4 * b3 + a5 * b2 + a6 * b1 + a7 * b0)"
    by (rule i64_id) (use p7 rc7 in simp_all)
  have i8: "i64 (c8 - (a0 * b8 + a1 * b7 + a2 * b6 + a3 * b5 + a4 * b4 + a5 * b3 + a6 * b2 + a7 * b1 + a8 * b0)) = c8 - (a0 * b8 + a1 * b7 + a2 * b6 + a3 * b5 + a4 * b4 + a5 * b3 + a6 * b2 + a7 * b1 + a8 * b0)"
    by (rule i64_id) (use p8 rc8 in simp_all)
  have i9: "i64 (c9 - (a0 * b9 + a1 * b8 + a2 * b7 + a3 * b6 + a4 * b5 + a5 * b4 + a6 * b3 + a7 * b2 + a8 * b1 + a9 * b0)) = c9 - (a0 * b9 + a1 * b8 + a2 * b7 + a3 * b6 + a4 * b5 + a5 * b4 + a6 * b3 + a7 * b2 + a8 * b1 + a9 * b0)"
    by (rule i64_id) (use p9 rc9 in simp_all)
  have i10: "i64 (c10 - (a0 * b10 + a1 * b9 + a2 * b8 + a3 * b7 + a4 * b6 + a5 * b5 + a6 * b4 + a7 * b3 + a8 * b2 + a9 * b1 + a10 * b0)) = c10 - (a0 * b10 + a1 * b9 + a2 * b8 + a3 * b7 + a4 * b6 + a5 * b5 + a6 * b4 + a7 * b3 + a8 * b2 + a9 * b1 + a10 * b0)"
    by (rule i64_id) (use p10 rc10 in simp_all)
  have i11: "i64 (c11 - (a0 * b11 + a1 * b10 + a2 * b9 + a3 * b8 + a4 * b7 + a5 * b6 + a6 * b5 + a7 * b4 + a8 * b3 + a9 * b2 + a10 * b1 + a11 * b0)) = c11 - (a0 * b11 + a1 * b10 + a2 * b9 + a3 * b8 + a4 * b7 + a5 * b6 + a6 * b5 + a7 * b4 + a8 * b3 + a9 * b2 + a10 * b1 + a11 * b0)"
    by (rule i64_id) (use p11 rc11 in simp_all)
  have i12: "i64 (- (a1 * b11 + a2 * b10 + a3 * b9 + a4 * b8 + a5 * b7 + a6 * b6 + a7 * b5 + a8 * b4 + a9 * b3 + a10 * b2 + a11 * b1)) = - (a1 * b11 + a2 * b10 + a3 * b9 + a4 * b8 + a5 * b7 + a6 * b6 + a7 * b5 + a8 * b4 + a9 * b3 + a10 * b2 + a11 * b1)"
    by (rule i64_id) (use p12  in simp_all)
  have i13: "i64 (- (a2 * b11 + a3 * b10 + a4 * b9 + a5 * b8 + a6 * b7 + a7 * b6 + a8 * b5 + a9 * b4 + a10 * b3 + a11 * b2)) = - (a2 * b11 + a3 * b10 + a4 * b9 + a5 * b8 + a6 * b7 + a7 * b6 + a8 * b5 + a9 * b4 + a10 * b3 + a11 * b2)"
    by (rule i64_id) (use p13  in simp_all)
  have i14: "i64 (- (a3 * b11 + a4 * b10 + a5 * b9 + a6 * b8 + a7 * b7 + a8 * b6 + a9 * b5 + a10 * b4 + a11 * b3)) = - (a3 * b11 + a4 * b10 + a5 * b9 + a6 * b8 + a7 * b7 + a8 * b6 + a9 * b5 + a10 * b4 + a11 * b3)"
    by (rule i64_id) (use p14  in simp_all)
  have i15: "i64 (- (a4 * b11 + a5 * b10 + a6 * b9 + a7 * b8 + a8 * b7 + a9 * b6 + a10 * b5 + a11 * b4)) = - (a4 * b11 + a5 * b10 + a6 * b9 + a7 * b8 + a8 * b7 + a9 * b6 + a10 * b5 + a11 * b4)"
    by (rule i64_id) (use p15  in simp_all)
  have i16: "i64 (- (a5 * b11 + a6 * b10 + a7 * b9 + a8 * b8 + a9 * b7 + a10 * b6 + a11 * b5)) = - (a5 * b11 + a6 * b10 + a7 * b9 + a8 * b8 + a9 * b7 + a10 * b6 + a11 * b5)"
    by (rule i64_id) (use p16  in simp_all)
  have i17: "i64 (- (a6 * b11 + a7 * b10 + a8 * b9 + a9 * b8 + a10 * b7 + a11 * b6)) = - (a6 * b11 + a7 * b10 + a8 * b9 + a9 * b8 + a10 * b7 + a11 * b6)"
    by (rule i64_id) (use p17  in simp_all)
  have i18: "i64 (- (a7 * b11 + a8 * b10 + a9 * b9 + a10 * b8 + a11 * b7)) = - (a7 * b11 + a8 * b10 + a9 * b9 + a10 * b8 + a11 * b7)"
    by (rule i64_id) (use p18  in simp_all)
  have i19: "i64 (- (a8 * b11 + a9 * b10 + a10 * b9 + a11 * b8)) = - (a8 * b11 + a9 * b10 + a10 * b9 + a11 * b8)"
    by (rule i64_id) (use p19  in simp_all)
  have i20: "i64 (- (a9 * b11 + a10 * b10 + a11 * b9)) = - (a9 * b11 + a10 * b10 + a11 * b9)"
    by (rule i64_id) (use p20  in simp_all)
  have i21: "i64 (- (a10 * b11 + a11 * b10)) = - (a10 * b11 + a11 * b10)"
    by (rule i64_id) (use p21  in simp_all)
  have i22: "i64 (- (a11 * b11)) = - (a11 * b11)"
    by (rule i64_id) (use p22  in simp_all)
  show ?A
    unfolding sc_mulsub_limbs_def
    using i0 i1 i2 i3 i4 i5 i6 i7 i8 i9 i10 i11 i12 i13 i14 i15 i16 i17 i18 i19 i20 i21 i22 by simp
  show ?B
    unfolding sc_start_mulsub_def list_all2_Cons list_all2_Nil in_iv_def fst_conv snd_conv
    by (intro conjI TrueI refl) (use p0 p1 p2 p3 p4 p5 p6 p7 p8 p9 p10 p11 p12 p13 p14 p15 p16 p17 p18 p19 p20 p21 p22 rc0 rc1 rc2 rc3 rc4 rc5 rc6 rc7 rc8 rc9 rc10 rc11 in linarith)+
qed

definition conv12 :: "int list \<Rightarrow> int list \<Rightarrow> nat \<Rightarrow> int" where
  "conv12 a b k = (\<Sum>i<Suc k. (if i < 12 then a ! i else 0) * (if k - i < 12 then b ! (k - i) else 0))"

lemma conv12_list:
  "conv12 a b k = sum_list (map (\<lambda>i. (if i < 12 then a ! i else 0) * (if k - i < 12 then b ! (k - i) else 0)) [0..<Suc k])"
  unfolding conv12_def interv_sum_list_conv_sum_set_nat by (simp add: atLeast0LessThan)

lemma conv12_explicit:
  "conv12 [a0, a1, a2, a3, a4, a5, a6, a7, a8, a9, a10, a11] [b0, b1, b2, b3, b4, b5, b6, b7, b8, b9, b10, b11] 0 = a0 * b0"
  "conv12 [a0, a1, a2, a3, a4, a5, a6, a7, a8, a9, a10, a11] [b0, b1, b2, b3, b4, b5, b6, b7, b8, b9, b10, b11] 1 = a0 * b1 + a1 * b0"
  "conv12 [a0, a1, a2, a3, a4, a5, a6, a7, a8, a9, a10, a11] [b0, b1, b2, b3, b4, b5, b6, b7, b8, b9, b10, b11] 2 = a0 * b2 + a1 * b1 + a2 * b0"
  "conv12 [a0, a1, a2, a3, a4, a5, a6, a7, a8, a9, a10, a11] [b0, b1, b2, b3, b4, b5, b6, b7, b8, b9, b10, b11] 3 = a0 * b3 + a1 * b2 + a2 * b1 + a3 * b0"
  "conv12 [a0, a1, a2, a3, a4, a5, a6, a7, a8, a9, a10, a11] [b0, b1, b2, b3, b4, b5, b6, b7, b8, b9, b10, b11] 4 = a0 * b4 + a1 * b3 + a2 * b2 + a3 * b1 + a4 * b0"
  "conv12 [a0, a1, a2, a3, a4, a5, a6, a7, a8, a9, a10, a11] [b0, b1, b2, b3, b4, b5, b6, b7, b8, b9, b10, b11] 5 = a0 * b5 + a1 * b4 + a2 * b3 + a3 * b2 + a4 * b1 + a5 * b0"
  "conv12 [a0, a1, a2, a3, a4, a5, a6, a7, a8, a9, a10, a11] [b0, b1, b2, b3, b4, b5, b6, b7, b8, b9, b10, b11] 6 = a0 * b6 + a1 * b5 + a2 * b4 + a3 * b3 + a4 * b2 + a5 * b1 + a6 * b0"
  "conv12 [a0, a1, a2, a3, a4, a5, a6, a7, a8, a9, a10, a11] [b0, b1, b2, b3, b4, b5, b6, b7, b8, b9, b10, b11] 7 = a0 * b7 + a1 * b6 + a2 * b5 + a3 * b4 + a4 * b3 + a5 * b2 + a6 * b1 + a7 * b0"
  "conv12 [a0, a1, a2, a3, a4, a5, a6, a7, a8, a9, a10, a11] [b0, b1, b2, b3, b4, b5, b6, b7, b8, b9, b10, b11] 8 = a0 * b8 + a1 * b7 + a2 * b6 + a3 * b5 + a4 * b4 + a5 * b3 + a6 * b2 + a7 * b1 + a8 * b0"
  "conv12 [a0, a1, a2, a3, a4, a5, a6, a7, a8, a9, a10, a11] [b0, b1, b2, b3, b4, b5, b6, b7, b8, b9, b10, b11] 9 = a0 * b9 + a1 * b8 + a2 * b7 + a3 * b6 + a4 * b5 + a5 * b4 + a6 * b3 + a7 * b2 + a8 * b1 + a9 * b0"
  "conv12 [a0, a1, a2, a3, a4, a5, a6, a7, a8, a9, a10, a11] [b0, b1, b2, b3, b4, b5, b6, b7, b8, b9, b10, b11] 10 = a0 * b10 + a1 * b9 + a2 * b8 + a3 * b7 + a4 * b6 + a5 * b5 + a6 * b4 + a7 * b3 + a8 * b2 + a9 * b1 + a10 * b0"
  "conv12 [a0, a1, a2, a3, a4, a5, a6, a7, a8, a9, a10, a11] [b0, b1, b2, b3, b4, b5, b6, b7, b8, b9, b10, b11] 11 = a0 * b11 + a1 * b10 + a2 * b9 + a3 * b8 + a4 * b7 + a5 * b6 + a6 * b5 + a7 * b4 + a8 * b3 + a9 * b2 + a10 * b1 + a11 * b0"
  "conv12 [a0, a1, a2, a3, a4, a5, a6, a7, a8, a9, a10, a11] [b0, b1, b2, b3, b4, b5, b6, b7, b8, b9, b10, b11] 12 = a1 * b11 + a2 * b10 + a3 * b9 + a4 * b8 + a5 * b7 + a6 * b6 + a7 * b5 + a8 * b4 + a9 * b3 + a10 * b2 + a11 * b1"
  "conv12 [a0, a1, a2, a3, a4, a5, a6, a7, a8, a9, a10, a11] [b0, b1, b2, b3, b4, b5, b6, b7, b8, b9, b10, b11] 13 = a2 * b11 + a3 * b10 + a4 * b9 + a5 * b8 + a6 * b7 + a7 * b6 + a8 * b5 + a9 * b4 + a10 * b3 + a11 * b2"
  "conv12 [a0, a1, a2, a3, a4, a5, a6, a7, a8, a9, a10, a11] [b0, b1, b2, b3, b4, b5, b6, b7, b8, b9, b10, b11] 14 = a3 * b11 + a4 * b10 + a5 * b9 + a6 * b8 + a7 * b7 + a8 * b6 + a9 * b5 + a10 * b4 + a11 * b3"
  "conv12 [a0, a1, a2, a3, a4, a5, a6, a7, a8, a9, a10, a11] [b0, b1, b2, b3, b4, b5, b6, b7, b8, b9, b10, b11] 15 = a4 * b11 + a5 * b10 + a6 * b9 + a7 * b8 + a8 * b7 + a9 * b6 + a10 * b5 + a11 * b4"
  "conv12 [a0, a1, a2, a3, a4, a5, a6, a7, a8, a9, a10, a11] [b0, b1, b2, b3, b4, b5, b6, b7, b8, b9, b10, b11] 16 = a5 * b11 + a6 * b10 + a7 * b9 + a8 * b8 + a9 * b7 + a10 * b6 + a11 * b5"
  "conv12 [a0, a1, a2, a3, a4, a5, a6, a7, a8, a9, a10, a11] [b0, b1, b2, b3, b4, b5, b6, b7, b8, b9, b10, b11] 17 = a6 * b11 + a7 * b10 + a8 * b9 + a9 * b8 + a10 * b7 + a11 * b6"
  "conv12 [a0, a1, a2, a3, a4, a5, a6, a7, a8, a9, a10, a11] [b0, b1, b2, b3, b4, b5, b6, b7, b8, b9, b10, b11] 18 = a7 * b11 + a8 * b10 + a9 * b9 + a10 * b8 + a11 * b7"
  "conv12 [a0, a1, a2, a3, a4, a5, a6, a7, a8, a9, a10, a11] [b0, b1, b2, b3, b4, b5, b6, b7, b8, b9, b10, b11] 19 = a8 * b11 + a9 * b10 + a10 * b9 + a11 * b8"
  "conv12 [a0, a1, a2, a3, a4, a5, a6, a7, a8, a9, a10, a11] [b0, b1, b2, b3, b4, b5, b6, b7, b8, b9, b10, b11] 20 = a9 * b11 + a10 * b10 + a11 * b9"
  "conv12 [a0, a1, a2, a3, a4, a5, a6, a7, a8, a9, a10, a11] [b0, b1, b2, b3, b4, b5, b6, b7, b8, b9, b10, b11] 21 = a10 * b11 + a11 * b10"
  "conv12 [a0, a1, a2, a3, a4, a5, a6, a7, a8, a9, a10, a11] [b0, b1, b2, b3, b4, b5, b6, b7, b8, b9, b10, b11] 22 = a11 * b11"
  by (simp_all add: conv12_list upt_conv_Cons)

lemma conv12_val: "(\<Sum>k<23. 2 ^ (21 * k) * conv12 a b k) = sc_val 12 a * sc_val 12 b"
proof -
  let ?a = "\<lambda>i. if i < 12 then a ! i else 0" and ?b = "\<lambda>i. if i < 12 then b ! i else 0"
  have s: "sc_val 12 s = (\<Sum>i\<le>11. (if i < 12 then s ! i else 0) * (2 ^ 21) ^ i)" for s
    unfolding sc_val_def by (rule sum.cong) (auto simp: power_mult)
  have "sc_val 12 a * sc_val 12 b = (\<Sum>r\<le>11 + 11. (\<Sum>k\<le>r. ?a k * ?b (r - k)) * (2 ^ 21) ^ r)"
    unfolding s by (rule polynomial_product) simp_all
  also have "\<dots> = (\<Sum>k<23. 2 ^ (21 * k) * conv12 a b k)"
    unfolding conv12_def lessThan_Suc_atMost by (rule sum.cong) (auto simp: power_mult)
  finally show ?thesis ..
qed

lemma upt_23: "[0..<23] = [0, 1, 2, 3, 4, 5, 6, 7, 8, 9, 10, 11, 12, 13, 14, 15, 16, 17, 18, 19, 20, 21, 22]"
  by code_simp

lemma list_12:
  assumes "length xs = 12"
  shows "xs = [xs ! 0, xs ! 1, xs ! 2, xs ! 3, xs ! 4, xs ! 5, xs ! 6, xs ! 7, xs ! 8, xs ! 9, xs ! 10, xs ! 11]"
    (is "_ = ?t")
proof -
  have "xs = map ((!) xs) [0..<12]"
    using map_nth [of xs] by (simp add: assms)
  also have "\<dots> = ?t"
    by (simp add: upt_conv_Cons eval_nat_numeral)
  finally show ?thesis .
qed

lemma sc_mulsub_limbs_spec:
  assumes len: "length a = 12" "length b = 12" "length c = 12"
    and r: "\<And>i. i < 12 \<Longrightarrow> 0 \<le> a ! i \<and> a ! i \<le> sc_top i" "\<And>i. i < 12 \<Longrightarrow> 0 \<le> b ! i \<and> b ! i \<le> sc_top i"
      "\<And>i. i < 12 \<Longrightarrow> 0 \<le> c ! i \<and> c ! i \<le> sc_top i"
  shows "sc_mulsub_limbs a b c = map (\<lambda>k. (if k < 12 then c ! k else 0) - conv12 a b k) [0..<23] @ [0]"
    and "list_all2 in_iv sc_start_mulsub (sc_mulsub_limbs a b c)"
proof -
  obtain a0 a1 a2 a3 a4 a5 a6 a7 a8 a9 a10 a11 where a: "a = [a0, a1, a2, a3, a4, a5, a6, a7, a8, a9, a10, a11]"
    using list_12 [OF len(1)] by blast
  obtain b0 b1 b2 b3 b4 b5 b6 b7 b8 b9 b10 b11 where b: "b = [b0, b1, b2, b3, b4, b5, b6, b7, b8, b9, b10, b11]"
    using list_12 [OF len(2)] by blast
  obtain c0 c1 c2 c3 c4 c5 c6 c7 c8 c9 c10 c11 where c: "c = [c0, c1, c2, c3, c4, c5, c6, c7, c8, c9, c10, c11]"
    using list_12 [OF len(3)] by blast
  have ra0: "0 \<le> a0 \<and> a0 \<le> 2097151"
    using r(1) [of 0] by (simp add: a sc_top_def)
  have ra1: "0 \<le> a1 \<and> a1 \<le> 2097151"
    using r(1) [of 1] by (simp add: a sc_top_def)
  have ra2: "0 \<le> a2 \<and> a2 \<le> 2097151"
    using r(1) [of 2] by (simp add: a sc_top_def)
  have ra3: "0 \<le> a3 \<and> a3 \<le> 2097151"
    using r(1) [of 3] by (simp add: a sc_top_def)
  have ra4: "0 \<le> a4 \<and> a4 \<le> 2097151"
    using r(1) [of 4] by (simp add: a sc_top_def)
  have ra5: "0 \<le> a5 \<and> a5 \<le> 2097151"
    using r(1) [of 5] by (simp add: a sc_top_def)
  have ra6: "0 \<le> a6 \<and> a6 \<le> 2097151"
    using r(1) [of 6] by (simp add: a sc_top_def)
  have ra7: "0 \<le> a7 \<and> a7 \<le> 2097151"
    using r(1) [of 7] by (simp add: a sc_top_def)
  have ra8: "0 \<le> a8 \<and> a8 \<le> 2097151"
    using r(1) [of 8] by (simp add: a sc_top_def)
  have ra9: "0 \<le> a9 \<and> a9 \<le> 2097151"
    using r(1) [of 9] by (simp add: a sc_top_def)
  have ra10: "0 \<le> a10 \<and> a10 \<le> 2097151"
    using r(1) [of 10] by (simp add: a sc_top_def)
  have ra11: "0 \<le> a11 \<and> a11 \<le> 33554431"
    using r(1) [of 11] by (simp add: a sc_top_def)
  have rb0: "0 \<le> b0 \<and> b0 \<le> 2097151"
    using r(2) [of 0] by (simp add: b sc_top_def)
  have rb1: "0 \<le> b1 \<and> b1 \<le> 2097151"
    using r(2) [of 1] by (simp add: b sc_top_def)
  have rb2: "0 \<le> b2 \<and> b2 \<le> 2097151"
    using r(2) [of 2] by (simp add: b sc_top_def)
  have rb3: "0 \<le> b3 \<and> b3 \<le> 2097151"
    using r(2) [of 3] by (simp add: b sc_top_def)
  have rb4: "0 \<le> b4 \<and> b4 \<le> 2097151"
    using r(2) [of 4] by (simp add: b sc_top_def)
  have rb5: "0 \<le> b5 \<and> b5 \<le> 2097151"
    using r(2) [of 5] by (simp add: b sc_top_def)
  have rb6: "0 \<le> b6 \<and> b6 \<le> 2097151"
    using r(2) [of 6] by (simp add: b sc_top_def)
  have rb7: "0 \<le> b7 \<and> b7 \<le> 2097151"
    using r(2) [of 7] by (simp add: b sc_top_def)
  have rb8: "0 \<le> b8 \<and> b8 \<le> 2097151"
    using r(2) [of 8] by (simp add: b sc_top_def)
  have rb9: "0 \<le> b9 \<and> b9 \<le> 2097151"
    using r(2) [of 9] by (simp add: b sc_top_def)
  have rb10: "0 \<le> b10 \<and> b10 \<le> 2097151"
    using r(2) [of 10] by (simp add: b sc_top_def)
  have rb11: "0 \<le> b11 \<and> b11 \<le> 33554431"
    using r(2) [of 11] by (simp add: b sc_top_def)
  have rc0: "0 \<le> c0 \<and> c0 \<le> 2097151"
    using r(3) [of 0] by (simp add: c sc_top_def)
  have rc1: "0 \<le> c1 \<and> c1 \<le> 2097151"
    using r(3) [of 1] by (simp add: c sc_top_def)
  have rc2: "0 \<le> c2 \<and> c2 \<le> 2097151"
    using r(3) [of 2] by (simp add: c sc_top_def)
  have rc3: "0 \<le> c3 \<and> c3 \<le> 2097151"
    using r(3) [of 3] by (simp add: c sc_top_def)
  have rc4: "0 \<le> c4 \<and> c4 \<le> 2097151"
    using r(3) [of 4] by (simp add: c sc_top_def)
  have rc5: "0 \<le> c5 \<and> c5 \<le> 2097151"
    using r(3) [of 5] by (simp add: c sc_top_def)
  have rc6: "0 \<le> c6 \<and> c6 \<le> 2097151"
    using r(3) [of 6] by (simp add: c sc_top_def)
  have rc7: "0 \<le> c7 \<and> c7 \<le> 2097151"
    using r(3) [of 7] by (simp add: c sc_top_def)
  have rc8: "0 \<le> c8 \<and> c8 \<le> 2097151"
    using r(3) [of 8] by (simp add: c sc_top_def)
  have rc9: "0 \<le> c9 \<and> c9 \<le> 2097151"
    using r(3) [of 9] by (simp add: c sc_top_def)
  have rc10: "0 \<le> c10 \<and> c10 \<le> 2097151"
    using r(3) [of 10] by (simp add: c sc_top_def)
  have rc11: "0 \<le> c11 \<and> c11 \<le> 33554431"
    using r(3) [of 11] by (simp add: c sc_top_def)
  note e = sc_mulsub_limbs_explicit [OF ra0 ra1 ra2 ra3 ra4 ra5 ra6 ra7 ra8 ra9 ra10 ra11 rb0 rb1 rb2 rb3 rb4 rb5 rb6 rb7 rb8 rb9 rb10 rb11 rc0 rc1 rc2 rc3 rc4 rc5 rc6 rc7 rc8 rc9 rc10 rc11]
  show "sc_mulsub_limbs a b c = map (\<lambda>k. (if k < 12 then c ! k else 0) - conv12 a b k) [0..<23] @ [0]"
    unfolding a b c e(1) upt_23 list.map conv12_explicit by simp
  show "list_all2 in_iv sc_start_mulsub (sc_mulsub_limbs a b c)"
    unfolding a b c e(1) by (rule e(2))
qed

lemma sc_mulsub_val:
  assumes "length a = 32" and "length b = 32" and "length c = 32"
  shows "le_val (sc_mulsub a b c) = (le_val c - le_val a * le_val b) mod sc_l"
proof -
  let ?a = "sc_load12 a" and ?b = "sc_load12 b" and ?c = "sc_load12 c"
  define s where "s = sc_mulsub_limbs ?a ?b ?c"
  note r = sc_load12_top [OF assms(1)] sc_load12_top [OF assms(2)] sc_load12_top [OF assms(3)]
  have sp: "s = map (\<lambda>k. (if k < 12 then ?c ! k else 0) - conv12 ?a ?b k) [0..<23] @ [0]"
    "list_all2 in_iv sc_start_mulsub s"
    unfolding s_def by (rule sc_mulsub_limbs_spec; simp add: length_sc_load12 r)+
  have l: "length sc_start_mulsub = 24" "length s = 24"
    by (simp_all add: sc_start_mulsub_def sp(1))
  have "sc_rel 24 sc_start_mulsub s"
    unfolding sc_rel_def using sp(2) by (auto simp: l list_all2_conv_all_nth)
  then have "le_val (sc_mulsub a b c) = sc_val 24 s mod sc_l"
    using sc_code_sound [OF _ disjI2 [OF refl] sc_mulsub_bounds sc_ops_split(3)]
    by (simp add: sc_mulsub_def l flip: s_def)
  also have "sc_val 24 s = sc_val 23 s"
    using sc_val_Suc [of 23 s] by (simp add: sp(1) nth_append)
  also have "\<dots> = (\<Sum>k<23. 2 ^ (21 * k) * (if k < 12 then ?c ! k else 0) - 2 ^ (21 * k) * conv12 ?a ?b k)"
    unfolding sc_val_def by (intro sum.cong refl) (simp add: sp(1) nth_append right_diff_distrib)
  also have "\<dots> = (\<Sum>k<23. 2 ^ (21 * k) * (if k < 12 then ?c ! k else 0)) - sc_val 12 ?a * sc_val 12 ?b"
    by (simp only: sum_subtractf conv12_val)
  also have "(\<Sum>k<23. 2 ^ (21 * k) * (if k < 12 then ?c ! k else 0)) = sc_val 12 ?c"
    unfolding sc_val_def by (rule sum.mono_neutral_cong_right) auto
  finally show ?thesis
    using sc_load12_val [of _ "[]"] assms by simp
qed

end
