(* ===== verification/Sc_Check.thy ===== *)
theory Sc_Check
  imports Sc_Correct Fe_Load
begin

text \<open>
  The scalar predicates \<^verbatim>\<open>sc_check\<close> (is the scalar reduced?) and \<^verbatim>\<open>sc_isnonzero\<close>, and
  \<^verbatim>\<open>sc_0\<close>. \<^verbatim>\<open>sc_check\<close> compares the eight 32 bit words with those of \<open>l - 1\<close> by a weighted
  sum of signs, without branches.
\<close>

definition sc_0 :: "byte list" where
  "sc_0 = replicate 32 0"

definition signum :: "int \<Rightarrow> int" where
  "signum a = i64 (drop_bit 63 a - drop_bit 63 (i64 (- a)))"

definition sc_check :: "byte list \<Rightarrow> int" where
  "sc_check s =
    (let s0 = load_4 s 0;
         s1 = load_4 s 4;
         s2 = load_4 s 8;
         s3 = load_4 s 12;
         s4 = load_4 s 16;
         s5 = load_4 s 20;
         s6 = load_4 s 24;
         s7 = load_4 s 28
     in i32 (drop_bit 8 (i64 (signum (1559614444 - s0) + push_bit 1 (signum (1477600026 - s1))
          + push_bit 2 (signum (2734136534 - s2)) + push_bit 3 (signum (350157278 - s3))
          + push_bit 4 (signum (- s4)) + push_bit 5 (signum (- s5)) + push_bit 6 (signum (- s6))
          + push_bit 7 (signum (268435456 - s7))))))"

definition sc_isnonzero :: "byte list \<Rightarrow> int" where
  "sc_isnonzero s = i32 (drop_bit 8 (i32 (uint (foldl (OR) 0 s) - 1)) + 1)"

lemma signum_sgn:
  assumes "- (2 ^ 62) \<le> a" and "a \<le> 2 ^ 62"
  shows "signum a = sgn a"
proof -
  have "i64 (- a) = - a"
    using assms by (intro i64_id) simp_all
  moreover have "x div 2 ^ 63 = (if x < 0 then - 1 else 0)" if "- (2 ^ 62) \<le> x" "x \<le> 2 ^ 62" for x :: int
  proof -
    have "x div 2 ^ 63 = - 1" if "x < 0"
      using that \<open>- (2 ^ 62) \<le> x\<close> by (intro int_div_pos_eq [where r = "x + 2 ^ 63"]) simp_all
    then show ?thesis
      using that by auto
  qed
  ultimately show ?thesis
    using assms unfolding signum_def by (simp add: drop_bit_eq_div i64_id sgn_if)
qed

text \<open>The weighted sum of signs of word differences has the sign of the difference of the numbers.\<close>

fun sign_sum :: "int list \<Rightarrow> int" where
  "sign_sum [] = 0"
| "sign_sum (d # ds) = sgn d + 2 * sign_sum ds"

fun word_sum :: "int list \<Rightarrow> int" where
  "word_sum [] = 0"
| "word_sum (d # ds) = d + 4294967296 * word_sum ds"

lemma sign_sum_sgn:
  assumes "\<forall>d \<in> set ds. - 4294967296 < d \<and> d < 4294967296"
  shows "sgn (sign_sum ds) = sgn (word_sum ds)"
  using assms
proof (induction ds)
  case Nil
  then show ?case by simp
next
  case (Cons d ds)
  have d: "- 4294967296 < d" "d < 4294967296" and IH: "sgn (sign_sum ds) = sgn (word_sum ds)"
    using Cons by simp_all
  consider "word_sum ds = 0" | "1 \<le> word_sum ds" | "word_sum ds \<le> - 1"
    by linarith
  then show ?case
  proof cases
    case 1
    with IH have "sign_sum ds = 0"
      by (simp add: sgn_0_0)
    with 1 show ?thesis by simp
  next
    case 2
    with IH have "1 \<le> sign_sum ds"
      by (simp add: sgn_if split: if_splits)
    moreover have "- 1 \<le> sgn d"
      by (simp add: sgn_if)
    ultimately show ?thesis
      using 2 d by (simp add: sgn_1_pos [THEN iffD2])
  next
    case 3
    with IH have "sign_sum ds \<le> - 1"
      by (simp add: sgn_if split: if_splits)
    moreover have "sgn d \<le> 1"
      by (simp add: sgn_if)
    ultimately show ?thesis
      using 3 d by (simp add: sgn_1_neg [THEN iffD2])
  qed
qed

lemma sign_sum_less: "\<bar>sign_sum ds\<bar> < 2 ^ length ds"
proof (induction ds)
  case Nil
  then show ?case by simp
next
  case (Cons d ds)
  have "- 1 \<le> sgn d" "sgn d \<le> 1"
    by (simp_all add: sgn_if)
  with Cons show ?case
    by (simp add: abs_less_iff)
qed

lemma sc_check_val:
  assumes "length s = 32"
  shows "sc_check s = (if le_val s < sc_l then 0 else - 1)"
proof -
  define ds where "ds = [1559614444 - load_4 s 0, 1477600026 - load_4 s 4, 2734136534 - load_4 s 8,
    350157278 - load_4 s 12, - load_4 s 16, - load_4 s 20, - load_4 s 24, 268435456 - load_4 s 28]"
  have r: "- 4294967296 < c - load_4 s k \<and> c - load_4 s k < 4294967296" if "0 \<le> c" "c < 4294967296" for c k
    using load_4_range [of s k] that by linarith
  have ds: "\<forall>d \<in> set ds. - 4294967296 < d \<and> d < 4294967296"
    unfolding ds_def using r [of 0] by (simp add: r)
  have sg: "signum (c - load_4 s k) = sgn (c - load_4 s k)" if "0 \<le> c" "c < 4294967296" for c k
    using r [OF that, of k] by (intro signum_sgn) simp_all
  have w: "word_sum ds = sc_l - 1 - le_val s"
    unfolding ds_def load_4_sum load_3_sum le_val_32 [OF assms] sc_l_def by simp (simp add: numeral_2_eq_2)
  have T: "sc_check s = i32 (drop_bit 8 (i64 (sign_sum ds)))"
    unfolding sc_check_def Let_def ds_def using sg [of 0]
    by (simp add: sg push_bit_eq_mult algebra_simps)
  have range: "- 255 \<le> sign_sum ds" "sign_sum ds \<le> 255"
    using sign_sum_less [of ds] by (simp_all add: ds_def abs_less_iff)
  show ?thesis
  proof (cases "le_val s < sc_l")
    case True
    then have "0 \<le> sign_sum ds"
      using sign_sum_sgn [OF ds] w by (auto simp: sgn_if split: if_splits)
    then show ?thesis
      using True range unfolding T by (simp add: i64_id i32_id drop_bit_eq_div)
  next
    case False
    then have "sign_sum ds < 0"
      using sign_sum_sgn [OF ds] w by (auto simp: sgn_if split: if_splits)
    then have "sign_sum ds div 256 = - 1"
      using range by (intro int_div_pos_eq [where r = "sign_sum ds + 256"]) simp_all
    then show ?thesis
      using False range unfolding T by (simp add: i64_id i32_id drop_bit_eq_div)
  qed
qed

lemma sc_isnonzero_val: "sc_isnonzero s = (if le_val s = 0 then 0 else 1)"
proof -
  define b where "b = foldl (OR) 0 s"
  have b: "b = 0 \<longleftrightarrow> le_val s = 0"
    unfolding b_def foldl_or_zero by simp
  show ?thesis
  proof (cases "b = 0")
    case True
    then show ?thesis
      using b unfolding sc_isnonzero_def b_def [symmetric] by (simp add: i32_id drop_bit_eq_div)
  next
    case False
    then have "uint b \<noteq> 0"
      by (simp add: uint_0_iff)
    then have "1 \<le> uint b" "uint b < 256"
      using uint_byte_less [of b] uint_ge_0 [of b] by linarith+
    then show ?thesis
      using b False unfolding sc_isnonzero_def b_def [symmetric] by (simp add: i32_id drop_bit_eq_div)
  qed
qed

lemma sc_0_val: "le_val sc_0 = 0" "length sc_0 = 32"
  by (simp_all add: sc_0_def eval_nat_numeral)

end
