(* ===== verification/Scalar_Properties.thy ===== *)
theory Scalar_Properties
  imports Sc_Check
begin

text \<open>
  The contract of the scalar arithmetic of \<^verbatim>\<open>crypto-ops.c\<close>, over the little-endian values
  of its byte strings.
\<close>

definition sc_ex1 :: "byte list" where
  "sc_ex1 = replicate 31 200 @ [255]"

definition sc_ex2 :: "byte list" where
  "sc_ex2 = 7 # replicate 31 99"

lemma length_sc_ex: "length sc_ex1 = 32" "length sc_ex2 = 32"
  by (simp_all add: sc_ex1_def sc_ex2_def)

lemma length_sc_functions: "length (sc_reduce s) = 32" "length (sc_reduce32 s) = 32"
  "length (sc_reduce32copy s) = 32" "length (sc_add a b) = 32" "length (sc_sub a b) = 32"
  "length (sc_mulsub a b c) = 32"
  by (simp_all add: sc_reduce_def sc_reduce32_def sc_reduce32copy_def sc_add_def sc_sub_def
      sc_mulsub_def length_sc_store)

text \<open>
  C5: Reduction: from any 64 bytes \<^verbatim>\<open>sc_reduce\<close>, and from any 32 bytes \<^verbatim>\<open>sc_reduce32\<close>
  and its copying variant of the ring signature code, write the 32 bytes of the residue modulo
  the group order \<open>l\<close>. No statement overflows \<^verbatim>\<open>int64_t\<close>, and the result is canonical.
\<close>

theorem sc_reduce_correct:
  assumes "length s = 64" and "length t = 32"
  shows "le_val (sc_reduce s) = le_val s mod sc_l \<and> length (sc_reduce s) = 32 \<and>
    le_val (sc_reduce32 t) = le_val t mod sc_l \<and> length (sc_reduce32 t) = 32 \<and>
    sc_reduce32copy t = sc_reduce32 t"
  using assms by (simp add: sc_reduce_val sc_reduce32_val length_sc_functions)
    (simp add: sc_reduce32_def sc_reduce32copy_def)

theorem sc_reduce_correct_witness:
  "length (sc_ex1 @ sc_ex2) = 64 \<and> length sc_ex1 = 32 \<and>
   le_val (sc_reduce (sc_ex1 @ sc_ex2)) = le_val (sc_ex1 @ sc_ex2) mod sc_l"
  using sc_reduce_correct [of "sc_ex1 @ sc_ex2" sc_ex1] by (simp add: length_sc_ex)

text \<open>
  C6: Addition and subtraction of scalars: for any 32 byte operands, reduced or not, the result
  is the canonical residue of the sum and of the difference modulo \<open>l\<close>.
\<close>

theorem sc_add_sub_correct:
  assumes "length a = 32" and "length b = 32"
  shows "le_val (sc_add a b) = (le_val a + le_val b) mod sc_l \<and>
    le_val (sc_sub a b) = (le_val a - le_val b) mod sc_l \<and>
    length (sc_add a b) = 32 \<and> length (sc_sub a b) = 32"
  using assms by (simp add: sc_add_val sc_sub_val length_sc_functions)

theorem sc_add_sub_correct_witness:
  "length sc_ex1 = 32 \<and> length sc_ex2 = 32 \<and>
   le_val (sc_sub sc_ex2 sc_ex1) = (le_val sc_ex2 - le_val sc_ex1) mod sc_l"
  using sc_add_sub_correct [of sc_ex2 sc_ex1] by (simp add: length_sc_ex)

text \<open>
  C7: The signature equation: for any 32 byte operands, \<^verbatim>\<open>sc_mulsub\<close> writes the canonical
  residue of \<open>c - a b\<close> modulo \<open>l\<close>.
\<close>

theorem sc_mulsub_correct:
  assumes "length a = 32" and "length b = 32" and "length c = 32"
  shows "le_val (sc_mulsub a b c) = (le_val c - le_val a * le_val b) mod sc_l \<and>
    length (sc_mulsub a b c) = 32"
  using assms by (simp add: sc_mulsub_val length_sc_functions)

theorem sc_mulsub_correct_witness:
  "length sc_ex1 = 32 \<and> length sc_ex2 = 32 \<and>
   le_val (sc_mulsub sc_ex1 sc_ex2 sc_0) = (- (le_val sc_ex1 * le_val sc_ex2)) mod sc_l"
  using sc_mulsub_correct [of sc_ex1 sc_ex2 sc_0] by (simp add: length_sc_ex sc_0_val)

text \<open>
  C8: The scalar predicates: on 32 bytes \<^verbatim>\<open>sc_check\<close> returns \<open>0\<close> exactly for the
  reduced scalars and \<open>-1\<close> otherwise, \<^verbatim>\<open>sc_isnonzero\<close> returns \<open>0\<close> for zero and \<open>1\<close>
  otherwise. In particular every result of the scalar functions passes \<^verbatim>\<open>sc_check\<close>.
\<close>

theorem sc_check_correct:
  assumes "length s = 32"
  shows "sc_check s = (if le_val s < sc_l then 0 else - 1) \<and>
    sc_isnonzero s = (if le_val s = 0 then 0 else 1) \<and>
    sc_check (sc_reduce32 s) = 0 \<and> sc_check sc_0 = 0 \<and> sc_isnonzero sc_0 = 0"
proof -
  have "le_val s mod sc_l < sc_l" "0 < sc_l"
    by (simp_all add: sc_l_def)
  then show ?thesis
    using assms sc_check_val [of "sc_reduce32 s"] sc_check_val [of sc_0]
    by (simp add: sc_check_val sc_isnonzero_val sc_reduce32_val length_sc_functions sc_0_val)
qed

theorem sc_check_correct_witness:
  "length sc_ex1 = 32 \<and> sc_check (sc_reduce32 sc_ex1) = 0"
  using sc_check_correct [of sc_ex1] by (simp add: length_sc_ex)

end
