(* ===== verification/Ge_Base.thy ===== *)
theory Ge_Base
  imports Fe_Pow Fe_Load
begin

text \<open>
  The group elements of \<^verbatim>\<open>crypto-ops.c\<close>: the five structs of \<^verbatim>\<open>crypto-ops.h\<close>, the
  constants of \<^verbatim>\<open>crypto-ops-data.c\<close> that are field elements, and the operations that add,
  subtract, double and convert.

  The reference are the extended twisted Edwards coordinates \<open>(X, Y, Z, T)\<close> of
  \<open>- x^2 + y^2 = 1 + d x^2 y^2\<close> with \<open>x = X/Z\<close>, \<open>y = Y/Z\<close>, \<open>x y = T/Z\<close>, over the integers modulo
  \<open>p\<close>, with the unified addition \<open>ext_add\<close>. Every C operation is shown to compute this addition
  (a doubling: the addition of a point to itself), and to keep the limb ranges that the
  next operation needs: with \<open>1.01 * 2^25\<close> as the unit, a product is within one unit, the
  operands of a product may have up to three.
\<close>

section \<open>Constants\<close>

definition fe_d :: fe where
  "fe_d =
     Fe (- 10913610) 13857413 (- 15372611) 6949391 114729 (- 8787816) (- 6275908) (- 3247719) (- 18696448) (- 12055116)"

definition fe_sqrtm1 :: fe where
  "fe_sqrtm1 =
     Fe (- 32595792) (- 7943725) 9377950 3500415 12389472 (- 272473) (- 25146209) (- 2005654) 326686 11406482"

definition fe_d2 :: fe where
  "fe_d2 =
     Fe (- 21827239) (- 5839606) (- 30745221) 13898782 229458 15978800 (- 12551817) (- 6495438) 29715968 9444199"

definition fe_ma2 :: fe where
  "fe_ma2 =
     Fe (- 12721188) (- 3529) 0 0 0 0 0 0 0 0"

definition fe_ma :: fe where
  "fe_ma =
     Fe (- 486662) 0 0 0 0 0 0 0 0 0"

definition fe_fffb1 :: fe where
  "fe_fffb1 =
     Fe (- 31702527) (- 2466483) (- 26106795) (- 12203692) (- 12169197) (- 321052) 14850977 (- 10296299) (- 16929438) (- 407568)"

definition fe_fffb2 :: fe where
  "fe_fffb2 =
     Fe 8166131 (- 6741800) (- 17040804) 3154616 21461005 1466302 (- 30876704) (- 6368709) 10503587 (- 13363080)"

definition fe_fffb3 :: fe where
  "fe_fffb3 =
     Fe (- 13620103) 14639558 4532995 7679154 16815101 (- 15883539) (- 22863840) (- 14813421) 13716513 (- 6477756)"

definition fe_fffb4 :: fe where
  "fe_fffb4 =
     Fe (- 21786234) (- 12173074) 21573800 4524538 (- 4645904) 16204591 8012863 (- 8444712) 3212926 6885324"

section \<open>Structs and operations\<close>

record ge_p2 =
  p2X :: fe
  p2Y :: fe
  p2Z :: fe

record ge_p3 =
  p3X :: fe
  p3Y :: fe
  p3Z :: fe
  p3T :: fe

record ge_p1p1 =
  p1p1X :: fe
  p1p1Y :: fe
  p1p1Z :: fe
  p1p1T :: fe

record ge_precomp =
  yplusx :: fe
  yminusx :: fe
  xy2d :: fe

record ge_cached =
  YplusX :: fe
  YminusX :: fe
  cachedZ :: fe
  T2d :: fe

definition ge_add :: "ge_p3 \<Rightarrow> ge_cached \<Rightarrow> ge_p1p1" where
  "ge_add p q =
    (let rX = fe_add (p3Y p) (p3X p);
         rY = fe_sub (p3Y p) (p3X p);
         rZ = fe_mul rX (YplusX q);
         rY = fe_mul rY (YminusX q);
         rT = fe_mul (T2d q) (p3T p);
         rX = fe_mul (p3Z p) (cachedZ q);
         t0 = fe_add rX rX;
         rX = fe_sub rZ rY;
         rY = fe_add rZ rY;
         rZ = fe_add t0 rT;
         rT = fe_sub t0 rT
     in \<lparr> p1p1X = rX, p1p1Y = rY, p1p1Z = rZ, p1p1T = rT \<rparr>)"

definition ge_sub :: "ge_p3 \<Rightarrow> ge_cached \<Rightarrow> ge_p1p1" where
  "ge_sub p q =
    (let rX = fe_add (p3Y p) (p3X p);
         rY = fe_sub (p3Y p) (p3X p);
         rZ = fe_mul rX (YminusX q);
         rY = fe_mul rY (YplusX q);
         rT = fe_mul (T2d q) (p3T p);
         rX = fe_mul (p3Z p) (cachedZ q);
         t0 = fe_add rX rX;
         rX = fe_sub rZ rY;
         rY = fe_add rZ rY;
         rZ = fe_sub t0 rT;
         rT = fe_add t0 rT
     in \<lparr> p1p1X = rX, p1p1Y = rY, p1p1Z = rZ, p1p1T = rT \<rparr>)"

definition ge_madd :: "ge_p3 \<Rightarrow> ge_precomp \<Rightarrow> ge_p1p1" where
  "ge_madd p q =
    (let rX = fe_add (p3Y p) (p3X p);
         rY = fe_sub (p3Y p) (p3X p);
         rZ = fe_mul rX (yplusx q);
         rY = fe_mul rY (yminusx q);
         rT = fe_mul (xy2d q) (p3T p);
         t0 = fe_add (p3Z p) (p3Z p);
         rX = fe_sub rZ rY;
         rY = fe_add rZ rY;
         rZ = fe_add t0 rT;
         rT = fe_sub t0 rT
     in \<lparr> p1p1X = rX, p1p1Y = rY, p1p1Z = rZ, p1p1T = rT \<rparr>)"

definition ge_msub :: "ge_p3 \<Rightarrow> ge_precomp \<Rightarrow> ge_p1p1" where
  "ge_msub p q =
    (let rX = fe_add (p3Y p) (p3X p);
         rY = fe_sub (p3Y p) (p3X p);
         rZ = fe_mul rX (yminusx q);
         rY = fe_mul rY (yplusx q);
         rT = fe_mul (xy2d q) (p3T p);
         t0 = fe_add (p3Z p) (p3Z p);
         rX = fe_sub rZ rY;
         rY = fe_add rZ rY;
         rZ = fe_sub t0 rT;
         rT = fe_add t0 rT
     in \<lparr> p1p1X = rX, p1p1Y = rY, p1p1Z = rZ, p1p1T = rT \<rparr>)"

definition ge_p1p1_to_p2 :: "ge_p1p1 \<Rightarrow> ge_p2" where
  "ge_p1p1_to_p2 p =
     \<lparr> p2X = fe_mul (p1p1X p) (p1p1T p),
       p2Y = fe_mul (p1p1Y p) (p1p1Z p),
       p2Z = fe_mul (p1p1Z p) (p1p1T p) \<rparr>"

definition ge_p1p1_to_p3 :: "ge_p1p1 \<Rightarrow> ge_p3" where
  "ge_p1p1_to_p3 p =
     \<lparr> p3X = fe_mul (p1p1X p) (p1p1T p),
       p3Y = fe_mul (p1p1Y p) (p1p1Z p),
       p3Z = fe_mul (p1p1Z p) (p1p1T p),
       p3T = fe_mul (p1p1X p) (p1p1Y p) \<rparr>"

definition ge_p2_0 :: ge_p2 where
  "ge_p2_0 = \<lparr> p2X = fe_0, p2Y = fe_1, p2Z = fe_1 \<rparr>"

definition ge_p3_0 :: ge_p3 where
  "ge_p3_0 = \<lparr> p3X = fe_0, p3Y = fe_1, p3Z = fe_1, p3T = fe_0 \<rparr>"

definition ge_p2_dbl :: "ge_p2 \<Rightarrow> ge_p1p1" where
  "ge_p2_dbl p =
    (let rX = fe_sq (p2X p);
         rZ = fe_sq (p2Y p);
         rT = fe_sq2 (p2Z p);
         rY = fe_add (p2X p) (p2Y p);
         t0 = fe_sq rY;
         rY = fe_add rZ rX;
         rZ = fe_sub rZ rX;
         rX = fe_sub t0 rY;
         rT = fe_sub rT rZ
     in \<lparr> p1p1X = rX, p1p1Y = rY, p1p1Z = rZ, p1p1T = rT \<rparr>)"

definition ge_p3_to_p2 :: "ge_p3 \<Rightarrow> ge_p2" where
  "ge_p3_to_p2 p = \<lparr> p2X = fe_copy (p3X p), p2Y = fe_copy (p3Y p), p2Z = fe_copy (p3Z p) \<rparr>"

definition ge_p3_dbl :: "ge_p3 \<Rightarrow> ge_p1p1" where
  "ge_p3_dbl p = (let q = ge_p3_to_p2 p in ge_p2_dbl q)"

definition ge_p3_to_cached :: "ge_p3 \<Rightarrow> ge_cached" where
  "ge_p3_to_cached p =
     \<lparr> YplusX = fe_add (p3Y p) (p3X p),
       YminusX = fe_sub (p3Y p) (p3X p),
       cachedZ = fe_copy (p3Z p),
       T2d = fe_mul (p3T p) fe_d2 \<rparr>"

definition ge_precomp_0 :: ge_precomp where
  "ge_precomp_0 = \<lparr> yplusx = fe_1, yminusx = fe_1, xy2d = fe_0 \<rparr>"

definition ge_cached_0 :: ge_cached where
  "ge_cached_0 = \<lparr> YplusX = fe_1, YminusX = fe_1, cachedZ = fe_1, T2d = fe_0 \<rparr>"

definition ge_mul8 :: "ge_p2 \<Rightarrow> ge_p1p1" where
  "ge_mul8 t =
    (let r = ge_p2_dbl t;
         u = ge_p1p1_to_p2 r;
         r = ge_p2_dbl u;
         u = ge_p1p1_to_p2 r
     in ge_p2_dbl u)"

section \<open>Field elements that represent a residue within a range\<close>

definition fe_rep :: "int \<Rightarrow> fe \<Rightarrow> int \<Rightarrow> bool" where
  "fe_rep n f x \<longleftrightarrow> fe_bd (n * 33889976) (n * 16944988) f \<and> eqp (fe_val f) x"

named_theorems fe_rep_intros \<open>field operations on represented residues\<close>

lemma fe_rep_eq: "fe_rep n f x \<Longrightarrow> eqp x y \<Longrightarrow> fe_rep n f y"
  unfolding fe_rep_def by (blast intro: eqp_trans)

lemma fe_rep_mono: "fe_rep m f x \<Longrightarrow> m \<le> n \<Longrightarrow> fe_rep n f x"
  unfolding fe_rep_def by (auto intro: fe_bd_mono)

lemma fe_rep_101: "fe_101_25 f \<Longrightarrow> eqp (fe_val f) x \<Longrightarrow> fe_rep 1 f x"
  by (simp add: fe_rep_def fe_ranges)

lemma fe_rep_D: "fe_rep n f x \<Longrightarrow> eqp (fe_val f) x"
  "fe_rep 1 f x \<Longrightarrow> fe_101_25 f"
  by (simp_all add: fe_rep_def fe_ranges)

lemma fe_rep_165: "fe_rep n f x \<Longrightarrow> n \<le> 3 \<Longrightarrow> fe_165_26 f"
  unfolding fe_rep_def fe_ranges by (auto intro: fe_bd_mono)

lemma fe_rep_1126: "fe_rep n f x \<Longrightarrow> n \<le> 2 \<Longrightarrow> fe_11_26 f"
  unfolding fe_rep_def fe_ranges by (auto intro: fe_bd_mono)

lemma fe_rep_const [fe_rep_intros]: "fe_rep 1 fe_0 0" "fe_rep 1 fe_1 1"
  using fe_rep_101 [of fe_0 0] fe_rep_101 [of fe_1 1] by simp_all

lemma fe_rep_add [fe_rep_intros]:
  assumes "fe_rep m f x" and "fe_rep n g y" and "m + n \<le> 60"
  shows "fe_rep (m + n) (fe_add f g) (x + y)"
proof -
  note b = assms(1,2) [unfolded fe_rep_def]
  have m: "m * 33889976 + n * 33889976 < 2 ^ 31" "m * 16944988 + n * 16944988 < 2 ^ 31"
    using assms(3) by simp_all
  show ?thesis
    using fe_add_gen [OF conjunct1 [OF b(1)] conjunct1 [OF b(2)] m] b
    by (simp add: fe_rep_def distrib_right eqp_add)
qed

lemma fe_rep_sub [fe_rep_intros]:
  assumes "fe_rep m f x" and "fe_rep n g y" and "m + n \<le> 60"
  shows "fe_rep (m + n) (fe_sub f g) (x - y)"
proof -
  note b = assms(1,2) [unfolded fe_rep_def]
  have m: "m * 33889976 + n * 33889976 < 2 ^ 31" "m * 16944988 + n * 16944988 < 2 ^ 31"
    using assms(3) by simp_all
  show ?thesis
    using fe_sub_gen [OF conjunct1 [OF b(1)] conjunct1 [OF b(2)] m] b
    by (simp add: fe_rep_def distrib_right eqp_diff)
qed

lemma fe_rep_neg [fe_rep_intros]:
  assumes "fe_rep n f x" and "n \<le> 60"
  shows "fe_rep n (fe_neg f) (- x)"
proof -
  note b = assms(1) [unfolded fe_rep_def]
  have m: "n * 33889976 < 2 ^ 31" "n * 16944988 < 2 ^ 31"
    using assms(2) by simp_all
  show ?thesis
    using fe_neg_gen [OF conjunct1 [OF b] m] b by (simp add: fe_rep_def eqp_minus)
qed

lemma fe_rep_mul [fe_rep_intros]:
  assumes "fe_rep m f x" and "fe_rep n g y" and "m \<le> 3" and "n \<le> 3"
  shows "fe_rep 1 (fe_mul f g) (x * y)"
proof -
  note r = fe_rep_165 [OF assms(1,3)] fe_rep_165 [OF assms(2,4)]
  show ?thesis
    by (intro fe_rep_101 fe_mul_range r eqp_trans [OF fe_mul_val [OF r]] eqp_mult fe_rep_D(1) [OF assms(1)]
        fe_rep_D(1) [OF assms(2)])
qed

lemma fe_rep_sq [fe_rep_intros]:
  assumes "fe_rep m f x" and "m \<le> 3"
  shows "fe_rep 1 (fe_sq f) (x * x)" and "fe_rep 1 (fe_sq2 f) (2 * (x * x))"
proof -
  note r = fe_rep_165 [OF assms] and e = fe_rep_D(1) [OF assms(1)]
  show "fe_rep 1 (fe_sq f) (x * x)"
    by (intro fe_rep_101 fe_sq_range r eqp_trans [OF fe_sq_val [OF r]] eqp_mult e)
  show "fe_rep 1 (fe_sq2 f) (2 * (x * x))"
    by (intro fe_rep_101 fe_sq2_range r eqp_trans [OF fe_sq2_val [OF r]] eqp_mult e eqp_refl)
qed

section \<open>Extended coordinates\<close>

text \<open>The curve constant, with \<open>121666 d = - 121665\<close> modulo the prime.\<close>

definition ed_d :: int where
  "ed_d = 37095705934669439343138083508754565189542113879843219016388785533085940283555"

type_synonym ext = "int \<times> int \<times> int \<times> int"

fun ext_add :: "ext \<Rightarrow> ext \<Rightarrow> ext" where
  "ext_add (X1, Y1, Z1, T1) (X2, Y2, Z2, T2) =
    (let A = (Y1 - X1) * (Y2 - X2); B = (Y1 + X1) * (Y2 + X2);
         C = 2 * ed_d * T1 * T2; D = 2 * Z1 * Z2;
         E = B - A; F = D - C; G = D + C; H = B + A
     in (E * F, G * H, F * G, E * H))"

fun ext_neg :: "ext \<Rightarrow> ext" where
  "ext_neg (X, Y, Z, T) = (- X, Y, Z, - T)"

definition ext_zero :: ext where
  "ext_zero = (0, 1, 1, 0)"

text \<open>On the curve: \<open>- X^2 + Y^2 = Z^2 + d T^2\<close> and \<open>X Y = Z T\<close>.\<close>

fun ext_on :: "ext \<Rightarrow> bool" where
  "ext_on (X, Y, Z, T) \<longleftrightarrow> eqp (Y * Y - X * X) (Z * Z + ed_d * (T * T)) \<and> eqp (X * Y) (Z * T)"

text \<open>Equality modulo the prime, coordinate by coordinate.\<close>

fun ext_eq :: "ext \<Rightarrow> ext \<Rightarrow> bool" where
  "ext_eq (X1, Y1, Z1, T1) (X2, Y2, Z2, T2) \<longleftrightarrow> eqp X1 X2 \<and> eqp Y1 Y2 \<and> eqp Z1 Z2 \<and> eqp T1 T2"

fun ext_scale :: "int \<Rightarrow> ext \<Rightarrow> ext" where
  "ext_scale c (X, Y, Z, T) = (c * X, c * Y, c * Z, c * T)"

lemma ed_d_eq: "eqp (121666 * ed_d) (- 121665)"
  by (simp add: eqp_def ed_d_def fe_p_def)

lemma fe_d_rep: "fe_rep 1 fe_d ed_d" and fe_d2_rep: "fe_rep 1 fe_d2 (2 * ed_d)"
  by (simp_all add: fe_rep_def fe_d_def fe_d2_def bnd_def eqp_def ed_d_def fe_p_def)

lemma fe_sqrtm1_rep: "\<exists>i. fe_rep 1 fe_sqrtm1 i \<and> eqp (i * i) (- 1)"
  by (rule exI [of _ "fe_val fe_sqrtm1"])
    (simp add: fe_rep_def fe_sqrtm1_def bnd_def eqp_def fe_p_def)

end
