(* ===== verification/Ge_Curve.thy ===== *)
theory Ge_Curve
  imports Ge_Base
begin

text \<open>
  Extended coordinates as an abstract specification: the addition stays on the curve, it is the
  Edwards addition of the affine points, a doubling is the addition of a point to itself, and
  \<open>ed_multiple B m P\<close> says that \<open>P\<close> is an \<open>m\<close>-fold multiple of \<open>B\<close>: that it is obtained from
  \<open>B\<close>, the neutral element, additions, negations and changes of the projective representative, with
  coefficients that add up to \<open>m\<close>. This is what the scalar multiplications promise.
\<close>

section \<open>Units modulo the prime\<close>

definition unit_p :: "int \<Rightarrow> bool" where
  "unit_p x \<longleftrightarrow> (\<exists>w. eqp (x * w) 1)"

lemma unit_pI: "eqp (x * w) 1 \<Longrightarrow> unit_p x"
  by (auto simp: unit_p_def)

lemma unit_p_1 [simp]: "unit_p 1"
  by (rule unit_pI [of _ 1]) simp

lemma unit_p_mult: "unit_p x \<Longrightarrow> unit_p y \<Longrightarrow> unit_p (x * y)"
proof -
  assume "unit_p x" "unit_p y"
  then obtain v w where "eqp (x * v) 1" "eqp (y * w) 1"
    by (auto simp: unit_p_def)
  then have "eqp ((x * v) * (y * w)) (1 * 1)"
    by (rule eqp_mult)
  then show ?thesis
    by (intro unit_pI [of _ "v * w"]) (simp add: algebra_simps)
qed

lemma unit_p_eqp: "unit_p x \<Longrightarrow> eqp x y \<Longrightarrow> unit_p y"
proof -
  assume "unit_p x" and e: "eqp x y"
  then obtain w where "eqp (x * w) 1"
    by (auto simp: unit_p_def)
  then have "eqp (y * w) 1"
    using eqp_mult [OF eqp_sym [OF e] eqp_refl, of w] by (rule eqp_trans [rotated])
  then show ?thesis
    by (rule unit_pI)
qed

lemma unit_p_cancel:
  assumes "unit_p c" and "eqp (c * x) (c * y)"
  shows "eqp x y"
proof -
  from assms(1) obtain w where w: "eqp (w * c) 1"
    by (auto simp: unit_p_def mult.commute)
  have "eqp (w * (c * x)) (w * (c * y))"
    by (intro eqp_mult assms(2) eqp_refl)
  then have "eqp ((w * c) * x) ((w * c) * y)"
    by (simp add: mult.assoc)
  moreover have "eqp ((w * c) * z) z" for z
    using eqp_mult [OF w eqp_refl, of z] by simp
  ultimately show ?thesis
    by (metis eqp_sym eqp_trans)
qed

lemma unit_p_2: "unit_p 2"
  by (rule unit_pI [of _ "2 ^ 254 - 9"]) (simp add: eqp_def fe_p_def)

lemma unit_p_4: "unit_p 4"
  using unit_p_mult [OF unit_p_2 unit_p_2] by simp

lemma eqp_0_iff: "eqp x y \<longleftrightarrow> eqp (x - y) 0"
  by (simp add: eqp_iff_dvd)

lemma eqp_0_mult: "eqp x 0 \<Longrightarrow> eqp (c * x) 0" "eqp x 0 \<Longrightarrow> eqp (x * c) 0"
  by (simp_all add: eqp_iff_dvd)

lemma eqp_0_add: "eqp x 0 \<Longrightarrow> eqp y 0 \<Longrightarrow> eqp (x + y) 0"
  by (simp add: eqp_iff_dvd)

section \<open>The addition stays on the curve\<close>

lemma ext_on_zero: "ext_on ext_zero"
  by (simp add: ext_zero_def)

lemma ext_on_neg: "ext_on P \<Longrightarrow> ext_on (ext_neg P)"
  by (cases P) (auto intro: eqp_minus)

text \<open>The curve equation of a sum, as a combination of the equations of the summands.\<close>

lemma ext_add_identity:
  fixes X1 Y1 Z1 T1 X2 Y2 Z2 T2 d :: int
  defines "e \<equiv> X1 * Y2 + Y1 * X2" and "h \<equiv> Y1 * Y2 + X1 * X2"
    and "f \<equiv> Z1 * Z2 - d * (T1 * T2)" and "g \<equiv> Z1 * Z2 + d * (T1 * T2)"
    and "P1 \<equiv> Y1 * Y1 - X1 * X1" and "P2 \<equiv> Y2 * Y2 - X2 * X2"
    and "W1 \<equiv> Z1 * Z1 + d * (T1 * T1)" and "W2 \<equiv> Z2 * Z2 + d * (T2 * T2)"
    and "u \<equiv> X1 * Y2 - Y1 * X2" and "v \<equiv> Z1 * T2 - T1 * Z2"
  shows "(g * h) * (g * h) - (e * f) * (e * f) - ((f * g) * (f * g) + d * ((e * h) * (e * h))) =
    (f * f) * (P1 * P2 - W1 * W2) + (4 * d * (h * h)) * ((Z1 * T1) * (Z2 * T2) - (X1 * Y1) * (X2 * Y2))
    + (d * (f * v - h * u)) * ((X1 * Y1) * P2 - (X2 * Y2) * P1 + (Z2 * T2) * W1 - (Z1 * T1) * W2)"
  unfolding assms by algebra

lemma ext_on_add:
  assumes "ext_on P" and "ext_on Q"
  shows "ext_on (ext_add P Q)"
proof -
  obtain X1 Y1 Z1 T1 X2 Y2 Z2 T2 where P: "P = (X1, Y1, Z1, T1)" and Q: "Q = (X2, Y2, Z2, T2)"
    by (cases P, cases Q)
  define e where "e = X1 * Y2 + Y1 * X2"
  define h where "h = Y1 * Y2 + X1 * X2"
  define f where "f = Z1 * Z2 - ed_d * (T1 * T2)"
  define g where "g = Z1 * Z2 + ed_d * (T1 * T2)"
  let ?P1 = "Y1 * Y1 - X1 * X1" and ?P2 = "Y2 * Y2 - X2 * X2"
  let ?W1 = "Z1 * Z1 + ed_d * (T1 * T1)" and ?W2 = "Z2 * Z2 + ed_d * (T2 * T2)"
  have c: "eqp ?P1 ?W1" "eqp (X1 * Y1) (Z1 * T1)" "eqp ?P2 ?W2" "eqp (X2 * Y2) (Z2 * T2)"
    using assms by (simp_all add: P Q)
  have "eqp (?P1 * ?P2) (?W1 * ?W2)" "eqp ((Z1 * T1) * (Z2 * T2)) ((X1 * Y1) * (X2 * Y2))"
    using eqp_mult [OF c(1,3)] eqp_mult [OF c(2) c(4)] by (auto intro: eqp_sym)
  moreover have "eqp ((X1 * Y1) * ?P2 - (X2 * Y2) * ?P1 + (Z2 * T2) * ?W1 - (Z1 * T1) * ?W2)
      ((Z1 * T1) * ?W2 - (Z2 * T2) * ?W1 + (Z2 * T2) * ?W1 - (Z1 * T1) * ?W2)"
    by (intro eqp_diff eqp_add eqp_mult c eqp_refl)
  ultimately have "eqp ((g * h) * (g * h) - (e * f) * (e * f)
      - ((f * g) * (f * g) + ed_d * ((e * h) * (e * h)))) 0"
    unfolding e_def f_def g_def h_def ext_add_identity eqp_0_iff [of "_ * _" "_ * _"]
    by (intro eqp_0_add eqp_0_mult(1)) simp_all
  then have on: "eqp ((g * h) * (g * h) - (e * f) * (e * f)) ((f * g) * (f * g) + ed_d * ((e * h) * (e * h)))"
    by (simp only: eqp_0_iff [symmetric])
  have E: "(Y1 + X1) * (Y2 + X2) - (Y1 - X1) * (Y2 - X2) = 2 * e"
    "(Y1 + X1) * (Y2 + X2) + (Y1 - X1) * (Y2 - X2) = 2 * h"
    "2 * Z1 * Z2 - 2 * ed_d * T1 * T2 = 2 * f" "2 * Z1 * Z2 + 2 * ed_d * T1 * T2 = 2 * g"
    by (simp_all add: e_def h_def f_def g_def algebra_simps)
  have four: "eqp (16 * a) (16 * b)" if "eqp a b" for a b
    by (intro eqp_mult that eqp_refl)
  show ?thesis
    unfolding P Q ext_add.simps Let_def E ext_on.simps
    using four [OF on] by (simp add: algebra_simps)
qed

lemma ext_on_scale: "ext_on P \<Longrightarrow> ext_on (ext_scale c P)"
proof -
  assume on: "ext_on P"
  obtain X Y Z T where P: "P = (X, Y, Z, T)"
    by (cases P)
  have "eqp (c * c * (Y * Y - X * X)) (c * c * (Z * Z + ed_d * (T * T)))" "eqp (c * c * (X * Y)) (c * c * (Z * T))"
    using on unfolding P by (auto intro: eqp_mult)
  then show ?thesis
    unfolding P by (simp add: algebra_simps)
qed

lemma ext_on_eq:
  assumes "ext_on P" and "ext_eq P Q"
  shows "ext_on Q"
proof -
  obtain X1 Y1 Z1 T1 X2 Y2 Z2 T2 where P: "P = (X1, Y1, Z1, T1)" and Q: "Q = (X2, Y2, Z2, T2)"
    by (cases P, cases Q)
  have e: "eqp X1 X2" "eqp Y1 Y2" "eqp Z1 Z2" "eqp T1 T2"
    and on: "eqp (Y1 * Y1 - X1 * X1) (Z1 * Z1 + ed_d * (T1 * T1))" "eqp (X1 * Y1) (Z1 * T1)"
    using assms by (simp_all add: P Q)
  have "eqp (Y1 * Y1 - X1 * X1) (Y2 * Y2 - X2 * X2)" "eqp (X1 * Y1) (X2 * Y2)"
    "eqp (Z1 * Z1 + ed_d * (T1 * T1)) (Z2 * Z2 + ed_d * (T2 * T2))" "eqp (Z1 * T1) (Z2 * T2)"
    by (intro eqp_cong e)+
  with on show ?thesis
    unfolding Q ext_on.simps by (meson eqp_sym eqp_trans)
qed

lemma ext_on_unscale:
  assumes "unit_p c" and "ext_on (ext_scale c P)"
  shows "ext_on P"
proof -
  obtain X Y Z T where P: "P = (X, Y, Z, T)"
    by (cases P)
  have "eqp (c * c * (Y * Y - X * X)) (c * c * (Z * Z + ed_d * (T * T)))" "eqp (c * c * (X * Y)) (c * c * (Z * T))"
    using assms(2) unfolding P by (simp_all add: algebra_simps)
  then show ?thesis
    using unit_p_cancel [OF unit_p_mult [OF assms(1,1)]] by (simp add: P)
qed

section \<open>The same projective point\<close>

definition ext_same :: "ext \<Rightarrow> ext \<Rightarrow> bool" where
  "ext_same P Q \<longleftrightarrow> (\<exists>a b. unit_p a \<and> unit_p b \<and> ext_eq (ext_scale a P) (ext_scale b Q))"

lemma ext_eq_refl [simp]: "ext_eq P P"
  by (cases P) simp

lemma ext_eq_sym: "ext_eq P Q \<Longrightarrow> ext_eq Q P"
  by (cases P; cases Q) (auto intro: eqp_sym)

lemma ext_eq_trans: "ext_eq P Q \<Longrightarrow> ext_eq Q R \<Longrightarrow> ext_eq P R"
  by (cases P; cases Q; cases R) (auto intro: eqp_trans)

lemma ext_scale_1 [simp]: "ext_scale 1 P = P"
  by (cases P) simp

lemma ext_eq_same: "ext_eq P Q \<Longrightarrow> ext_same P Q"
  unfolding ext_same_def by (intro exI [of _ 1]) simp

lemma ext_on_same:
  assumes "ext_on P" and "ext_same P Q"
  shows "ext_on Q"
  using assms unfolding ext_same_def by (blast intro: ext_on_scale ext_on_eq ext_on_unscale)

text \<open>The doubling formulas, which do not use \<open>T\<close>: the addition of \<open>P\<close> to itself.\<close>

fun ext_dbl :: "ext \<Rightarrow> ext" where
  "ext_dbl (X, Y, Z, T) =
    (let H = Y * Y + X * X; E = (X + Y) * (X + Y) - H; G = Y * Y - X * X; F = 2 * (Z * Z) - G
     in (E * F, G * H, F * G, E * H))"

lemma ext_dbl_add:
  assumes "ext_on P"
  shows "ext_eq (ext_add P P) (ext_scale 4 (ext_dbl P))"
proof -
  obtain X Y Z T where P: "P = (X, Y, Z, T)"
    by (cases P)
  define E where "E = (X + Y) * (X + Y) - (Y * Y + X * X)"
  define H where "H = Y * Y + X * X"
  define G where "G = Y * Y - X * X"
  define K where "K = Z * Z + ed_d * (T * T)"
  have on: "eqp K G"
    using assms by (simp add: P K_def G_def eqp_sym)
  have e: "(Y + X) * (Y + X) - (Y - X) * (Y - X) = 2 * E" "(Y + X) * (Y + X) + (Y - X) * (Y - X) = 2 * H"
    "2 * Z * Z - 2 * ed_d * T * T = 2 * (2 * (Z * Z) - K)" "2 * Z * Z + 2 * ed_d * T * T = 2 * K"
    by (simp_all add: E_def H_def K_def algebra_simps)
  have "ext_add P P = (4 * (E * (2 * (Z * Z) - K)), 4 * (K * H), 4 * ((2 * (Z * Z) - K) * K), 4 * (E * H))"
    unfolding P ext_add.simps Let_def e by simp
  moreover have "ext_scale 4 (ext_dbl P) =
      (4 * (E * (2 * (Z * Z) - G)), 4 * (G * H), 4 * ((2 * (Z * Z) - G) * G), 4 * (E * H))"
    unfolding P ext_dbl.simps Let_def by (simp only: ext_scale.simps E_def H_def G_def)
  ultimately show ?thesis
    by (simp only: ext_eq.simps) (intro conjI eqp_mult eqp_diff on eqp_refl)
qed

lemma ext_dbl_same: "ext_on P \<Longrightarrow> ext_same (ext_add P P) (ext_dbl P)"
  unfolding ext_same_def using ext_dbl_add unit_p_4 by (intro exI [of _ 1] exI [of _ 4]) simp

section \<open>Affine points\<close>

definition ext_affine :: "ext \<Rightarrow> int \<Rightarrow> int \<Rightarrow> bool" where
  "ext_affine P x y \<longleftrightarrow> (case P of (X, Y, Z, T) \<Rightarrow>
     unit_p Z \<and> eqp X (x * Z) \<and> eqp Y (y * Z) \<and> eqp T (x * y * Z))"

lemma ext_add_affine:
  assumes P: "ext_affine P x1 y1" and Q: "ext_affine Q x2 y2"
    and k: "k = ed_d * (x1 * x2 * y1 * y2)" and u: "unit_p (1 + k)" "unit_p (1 - k)"
    and x: "eqp (x3 * (1 + k)) (x1 * y2 + y1 * x2)" and y: "eqp (y3 * (1 - k)) (y1 * y2 + x1 * x2)"
  shows "ext_affine (ext_add P Q) x3 y3"
proof -
  obtain X1 Y1 Z1 T1 X2 Y2 Z2 T2 where PQ: "P = (X1, Y1, Z1, T1)" "Q = (X2, Y2, Z2, T2)"
    by (cases P, cases Q)
  have a: "unit_p Z1" "eqp X1 (x1 * Z1)" "eqp Y1 (y1 * Z1)" "eqp T1 (x1 * y1 * Z1)"
    and b: "unit_p Z2" "eqp X2 (x2 * Z2)" "eqp Y2 (y2 * Z2)" "eqp T2 (x2 * y2 * Z2)"
    using P Q by (simp_all add: PQ ext_affine_def)
  define c where "c = 2 * (Z1 * Z2)"
  define E where "E = (Y1 + X1) * (Y2 + X2) - (Y1 - X1) * (Y2 - X2)"
  define H where "H = (Y1 + X1) * (Y2 + X2) + (Y1 - X1) * (Y2 - X2)"
  define F where "F = 2 * Z1 * Z2 - 2 * ed_d * T1 * T2"
  define G where "G = 2 * Z1 * Z2 + 2 * ed_d * T1 * T2"
  have uc: "unit_p c"
    unfolding c_def by (intro unit_p_mult unit_p_2 a b)
  have "eqp E ((y1 * Z1 + x1 * Z1) * (y2 * Z2 + x2 * Z2) - (y1 * Z1 - x1 * Z1) * (y2 * Z2 - x2 * Z2))"
    "eqp H ((y1 * Z1 + x1 * Z1) * (y2 * Z2 + x2 * Z2) + (y1 * Z1 - x1 * Z1) * (y2 * Z2 - x2 * Z2))"
    "eqp F (2 * Z1 * Z2 - 2 * ed_d * (x1 * y1 * Z1) * (x2 * y2 * Z2))"
    "eqp G (2 * Z1 * Z2 + 2 * ed_d * (x1 * y1 * Z1) * (x2 * y2 * Z2))"
    unfolding E_def H_def F_def G_def by (intro eqp_add eqp_diff eqp_mult a b eqp_refl)+
  then have e: "eqp E (c * (x1 * y2 + y1 * x2))" "eqp H (c * (y1 * y2 + x1 * x2))"
    "eqp F (c * (1 - k))" "eqp G (c * (1 + k))"
    by (simp_all add: c_def k algebra_simps)
  have E': "eqp E (c * (x3 * (1 + k)))" and H': "eqp H (c * (y3 * (1 - k)))"
    using e(1,2) eqp_mult [OF eqp_refl x, of c] eqp_mult [OF eqp_refl y, of c] by (meson eqp_sym eqp_trans)+
  have uF: "unit_p F" and uG: "unit_p G"
    using unit_p_eqp [OF unit_p_mult [OF uc u(2)] eqp_sym [OF e(3)]]
      unit_p_eqp [OF unit_p_mult [OF uc u(1)] eqp_sym [OF e(4)]] by simp_all
  have "eqp (E * F) ((c * (x3 * (1 + k))) * F)" "eqp (x3 * (F * G)) (x3 * (F * (c * (1 + k))))"
    "eqp (G * H) (G * (c * (y3 * (1 - k))))" "eqp (y3 * (F * G)) (y3 * ((c * (1 - k)) * G))"
    "eqp (E * H) ((c * (x3 * (1 + k))) * (c * (y3 * (1 - k))))"
    "eqp (x3 * y3 * (F * G)) (x3 * y3 * ((c * (1 - k)) * (c * (1 + k))))"
    by (intro eqp_mult E' H' e eqp_refl)+
  then have "eqp (E * F) (x3 * (F * G))" "eqp (G * H) (y3 * (F * G))" "eqp (E * H) (x3 * y3 * (F * G))"
    by (simp_all add: eqp_def algebra_simps)
  moreover have "ext_add P Q = (E * F, G * H, F * G, E * H)"
    by (simp add: PQ E_def H_def F_def G_def Let_def)
  ultimately show ?thesis
    using unit_p_mult [OF uF uG] by (simp add: ext_affine_def)
qed

section \<open>Multiples\<close>

text \<open>
  \<open>ed_multiple B m P\<close>: \<open>P\<close> is \<open>m B\<close>, for a point \<open>B\<close> of the curve. \<open>ed_lin A B (m, n) P\<close>:
  \<open>P\<close> is \<open>m A + n B\<close>.
\<close>

inductive ed_multiple :: "ext \<Rightarrow> int \<Rightarrow> ext \<Rightarrow> bool" for B :: ext where
  zero: "ed_multiple B 0 ext_zero"
| base: "ext_on B \<Longrightarrow> ed_multiple B 1 B"
| add: "ed_multiple B m P \<Longrightarrow> ed_multiple B n Q \<Longrightarrow> ed_multiple B (m + n) (ext_add P Q)"
| neg: "ed_multiple B m P \<Longrightarrow> ed_multiple B (- m) (ext_neg P)"
| same: "ed_multiple B m P \<Longrightarrow> ext_same P Q \<Longrightarrow> ed_multiple B m Q"

fun coeff_add :: "int \<times> int \<Rightarrow> int \<times> int \<Rightarrow> int \<times> int" where
  "coeff_add (m1, n1) (m2, n2) = (m1 + m2, n1 + n2)"

fun coeff_neg :: "int \<times> int \<Rightarrow> int \<times> int" where
  "coeff_neg (m, n) = (- m, - n)"

inductive ed_lin :: "ext \<Rightarrow> ext \<Rightarrow> int \<times> int \<Rightarrow> ext \<Rightarrow> bool" for A B :: ext where
  zero: "ed_lin A B (0, 0) ext_zero"
| left: "ext_on A \<Longrightarrow> ed_lin A B (1, 0) A"
| right: "ext_on B \<Longrightarrow> ed_lin A B (0, 1) B"
| add: "ed_lin A B c P \<Longrightarrow> ed_lin A B d Q \<Longrightarrow> ed_lin A B (coeff_add c d) (ext_add P Q)"
| neg: "ed_lin A B c P \<Longrightarrow> ed_lin A B (coeff_neg c) (ext_neg P)"
| same: "ed_lin A B c P \<Longrightarrow> ext_same P Q \<Longrightarrow> ed_lin A B c Q"

lemmas ext_on_intros = ext_on_zero ext_on_add ext_on_neg ext_on_same

lemma ed_multiple_on: "ed_multiple B m P \<Longrightarrow> ext_on P"
  by (induction rule: ed_multiple.induct) (auto intro: ext_on_intros)

lemma ed_lin_on: "ed_lin A B c P \<Longrightarrow> ext_on P"
  by (induction rule: ed_lin.induct) (auto intro: ext_on_intros)

lemma ed_multiple_eq: "ed_multiple B m P \<Longrightarrow> ext_eq P Q \<Longrightarrow> ed_multiple B m Q"
  by (blast intro: ed_multiple.same ext_eq_same)

text \<open>Multiples of a multiple, and sums of multiples of the same point.\<close>

lemma ed_multiple_trans: "ed_multiple A n P \<Longrightarrow> ed_multiple B m A \<Longrightarrow> ed_multiple B (n * m) P"
proof (induction rule: ed_multiple.induct)
  case zero
  then show ?case by (simp add: ed_multiple.zero)
next
  case (add n1 P n2 Q)
  then show ?case by (simp add: distrib_right ed_multiple.add)
next
  case (neg n P)
  then show ?case using ed_multiple.neg [of B "n * m"] by simp
next
  case (same n P Q)
  then show ?case by (blast intro: ed_multiple.same)
qed simp

lemma ed_lin_left: "ed_multiple A m P \<Longrightarrow> ed_lin A B (m, 0) P"
proof (induction rule: ed_multiple.induct)
  case (add m P n Q)
  then show ?case using ed_lin.add [of A B "(m, 0)" P "(n, 0)" Q] by simp
next
  case (neg m P)
  then show ?case using ed_lin.neg [of A B "(m, 0)" P] by simp
qed (blast intro: ed_lin.zero ed_lin.left ed_lin.same)+

lemma ed_lin_right: "ed_multiple B n P \<Longrightarrow> ed_lin A B (0, n) P"
proof (induction rule: ed_multiple.induct)
  case (add m P n Q)
  then show ?case using ed_lin.add [of A B "(0, m)" P "(0, n)" Q] by simp
next
  case (neg m P)
  then show ?case using ed_lin.neg [of A B "(0, m)" P] by simp
qed (blast intro: ed_lin.zero ed_lin.right ed_lin.same)+

lemma ed_lin_multiple:
  "ed_lin A B c P \<Longrightarrow> ed_multiple C a A \<Longrightarrow> ed_multiple C b B \<Longrightarrow> ed_multiple C (fst c * a + snd c * b) P"
proof (induction rule: ed_lin.induct)
  case (add c P d Q)
  then show ?case
    using ed_multiple.add [of C "fst c * a + snd c * b" P "fst d * a + snd d * b" Q]
    by (cases c; cases d) (simp add: algebra_simps)
next
  case (neg c P)
  then show ?case
    using ed_multiple.neg [of C "fst c * a + snd c * b" P] by (cases c) (simp add: algebra_simps)
qed (auto intro: ed_multiple.zero ed_multiple.same)

section \<open>The contract of the point arithmetic\<close>

text \<open>
  What the scalar multiplications rely on: a set of points for every coefficient, closed under
  the addition, the negation and the doubling of the library. Both \<open>ed_multiple\<close> and \<open>ed_lin\<close>
  provide it.
\<close>

locale point_span =
  fixes span :: "'c \<Rightarrow> ext \<Rightarrow> bool" and plus :: "'c \<Rightarrow> 'c \<Rightarrow> 'c" and uminus :: "'c \<Rightarrow> 'c" and null :: "'c"
  assumes span_zero: "span null ext_zero"
    and span_add: "span c P \<Longrightarrow> span d Q \<Longrightarrow> span (plus c d) (ext_add P Q)"
    and span_neg: "span c P \<Longrightarrow> span (uminus c) (ext_neg P)"
    and span_dbl: "span c P \<Longrightarrow> span (plus c c) (ext_dbl P)"

interpretation mult: point_span "ed_multiple B" "(+)" uminus 0 for B
proof (unfold_locales; (rule ed_multiple.zero ed_multiple.add ed_multiple.neg; assumption)?)
  fix m P
  assume "ed_multiple B m P"
  then show "ed_multiple B (m + m) (ext_dbl P)"
    by (blast intro: ed_multiple.add ed_multiple.same ext_dbl_same ed_multiple_on)
qed

interpretation lin: point_span "ed_lin A B" coeff_add coeff_neg "(0, 0)" for A B
proof (unfold_locales; (rule ed_lin.zero ed_lin.add ed_lin.neg; assumption)?)
  fix c P
  assume "ed_lin A B c P"
  then show "ed_lin A B (coeff_add c c) (ext_dbl P)"
    by (blast intro: ed_lin.add ed_lin.same ext_dbl_same ed_lin_on)
qed

end
