(* ===== verification/Ge_Ops.thy ===== *)
theory Ge_Ops
  imports Ge_Curve
begin

text \<open>
  The group operations of \<^verbatim>\<open>crypto-ops.c\<close> refine the extended coordinates: for every
  struct there is a relation to the coordinates it represents, with the ranges of its limbs,
  and for every operation a lemma that it takes represented operands to the represented
  result. \<open>p3_in\<close> and its companions combine the relation with a set of points, and the lemmas
  of \<open>point_span\<close> follow a linear combination through the operations.
\<close>

section \<open>Representation\<close>

fun p3_rep :: "ge_p3 \<Rightarrow> ext \<Rightarrow> bool" where
  "p3_rep h (X, Y, Z, T) \<longleftrightarrow>
     fe_rep 1 (p3X h) X \<and> fe_rep 1 (p3Y h) Y \<and> fe_rep 1 (p3Z h) Z \<and> fe_rep 1 (p3T h) T"

fun p2_rep :: "ge_p2 \<Rightarrow> ext \<Rightarrow> bool" where
  "p2_rep h (X, Y, Z, T) \<longleftrightarrow> fe_rep 1 (p2X h) X \<and> fe_rep 1 (p2Y h) Y \<and> fe_rep 1 (p2Z h) Z"

text \<open>A completed point \<open>((X : Z), (Y : T))\<close>.\<close>

definition p1p1_rep :: "ge_p1p1 \<Rightarrow> ext \<Rightarrow> bool" where
  "p1p1_rep r P \<longleftrightarrow> (\<exists>E F G H. P = (E * F, G * H, F * G, E * H) \<and>
     fe_rep 3 (p1p1X r) E \<and> fe_rep 3 (p1p1Y r) H \<and> fe_rep 3 (p1p1Z r) G \<and> fe_rep 3 (p1p1T r) F)"

fun cached_rep :: "ge_cached \<Rightarrow> ext \<Rightarrow> bool" where
  "cached_rep q (X, Y, Z, T) \<longleftrightarrow>
     fe_rep 2 (YplusX q) (Y + X) \<and> fe_rep 2 (YminusX q) (Y - X) \<and> fe_rep 1 (cachedZ q) Z \<and>
     fe_rep 1 (T2d q) (2 * ed_d * T)"

fun precomp_rep :: "ge_precomp \<Rightarrow> ext \<Rightarrow> bool" where
  "precomp_rep q (X, Y, Z, T) \<longleftrightarrow>
     fe_rep 1 (yplusx q) (Y + X) \<and> fe_rep 1 (yminusx q) (Y - X) \<and> Z = 1 \<and>
     fe_rep 1 (xy2d q) (2 * ed_d * T)"

lemma p1p1_repI:
  assumes "fe_rep a (p1p1X r) E" "fe_rep b (p1p1Y r) H" "fe_rep c (p1p1Z r) G" "fe_rep e (p1p1T r) F"
    and "a \<le> 3" "b \<le> 3" "c \<le> 3" "e \<le> 3" and "P = (E * F, G * H, F * G, E * H)"
  shows "p1p1_rep r P"
  unfolding p1p1_rep_def using assms by (blast intro: fe_rep_mono)

section \<open>The operations refine the formulas\<close>

lemma ge_add_rep:
  assumes "p3_rep p P" and "cached_rep q Q"
  shows "p1p1_rep (ge_add p q) (ext_add P Q)"
proof -
  obtain X1 Y1 Z1 T1 X2 Y2 Z2 T2 where PQ: "P = (X1, Y1, Z1, T1)" "Q = (X2, Y2, Z2, T2)"
    by (cases P, cases Q)
  have p: "fe_rep 1 (p3X p) X1" "fe_rep 1 (p3Y p) Y1" "fe_rep 1 (p3Z p) Z1" "fe_rep 1 (p3T p) T1"
    and q: "fe_rep 2 (YplusX q) (Y2 + X2)" "fe_rep 2 (YminusX q) (Y2 - X2)"
      "fe_rep 1 (T2d q) (2 * ed_d * T2)" "fe_rep 1 (cachedZ q) Z2"
    using assms by (simp_all add: PQ)
  have B: "fe_rep 1 (fe_mul (fe_add (p3Y p) (p3X p)) (YplusX q)) ((Y1 + X1) * (Y2 + X2))"
    by (rule fe_rep_mul [OF fe_rep_add [OF p(2,1)] q(1)]) simp_all
  have A: "fe_rep 1 (fe_mul (fe_sub (p3Y p) (p3X p)) (YminusX q)) ((Y1 - X1) * (Y2 - X2))"
    by (rule fe_rep_mul [OF fe_rep_sub [OF p(2,1)] q(2)]) simp_all
  have C: "fe_rep 1 (fe_mul (T2d q) (p3T p)) (2 * ed_d * T2 * T1)"
    by (rule fe_rep_mul [OF q(3) p(4)]) simp_all
  have Z: "fe_rep 1 (fe_mul (p3Z p) (cachedZ q)) (Z1 * Z2)"
    by (rule fe_rep_mul [OF p(3) q(4)]) simp_all
  have D: "fe_rep (1 + 1) (fe_add (fe_mul (p3Z p) (cachedZ q)) (fe_mul (p3Z p) (cachedZ q))) (Z1 * Z2 + Z1 * Z2)"
    by (rule fe_rep_add [OF Z Z]) simp
  show ?thesis
    by (rule p1p1_repI; (unfold ge_add_def Let_def ge_p1p1.simps)?)
      (rule fe_rep_sub [OF B A] fe_rep_add [OF B A] fe_rep_add [OF D C] fe_rep_sub [OF D C], simp
       | simp add: PQ Let_def algebra_simps)+
qed

lemma ge_sub_rep:
  assumes "p3_rep p P" and "cached_rep q Q"
  shows "p1p1_rep (ge_sub p q) (ext_add P (ext_neg Q))"
proof -
  obtain X1 Y1 Z1 T1 X2 Y2 Z2 T2 where PQ: "P = (X1, Y1, Z1, T1)" "Q = (X2, Y2, Z2, T2)"
    by (cases P, cases Q)
  have p: "fe_rep 1 (p3X p) X1" "fe_rep 1 (p3Y p) Y1" "fe_rep 1 (p3Z p) Z1" "fe_rep 1 (p3T p) T1"
    and q: "fe_rep 2 (YminusX q) (Y2 - X2)" "fe_rep 2 (YplusX q) (Y2 + X2)"
      "fe_rep 1 (T2d q) (2 * ed_d * T2)" "fe_rep 1 (cachedZ q) Z2"
    using assms by (simp_all add: PQ)
  have B: "fe_rep 1 (fe_mul (fe_add (p3Y p) (p3X p)) (YminusX q)) ((Y1 + X1) * (Y2 - X2))"
    by (rule fe_rep_mul [OF fe_rep_add [OF p(2,1)] q(1)]) simp_all
  have A: "fe_rep 1 (fe_mul (fe_sub (p3Y p) (p3X p)) (YplusX q)) ((Y1 - X1) * (Y2 + X2))"
    by (rule fe_rep_mul [OF fe_rep_sub [OF p(2,1)] q(2)]) simp_all
  have C: "fe_rep 1 (fe_mul (T2d q) (p3T p)) (2 * ed_d * T2 * T1)"
    by (rule fe_rep_mul [OF q(3) p(4)]) simp_all
  have Z: "fe_rep 1 (fe_mul (p3Z p) (cachedZ q)) (Z1 * Z2)"
    by (rule fe_rep_mul [OF p(3) q(4)]) simp_all
  have D: "fe_rep (1 + 1) (fe_add (fe_mul (p3Z p) (cachedZ q)) (fe_mul (p3Z p) (cachedZ q))) (Z1 * Z2 + Z1 * Z2)"
    by (rule fe_rep_add [OF Z Z]) simp
  show ?thesis
    by (rule p1p1_repI; (unfold ge_sub_def Let_def ge_p1p1.simps)?)
      (rule fe_rep_sub [OF B A] fe_rep_add [OF B A] fe_rep_sub [OF D C] fe_rep_add [OF D C], simp
       | simp add: PQ Let_def algebra_simps)+
qed

lemma ge_madd_rep:
  assumes "p3_rep p P" and "precomp_rep q Q"
  shows "p1p1_rep (ge_madd p q) (ext_add P Q)"
proof -
  obtain X1 Y1 Z1 T1 X2 Y2 Z2 T2 where PQ: "P = (X1, Y1, Z1, T1)" "Q = (X2, Y2, Z2, T2)"
    by (cases P, cases Q)
  have p: "fe_rep 1 (p3X p) X1" "fe_rep 1 (p3Y p) Y1" "fe_rep 1 (p3Z p) Z1" "fe_rep 1 (p3T p) T1"
    and q: "fe_rep 1 (yplusx q) (Y2 + X2)" "fe_rep 1 (yminusx q) (Y2 - X2)"
      "fe_rep 1 (xy2d q) (2 * ed_d * T2)" and z: "Z2 = 1"
    using assms by (simp_all add: PQ)
  have B: "fe_rep 1 (fe_mul (fe_add (p3Y p) (p3X p)) (yplusx q)) ((Y1 + X1) * (Y2 + X2))"
    by (rule fe_rep_mul [OF fe_rep_add [OF p(2,1)] q(1)]) simp_all
  have A: "fe_rep 1 (fe_mul (fe_sub (p3Y p) (p3X p)) (yminusx q)) ((Y1 - X1) * (Y2 - X2))"
    by (rule fe_rep_mul [OF fe_rep_sub [OF p(2,1)] q(2)]) simp_all
  have C: "fe_rep 1 (fe_mul (xy2d q) (p3T p)) (2 * ed_d * T2 * T1)"
    by (rule fe_rep_mul [OF q(3) p(4)]) simp_all
  have D: "fe_rep (1 + 1) (fe_add (p3Z p) (p3Z p)) (Z1 + Z1)"
    by (rule fe_rep_add [OF p(3) p(3)]) simp
  show ?thesis
    by (rule p1p1_repI; (unfold ge_madd_def Let_def ge_p1p1.simps)?)
      (rule fe_rep_sub [OF B A] fe_rep_add [OF B A] fe_rep_add [OF D C] fe_rep_sub [OF D C], simp
       | simp add: PQ Let_def z algebra_simps)+
qed

lemma ge_msub_rep:
  assumes "p3_rep p P" and "precomp_rep q Q"
  shows "p1p1_rep (ge_msub p q) (ext_add P (ext_neg Q))"
proof -
  obtain X1 Y1 Z1 T1 X2 Y2 Z2 T2 where PQ: "P = (X1, Y1, Z1, T1)" "Q = (X2, Y2, Z2, T2)"
    by (cases P, cases Q)
  have p: "fe_rep 1 (p3X p) X1" "fe_rep 1 (p3Y p) Y1" "fe_rep 1 (p3Z p) Z1" "fe_rep 1 (p3T p) T1"
    and q: "fe_rep 1 (yminusx q) (Y2 - X2)" "fe_rep 1 (yplusx q) (Y2 + X2)"
      "fe_rep 1 (xy2d q) (2 * ed_d * T2)" and z: "Z2 = 1"
    using assms by (simp_all add: PQ)
  have B: "fe_rep 1 (fe_mul (fe_add (p3Y p) (p3X p)) (yminusx q)) ((Y1 + X1) * (Y2 - X2))"
    by (rule fe_rep_mul [OF fe_rep_add [OF p(2,1)] q(1)]) simp_all
  have A: "fe_rep 1 (fe_mul (fe_sub (p3Y p) (p3X p)) (yplusx q)) ((Y1 - X1) * (Y2 + X2))"
    by (rule fe_rep_mul [OF fe_rep_sub [OF p(2,1)] q(2)]) simp_all
  have C: "fe_rep 1 (fe_mul (xy2d q) (p3T p)) (2 * ed_d * T2 * T1)"
    by (rule fe_rep_mul [OF q(3) p(4)]) simp_all
  have D: "fe_rep (1 + 1) (fe_add (p3Z p) (p3Z p)) (Z1 + Z1)"
    by (rule fe_rep_add [OF p(3) p(3)]) simp
  show ?thesis
    by (rule p1p1_repI; (unfold ge_msub_def Let_def ge_p1p1.simps)?)
      (rule fe_rep_sub [OF B A] fe_rep_add [OF B A] fe_rep_sub [OF D C] fe_rep_add [OF D C], simp
       | simp add: PQ Let_def z algebra_simps)+
qed

lemma ge_p1p1_to_p3_rep: "p1p1_rep r P \<Longrightarrow> p3_rep (ge_p1p1_to_p3 r) P"
  and ge_p1p1_to_p2_rep: "p1p1_rep r P \<Longrightarrow> p2_rep (ge_p1p1_to_p2 r) P"
proof -
  assume "p1p1_rep r P"
  then obtain E F G H where P: "P = (E * F, G * H, F * G, E * H)"
    and r: "fe_rep 3 (p1p1X r) E" "fe_rep 3 (p1p1Y r) H" "fe_rep 3 (p1p1Z r) G" "fe_rep 3 (p1p1T r) F"
    by (auto simp: p1p1_rep_def)
  have "fe_rep 1 (fe_mul (p1p1X r) (p1p1T r)) (E * F)" "fe_rep 1 (fe_mul (p1p1Y r) (p1p1Z r)) (H * G)"
    "fe_rep 1 (fe_mul (p1p1Z r) (p1p1T r)) (G * F)" "fe_rep 1 (fe_mul (p1p1X r) (p1p1Y r)) (E * H)"
    by (rule fe_rep_mul r | simp)+
  then show "p3_rep (ge_p1p1_to_p3 r) P" "p2_rep (ge_p1p1_to_p2 r) P"
    by (simp_all add: P ge_p1p1_to_p3_def ge_p1p1_to_p2_def mult.commute)
qed

lemma ge_p2_dbl_rep:
  assumes "p2_rep p P"
  shows "p1p1_rep (ge_p2_dbl p) (ext_dbl P)"
proof -
  obtain X Y Z T where P: "P = (X, Y, Z, T)"
    by (cases P)
  have p: "fe_rep 1 (p2X p) X" "fe_rep 1 (p2Y p) Y" "fe_rep 1 (p2Z p) Z"
    using assms by (simp_all add: P)
  have XX: "fe_rep 1 (fe_sq (p2X p)) (X * X)" and YY: "fe_rep 1 (fe_sq (p2Y p)) (Y * Y)"
    and ZZ: "fe_rep 1 (fe_sq2 (p2Z p)) (2 * (Z * Z))"
    by (rule fe_rep_sq p | simp)+
  have S: "fe_rep 1 (fe_sq (fe_add (p2X p) (p2Y p))) ((X + Y) * (X + Y))"
    by (rule fe_rep_sq(1) [OF fe_rep_add [OF p(1,2)]]) simp_all
  have H: "fe_rep (1 + 1) (fe_add (fe_sq (p2Y p)) (fe_sq (p2X p))) (Y * Y + X * X)"
    by (rule fe_rep_add [OF YY XX]) simp
  have G: "fe_rep (1 + 1) (fe_sub (fe_sq (p2Y p)) (fe_sq (p2X p))) (Y * Y - X * X)"
    by (rule fe_rep_sub [OF YY XX]) simp
  show ?thesis
    by (rule p1p1_repI; (unfold ge_p2_dbl_def Let_def ge_p1p1.simps)?)
      (rule H G fe_rep_sub [OF S H] fe_rep_sub [OF ZZ G], simp | rule H G
       | simp add: P Let_def)+
qed

lemma ge_p3_to_p2_rep: "p3_rep p P \<Longrightarrow> p2_rep (ge_p3_to_p2 p) P"
  by (cases P) (simp add: ge_p3_to_p2_def)

lemma ge_p3_dbl_rep: "p3_rep p P \<Longrightarrow> p1p1_rep (ge_p3_dbl p) (ext_dbl P)"
  unfolding ge_p3_dbl_def Let_def by (intro ge_p2_dbl_rep ge_p3_to_p2_rep)

lemma ge_p3_to_cached_rep:
  assumes "p3_rep p P"
  shows "cached_rep (ge_p3_to_cached p) P"
proof -
  obtain X Y Z T where P: "P = (X, Y, Z, T)"
    by (cases P)
  have p: "fe_rep 1 (p3X p) X" "fe_rep 1 (p3Y p) Y" "fe_rep 1 (p3Z p) Z" "fe_rep 1 (p3T p) T"
    using assms by (simp_all add: P)
  show ?thesis
    using fe_rep_add [OF p(2,1)] fe_rep_sub [OF p(2,1)] fe_rep_mul [OF p(4) fe_d2_rep] p(3)
    by (simp add: P ge_p3_to_cached_def mult.commute)
qed

lemma ge_zero_rep: "p3_rep ge_p3_0 ext_zero" "p2_rep ge_p2_0 ext_zero"
  "precomp_rep ge_precomp_0 ext_zero" "cached_rep ge_cached_0 ext_zero"
  using fe_rep_const fe_rep_mono [OF fe_rep_const(2), of 2]
  by (simp_all add: ge_p3_0_def ge_p2_0_def ge_precomp_0_def ge_cached_0_def ext_zero_def)

lemma ge_mul8_rep: "p2_rep p P \<Longrightarrow> p1p1_rep (ge_mul8 p) (ext_dbl (ext_dbl (ext_dbl P)))"
  unfolding ge_mul8_def Let_def by (intro ge_p2_dbl_rep ge_p1p1_to_p2_rep)

section \<open>The operations on sets of points\<close>

text \<open>\<open>p3_in S h\<close>: the struct represents a point of the set \<open>S\<close>.\<close>

definition p3_in :: "(ext \<Rightarrow> bool) \<Rightarrow> ge_p3 \<Rightarrow> bool" where
  "p3_in S h \<longleftrightarrow> (\<exists>P. S P \<and> p3_rep h P)"

definition p2_in :: "(ext \<Rightarrow> bool) \<Rightarrow> ge_p2 \<Rightarrow> bool" where
  "p2_in S h \<longleftrightarrow> (\<exists>P. S P \<and> p2_rep h P)"

definition p1p1_in :: "(ext \<Rightarrow> bool) \<Rightarrow> ge_p1p1 \<Rightarrow> bool" where
  "p1p1_in S h \<longleftrightarrow> (\<exists>P. S P \<and> p1p1_rep h P)"

definition cached_in :: "(ext \<Rightarrow> bool) \<Rightarrow> ge_cached \<Rightarrow> bool" where
  "cached_in S h \<longleftrightarrow> (\<exists>P. S P \<and> cached_rep h P)"

definition precomp_in :: "(ext \<Rightarrow> bool) \<Rightarrow> ge_precomp \<Rightarrow> bool" where
  "precomp_in S h \<longleftrightarrow> (\<exists>P. S P \<and> precomp_rep h P)"

lemmas in_defs = p3_in_def p2_in_def p1p1_in_def cached_in_def precomp_in_def

lemma in_mono: "p3_in S p \<Longrightarrow> (\<And>P. S P \<Longrightarrow> S' P) \<Longrightarrow> p3_in S' p"
  "cached_in S q \<Longrightarrow> (\<And>P. S P \<Longrightarrow> S' P) \<Longrightarrow> cached_in S' q"
  "precomp_in S e \<Longrightarrow> (\<And>P. S P \<Longrightarrow> S' P) \<Longrightarrow> precomp_in S' e"
  "p2_in S h \<Longrightarrow> (\<And>P. S P \<Longrightarrow> S' P) \<Longrightarrow> p2_in S' h"
  unfolding in_defs by blast+

lemma ge_p1p1_to_p3_in: "p1p1_in S r \<Longrightarrow> p3_in S (ge_p1p1_to_p3 r)"
  and ge_p1p1_to_p2_in: "p1p1_in S r \<Longrightarrow> p2_in S (ge_p1p1_to_p2 r)"
  and ge_p3_to_cached_in: "p3_in S p \<Longrightarrow> cached_in S (ge_p3_to_cached p)"
  and ge_p3_to_p2_in: "p3_in S p \<Longrightarrow> p2_in S (ge_p3_to_p2 p)"
  unfolding in_defs
  by (blast intro: ge_p1p1_to_p3_rep ge_p1p1_to_p2_rep ge_p3_to_cached_rep ge_p3_to_p2_rep)+

context point_span begin

lemma ge_add_in: "p3_in (span c) p \<Longrightarrow> cached_in (span d) q \<Longrightarrow> p1p1_in (span (plus c d)) (ge_add p q)"
  unfolding in_defs by (blast intro: ge_add_rep span_add)

lemma ge_madd_in: "p3_in (span c) p \<Longrightarrow> precomp_in (span d) q \<Longrightarrow> p1p1_in (span (plus c d)) (ge_madd p q)"
  unfolding in_defs by (blast intro: ge_madd_rep span_add)

lemma ge_sub_in:
  "p3_in (span c) p \<Longrightarrow> cached_in (span d) q \<Longrightarrow> p1p1_in (span (plus c (uminus d))) (ge_sub p q)"
  unfolding in_defs by (blast intro: ge_sub_rep span_add span_neg)

lemma ge_msub_in:
  "p3_in (span c) p \<Longrightarrow> precomp_in (span d) q \<Longrightarrow> p1p1_in (span (plus c (uminus d))) (ge_msub p q)"
  unfolding in_defs by (blast intro: ge_msub_rep span_add span_neg)

lemma ge_p2_dbl_in: "p2_in (span c) p \<Longrightarrow> p1p1_in (span (plus c c)) (ge_p2_dbl p)"
  unfolding in_defs by (blast intro: ge_p2_dbl_rep span_dbl)

lemma ge_p3_dbl_in: "p3_in (span c) p \<Longrightarrow> p1p1_in (span (plus c c)) (ge_p3_dbl p)"
  unfolding in_defs by (blast intro: ge_p3_dbl_rep span_dbl)

lemma ge_zero_in: "p3_in (span null) ge_p3_0" "p2_in (span null) ge_p2_0"
  "precomp_in (span null) ge_precomp_0" "cached_in (span null) ge_cached_0"
  unfolding in_defs using ge_zero_rep span_zero by blast+

end

lemma ge_mul8_in:
  assumes "p2_in (ed_multiple B m) t"
  shows "p1p1_in (ed_multiple B (8 * m)) (ge_mul8 t)"
proof -
  have "p1p1_in (ed_multiple B (m + m + (m + m) + (m + m + (m + m)))) (ge_mul8 t)"
    unfolding ge_mul8_def Let_def by (intro mult.ge_p2_dbl_in ge_p1p1_to_p2_in assms)
  then show ?thesis by simp
qed

end
