(* ===== verification/Ge_Point.thy ===== *)
theory Ge_Point
  imports Ge_Ops
begin

text \<open>
  The base point of the curve, \<open>B = (x, 4/5)\<close>, as extended coordinates and as the struct with
  the limbs of the C code.
\<close>

definition base_x :: int where
  "base_x = 15112221349535400772501151409588531511454012693041857206046113283949847762202"

definition base_y :: int where
  "base_y = 46316835694926478169428394003475163141307993866256225615783033603165251855960"

definition base_t :: int where
  "base_t = 46827403850823179245072216630277197565144205554125654976674165829533817101731"

definition base_ext :: ext where
  "base_ext = (base_x, base_y, 1, base_t)"

definition base_p3 :: ge_p3 where
  "base_p3 = \<lparr>
     p3X = Fe (- 14297830) (- 7645148) 16144683 (- 16471763) 27570974 (- 2696100) (- 26142465) 8378389 20764389 8758491,
     p3Y = Fe (- 26843541) (- 6710886) 13421773 (- 13421773) 26843546 6710886 (- 13421773) 13421773 (- 26843546) (- 6710886),
     p3Z = fe_1,
     p3T = Fe 28827062 (- 6116119) (- 27349572) 244363 8635006 11264893 19351346 13413597 16611511 (- 6414980) \<rparr>"

lemma eqp_quotient: "a = b + fe_p * q \<Longrightarrow> eqp a b"
  by (simp add: eqp_def)

lemma base_p3_rep: "p3_rep base_p3 base_ext"
  using fe_rep_const(2)
  by (simp add: base_p3_def base_ext_def base_x_def base_y_def base_t_def fe_rep_def bnd_def eqp_def fe_p_def)

text \<open>The curve equation, with every product reduced.\<close>

lemma base_products:
  "base_x * base_y = base_t + fe_p * 12089777079628320618000921127670825209163210154433485764836890627159878209761"
  "base_t * base_t = 30655112042971184558329056706696549839726511367961720624960021019854854290862 + fe_p * 37874880155481576743800675453736195947824682036213940185119870298671986566951"
  "ed_d * 30655112042971184558329056706696549839726511367961720624960021019854854290862 = 10865872720795493305073123787695754110961843205372397773524691040492703462776 + fe_p * 19641635784112395346641967481223427603076292420967697888635760513231183455066"
  "base_y * base_y - base_x * base_x = 1 + 10865872720795493305073123787695754110961843205372397773524691040492703462776 + fe_p * (33108825435299499994985226454393595695483531638194893398543244969007561828431)"
  by (simp_all only: base_x_def base_y_def base_t_def ed_d_def fe_p_def) simp_all

lemma base_on: "ext_on base_ext"
proof -
  note e = base_products [THEN eqp_quotient]
  have "eqp (ed_d * (base_t * base_t)) 10865872720795493305073123787695754110961843205372397773524691040492703462776"
    by (rule eqp_trans [OF eqp_mult [OF eqp_refl e(2)] e(3)])
  then have "eqp (1 * 1 + ed_d * (base_t * base_t)) (1 + 10865872720795493305073123787695754110961843205372397773524691040492703462776)"
    by (intro eqp_add) simp_all
  then show ?thesis
    unfolding base_ext_def ext_on.simps using e(1) eqp_trans [OF e(4) eqp_sym] by simp
qed

lemma base_in: "p3_in (ed_multiple base_ext 1) base_p3"
  unfolding p3_in_def using base_p3_rep ed_multiple.base [OF base_on] by blast

lemma base_affine: "ext_affine base_ext base_x base_y"
  using eqp_sym [OF base_products(1) [THEN eqp_quotient]]
  by (simp add: base_ext_def ext_affine_def)

end
