(* ===== verification/Ge_Recode.thy ===== *)
theory Ge_Recode
  imports Prelude
begin

text \<open>
  The digit expansions of the scalar multiplications: the signed radix-16 digits of
  \<^verbatim>\<open>ge_scalarmult_base\<close> and \<^verbatim>\<open>ge_scalarmult\<close>, and the sliding window of \<^verbatim>\<open>slide\<close>.
  Each is shown to represent the scalar, with digits that are valid table indices.
\<close>

section \<open>Digit strings\<close>

fun radix :: "int \<Rightarrow> int list \<Rightarrow> int" where
  "radix b [] = 0"
| "radix b (x # xs) = x + b * radix b xs"

lemma radix_append: "radix b (xs @ ys) = radix b xs + b ^ length xs * radix b ys"
  by (induction xs) (simp_all add: algebra_simps)

lemma radix_update:
  "i < length xs \<Longrightarrow> radix b (xs[i := x]) = radix b xs + (x - xs ! i) * b ^ i"
proof (induction xs arbitrary: i)
  case (Cons y xs)
  show ?case
  proof (cases i)
    case (Suc j)
    have "radix b ((y # xs)[i := x]) = y + b * (radix b xs + (x - xs ! j) * b ^ j)"
      using Cons by (simp add: Suc)
    then show ?thesis
      by (simp add: Suc algebra_simps)
  qed simp
qed simp

lemma radix_split: "radix b xs = radix b (take n xs) + b ^ n * radix b (drop n xs)" if "n \<le> length xs"
  using that radix_append [of b "take n xs" "drop n xs"] by simp

lemma radix_bits: "radix 2 (map (\<lambda>j. x div 2 ^ j mod 2) [0..<n]) = x mod 2 ^ n"
proof (induction n)
  case (Suc n)
  have "x mod 2 ^ Suc n = 2 ^ n * (x div 2 ^ n mod 2) + x mod 2 ^ n"
    using zmod_zmult2_eq [of 2 x "2 ^ n"] by (simp add: mult.commute)
  then show ?case
    by (simp add: Suc radix_append)
qed simp

section \<open>Radix 16 for the base point\<close>

definition nibbles :: "byte list \<Rightarrow> int list" where
  "nibbles a = concat (map (\<lambda>i. [uint (drop_bit 0 (a ! i) AND 15), uint (drop_bit 4 (a ! i) AND 15)]) [0..<32])"

fun nibble_carry :: "int \<Rightarrow> int list \<Rightarrow> int list" where
  "nibble_carry carry [] = []"
| "nibble_carry carry [e] = [i8 (e + carry)]"
| "nibble_carry carry (e # es) =
    (let e = i8 (e + carry);
         carry = i8 (e + 8);
         carry = i8 (drop_bit 4 carry);
         e = i8 (e - push_bit 4 carry)
     in e # nibble_carry carry es)"

definition base_digits :: "byte list \<Rightarrow> int list" where
  "base_digits a = nibble_carry 0 (nibbles a)"

lemma map_nth_32: "length a = 32 \<Longrightarrow> map (\<lambda>i. f (a ! i)) [0..<32] = map f a"
  by (rule nth_equalityI) (simp_all del: upt_rec_numeral)

lemma nibble_sum: "0 \<le> x \<Longrightarrow> x < 256 \<Longrightarrow> x mod 16 + 16 * (x div 16 mod 16) = x"
  and nibble_top: "0 \<le> x \<Longrightarrow> x \<le> 127 \<Longrightarrow> x div 16 mod 16 \<le> 7" for x :: int
proof -
  have "x div 16 mod 16 = x div 16" if "0 \<le> x" "x < 256"
    using that by (intro mod_pos_pos_trivial) (simp_all add: pos_imp_zdiv_nonneg_iff)
  moreover have "x div 16 \<le> 7" if "x \<le> 127"
    using zdiv_mono1 [OF that, of 16] by simp
  ultimately show "0 \<le> x \<Longrightarrow> x < 256 \<Longrightarrow> x mod 16 + 16 * (x div 16 mod 16) = x"
    "0 \<le> x \<Longrightarrow> x \<le> 127 \<Longrightarrow> x div 16 mod 16 \<le> 7"
    by simp_all
qed

lemma nibbles_map:
  assumes "length a = 32"
  shows "nibbles a = concat (map (\<lambda>x. [uint x mod 16, uint x div 16 mod 16]) a)"
proof -
  have x: "uint (x AND 15) = uint x mod 16" for x :: byte
  proof -
    have "x AND 15 = take_bit 4 x"
      by (simp add: take_bit_eq_mask mask_eq_exp_minus_1)
    then have "uint (x AND 15) = take_bit 4 (uint x)"
      by (simp only: unsigned_take_bit_eq)
    then show ?thesis by (simp add: take_bit_eq_mod)
  qed
  show ?thesis
    unfolding nibbles_def map_nth_32 [OF assms, of "\<lambda>x. [uint (drop_bit 0 x AND 15), uint (drop_bit 4 x AND 15)]"]
    by (simp add: x uint_drop_word)
qed

lemma radix_nibbles: "length a = 32 \<Longrightarrow> radix 16 (nibbles a) = le_val a"
proof -
  have "radix 16 (concat (map (\<lambda>x. [uint x mod 16, uint x div 16 mod 16]) a)) = le_val a"
  proof (induction a)
    case (Cons x a)
    have "uint x mod 16 + 16 * (uint x div 16 mod 16) = uint x"
      using uint_lt2p [of x] by (intro nibble_sum) simp_all
    then show ?case using Cons by simp
  qed simp
  then show "length a = 32 \<Longrightarrow> radix 16 (nibbles a) = le_val a"
    by (simp add: nibbles_map)
qed

lemma length_nibbles [simp]: "length (nibbles a) = 64"
proof -
  have "length (concat (map (\<lambda>i. [f i, g i]) xs)) = 2 * length xs" for f g :: "nat \<Rightarrow> int" and xs
    by (induction xs) simp_all
  then show ?thesis by (simp add: nibbles_def del: upt_rec_numeral)
qed

lemma round16: "- 8 \<le> x - (x + 8) div 16 * 16" "x - (x + 8) div 16 * 16 \<le> 7"
  "0 \<le> x \<Longrightarrow> 0 \<le> (x + 8) div 16" "x \<le> 16 * n + 7 \<Longrightarrow> (x + 8) div 16 \<le> n" for x n :: int
  by presburger+

lemma nibble_carry_step:
  assumes "0 \<le> e" "e \<le> 15" "0 \<le> c" "c \<le> (1 :: int)"
  obtains d c' where "nibble_carry c (e # x # es) = d # nibble_carry c' (x # es)"
    and "0 \<le> c'" "c' \<le> 1" "- 8 \<le> d" "d \<le> 7" "d + c' * 16 = e + c"
proof -
  define c' where "c' = (e + c + 8) div 16"
  have c': "0 \<le> c'" "c' \<le> 1" "- 8 \<le> e + c - c' * 16" "e + c - c' * 16 \<le> 7"
    using assms round16 [of "e + c"] round16(4) [of "e + c" 1] by (simp_all flip: c'_def)
  have i: "i8 (e + c) = e + c" "i8 (e + c + 8) = e + c + 8" "i8 c' = c'" "i8 (e + c - c' * 16) = e + c - c' * 16"
    by (rule i8_id; use assms c' in simp)+
  have "nibble_carry c (e # x # es) = (e + c - c' * 16) # nibble_carry c' (x # es)"
    by (simp add: i drop_bit_eq_div push_bit_eq_mult Let_def mult.commute flip: c'_def)
  then show thesis
    by (rule that) (use c' in simp_all)
qed

definition signed_digits :: "int list \<Rightarrow> bool" where
  "signed_digits es \<longleftrightarrow> (\<forall>d\<in>set es. - 8 \<le> d \<and> d \<le> 8)"

lemma nibble_carry_correct:
  assumes "es \<noteq> []" and "\<forall>e\<in>set es. 0 \<le> e \<and> e \<le> 15" and "last es \<le> 7" and "0 \<le> c" "c \<le> (1 :: int)"
  shows "length (nibble_carry c es) = length es \<and> radix 16 (nibble_carry c es) = radix 16 es + c \<and>
    signed_digits (nibble_carry c es)"
  using assms
proof (induction es arbitrary: c rule: list_nonempty_induct)
  case (single e)
  then show ?case by (simp add: i8_id signed_digits_def)
next
  case (cons e es)
  then obtain x es' where es: "es = x # es'"
    by (cases es) simp_all
  obtain d c' where s: "nibble_carry c (e # es) = d # nibble_carry c' es"
    and r: "0 \<le> c'" "c' \<le> 1" "- 8 \<le> d" "d \<le> 7" "d + c' * 16 = e + c"
    unfolding es using cons.prems by (elim nibble_carry_step [of e c x es', rotated -1]) simp_all
  have "length (nibble_carry c' es) = length es \<and> radix 16 (nibble_carry c' es) = radix 16 es + c' \<and>
    signed_digits (nibble_carry c' es)"
    using cons.prems cons.hyps r by (intro cons.IH) simp_all
  then show ?case
    using r by (simp add: s signed_digits_def)
qed

lemma last_nibbles: "length a = 32 \<Longrightarrow> last (nibbles a) = uint (a ! 31) div 16 mod 16"
proof -
  have "last (concat (map (\<lambda>x. [f x, g x]) a)) = g (last a)" if "a \<noteq> []" for f g :: "byte \<Rightarrow> int"
    using that by (induction a rule: list_nonempty_induct) auto
  moreover have "a \<noteq> []" if "length a = 32" using that by auto
  ultimately show "length a = 32 \<Longrightarrow> last (nibbles a) = uint (a ! 31) div 16 mod 16"
    by (simp add: nibbles_map last_conv_nth)
qed

lemma base_digits_correct:
  assumes "length a = 32" and "uint (a ! 31) \<le> 127"
  shows "length (base_digits a) = 64" and "radix 16 (base_digits a) = le_val a" and "signed_digits (base_digits a)"
proof -
  have "\<forall>e\<in>set (nibbles a). 0 \<le> e \<and> e \<le> 15"
    using assms(1) by (auto simp: nibbles_map)
  moreover have "nibbles a \<noteq> []"
    by (metis length_nibbles length_0_conv zero_neq_numeral)
  moreover have "last (nibbles a) \<le> 7"
    unfolding last_nibbles [OF assms(1)] using assms(2) by (intro nibble_top) simp_all
  ultimately have "length (nibble_carry 0 (nibbles a)) = length (nibbles a) \<and>
    radix 16 (nibble_carry 0 (nibbles a)) = radix 16 (nibbles a) + 0 \<and> signed_digits (nibble_carry 0 (nibbles a))"
    by (intro nibble_carry_correct) simp_all
  then show "length (base_digits a) = 64" "radix 16 (base_digits a) = le_val a" "signed_digits (base_digits a)"
    by (simp_all add: base_digits_def radix_nibbles [OF assms(1)])
qed

section \<open>Radix 16 for a variable point\<close>

text \<open>The carry is an \<^verbatim>\<open>int\<close> here, and two digits are produced from every byte.\<close>

fun byte_digits :: "int \<Rightarrow> byte list \<Rightarrow> int list" where
  "byte_digits carry [] = []"
| "byte_digits carry [x] =
    (let carry = i32 (carry + uint x);
         carry2 = drop_bit 4 (i32 (carry + 8))
     in [i8 (carry - push_bit 4 carry2), i8 carry2])"
| "byte_digits carry (x # xs) =
    (let carry = i32 (carry + uint x);
         carry2 = drop_bit 4 (i32 (carry + 8));
         e0 = i8 (carry - push_bit 4 carry2);
         carry = drop_bit 4 (i32 (carry2 + 8));
         e1 = i8 (carry2 - push_bit 4 carry)
     in e0 # e1 # byte_digits carry xs)"

definition point_digits :: "byte list \<Rightarrow> int list" where
  "point_digits a = byte_digits 0 a"

lemma byte_digits_step:
  assumes "0 \<le> c" "c \<le> (1 :: int)"
  obtains d e c' where "byte_digits c (x # y # xs) = d # e # byte_digits c' (y # xs)"
    and "0 \<le> c'" "c' \<le> 1" "- 8 \<le> d" "d \<le> 7" "- 8 \<le> e" "e \<le> 7" "d + 16 * e + 256 * c' = uint x + c"
proof -
  define k where "k = (c + uint x + 8) div 16"
  define c' where "c' = (k + 8) div 16"
  have x: "0 \<le> uint x" "uint x \<le> 255"
    using uint_lt2p [of x] by simp_all
  have k: "0 \<le> k" "k \<le> 16" "- 8 \<le> c + uint x - k * 16" "c + uint x - k * 16 \<le> 7"
    using assms x round16 [of "c + uint x"] round16(4) [of "c + uint x" 16] by (simp_all flip: k_def)
  have c': "0 \<le> c'" "c' \<le> 1" "- 8 \<le> k - c' * 16" "k - c' * 16 \<le> 7"
    using k round16 [of k] round16(4) [of k 1] by (simp_all flip: c'_def)
  have i: "i32 (c + uint x) = c + uint x" "i32 (c + uint x + 8) = c + uint x + 8" "i32 (k + 8) = k + 8"
    "i8 (c + uint x - k * 16) = c + uint x - k * 16" "i8 (k - c' * 16) = k - c' * 16"
    by (rule i8_id i32_id; use assms x c' k in simp)+
  have "byte_digits c (x # y # xs) = (c + uint x - k * 16) # (k - c' * 16) # byte_digits c' (y # xs)"
    by (simp add: i drop_bit_eq_div push_bit_eq_mult Let_def mult.commute flip: c'_def k_def)
  then show thesis
    by (rule that) (use c' k in simp_all)
qed

lemma byte_digits_last:
  assumes "0 \<le> c" "c \<le> (1 :: int)" and "uint x \<le> 127"
  obtains d e where "byte_digits c [x] = [d, e]" and "- 8 \<le> d" "d \<le> 7" "0 \<le> e" "e \<le> 8" "d + 16 * e = uint x + c"
proof -
  define k where "k = (c + uint x + 8) div 16"
  have x: "0 \<le> uint x"
    by simp
  have k: "0 \<le> k" "k \<le> 8" "- 8 \<le> c + uint x - k * 16" "c + uint x - k * 16 \<le> 7"
    using assms x round16 [of "c + uint x"] round16(4) [of "c + uint x" 8] by (simp_all flip: k_def)
  have i: "i32 (c + uint x) = c + uint x" "i32 (c + uint x + 8) = c + uint x + 8" "i8 k = k"
    "i8 (c + uint x - k * 16) = c + uint x - k * 16"
    by (rule i8_id i32_id; use assms x k in simp)+
  have "byte_digits c [x] = [c + uint x - k * 16, k]"
    by (simp add: i drop_bit_eq_div push_bit_eq_mult Let_def mult.commute flip: k_def)
  then show thesis
    by (rule that) (use k in simp_all)
qed

lemma byte_digits_correct:
  assumes "xs \<noteq> []" and "uint (last xs) \<le> 127" and "0 \<le> c" "c \<le> (1 :: int)"
  shows "length (byte_digits c xs) = 2 * length xs \<and> radix 16 (byte_digits c xs) = le_val xs + c \<and>
    signed_digits (byte_digits c xs)"
  using assms
proof (induction xs arbitrary: c rule: list_nonempty_induct)
  case (single x)
  then obtain d e where "byte_digits c [x] = [d, e]" and "- 8 \<le> d" "d \<le> 7" "0 \<le> e" "e \<le> 8" "d + 16 * e = uint x + c"
    by (elim byte_digits_last [of c x, rotated -1]) simp_all
  then show ?case by (simp add: signed_digits_def)
next
  case (cons x xs)
  then obtain y xs' where xs: "xs = y # xs'"
    by (cases xs) simp_all
  obtain d e c' where s: "byte_digits c (x # xs) = d # e # byte_digits c' xs"
    and r: "0 \<le> c'" "c' \<le> 1" "- 8 \<le> d" "d \<le> 7" "- 8 \<le> e" "e \<le> 7" "d + 16 * e + 256 * c' = uint x + c"
    unfolding xs using cons.prems by (elim byte_digits_step [of c x y xs', rotated -1]) simp_all
  have "length (byte_digits c' xs) = 2 * length xs \<and> radix 16 (byte_digits c' xs) = le_val xs + c' \<and>
    signed_digits (byte_digits c' xs)"
    using cons.prems cons.hyps r by (intro cons.IH) simp_all
  then show ?case
    using r by (simp add: s signed_digits_def algebra_simps)
qed

lemma point_digits_correct:
  assumes "length a = 32" and "uint (a ! 31) \<le> 127"
  shows "length (point_digits a) = 64" and "radix 16 (point_digits a) = le_val a" and "signed_digits (point_digits a)"
proof -
  have "a \<noteq> []" using assms(1) by auto
  then have "length (byte_digits 0 a) = 2 * length a \<and> radix 16 (byte_digits 0 a) = le_val a + 0 \<and>
    signed_digits (byte_digits 0 a)"
    using assms by (intro byte_digits_correct) (simp_all add: last_conv_nth)
  then show "length (point_digits a) = 64" "radix 16 (point_digits a) = le_val a" "signed_digits (point_digits a)"
    by (simp_all add: point_digits_def assms(1))
qed


section \<open>Sliding windows\<close>

definition slide_bits :: "byte list \<Rightarrow> int list" where
  "slide_bits a = map (\<lambda>i. uint (1 AND drop_bit (i AND 7) (a ! drop_bit 3 i))) [0..<256]"

text \<open>The loop over \<^verbatim>\<open>k\<close>: add one to the binary number that starts at \<open>k\<close>.\<close>

function slide_carry :: "int list \<Rightarrow> nat \<Rightarrow> int list" where
  "slide_carry r k =
    (if k < 256 then if r ! k = 0 then r[k := 1] else slide_carry (r[k := 0]) (k + 1) else r)"
  by pat_completeness auto
termination
  by (relation "measure (\<lambda>(r, k). 256 - k)") auto

text \<open>The loop over \<^verbatim>\<open>b\<close>: merge the bits after \<open>i\<close> into the digit at \<open>i\<close>.\<close>

function slide_window :: "nat \<Rightarrow> nat \<Rightarrow> int list \<Rightarrow> int list" where
  "slide_window i b r =
    (if b \<le> 6 \<and> i + b < 256 then
       if r ! (i + b) \<noteq> 0 then
         if r ! i + push_bit b (r ! (i + b)) \<le> 15 then
           slide_window i (b + 1) (r[i := i8 (r ! i + push_bit b (r ! (i + b))), i + b := 0])
         else if - 15 \<le> r ! i - push_bit b (r ! (i + b)) then
           slide_window i (b + 1) (slide_carry (r[i := i8 (r ! i - push_bit b (r ! (i + b)))]) (i + b))
         else r
       else slide_window i (b + 1) r
     else r)"
  by pat_completeness auto
termination
  by (relation "measure (\<lambda>(i, b, r). 7 - b)") auto

declare slide_carry.simps [simp del] slide_window.simps [simp del]

definition slide :: "byte list \<Rightarrow> int list" where
  "slide a = fold (\<lambda>i r. if r ! i \<noteq> 0 then slide_window i 1 r else r) [0..<256] (slide_bits a)"

lemma uint_one_and: "uint (1 AND w) = uint w mod 2" for w :: byte
proof -
  have "1 AND w = take_bit 1 w"
    by (simp add: take_bit_eq_mask mask_eq_exp_minus_1 and.commute)
  then have "uint (1 AND w) = take_bit 1 (uint w)"
    by (simp only: unsigned_take_bit_eq)
  then show ?thesis by (simp add: take_bit_eq_mod)
qed

lemma byte_bits: "radix 2 (map (\<lambda>j. uint (1 AND drop_bit j x)) [0..<8]) = uint x" for x :: byte
  using radix_bits [of "uint x" 8] uint_lt2p [of x]
  by (simp only: uint_one_and uint_drop_word) simp

lemma bits_of_bytes:
  "map (\<lambda>i. f (i mod 8) (a ! (i div 8))) [0..<8 * length a] = concat (map (\<lambda>x. map (\<lambda>j. f j x) [0..<8]) a)"
proof (induction a)
  case (Cons x a)
  have "[0..<8 * length (x # a)] = [0..<8] @ map (\<lambda>i. i + 8) [0..<8 * length a]"
    using upt_add_eq_append [of 0 8 "8 * length a"] by (simp add: map_add_upt add.commute del: upt_rec_numeral)
  moreover have "map (\<lambda>i. f (i mod 8) ((x # a) ! (i div 8))) [0..<8] = map (\<lambda>j. f j x) [0..<8]"
    by (rule map_cong) simp_all
  ultimately show ?case
    using Cons.IH by (simp add: comp_def div_add_self2 del: upt_rec_numeral)
qed simp

lemma slide_bits_correct:
  assumes "length a = 32"
  shows "length (slide_bits a) = 256" and "radix 2 (slide_bits a) = le_val a"
    and "\<forall>k<256. slide_bits a ! k \<in> {0, 1}"
proof -
  show l: "length (slide_bits a) = 256"
    by (simp add: slide_bits_def del: upt_rec_numeral)
  have i: "i AND 7 = i mod 8" "drop_bit 3 i = i div 8" for i :: nat
    using take_bit_eq_mask [of 3 i] by (simp_all add: take_bit_eq_mod mask_eq_exp_minus_1 drop_bit_eq_div)
  have "slide_bits a = concat (map (\<lambda>x. map (\<lambda>j. uint (1 AND drop_bit j x)) [0..<8]) a)"
    using bits_of_bytes [of "\<lambda>j x. uint (1 AND drop_bit j x)" a]
    by (simp add: slide_bits_def i assms del: upt_rec_numeral)
  moreover have "radix 2 (concat (map (\<lambda>x. map (\<lambda>j. uint (1 AND drop_bit j x)) [0..<8]) a)) = le_val a"
    by (induction a) (simp_all only: list.map concat.simps radix_append byte_bits radix.simps le_val.simps, simp)
  ultimately show "radix 2 (slide_bits a) = le_val a"
    by simp
  have "uint (1 AND w) \<in> {0, 1}" for w :: byte
    unfolding uint_one_and by auto
  then show "\<forall>k<256. slide_bits a ! k \<in> {0, 1}"
    by (simp add: slide_bits_def del: upt_rec_numeral)
qed

text \<open>The carry adds \<open>2^k\<close>, unless every bit from \<open>k\<close> on is set.\<close>

definition bits_from :: "nat \<Rightarrow> int list \<Rightarrow> bool" where
  "bits_from k r \<longleftrightarrow> length r = 256 \<and> (\<forall>j. k \<le> j \<and> j < 256 \<longrightarrow> r ! j = 0 \<or> r ! j = 1)"

lemma bits_from_D: "bits_from k r \<Longrightarrow> length r = 256"
  "bits_from k r \<Longrightarrow> k \<le> j \<Longrightarrow> j < 256 \<Longrightarrow> r ! j = 0 \<or> r ! j = 1"
  by (auto simp: bits_from_def)

lemma bits_from_mono: "bits_from k r \<Longrightarrow> k \<le> l \<Longrightarrow> bits_from l r"
  by (auto simp: bits_from_def)

lemma bits_from_update:
  assumes "bits_from k r" and "j < k \<or> x = 0 \<or> x = 1"
  shows "bits_from k (r[j := x])"
proof -
  have "r[j := x] ! m = 0 \<or> r[j := x] ! m = 1" if "k \<le> m" "m < 256" for m
    using assms that by (cases "m = j") (auto simp: bits_from_def)
  then show ?thesis
    using assms(1) by (simp add: bits_from_def)
qed

lemma slide_carry_correct:
  assumes "bits_from k r" and "k \<le> 256"
  shows "bits_from k (slide_carry r k) \<and> (\<forall>j<k. slide_carry r k ! j = r ! j) \<and>
    (radix 2 (slide_carry r k) = radix 2 r + 2 ^ k \<or> radix 2 (drop k r) = 2 ^ (256 - k) - 1)"
  using assms
proof (induction r k rule: slide_carry.induct)
  case (1 r k)
  have l: "length r = 256"
    using 1 by (simp add: bits_from_def)
  show ?case
  proof (cases "k < 256")
    case False
    then have "slide_carry r k = r" "256 - k = 0" "drop k r = []"
      using l by (simp_all add: slide_carry.simps [of r k])
    then show ?thesis using 1 by simp
  next
    case k: True
    show ?thesis
    proof (cases "r ! k = 0")
      case True
      then have "slide_carry r k = r[k := 1]"
        using k by (simp add: slide_carry.simps [of r k])
      then show ?thesis
        using k True l bits_from_update [OF 1(2), of k 1] by (simp add: radix_update)
    next
      case False
      then have e: "slide_carry r k = slide_carry (r[k := 0]) (k + 1)" and rk: "r ! k = 1"
        using k bits_from_D(2) [OF 1(2), of k] by (simp_all add: slide_carry.simps [of r k])
      have b: "bits_from (k + 1) (r[k := 0])"
        using bits_from_mono [OF 1(2)] by (intro bits_from_update) simp_all
      note IH = 1(1) [OF k False b]
      have pre: "bits_from (k + 1) (slide_carry r k)" "\<forall>j<k + 1. slide_carry r k ! j = r[k := 0] ! j"
        using IH k by (simp_all add: e)
      have "bits_from k (slide_carry r k)"
        unfolding bits_from_def
      proof (intro conjI allI impI)
        show "length (slide_carry r k) = 256"
          by (rule bits_from_D(1) [OF pre(1)])
        fix j
        assume j: "k \<le> j \<and> j < 256"
        show "slide_carry r k ! j = 0 \<or> slide_carry r k ! j = 1"
        proof (cases "j = k")
          case True
          then show ?thesis using pre(2) k l by simp
        next
          case False
          then show ?thesis using bits_from_D(2) [OF pre(1), of j] j by simp
        qed
      qed
      moreover have "\<forall>j<k. slide_carry r k ! j = r ! j"
        using pre(2) by simp
      moreover have "radix 2 (slide_carry r k) = radix 2 r + 2 ^ k \<or> radix 2 (drop k r) = 2 ^ (256 - k) - 1"
      proof (cases "radix 2 (slide_carry r k) = radix 2 (r[k := 0]) + 2 ^ (k + 1)")
        case True
        then show ?thesis
          using k l rk by (simp add: radix_update)
      next
        case False
        then have "radix 2 (drop (k + 1) r) = 2 ^ (256 - (k + 1)) - 1"
          using IH k by (simp add: e)
        moreover have "drop k r = 1 # drop (k + 1) r"
          using k l rk by (metis Cons_nth_drop_Suc Suc_eq_plus1)
        moreover have "256 - k = Suc (256 - (k + 1))"
          using k by simp
        ultimately show ?thesis
          by (simp del: Suc_diff_Suc)
      qed
      ultimately show ?thesis by blast
    qed
  qed
qed

lemma slide_carry_clears: "bits_from k r \<Longrightarrow> k < 256 \<Longrightarrow> r ! k \<noteq> 0 \<Longrightarrow> slide_carry r k ! k = 0"
proof -
  assume b: "bits_from k r" and k: "k < 256" and nz: "r ! k \<noteq> 0"
  have "bits_from (k + 1) (r[k := 0])"
    using bits_from_mono [OF b] by (intro bits_from_update) simp_all
  then have "\<forall>j<k + 1. slide_carry (r[k := 0]) (k + 1) ! j = r[k := 0] ! j"
    using slide_carry_correct [of "k + 1" "r[k := 0]"] k by simp
  then show ?thesis
    using k nz bits_from_D(1) [OF b] by (simp add: slide_carry.simps [of r k])
qed


text \<open>
  The digits before \<open>i\<close> are final, the bits from \<open>i + b\<close> on are not yet used, and those between
  are zero. The digit at \<open>i\<close> is odd and below \<open>2^b\<close>.
\<close>

definition slide_digit :: "int \<Rightarrow> bool" where
  "slide_digit x \<longleftrightarrow> x = 0 \<or> (odd x \<and> - 15 \<le> x \<and> x \<le> 15)"

definition slide_outer :: "int \<Rightarrow> nat \<Rightarrow> int list \<Rightarrow> bool" where
  "slide_outer a i r \<longleftrightarrow> bits_from i r \<and> radix 2 r = a \<and> (\<forall>k<i. slide_digit (r ! k)) \<and>
     (\<exists>w\<ge>i. \<bar>radix 2 (take i r)\<bar> < 2 ^ w \<and> (\<forall>k. i \<le> k \<and> k < w \<and> k < 256 \<longrightarrow> r ! k = 0))"

definition slide_inner :: "int \<Rightarrow> nat \<Rightarrow> nat \<Rightarrow> int list \<Rightarrow> bool" where
  "slide_inner a i b r \<longleftrightarrow> bits_from (i + b) r \<and> radix 2 r = a \<and> (\<forall>k<i. slide_digit (r ! k)) \<and>
     1 \<le> b \<and> odd (r ! i) \<and> - 15 \<le> r ! i \<and> r ! i \<le> 15 \<and> \<bar>r ! i\<bar> < 2 ^ b \<and>
     \<bar>radix 2 (take i r)\<bar> < 2 ^ i \<and> (\<forall>k. i < k \<and> k < i + b \<and> k < 256 \<longrightarrow> r ! k = 0)"

lemma radix_zeros: "\<forall>x\<in>set xs. x = 0 \<Longrightarrow> radix b xs = 0"
  by (induction xs) simp_all

lemma radix_inner:
  assumes "i + b \<le> length r" and "1 \<le> b" and "\<forall>k. i < k \<and> k < i + b \<longrightarrow> r ! k = 0"
  shows "radix 2 r = radix 2 (take i r) + 2 ^ i * r ! i + 2 ^ (i + b) * radix 2 (drop (i + b) r)"
proof -
  have i: "i < length r" using assms by simp
  have d: "drop i r = r ! i # drop (Suc i) r"
    using Cons_nth_drop_Suc [OF i] by simp
  have "take (b - 1) (drop (Suc i) r) = map (\<lambda>k. r ! (Suc i + k)) [0..<b - 1]"
    using assms(1,2) by (intro nth_equalityI) simp_all
  then have "radix 2 (take (b - 1) (drop (Suc i) r)) = 0"
    using assms(3) by (intro radix_zeros) auto
  moreover have "drop (b - 1) (drop (Suc i) r) = drop (i + b) r"
    using assms(2) by (simp add: add.commute)
  ultimately have z: "radix 2 (drop (Suc i) r) = 2 ^ (b - 1) * radix 2 (drop (i + b) r)"
    using radix_split [of "b - 1" "drop (Suc i) r" 2] assms(1,2) by simp
  have "radix 2 r = radix 2 (take i r) + 2 ^ i * (r ! i + 2 * (2 ^ (b - 1) * radix 2 (drop (i + b) r)))"
    using radix_split [of i r 2] i by (simp add: d z)
  moreover have "2 * (2 ^ (b - 1) * x) = 2 ^ b * x" for x :: int
    using assms(2) by (cases b) simp_all
  ultimately show ?thesis
    by (simp add: power_add algebra_simps)
qed

lemma take_update_same: "j \<le> i \<Longrightarrow> take j (xs[i := x]) = take j xs"
  by (simp add: take_update_cancel)

lemma nth_update_other: "k \<noteq> i \<Longrightarrow> xs[i := x] ! k = xs ! k"
  by simp

lemma slide_inner_merge:
  assumes inv: "slide_inner a i b r" and ib: "i + b < 256" and one: "r ! (i + b) = 1"
    and le: "r ! i + 2 ^ b \<le> 15"
  shows "slide_inner a i (b + 1) (r[i := r ! i + 2 ^ b, i + b := 0])"
proof -
  note d = inv [unfolded slide_inner_def]
  have l: "length r = 256" using d by (simp add: bits_from_def)
  have b: "1 \<le> b" using d by simp
  have "radix 2 (r[i := r ! i + 2 ^ b, i + b := 0]) = a"
    using d ib one b l by (simp add: radix_update power_add)
  moreover have "bits_from (i + (b + 1)) (r[i := r ! i + 2 ^ b, i + b := 0])"
    using d bits_from_mono [of "i + b" r "i + (b + 1)"] by (intro bits_from_update) simp_all
  moreover have "even ((2 :: int) ^ b)"
    using b by simp
  moreover have "\<bar>r ! i + 2 ^ b\<bar> < 2 ^ (b + 1)"
    using d by (simp add: abs_less_iff)
  moreover have "0 < (2 :: int) ^ b" by simp
  ultimately show ?thesis
    unfolding slide_inner_def
    using d ib b l le by (auto simp: take_update_same nth_list_update)
qed


lemma slide_inner_borrow:
  assumes inv: "slide_inner a i b r" and ib: "i + b < 256" and one: "r ! (i + b) = 1"
    and gt: "15 < r ! i + 2 ^ b" and ge: "- 15 \<le> r ! i - 2 ^ b" and a: "a < 2 ^ 255"
  shows "slide_inner a i (b + 1) (slide_carry (r[i := r ! i - 2 ^ b]) (i + b))"
proof -
  note d = inv [unfolded slide_inner_def]
  have l: "length r = 256" using d by (simp add: bits_from_def)
  have b: "1 \<le> b" and pos: "1 \<le> r ! i"
    using d gt ge by simp_all
  define r1 where "r1 = r[i := r ! i - 2 ^ b]"
  define r2 where "r2 = slide_carry r1 (i + b)"
  have b1: "bits_from (i + b) r1"
    unfolding r1_def using d b by (intro bits_from_update) simp_all
  have C: "bits_from (i + b) r2" "\<And>j. j < i + b \<Longrightarrow> r2 ! j = r1 ! j"
    "radix 2 r2 = radix 2 r1 + 2 ^ (i + b) \<or> radix 2 (drop (i + b) r1) = 2 ^ (256 - (i + b)) - 1"
    using slide_carry_correct [OF b1] ib by (simp_all add: r2_def)
  have clear: "r2 ! (i + b) = 0"
    unfolding r2_def using b1 ib one b by (intro slide_carry_clears) (simp_all add: r1_def)
  have "radix 2 (drop (i + b) r1) \<noteq> 2 ^ (256 - (i + b)) - 1"
  proof
    assume "radix 2 (drop (i + b) r1) = 2 ^ (256 - (i + b)) - 1"
    then have "radix 2 (drop (i + b) r) = 2 ^ (256 - (i + b)) - 1"
      using b by (simp add: r1_def)
    then have "a = radix 2 (take i r) + 2 ^ i * r ! i + 2 ^ (i + b) * (2 ^ (256 - (i + b)) - 1)"
      using radix_inner [of i b r] d ib l by simp
    also have "2 ^ (i + b) * ((2 :: int) ^ (256 - (i + b)) - 1) = 2 ^ 256 - 2 ^ (i + b)"
      using ib by (simp add: right_diff_distrib flip: power_add)
    finally have "a = radix 2 (take i r) + 2 ^ i * r ! i + 2 ^ 256 - 2 ^ (i + b)"
      by simp
    moreover have "(2 :: int) ^ (i + b) \<le> 2 ^ 255"
      using ib by (intro power_increasing) simp_all
    moreover have "(2 :: int) ^ i * 1 \<le> 2 ^ i * r ! i"
      by (rule mult_left_mono) (use pos in simp_all)
    moreover have "(2 :: int) ^ 256 = 2 * 2 ^ 255"
      by simp
    moreover have "- (2 ^ i) < radix 2 (take i r)"
      using d by (simp add: abs_less_iff)
    ultimately show False
      using a by linarith
  qed
  then have "radix 2 r2 = radix 2 r1 + 2 ^ (i + b)"
    using C(3) by blast
  then have rad: "radix 2 r2 = a"
    using d ib l by (simp add: r1_def radix_update power_add)
  have l2: "length r2 = 256"
    using C(1) by (rule bits_from_D)
  have r2i: "r2 ! i = r ! i - 2 ^ b"
    using C(2) [of i] b l ib by (simp add: r1_def)
  have take: "take i r2 = take i r"
    using C(2) ib l l2 by (intro nth_equalityI) (simp_all add: r1_def)
  have low: "r2 ! k = r ! k" if "k < i" for k
    using C(2) [of k] that by (simp add: r1_def)
  have zero: "r2 ! k = 0" if "i < k" "k < i + (b + 1)" for k
    using that C(2) [of k] clear d ib by (cases "k = i + b") (simp_all add: r1_def)
  have "bits_from (i + (b + 1)) r2"
    by (rule bits_from_mono [OF C(1)]) simp
  moreover have "odd (r ! i - 2 ^ b)"
    using d b by simp
  moreover have "\<bar>r ! i - 2 ^ b\<bar> < 2 ^ (b + 1)"
    using d by (simp add: abs_less_iff)
  moreover have "r ! i - 2 ^ b \<le> 15"
    using d by (smt (verit) zero_less_power)
  ultimately show ?thesis
    unfolding slide_inner_def r1_def [symmetric] r2_def [symmetric] r2i take rad
    using d ge low zero by simp
qed

lemma slide_inner_skip:
  assumes inv: "slide_inner a i b r" and "r ! (i + b) = 0"
  shows "slide_inner a i (b + 1) r"
proof -
  have "bits_from (i + (b + 1)) r" "\<bar>r ! i\<bar> < 2 ^ (b + 1)"
    using inv by (auto simp: slide_inner_def elim: bits_from_mono)
  moreover have "r ! k = 0" if "i < k" "k < i + (b + 1)" "k < 256" for k
    using that inv assms(2) by (cases "k = i + b") (simp_all add: slide_inner_def)
  ultimately show ?thesis
    using inv by (simp add: slide_inner_def)
qed

lemma i8_byte: "- 128 \<le> x \<Longrightarrow> x \<le> 127 \<Longrightarrow> i8 x = x"
  by (rule i8_id) simp_all

lemma slide_window_inner:
  assumes "slide_inner a i b r" and "i + b \<le> 256" and "a < 2 ^ 255"
  shows "\<exists>c. slide_inner a i c (slide_window i b r) \<and> i + c \<le> 256"
  using assms(1,2)
proof (induction i b r rule: slide_window.induct)
  case (1 i b r)
  show ?case
  proof (cases "b \<le> 6 \<and> i + b < 256")
    case False
    then show ?thesis
      using 1(4,5) by (auto simp: slide_window.simps [of i b r])
  next
    case t: True
    have ib: "i + (b + 1) \<le> 256" "i + b < 256" using t by simp_all
    have l: "length r = 256" "i < 256" "- 15 \<le> r ! i" "r ! i \<le> 15"
      using 1(4) ib by (simp_all add: slide_inner_def bits_from_def)
    consider "r ! (i + b) = 0" | "r ! (i + b) = 1"
      using 1(4) ib by (auto simp: slide_inner_def bits_from_def)
    then show ?thesis
    proof cases
      case z: 1
      then show ?thesis
        using 1(3) [OF t _ slide_inner_skip [OF 1(4) z] ib(1)] t by (simp add: slide_window.simps [of i b r])
    next
      case o: 2
      have nz: "r ! (i + b) \<noteq> 0" and push: "push_bit b (r ! (i + b)) = 2 ^ b"
        using o by (simp_all add: push_bit_eq_mult)
      have pow: "(0 :: int) < 2 ^ b" by simp
      consider "r ! i + 2 ^ b \<le> 15" | "15 < r ! i + 2 ^ b" "- 15 \<le> r ! i - 2 ^ b"
        | "15 < r ! i + 2 ^ b" "r ! i - 2 ^ b < - 15"
        by linarith
      then show ?thesis
      proof cases
        case m: 1
        have i8: "i8 (r ! i + 2 ^ b) = r ! i + 2 ^ b"
          using l m pow by (intro i8_byte) linarith+
        have "slide_inner a i (b + 1) (r[i := i8 (r ! i + push_bit b (r ! (i + b))), i + b := 0])"
          unfolding push i8 by (rule slide_inner_merge [OF 1(4) ib(2) o m])
        then show ?thesis
          using 1(1) [OF t nz _ _ ib(1)] t nz m push by (simp add: slide_window.simps [of i b r])
      next
        case m: 2
        have i8: "i8 (r ! i - 2 ^ b) = r ! i - 2 ^ b"
          using l m pow by (intro i8_byte) linarith+
        have n: "\<not> r ! i + push_bit b (r ! (i + b)) \<le> 15" "- 15 \<le> r ! i - push_bit b (r ! (i + b))"
          using m by (simp_all add: push)
        have "slide_inner a i (b + 1) (slide_carry (r[i := i8 (r ! i - push_bit b (r ! (i + b)))]) (i + b))"
          unfolding push i8 by (rule slide_inner_borrow [OF 1(4) ib(2) o m assms(3)])
        then show ?thesis
          using 1(2) [OF t nz n _ ib(1)] t nz n by (simp add: slide_window.simps [of i b r])
      next
        case 3
        then have "slide_window i b r = r"
          using t nz by (simp add: slide_window.simps [of i b r] push)
        then show ?thesis
          using 1(4,5) by auto
      qed
    qed
  qed
qed

lemma slide_outer_step:
  assumes inv: "slide_outer a i r" and i: "i < 256" and a: "a < 2 ^ 255"
  shows "slide_outer a (i + 1) (if r ! i \<noteq> 0 then slide_window i 1 r else r)"
proof (cases "r ! i = 0")
  case True
  obtain w where w: "i \<le> w" "\<bar>radix 2 (take i r)\<bar> < 2 ^ w" "\<forall>k. i \<le> k \<and> k < w \<and> k < 256 \<longrightarrow> r ! k = 0"
    using inv by (auto simp: slide_outer_def)
  have l: "length r = 256" and b: "bits_from (i + 1) r"
    using inv by (auto simp: slide_outer_def dest: bits_from_D elim: bits_from_mono)
  have t: "radix 2 (take (i + 1) r) = radix 2 (take i r)"
    using i l True by (simp add: take_Suc_conv_app_nth radix_append)
  have "(2 :: int) ^ w \<le> 2 ^ max (i + 1) w"
    by (intro power_increasing) simp_all
  then have "\<bar>radix 2 (take (i + 1) r)\<bar> < 2 ^ max (i + 1) w"
    using w(2) unfolding t by linarith
  moreover have "\<forall>k. i + 1 \<le> k \<and> k < max (i + 1) w \<and> k < 256 \<longrightarrow> r ! k = 0"
    using w(3) by auto
  moreover have "\<forall>k<i + 1. slide_digit (r ! k)"
    using inv True by (auto simp: slide_outer_def slide_digit_def less_Suc_eq)
  ultimately show ?thesis
    using True inv b unfolding slide_outer_def
    by (auto intro: exI [of _ "max (i + 1) w"])
next
  case False
  obtain w where w: "i \<le> w" "\<bar>radix 2 (take i r)\<bar> < 2 ^ w" "\<forall>k. i \<le> k \<and> k < w \<and> k < 256 \<longrightarrow> r ! k = 0"
    using inv by (auto simp: slide_outer_def)
  have "w = i"
    using w(1,3) False i by (metis le_neq_implies_less le_refl)
  moreover have "bits_from (i + 1) r" "r ! i = 1"
    using inv i False by (auto simp: slide_outer_def bits_from_def)
  ultimately have "slide_inner a i 1 r"
    using inv w(2) by (auto simp: slide_outer_def slide_inner_def)
  then obtain c where c: "slide_inner a i c (slide_window i 1 r)" "i + c \<le> 256"
    using slide_window_inner [of a i 1 r] i a by auto
  define r' where "r' = slide_window i 1 r"
  note d = c(1) [folded r'_def, unfolded slide_inner_def]
  have l: "length r' = 256" using d by (simp add: bits_from_def)
  have c1: "\<bar>r' ! i\<bar> \<le> 2 ^ c - 1"
    using d by simp
  have "radix 2 (take (i + 1) r') = radix 2 (take i r') + 2 ^ i * r' ! i"
    using i l by (simp add: take_Suc_conv_app_nth radix_append min_absorb2)
  moreover have "\<bar>2 ^ i * r' ! i\<bar> \<le> 2 ^ i * (2 ^ c - 1)"
    unfolding abs_mult using c1 by (intro mult_mono) simp_all
  ultimately have "\<bar>radix 2 (take (i + 1) r')\<bar> < 2 ^ (i + c)"
    using d unfolding power_add right_diff_distrib by linarith
  moreover have "bits_from (i + 1) r'"
    unfolding bits_from_def
  proof (intro conjI allI impI)
    fix j
    assume j: "i + 1 \<le> j \<and> j < 256"
    then show "r' ! j = 0 \<or> r' ! j = 1"
      using d by (cases "j < i + c") (auto simp: bits_from_def)
  qed (rule l)
  moreover have "\<forall>k<i + 1. slide_digit (r' ! k)"
    using d by (auto simp: less_Suc_eq slide_digit_def)
  ultimately show ?thesis
    using False d unfolding slide_outer_def r'_def [symmetric]
    by (auto intro!: exI [of _ "i + c"])
qed

lemma slide_correct:
  assumes "length a = 32" and "le_val a < 2 ^ 255"
  shows "length (slide a) = 256" and "radix 2 (slide a) = le_val a" and "\<forall>k<256. slide_digit (slide a ! k)"
proof -
  have start: "slide_outer (le_val a) 0 (slide_bits a)"
    using slide_bits_correct [OF assms(1)] by (auto simp: slide_outer_def bits_from_def)
  have "slide_outer (le_val a) n (fold (\<lambda>i r. if r ! i \<noteq> 0 then slide_window i 1 r else r) [0..<n] (slide_bits a))"
    if "n \<le> 256" for n
    using that
  proof (induction n)
    case 0
    then show ?case using start by simp
  next
    case (Suc n)
    then show ?case
      using slide_outer_step [OF _ _ assms(2)] by simp
  qed
  from this [of 256] have "slide_outer (le_val a) 256 (slide a)"
    by (simp add: slide_def del: upt_rec_numeral)
  then show "length (slide a) = 256" "radix 2 (slide a) = le_val a" "\<forall>k<256. slide_digit (slide a ! k)"
    by (auto simp: slide_outer_def bits_from_def)
qed

end
