(* ===== verification/Ge_Scalarmult.thy ===== *)
theory Ge_Scalarmult
  imports Ge_Recode Ge_Ops Ge_Table
begin

text \<open>
  The scalar multiplications of \<^verbatim>\<open>crypto-ops.c\<close>: the constant-time table lookups,
  \<^verbatim>\<open>ge_scalarmult_base\<close>, \<^verbatim>\<open>ge_scalarmult\<close>, and the two double multiplications over
  sliding windows. A result is stated as a multiple (\<open>ed_multiple\<close>) or as a linear combination
  (\<open>ed_lin\<close>) with the values of the scalars as coefficients.
\<close>

section \<open>Constant-time selection\<close>

definition equal :: "int \<Rightarrow> int \<Rightarrow> int" where
  "equal b c =
    (let ub = (word_of_int b :: byte);
         uc = (word_of_int c :: byte);
         x = ub XOR uc;
         y = (ucast x :: u32);
         y = y - 1;
         y = drop_bit 31 y
     in uint (ucast y :: byte))"

definition negative :: "int \<Rightarrow> int" where
  "negative b =
    (let x = (word_of_int b :: u64);
         x = drop_bit 63 x
     in uint (ucast x :: byte))"

definition digit_abs :: "int \<Rightarrow> int" where
  "digit_abs b = uint (word_of_int (b - push_bit 1 ((- negative b) AND b)) :: byte)"

definition ge_precomp_cmov :: "ge_precomp \<Rightarrow> ge_precomp \<Rightarrow> int \<Rightarrow> ge_precomp" where
  "ge_precomp_cmov t u b =
     \<lparr> yplusx = fe_cmov (yplusx t) (yplusx u) b,
       yminusx = fe_cmov (yminusx t) (yminusx u) b,
       xy2d = fe_cmov (xy2d t) (xy2d u) b \<rparr>"

definition ge_cached_cmov :: "ge_cached \<Rightarrow> ge_cached \<Rightarrow> int \<Rightarrow> ge_cached" where
  "ge_cached_cmov t u b =
     \<lparr> YplusX = fe_cmov (YplusX t) (YplusX u) b,
       YminusX = fe_cmov (YminusX t) (YminusX u) b,
       cachedZ = fe_cmov (cachedZ t) (cachedZ u) b,
       T2d = fe_cmov (T2d t) (T2d u) b \<rparr>"

definition select :: "nat \<Rightarrow> int \<Rightarrow> ge_precomp" where
  "select pos b =
    (let bnegative = negative b;
         babs = digit_abs b;
         t = ge_precomp_0;
         t = ge_precomp_cmov t (ge_base ! pos ! 0) (equal (i8 babs) 1);
         t = ge_precomp_cmov t (ge_base ! pos ! 1) (equal (i8 babs) 2);
         t = ge_precomp_cmov t (ge_base ! pos ! 2) (equal (i8 babs) 3);
         t = ge_precomp_cmov t (ge_base ! pos ! 3) (equal (i8 babs) 4);
         t = ge_precomp_cmov t (ge_base ! pos ! 4) (equal (i8 babs) 5);
         t = ge_precomp_cmov t (ge_base ! pos ! 5) (equal (i8 babs) 6);
         t = ge_precomp_cmov t (ge_base ! pos ! 6) (equal (i8 babs) 7);
         t = ge_precomp_cmov t (ge_base ! pos ! 7) (equal (i8 babs) 8);
         minust = \<lparr> yplusx = fe_copy (yminusx t), yminusx = fe_copy (yplusx t), xy2d = fe_neg (xy2d t) \<rparr>
     in ge_precomp_cmov t minust bnegative)"

text \<open>The body of the loop of \<^verbatim>\<open>ge_scalarmult\<close> that looks the digit up.\<close>

definition cached_select :: "ge_cached list \<Rightarrow> int \<Rightarrow> ge_cached" where
  "cached_select Ai b =
    (let bnegative = negative b;
         babs = digit_abs b;
         cur = ge_cached_0;
         cur = ge_cached_cmov cur (Ai ! 0) (equal (i8 babs) 1);
         cur = ge_cached_cmov cur (Ai ! 1) (equal (i8 babs) 2);
         cur = ge_cached_cmov cur (Ai ! 2) (equal (i8 babs) 3);
         cur = ge_cached_cmov cur (Ai ! 3) (equal (i8 babs) 4);
         cur = ge_cached_cmov cur (Ai ! 4) (equal (i8 babs) 5);
         cur = ge_cached_cmov cur (Ai ! 5) (equal (i8 babs) 6);
         cur = ge_cached_cmov cur (Ai ! 6) (equal (i8 babs) 7);
         cur = ge_cached_cmov cur (Ai ! 7) (equal (i8 babs) 8);
         minuscur = \<lparr> YplusX = fe_copy (YminusX cur), YminusX = fe_copy (YplusX cur),
           cachedZ = fe_copy (cachedZ cur), T2d = fe_neg (T2d cur) \<rparr>
     in ge_cached_cmov cur minuscur bnegative)"

lemma equal_eq:
  assumes "0 \<le> b" "b \<le> 127" "0 \<le> c" "c \<le> 127"
  shows "equal b c = (if b = c then 1 else 0)"
proof (cases "b = c")
  case True
  then show ?thesis by (simp add: equal_def Let_def)
next
  case False
  define x where "x = (word_of_int b :: byte) XOR word_of_int c"
  have u: "uint (word_of_int b :: byte) = b" "uint (word_of_int c :: byte) = c"
    using assms by (simp_all add: uint_word_of_int)
  have "x \<noteq> 0"
  proof
    assume "x = 0"
    moreover have "word_of_int b = x XOR (word_of_int c :: byte)"
      unfolding x_def by (simp only: xor.assoc xor_self_eq xor.right_neutral)
    ultimately have "(word_of_int b :: byte) = word_of_int c"
      by (simp only: xor.left_neutral)
    then show False using u False by simp
  qed
  then have "0 < uint x"
    by (metis uint_0_iff uint_nonnegative order_le_less)
  then have x: "1 \<le> uint x" "uint x < 256"
    using uint_lt2p [of x] by simp_all
  define y where "y = (ucast x :: u32) - 1"
  have "uint (ucast x :: u32) = uint x"
    by (rule uint_up_ucast) (simp add: is_up)
  then have y: "uint y = uint x - 1"
    using x unfolding y_def by (simp only: uint_word_ariths uint_1) simp
  have "uint (drop_bit 31 y) = 0"
    unfolding uint_drop_word y using x by simp
  then have "drop_bit 31 y = 0"
    by (simp only: uint_0_iff)
  then show ?thesis
    using False by (simp only: equal_def Let_def x_def [symmetric] y_def [symmetric]) simp
qed

lemma negative_eq:
  assumes "- 128 \<le> b" "b \<le> 127"
  shows "negative b = (if b < 0 then 1 else 0)"
proof -
  have "b mod 2 ^ 64 = (if b < 0 then b + 2 ^ 64 else b)"
    using assms mod_pos_pos_trivial [of "b + 2 ^ 64" "2 ^ 64"] by simp
  then have "uint (drop_bit 63 (word_of_int b :: u64)) = (if b < 0 then 1 else 0)"
    unfolding uint_drop_word uint_word_of_int using assms
    by (auto intro!: div_pos_pos_trivial int_div_pos_eq [of _ _ _ "b + 2 ^ 63"])
  then have "drop_bit 63 (word_of_int b :: u64) = (if b < 0 then 1 else 0)"
    by (simp add: uint_0_iff word_uint_eq_iff del: uint_0_iff split: if_splits)
  then show ?thesis
    by (simp add: negative_def Let_def)
qed

lemma digit_abs_eq:
  assumes "- 127 \<le> b" "b \<le> 127"
  shows "digit_abs b = \<bar>b\<bar>"
proof -
  have "b - push_bit 1 ((- negative b) AND b) = \<bar>b\<bar>"
    using assms by (simp add: negative_eq push_bit_eq_mult)
  then show ?thesis
    using assms by (simp only: digit_abs_def uint_word_of_int) simp
qed


text \<open>A selection is a plain lookup of the digit, with the sign applied.\<close>

definition precomp_neg :: "ge_precomp \<Rightarrow> ge_precomp" where
  "precomp_neg t = \<lparr> yplusx = yminusx t, yminusx = yplusx t, xy2d = fe_neg (xy2d t) \<rparr>"

definition cached_neg :: "ge_cached \<Rightarrow> ge_cached" where
  "cached_neg t = \<lparr> YplusX = YminusX t, YminusX = YplusX t, cachedZ = cachedZ t, T2d = fe_neg (T2d t) \<rparr>"

definition precomp_lookup :: "ge_precomp list \<Rightarrow> int \<Rightarrow> ge_precomp" where
  "precomp_lookup row d =
    (let t = if d = 0 then ge_precomp_0 else row ! nat (\<bar>d\<bar> - 1)
     in if d < 0 then precomp_neg t else t)"

definition cached_lookup :: "ge_cached list \<Rightarrow> int \<Rightarrow> ge_cached" where
  "cached_lookup row d =
    (let t = if d = 0 then ge_cached_0 else row ! nat (\<bar>d\<bar> - 1)
     in if d < 0 then cached_neg t else t)"

definition precomp_int32 :: "ge_precomp \<Rightarrow> bool" where
  "precomp_int32 t \<longleftrightarrow> fe_int32 (yplusx t) \<and> fe_int32 (yminusx t) \<and> fe_int32 (xy2d t)"

definition cached_int32 :: "ge_cached \<Rightarrow> bool" where
  "cached_int32 t \<longleftrightarrow> fe_int32 (YplusX t) \<and> fe_int32 (YminusX t) \<and> fe_int32 (cachedZ t) \<and> fe_int32 (T2d t)"

lemma fe_int32_neg [simp]: "fe_int32 (fe_neg f)"
  by (cases f) (simp add: fe_neg_def i32_i32)

lemma fe_int32_01 [simp]: "fe_int32 fe_0" "fe_int32 fe_1"
  using fe_bd_int32 [of 33889976 16944988] fe_101_25_0 fe_101_25_1 by (auto simp: fe_101_25_def)

lemma precomp_int32_simps [simp]: "precomp_int32 ge_precomp_0" "precomp_int32 t \<Longrightarrow> precomp_int32 (precomp_neg t)"
  by (simp_all add: precomp_int32_def ge_precomp_0_def precomp_neg_def)

lemma cached_int32_simps [simp]: "cached_int32 ge_cached_0" "cached_int32 t \<Longrightarrow> cached_int32 (cached_neg t)"
  by (simp_all add: cached_int32_def ge_cached_0_def cached_neg_def)

lemma precomp_cmov [simp]:
  "precomp_int32 t \<Longrightarrow> ge_precomp_cmov t u 0 = t"
  "precomp_int32 t \<Longrightarrow> precomp_int32 u \<Longrightarrow> ge_precomp_cmov t u 1 = u"
  by (simp_all add: ge_precomp_cmov_def precomp_int32_def fe_cmov_0 fe_cmov_1)

lemma cached_cmov [simp]:
  "cached_int32 t \<Longrightarrow> ge_cached_cmov t u 0 = t"
  "cached_int32 t \<Longrightarrow> cached_int32 u \<Longrightarrow> ge_cached_cmov t u 1 = u"
  by (simp_all add: ge_cached_cmov_def cached_int32_def fe_cmov_0 fe_cmov_1)

lemma cached_cmov_if:
  "cached_int32 t \<Longrightarrow> ge_cached_cmov t (cached_neg t) (if P then 1 else 0) = (if P then cached_neg t else t)"
  by simp

lemma precomp_cmov_if:
  "precomp_int32 t \<Longrightarrow> ge_precomp_cmov t (precomp_neg t) (if P then 1 else 0) = (if P then precomp_neg t else t)"
  by simp

lemma all_less_8: "(\<forall>j<8. P j) \<longleftrightarrow> P 0 \<and> P 1 \<and> P 2 \<and> P 3 \<and> P 4 \<and> P 5 \<and> P 6 \<and> P (7 :: nat)"
  by (simp add: numeral_eq_Suc All_less_Suc conj_ac)

text \<open>The chain of eight conditional moves.\<close>

lemma digit_equal:
  assumes "- 8 \<le> d" "d \<le> 8" "0 \<le> j" "j \<le> 8"
  shows "equal (i8 (digit_abs d)) j = (if \<bar>d\<bar> = j then 1 else 0)"
proof -
  have "digit_abs d = \<bar>d\<bar>"
    using assms by (intro digit_abs_eq) simp_all
  moreover have "i8 \<bar>d\<bar> = \<bar>d\<bar>"
    using assms by (intro i8_id) simp_all
  moreover have "equal \<bar>d\<bar> j = (if \<bar>d\<bar> = j then 1 else 0)"
    using assms by (intro equal_eq) simp_all
  ultimately show ?thesis by simp
qed

lemma digit_equal_8:
  assumes "- 8 \<le> d" "d \<le> 8"
  shows "equal (i8 (digit_abs d)) 1 = (if \<bar>d\<bar> = 1 then 1 else 0)"
    "equal (i8 (digit_abs d)) 2 = (if \<bar>d\<bar> = 2 then 1 else 0)"
    "equal (i8 (digit_abs d)) 3 = (if \<bar>d\<bar> = 3 then 1 else 0)"
    "equal (i8 (digit_abs d)) 4 = (if \<bar>d\<bar> = 4 then 1 else 0)"
    "equal (i8 (digit_abs d)) 5 = (if \<bar>d\<bar> = 5 then 1 else 0)"
    "equal (i8 (digit_abs d)) 6 = (if \<bar>d\<bar> = 6 then 1 else 0)"
    "equal (i8 (digit_abs d)) 7 = (if \<bar>d\<bar> = 7 then 1 else 0)"
    "equal (i8 (digit_abs d)) 8 = (if \<bar>d\<bar> = 8 then 1 else 0)"
  by (rule digit_equal; use assms in simp)+

lemma precomp_chain:
  assumes "0 \<le> k" "k \<le> (8 :: int)" and "\<forall>j<8. precomp_int32 (A ! j)"
  shows "ge_precomp_cmov (ge_precomp_cmov (ge_precomp_cmov (ge_precomp_cmov (ge_precomp_cmov (ge_precomp_cmov (ge_precomp_cmov (ge_precomp_cmov (ge_precomp_0) (A ! 0) (if k = 1 then 1 else 0)) (A ! 1) (if k = 2 then 1 else 0)) (A ! 2) (if k = 3 then 1 else 0)) (A ! 3) (if k = 4 then 1 else 0)) (A ! 4) (if k = 5 then 1 else 0)) (A ! 5) (if k = 6 then 1 else 0)) (A ! 6) (if k = 7 then 1 else 0)) (A ! 7) (if k = 8 then 1 else 0) =
    (if k = 0 then ge_precomp_0 else A ! nat (k - 1))"
proof -
  have i: "precomp_int32 (A ! 0)" "precomp_int32 (A ! 1)" "precomp_int32 (A ! 2)" "precomp_int32 (A ! 3)"
    "precomp_int32 (A ! 4)" "precomp_int32 (A ! 5)" "precomp_int32 (A ! 6)" "precomp_int32 (A ! 7)"
    using assms(3) by (simp_all add: all_less_8)
  have "k = 0 \<or> k = 1 \<or> k = 2 \<or> k = 3 \<or> k = 4 \<or> k = 5 \<or> k = 6 \<or> k = 7 \<or> k = 8"
    using assms(1,2) by presburger
  then show ?thesis
    by (elim disjE) (simp_all add: i i [simplified])
qed

lemma cached_chain:
  assumes "0 \<le> k" "k \<le> (8 :: int)" and "\<forall>j<8. cached_int32 (A ! j)"
  shows "ge_cached_cmov (ge_cached_cmov (ge_cached_cmov (ge_cached_cmov (ge_cached_cmov (ge_cached_cmov (ge_cached_cmov (ge_cached_cmov (ge_cached_0) (A ! 0) (if k = 1 then 1 else 0)) (A ! 1) (if k = 2 then 1 else 0)) (A ! 2) (if k = 3 then 1 else 0)) (A ! 3) (if k = 4 then 1 else 0)) (A ! 4) (if k = 5 then 1 else 0)) (A ! 5) (if k = 6 then 1 else 0)) (A ! 6) (if k = 7 then 1 else 0)) (A ! 7) (if k = 8 then 1 else 0) =
    (if k = 0 then ge_cached_0 else A ! nat (k - 1))"
proof -
  have i: "cached_int32 (A ! 0)" "cached_int32 (A ! 1)" "cached_int32 (A ! 2)" "cached_int32 (A ! 3)"
    "cached_int32 (A ! 4)" "cached_int32 (A ! 5)" "cached_int32 (A ! 6)" "cached_int32 (A ! 7)"
    using assms(3) by (simp_all add: all_less_8)
  have "k = 0 \<or> k = 1 \<or> k = 2 \<or> k = 3 \<or> k = 4 \<or> k = 5 \<or> k = 6 \<or> k = 7 \<or> k = 8"
    using assms(1,2) by presburger
  then show ?thesis
    by (elim disjE) (simp_all add: i i [simplified])
qed

lemma int32_nth:
  assumes "\<forall>j<8. cached_int32 (A ! j)" and "0 \<le> k" "k \<le> (8 :: int)"
  shows "cached_int32 (if k = 0 then ge_cached_0 else A ! nat (k - 1))"
  using assms by auto

lemma precomp_int32_nth:
  assumes "\<forall>j<8. precomp_int32 (A ! j)" and "0 \<le> k" "k \<le> (8 :: int)"
  shows "precomp_int32 (if k = 0 then ge_precomp_0 else A ! nat (k - 1))"
  using assms by auto

lemma cached_select_eq:
  assumes "- 8 \<le> d" "d \<le> 8" and "\<forall>j<8. cached_int32 (Ai ! j)"
  shows "cached_select Ai d = cached_lookup Ai d"
proof -
  have d: "0 \<le> \<bar>d\<bar>" "\<bar>d\<bar> \<le> 8" "d = 0 \<longleftrightarrow> \<bar>d\<bar> = 0"
    using assms(1,2) by auto
  note e8 = digit_equal_8 [OF assms(1,2)]
  have n: "negative d = (if d < 0 then 1 else 0)"
    using assms by (intro negative_eq) simp_all
  show ?thesis
    unfolding cached_select_def cached_lookup_def Let_def e8 n cached_chain [OF d(1,2) assms(3)] d(3) fe_copy_eq
    unfolding cached_neg_def [symmetric]
    by (rule cached_cmov_if [OF int32_nth [OF assms(3) d(1,2)]])
qed

lemma select_eq:
  assumes "- 8 \<le> d" "d \<le> 8" and "\<forall>j<8. precomp_int32 (ge_base ! pos ! j)"
  shows "select pos d = precomp_lookup (ge_base ! pos) d"
proof -
  have d: "0 \<le> \<bar>d\<bar>" "\<bar>d\<bar> \<le> 8" "d = 0 \<longleftrightarrow> \<bar>d\<bar> = 0"
    using assms(1,2) by auto
  note e8 = digit_equal_8 [OF assms(1,2)]
  have n: "negative d = (if d < 0 then 1 else 0)"
    using assms by (intro negative_eq) simp_all
  show ?thesis
    unfolding select_def precomp_lookup_def Let_def e8 n precomp_chain [OF d(1,2) assms(3)] d(3) fe_copy_eq
    unfolding precomp_neg_def [symmetric]
    by (rule precomp_cmov_if [OF precomp_int32_nth [OF assms(3) d(1,2)]])
qed


section \<open>Scalar multiplications\<close>

definition ge_scalarmult_base :: "byte list \<Rightarrow> ge_p3" where
  "ge_scalarmult_base a =
    (let e = base_digits a;
         h = fold (\<lambda>k h. ge_p1p1_to_p3 (ge_madd h (select ((2 * k + 1) div 2) (e ! (2 * k + 1))))) [0..<32] ge_p3_0;
         s = ge_p1p1_to_p2 (ge_p3_dbl h);
         s = ge_p1p1_to_p2 (ge_p2_dbl s);
         s = ge_p1p1_to_p2 (ge_p2_dbl s);
         h = ge_p1p1_to_p3 (ge_p2_dbl s)
     in fold (\<lambda>k h. ge_p1p1_to_p3 (ge_madd h (select (2 * k div 2) (e ! (2 * k))))) [0..<32] h)"

primrec cached_multiples :: "nat \<Rightarrow> ge_p3 \<Rightarrow> ge_cached list" where
  "cached_multiples 0 A = [ge_p3_to_cached A]"
| "cached_multiples (Suc i) A =
    (let Ai = cached_multiples i A
     in Ai @ [ge_p3_to_cached (ge_p1p1_to_p3 (ge_add A (Ai ! i)))])"

definition ge_scalarmult :: "byte list \<Rightarrow> ge_p3 \<Rightarrow> ge_p2" where
  "ge_scalarmult a A =
    (let e = point_digits a;
         Ai = cached_multiples 7 A
     in fold (\<lambda>i r.
         let b = e ! i;
             r = ge_p1p1_to_p2 (ge_p2_dbl r);
             r = ge_p1p1_to_p2 (ge_p2_dbl r);
             r = ge_p1p1_to_p2 (ge_p2_dbl r);
             u = ge_p1p1_to_p3 (ge_p2_dbl r);
             cur = cached_select Ai b
         in ge_p1p1_to_p2 (ge_add u cur)) (rev [0..<64]) ge_p2_0)"

definition ge_dsm_precomp :: "ge_p3 \<Rightarrow> ge_cached list" where
  "ge_dsm_precomp s =
    (let r0 = ge_p3_to_cached s;
         s2 = ge_p1p1_to_p3 (ge_p3_dbl s);
         r1 = ge_p3_to_cached (ge_p1p1_to_p3 (ge_add s2 r0));
         r2 = ge_p3_to_cached (ge_p1p1_to_p3 (ge_add s2 r1));
         r3 = ge_p3_to_cached (ge_p1p1_to_p3 (ge_add s2 r2));
         r4 = ge_p3_to_cached (ge_p1p1_to_p3 (ge_add s2 r3));
         r5 = ge_p3_to_cached (ge_p1p1_to_p3 (ge_add s2 r4));
         r6 = ge_p3_to_cached (ge_p1p1_to_p3 (ge_add s2 r5));
         r7 = ge_p3_to_cached (ge_p1p1_to_p3 (ge_add s2 r6))
     in [r0, r1, r2, r3, r4, r5, r6, r7])"

text \<open>The first loop of the double multiplications: one more than the last nonzero index.\<close>

primrec dsm_top :: "int list \<Rightarrow> int list \<Rightarrow> nat \<Rightarrow> nat" where
  "dsm_top aslide bslide 0 = 0"
| "dsm_top aslide bslide (Suc i) =
    (if aslide ! i \<noteq> 0 \<or> bslide ! i \<noteq> 0 then Suc i else dsm_top aslide bslide i)"

definition dsm_cached :: "ge_cached list \<Rightarrow> int \<Rightarrow> ge_p1p1 \<Rightarrow> ge_p1p1" where
  "dsm_cached Ai d t =
    (if 0 < d then let u = ge_p1p1_to_p3 t in ge_add u (Ai ! nat (d div 2))
     else if d < 0 then let u = ge_p1p1_to_p3 t in ge_sub u (Ai ! nat ((- d) div 2))
     else t)"

definition dsm_base :: "int \<Rightarrow> ge_p1p1 \<Rightarrow> ge_p1p1" where
  "dsm_base d t =
    (if 0 < d then let u = ge_p1p1_to_p3 t in ge_madd u (ge_Bi ! nat (d div 2))
     else if d < 0 then let u = ge_p1p1_to_p3 t in ge_msub u (ge_Bi ! nat ((- d) div 2))
     else t)"

definition ge_double_scalarmult_base_vartime :: "byte list \<Rightarrow> ge_p3 \<Rightarrow> byte list \<Rightarrow> ge_p2" where
  "ge_double_scalarmult_base_vartime a A b =
    (let aslide = slide a;
         bslide = slide b;
         Ai = ge_dsm_precomp A
     in fold (\<lambda>i r. ge_p1p1_to_p2 (dsm_base (bslide ! i) (dsm_cached Ai (aslide ! i) (ge_p2_dbl r))))
          (rev [0..<dsm_top aslide bslide 256]) ge_p2_0)"

definition ge_double_scalarmult_precomp_vartime ::
    "byte list \<Rightarrow> ge_p3 \<Rightarrow> byte list \<Rightarrow> ge_cached list \<Rightarrow> ge_p2" where
  "ge_double_scalarmult_precomp_vartime a A b Bi =
    (let aslide = slide a;
         bslide = slide b;
         Ai = ge_dsm_precomp A
     in fold (\<lambda>i r. ge_p1p1_to_p2 (dsm_cached Bi (bslide ! i) (dsm_cached Ai (aslide ! i) (ge_p2_dbl r))))
          (rev [0..<dsm_top aslide bslide 256]) ge_p2_0)"

subsection \<open>Lookups of multiples\<close>

lemma fe_rep_int32: "fe_rep n f x \<Longrightarrow> n \<le> 2 \<Longrightarrow> fe_int32 f"
  by (drule (1) fe_rep_mono) (auto simp: fe_rep_def intro: fe_bd_int32)

lemma cached_in_int32: "cached_in S q \<Longrightarrow> cached_int32 q"
  unfolding cached_in_def cached_int32_def by (auto elim!: fe_rep_int32)

lemma precomp_in_int32: "precomp_in S q \<Longrightarrow> precomp_int32 q"
  unfolding precomp_in_def precomp_int32_def by (auto elim!: fe_rep_int32)

context point_span begin

lemma cached_neg_in: "cached_in (span c) q \<Longrightarrow> cached_in (span (uminus c)) (cached_neg q)"
proof -
  assume "cached_in (span c) q"
  then obtain X Y Z T where s: "span c (X, Y, Z, T)" and r: "cached_rep q (X, Y, Z, T)"
    unfolding cached_in_def by (metis prod_cases4)
  have "cached_rep (cached_neg q) (- X, Y, Z, - T)"
    using r fe_rep_neg [of 1 "T2d q" "2 * ed_d * T"] by (simp add: cached_neg_def)
  then show ?thesis
    using span_neg [OF s] unfolding cached_in_def by (intro exI [of _ "(- X, Y, Z, - T)"]) simp
qed

lemma precomp_neg_in: "precomp_in (span c) q \<Longrightarrow> precomp_in (span (uminus c)) (precomp_neg q)"
proof -
  assume "precomp_in (span c) q"
  then obtain X Y Z T where s: "span c (X, Y, Z, T)" and r: "precomp_rep q (X, Y, Z, T)"
    unfolding precomp_in_def by (metis prod_cases4)
  have "precomp_rep (precomp_neg q) (- X, Y, Z, - T)"
    using r fe_rep_neg [of 1 "xy2d q" "2 * ed_d * T"] by (simp add: precomp_neg_def)
  then show ?thesis
    using span_neg [OF s] unfolding precomp_in_def by (intro exI [of _ "(- X, Y, Z, - T)"]) simp
qed

end

lemma digit_index: "0 \<noteq> d \<Longrightarrow> - 8 \<le> d \<Longrightarrow> d \<le> 8 \<Longrightarrow> nat (\<bar>d\<bar> - 1) < 8 \<and> int (nat (\<bar>d\<bar> - 1)) + 1 = \<bar>d\<bar>" for d :: int
  by auto

lemma cached_lookup_in:
  assumes "\<forall>j<8. cached_in (ed_multiple B ((int j + 1) * m)) (A ! j)" and "- 8 \<le> d" "d \<le> 8"
  shows "cached_in (ed_multiple B (d * m)) (cached_lookup A d)"
proof (cases "d = 0")
  case True
  then show ?thesis
    using mult.ge_zero_in(4) by (simp add: cached_lookup_def Let_def)
next
  case False
  note i = digit_index [OF False [symmetric] assms(2,3)]
  have "cached_in (ed_multiple B (\<bar>d\<bar> * m)) (A ! nat (\<bar>d\<bar> - 1))"
    using assms(1) i by metis
  then show ?thesis
    using False mult.cached_neg_in [of B "\<bar>d\<bar> * m"] by (auto simp: cached_lookup_def Let_def abs_if split: if_splits)
qed

lemma precomp_lookup_in:
  assumes "\<forall>j<8. precomp_in (ed_multiple B ((int j + 1) * m)) (A ! j)" and "- 8 \<le> d" "d \<le> 8"
  shows "precomp_in (ed_multiple B (d * m)) (precomp_lookup A d)"
proof (cases "d = 0")
  case True
  then show ?thesis
    using mult.ge_zero_in(3) by (simp add: precomp_lookup_def Let_def)
next
  case False
  note i = digit_index [OF False [symmetric] assms(2,3)]
  have "precomp_in (ed_multiple B (\<bar>d\<bar> * m)) (A ! nat (\<bar>d\<bar> - 1))"
    using assms(1) i by metis
  then show ?thesis
    using False mult.precomp_neg_in [of B "\<bar>d\<bar> * m"] by (auto simp: precomp_lookup_def Let_def abs_if split: if_splits)
qed


lemma cached_multiples_in:
  assumes "p3_in (ed_multiple B m) A"
  shows "length (cached_multiples n A) = Suc n \<and>
    (\<forall>j\<le>n. cached_in (ed_multiple B ((int j + 1) * m)) (cached_multiples n A ! j))"
proof (induction n)
  case 0
  then show ?case
    using ge_p3_to_cached_in [OF assms] by simp
next
  case (Suc n)
  have "cached_in (ed_multiple B (m + (int n + 1) * m))
    (ge_p3_to_cached (ge_p1p1_to_p3 (ge_add A (cached_multiples n A ! n))))"
    using Suc by (intro ge_p3_to_cached_in ge_p1p1_to_p3_in mult.ge_add_in assms) simp
  moreover have "m + (int n + 1) * m = (int (Suc n) + 1) * m"
    by (simp add: algebra_simps)
  ultimately show ?case
    using Suc by (auto simp: Let_def nth_append le_Suc_eq)
qed

lemma ge_dsm_precomp_in:
  assumes "p3_in (ed_multiple B m) s"
  shows "\<forall>j<8. cached_in (ed_multiple B ((2 * int j + 1) * m)) (ge_dsm_precomp s ! j)"
proof -
  define s2 where "s2 = ge_p1p1_to_p3 (ge_p3_dbl s)"
  have s2: "p3_in (ed_multiple B (m + m)) s2"
    unfolding s2_def by (intro ge_p1p1_to_p3_in mult.ge_p3_dbl_in assms)
  define r where "r j = ((\<lambda>q. ge_p3_to_cached (ge_p1p1_to_p3 (ge_add s2 q))) ^^ j) (ge_p3_to_cached s)" for j
  have r: "cached_in (ed_multiple B ((2 * int j + 1) * m)) (r j)" for j
  proof (induction j)
    case 0
    then show ?case by (simp add: r_def ge_p3_to_cached_in assms)
  next
    case (Suc j)
    have "cached_in (ed_multiple B (m + m + (2 * int j + 1) * m)) (ge_p3_to_cached (ge_p1p1_to_p3 (ge_add s2 (r j))))"
      by (intro ge_p3_to_cached_in ge_p1p1_to_p3_in mult.ge_add_in s2 Suc)
    then show ?case
      by (simp add: r_def algebra_simps)
  qed
  have "ge_dsm_precomp s = [r 0, r 1, r 2, r 3, r 4, r 5, r 6, r 7]"
    by (simp add: ge_dsm_precomp_def r_def Let_def numeral_eq_Suc flip: s2_def)
  then show ?thesis
    using r [of 0] r [of 1] r [of 2] r [of 3] r [of 4] r [of 5] r [of 6] r [of 7] by (simp add: all_less_8)
qed

subsection \<open>The loops\<close>

lemma drop_radix: "i < length xs \<Longrightarrow> radix b (drop i xs) = xs ! i + b * radix b (drop (Suc i) xs)"
  by (metis Cons_nth_drop_Suc radix.simps(2))

text \<open>A loop from the top index downwards.\<close>

lemma fold_down:
  assumes "\<And>i r. i < n \<Longrightarrow> P (Suc i) r \<Longrightarrow> P i (f i r)" and "P n r"
  shows "P 0 (fold f (rev [0..<n]) r)"
  using assms
proof (induction n arbitrary: r)
  case (Suc n)
  then show ?case by (simp add: less_Suc_eq)
qed simp

lemma four_doublings:
  assumes "p2_in (ed_multiple B m) r"
  shows "p1p1_in (ed_multiple B (16 * m)) (ge_p2_dbl (ge_p1p1_to_p2 (ge_p2_dbl (ge_p1p1_to_p2
    (ge_p2_dbl (ge_p1p1_to_p2 (ge_p2_dbl r)))))))"
proof -
  have "p1p1_in (ed_multiple B (m + m + (m + m) + (m + m + (m + m)) + (m + m + (m + m) + (m + m + (m + m)))))
    (ge_p2_dbl (ge_p1p1_to_p2 (ge_p2_dbl (ge_p1p1_to_p2 (ge_p2_dbl (ge_p1p1_to_p2 (ge_p2_dbl r)))))))"
    by (intro mult.ge_p2_dbl_in ge_p1p1_to_p2_in assms)
  then show ?thesis by simp
qed

lemma ge_scalarmult_in:
  assumes "length a = 32" and "uint (a ! 31) \<le> 127" and A: "p3_in (ed_multiple B m) A"
  shows "p2_in (ed_multiple B (le_val a * m)) (ge_scalarmult a A)"
proof -
  define e where "e = point_digits a"
  define Ai where "Ai = cached_multiples 7 A"
  note digits = point_digits_correct [OF assms(1,2), folded e_def]
  have e: "- 8 \<le> e ! i \<and> e ! i \<le> 8" if "i < 64" for i
    using digits that by (simp add: signed_digits_def)
  have tab: "\<forall>j<8. cached_in (ed_multiple B ((int j + 1) * m)) (Ai ! j)"
    using cached_multiples_in [OF A, of 7] by (simp add: Ai_def)
  then have tab32: "\<forall>j<8. cached_int32 (Ai ! j)"
    by (blast intro: cached_in_int32)
  define step where "step i r = (let b = e ! i;
             r = ge_p1p1_to_p2 (ge_p2_dbl r);
             r = ge_p1p1_to_p2 (ge_p2_dbl r);
             r = ge_p1p1_to_p2 (ge_p2_dbl r);
             u = ge_p1p1_to_p3 (ge_p2_dbl r);
             cur = cached_select Ai b
         in ge_p1p1_to_p2 (ge_add u cur))" for i r
  have "p2_in (ed_multiple B (radix 16 (drop 0 e) * m)) (fold step (rev [0..<64]) ge_p2_0)"
  proof (rule fold_down [where P = "\<lambda>i. p2_in (ed_multiple B (radix 16 (drop i e) * m))"])
    fix i r
    assume i: "i < 64" and r: "p2_in (ed_multiple B (radix 16 (drop (Suc i) e) * m)) r"
    have "p2_in (ed_multiple B (16 * (radix 16 (drop (Suc i) e) * m) + e ! i * m)) (step i r)"
      unfolding step_def Let_def cached_select_eq [OF conjunct1 [OF e [OF i]] conjunct2 [OF e [OF i]] tab32]
      using e [OF i]
      by (intro ge_p1p1_to_p2_in mult.ge_add_in ge_p1p1_to_p3_in four_doublings r cached_lookup_in tab) simp_all
    then show "p2_in (ed_multiple B (radix 16 (drop i e) * m)) (step i r)"
      using i digits by (simp add: drop_radix algebra_simps)
  next
    show "p2_in (ed_multiple B (radix 16 (drop 64 e) * m)) ge_p2_0"
      using mult.ge_zero_in(2) digits by simp
  qed
  then show ?thesis
    unfolding ge_scalarmult_def Let_def step_def e_def [symmetric] Ai_def [symmetric]
    using digits by simp
qed


subsection \<open>The base point\<close>

text \<open>What the tables hold: multiples of the base point.\<close>

definition base_table :: "ext \<Rightarrow> bool" where
  "base_table B \<longleftrightarrow> (\<forall>i<32. \<forall>j<8. precomp_in (ed_multiple B ((int j + 1) * 256 ^ i)) (ge_base ! i ! j))"

definition odd_table :: "ext \<Rightarrow> bool" where
  "odd_table B \<longleftrightarrow> (\<forall>j<8. precomp_in (ed_multiple B (2 * int j + 1)) (ge_Bi ! j))"

lemma ge_base_int32: "i < 32 \<Longrightarrow> j < 8 \<Longrightarrow> precomp_int32 (ge_base ! i ! j)"
proof -
  assume "i < 32" "j < 8"
  then have "precomp_range (ge_base ! i ! j)"
    using ge_base_range length_ge_base by (metis nth_mem)
  then show ?thesis
    by (auto simp: precomp_range_def precomp_int32_def fe_101_25_def intro: fe_bd_int32)
qed

lemma select_lookup:
  assumes "pos < 32" and "- 8 \<le> d" "d \<le> 8"
  shows "select pos d = precomp_lookup (ge_base ! pos) d"
  by (intro select_eq assms allI impI ge_base_int32)

lemma select_in:
  assumes "base_table B" and "pos < 32" and "- 8 \<le> d" "d \<le> 8"
  shows "precomp_in (ed_multiple B (d * 256 ^ pos)) (select pos d)"
  unfolding select_lookup [OF assms(2-4)] using assms
  by (intro precomp_lookup_in) (simp_all add: base_table_def)

lemma radix_pairs:
  "length e = 2 * n \<Longrightarrow> radix 16 e =
    radix 256 (map (\<lambda>k. e ! (2 * k)) [0..<n]) + 16 * radix 256 (map (\<lambda>k. e ! (2 * k + 1)) [0..<n])"
proof (induction n arbitrary: e)
  case (Suc n)
  define e' where "e' = take (2 * n) e"
  have "length e' = 2 * n"
    using Suc.prems by (simp add: e'_def)
  moreover have "e = e' @ [e ! (2 * n), e ! (2 * n + 1)]"
  proof -
    have "e = take (Suc (Suc (2 * n))) e"
      using Suc.prems by simp
    also have "\<dots> = e' @ [e ! (2 * n), e ! (2 * n + 1)]"
      using Suc.prems unfolding e'_def by (simp add: take_Suc_conv_app_nth del: take_all take_all_iff)
    finally show ?thesis .
  qed
  moreover have "radix 256 (map (\<lambda>k. e ! (2 * k)) [0..<n]) = radix 256 (map (\<lambda>k. e' ! (2 * k)) [0..<n])"
    "radix 256 (map (\<lambda>k. e ! (2 * k + 1)) [0..<n]) = radix 256 (map (\<lambda>k. e' ! (2 * k + 1)) [0..<n])"
    by (rule arg_cong [where f = "radix 256"], rule map_cong; simp add: e'_def)+
  moreover have "(16 :: int) ^ (2 * n) = 256 ^ n"
    by (simp add: power_mult)
  ultimately show ?case
    using Suc.IH [of e'] radix_append [of 16 e' "[e ! (2 * n), e ! (2 * n + 1)]"]
    by (simp add: radix_append algebra_simps)
qed simp

lemma madd_loop:
  assumes B: "base_table B" and h: "p3_in (ed_multiple B m) h" and n: "n \<le> 32"
    and d: "\<forall>k<32. - 8 \<le> d k \<and> d k \<le> 8"
  shows "p3_in (ed_multiple B (m + radix 256 (map d [0..<n])))
    (fold (\<lambda>k h. ge_p1p1_to_p3 (ge_madd h (select k (d k)))) [0..<n] h)"
  using n
proof (induction n)
  case 0
  then show ?case using h by simp
next
  case (Suc n)
  have "p3_in (ed_multiple B (m + radix 256 (map d [0..<n]) + d n * 256 ^ n))
    (ge_p1p1_to_p3 (ge_madd (fold (\<lambda>k h. ge_p1p1_to_p3 (ge_madd h (select k (d k)))) [0..<n] h) (select n (d n))))"
    using Suc d by (intro ge_p1p1_to_p3_in mult.ge_madd_in select_in B) simp_all
  then show ?case
    by (simp add: radix_append algebra_simps)
qed

lemma ge_scalarmult_base_in:
  assumes "length a = 32" and "uint (a ! 31) \<le> 127" and B: "base_table B"
  shows "p3_in (ed_multiple B (le_val a)) (ge_scalarmult_base a)"
proof -
  define e where "e = base_digits a"
  note digits = base_digits_correct [OF assms(1,2), folded e_def]
  have e: "- 8 \<le> e ! i \<and> e ! i \<le> 8" if "i < 64" for i
    using digits that by (simp add: signed_digits_def)
  define odds where "odds = radix 256 (map (\<lambda>k. e ! (2 * k + 1)) [0..<32])"
  define evens where "evens = radix 256 (map (\<lambda>k. e ! (2 * k)) [0..<32])"
  define h1 where "h1 = fold (\<lambda>k h. ge_p1p1_to_p3 (ge_madd h (select k (e ! (2 * k + 1))))) [0..<32] ge_p3_0"
  define h2 where "h2 = ge_p1p1_to_p3 (ge_p2_dbl (ge_p1p1_to_p2 (ge_p2_dbl (ge_p1p1_to_p2
    (ge_p2_dbl (ge_p1p1_to_p2 (ge_p3_dbl h1)))))))"
  have "p3_in (ed_multiple B (0 + odds)) h1"
    unfolding h1_def odds_def by (rule madd_loop [OF B mult.ge_zero_in(1)]) (use e in simp_all)
  then have "p3_in (ed_multiple B (16 * odds)) h2"
    unfolding h2_def ge_p3_dbl_def Let_def
    by (intro ge_p1p1_to_p3_in four_doublings ge_p3_to_p2_in) simp
  then have "p3_in (ed_multiple B (16 * odds + evens))
      (fold (\<lambda>k h. ge_p1p1_to_p3 (ge_madd h (select k (e ! (2 * k))))) [0..<32] h2)"
    unfolding evens_def by (rule madd_loop [OF B]) (use e in simp_all)
  moreover have "16 * odds + evens = le_val a"
    using radix_pairs [of e 32] digits by (simp add: odds_def evens_def)
  moreover have "(2 * k + 1) div 2 = k" "2 * k div 2 = k" for k :: nat
    by simp_all
  ultimately show ?thesis
    unfolding ge_scalarmult_base_def Let_def e_def [symmetric]
    by (simp only: h2_def h1_def)
qed

subsection \<open>The double multiplications\<close>

lemma dsm_top_zero: "dsm_top as bs n \<le> n"
  "dsm_top as bs n \<le> k \<Longrightarrow> k < n \<Longrightarrow> as ! k = 0 \<and> bs ! k = 0"
  by (induction n) (auto simp: less_Suc_eq split: if_splits)

lemma radix_top:
  assumes "length xs = n" and "\<forall>k. t \<le> k \<and> k < n \<longrightarrow> xs ! k = 0"
  shows "radix b (drop t xs) = 0"
  using assms by (intro radix_zeros) (auto simp: in_set_conv_nth)

lemma slide_digit_index:
  assumes "slide_digit d" and "d \<noteq> 0"
  shows "0 < d \<Longrightarrow> nat (d div 2) < 8 \<and> 2 * int (nat (d div 2)) + 1 = d"
    and "d < 0 \<Longrightarrow> nat ((- d) div 2) < 8 \<and> 2 * int (nat ((- d) div 2)) + 1 = - d"
  using assms by (auto simp: slide_digit_def elim!: oddE)

context point_span begin

lemma dsm_cached_in:
  assumes "\<forall>j<8. cached_in (span (f (2 * int j + 1))) (A ! j)" and "slide_digit d"
    and "p1p1_in (span c) t" and "plus c (f 0) = c" and "\<And>x. uminus (f x) = f (- x)"
  shows "p1p1_in (span (plus c (f d))) (dsm_cached A d t)"
proof -
  consider "d = 0" | "0 < d" | "d < 0" by linarith
  then show ?thesis
  proof cases
    case 1
    then show ?thesis using assms(3,4) by (simp add: dsm_cached_def)
  next
    case 2
    then have "cached_in (span (f d)) (A ! nat (d div 2))"
      using assms(1) slide_digit_index(1) [OF assms(2)] by (metis less_irrefl)
    then show ?thesis
      using 2 ge_add_in [OF ge_p1p1_to_p3_in [OF assms(3)]] by (simp add: dsm_cached_def Let_def)
  next
    case 3
    then have "cached_in (span (f (- d))) (A ! nat ((- d) div 2))"
      using assms(1) slide_digit_index(2) [OF assms(2)] by (metis less_irrefl)
    then have "p1p1_in (span (plus c (uminus (f (- d))))) (dsm_cached A d t)"
      using 3 ge_sub_in [OF ge_p1p1_to_p3_in [OF assms(3)]] by (simp add: dsm_cached_def Let_def)
    then show ?thesis by (simp add: assms(5))
  qed
qed

lemma dsm_base_in:
  assumes "\<forall>j<8. precomp_in (span (f (2 * int j + 1))) (ge_Bi ! j)" and "slide_digit d"
    and "p1p1_in (span c) t" and "plus c (f 0) = c" and "\<And>x. uminus (f x) = f (- x)"
  shows "p1p1_in (span (plus c (f d))) (dsm_base d t)"
proof -
  consider "d = 0" | "0 < d" | "d < 0" by linarith
  then show ?thesis
  proof cases
    case 1
    then show ?thesis using assms(3,4) by (simp add: dsm_base_def)
  next
    case 2
    then have "precomp_in (span (f d)) (ge_Bi ! nat (d div 2))"
      using assms(1) slide_digit_index(1) [OF assms(2)] by (metis less_irrefl)
    then show ?thesis
      using 2 ge_madd_in [OF ge_p1p1_to_p3_in [OF assms(3)]] by (simp add: dsm_base_def Let_def)
  next
    case 3
    then have "precomp_in (span (f (- d))) (ge_Bi ! nat ((- d) div 2))"
      using assms(1) slide_digit_index(2) [OF assms(2)] by (metis less_irrefl)
    then have "p1p1_in (span (plus c (uminus (f (- d))))) (dsm_base d t)"
      using 3 ge_msub_in [OF ge_p1p1_to_p3_in [OF assms(3)]] by (simp add: dsm_base_def Let_def)
    then show ?thesis by (simp add: assms(5))
  qed
qed

end

text \<open>The common loop: one doubling, then the two digits.\<close>

lemma dsm_loop:
  assumes a: "length a = 32" "le_val a < 2 ^ 255" and b: "length b = 32" "le_val b < 2 ^ 255"
    and step: "\<And>c x y t. slide_digit x \<Longrightarrow> slide_digit y \<Longrightarrow> p1p1_in (ed_lin A B c) t \<Longrightarrow>
      p1p1_in (ed_lin A B (coeff_add c (x, y))) (f x y t)"
  shows "p2_in (ed_lin A B (le_val a, le_val b))
    (fold (\<lambda>i r. ge_p1p1_to_p2 (f (slide a ! i) (slide b ! i) (ge_p2_dbl r)))
      (rev [0..<dsm_top (slide a) (slide b) 256]) ge_p2_0)"
proof -
  note sa = slide_correct [OF a] and sb = slide_correct [OF b]
  define n where "n = dsm_top (slide a) (slide b) 256"
  have n: "n \<le> 256"
    unfolding n_def by (rule dsm_top_zero)
  have z: "slide a ! k = 0 \<and> slide b ! k = 0" if "n \<le> k" "k < 256" for k
    using that unfolding n_def by (rule dsm_top_zero(2))
  let ?P = "\<lambda>i. p2_in (ed_lin A B (radix 2 (drop i (slide a)), radix 2 (drop i (slide b))))"
  have "?P 0 (fold (\<lambda>i r. ge_p1p1_to_p2 (f (slide a ! i) (slide b ! i) (ge_p2_dbl r))) (rev [0..<n]) ge_p2_0)"
  proof (rule fold_down [where P = ?P])
    fix i r
    assume i: "i < n" and r: "?P (Suc i) r"
    let ?c = "(radix 2 (drop (Suc i) (slide a)), radix 2 (drop (Suc i) (slide b)))"
    have "p2_in (ed_lin A B (coeff_add (coeff_add ?c ?c) (slide a ! i, slide b ! i)))
      (ge_p1p1_to_p2 (f (slide a ! i) (slide b ! i) (ge_p2_dbl r)))"
      using sa(3) sb(3) i n by (intro ge_p1p1_to_p2_in step lin.ge_p2_dbl_in r) simp_all
    then show "?P i (ge_p1p1_to_p2 (f (slide a ! i) (slide b ! i) (ge_p2_dbl r)))"
      using i n sa(1) sb(1) by (simp add: drop_radix [of i "slide a"] drop_radix [of i "slide b"] algebra_simps)
  next
    have "radix 2 (drop n (slide a)) = 0" "radix 2 (drop n (slide b)) = 0"
      using z by (intro radix_top [OF sa(1)] radix_top [OF sb(1)]; blast)+
    then show "?P n ge_p2_0"
      using lin.ge_zero_in(2) by simp
  qed
  then show ?thesis
    using sa(2) sb(2) by (simp add: n_def)
qed

lemma ge_double_scalarmult_precomp_in:
  assumes a: "length a = 32" "le_val a < 2 ^ 255" and b: "length b = 32" "le_val b < 2 ^ 255"
    and A: "p3_in (ed_multiple PA 1) A" and Bi: "\<forall>j<8. cached_in (ed_multiple PB (2 * int j + 1)) (Bi ! j)"
  shows "p2_in (ed_lin PA PB (le_val a, le_val b)) (ge_double_scalarmult_precomp_vartime a A b Bi)"
proof -
  have l: "\<forall>j<8. cached_in (ed_lin PA PB (2 * int j + 1, 0)) (ge_dsm_precomp A ! j)"
    using ge_dsm_precomp_in [OF A] by (auto elim!: in_mono intro: ed_lin_left)
  have r: "\<forall>j<8. cached_in (ed_lin PA PB (0, 2 * int j + 1)) (Bi ! j)"
    using Bi by (auto elim!: in_mono intro: ed_lin_right)
  show ?thesis
    unfolding ge_double_scalarmult_precomp_vartime_def Let_def
  proof (rule dsm_loop [OF a b])
    fix c x y t
    assume d: "slide_digit x" "slide_digit y" and t: "p1p1_in (ed_lin PA PB c) t"
    have "p1p1_in (ed_lin PA PB (coeff_add (coeff_add c (x, 0)) (0, y)))
      (dsm_cached Bi y (dsm_cached (ge_dsm_precomp A) x t))"
      by (rule lin.dsm_cached_in [where f = "\<lambda>y. (0, y)", OF r d(2)],
          rule lin.dsm_cached_in [where f = "\<lambda>x. (x, 0)", OF l d(1) t]) (cases c; simp)+
    then show "p1p1_in (ed_lin PA PB (coeff_add c (x, y))) (dsm_cached Bi y (dsm_cached (ge_dsm_precomp A) x t))"
      by (cases c) simp
  qed
qed

lemma ge_double_scalarmult_base_in:
  assumes a: "length a = 32" "le_val a < 2 ^ 255" and b: "length b = 32" "le_val b < 2 ^ 255"
    and A: "p3_in (ed_multiple PA 1) A" and B: "odd_table PB"
  shows "p2_in (ed_lin PA PB (le_val a, le_val b)) (ge_double_scalarmult_base_vartime a A b)"
proof -
  have l: "\<forall>j<8. cached_in (ed_lin PA PB (2 * int j + 1, 0)) (ge_dsm_precomp A ! j)"
    using ge_dsm_precomp_in [OF A] by (auto elim!: in_mono intro: ed_lin_left)
  have r: "\<forall>j<8. precomp_in (ed_lin PA PB (0, 2 * int j + 1)) (ge_Bi ! j)"
    using B by (auto simp: odd_table_def elim!: in_mono intro: ed_lin_right)
  show ?thesis
    unfolding ge_double_scalarmult_base_vartime_def Let_def
  proof (rule dsm_loop [OF a b])
    fix c x y t
    assume d: "slide_digit x" "slide_digit y" and t: "p1p1_in (ed_lin PA PB c) t"
    have "p1p1_in (ed_lin PA PB (coeff_add (coeff_add c (x, 0)) (0, y)))
      (dsm_base y (dsm_cached (ge_dsm_precomp A) x t))"
      by (rule lin.dsm_base_in [where f = "\<lambda>y. (0, y)", OF r d(2)],
          rule lin.dsm_cached_in [where f = "\<lambda>x. (x, 0)", OF l d(1) t]) (cases c; simp)+
    then show "p1p1_in (ed_lin PA PB (coeff_add c (x, y))) (dsm_base y (dsm_cached (ge_dsm_precomp A) x t))"
      by (cases c) simp
  qed
qed

end
