(* ===== verification/Group_Properties.thy ===== *)
theory Group_Properties
  imports Ge_Point Ge_Scalarmult
begin

text \<open>
  The contract of the group arithmetic of \<^verbatim>\<open>crypto-ops.c\<close>; the witnesses use the base point.
\<close>

section \<open>Operations\<close>

text \<open>
  C9: The group operations refine the extended coordinates: on operands that represent
  points, with limbs in the range of a product, every operation gives a struct that
  represents the sum, the difference or the double, again within its range; and the
  conversions change the representation of the same point.
\<close>

theorem ge_ops_refine:
  assumes "p3_rep p P" and "p2_rep h H" and "cached_rep q Q" and "precomp_rep e E" and "p1p1_rep r R"
  shows "p1p1_rep (ge_add p q) (ext_add P Q) \<and> p1p1_rep (ge_sub p q) (ext_add P (ext_neg Q)) \<and>
    p1p1_rep (ge_madd p e) (ext_add P E) \<and> p1p1_rep (ge_msub p e) (ext_add P (ext_neg E)) \<and>
    p1p1_rep (ge_p2_dbl h) (ext_dbl H) \<and> p1p1_rep (ge_p3_dbl p) (ext_dbl P) \<and>
    p1p1_rep (ge_mul8 h) (ext_dbl (ext_dbl (ext_dbl H))) \<and>
    p3_rep (ge_p1p1_to_p3 r) R \<and> p2_rep (ge_p1p1_to_p2 r) R \<and>
    p2_rep (ge_p3_to_p2 p) P \<and> cached_rep (ge_p3_to_cached p) P"
  using assms
  by (intro conjI ge_add_rep ge_sub_rep ge_madd_rep ge_msub_rep ge_p2_dbl_rep ge_p3_dbl_rep ge_mul8_rep
      ge_p1p1_to_p3_rep ge_p1p1_to_p2_rep ge_p3_to_p2_rep ge_p3_to_cached_rep)

theorem ge_ops_refine_witness:
  "p1p1_rep (ge_add base_p3 (ge_p3_to_cached base_p3)) (ext_add base_ext base_ext) \<and>
   p1p1_rep (ge_mul8 (ge_p3_to_p2 base_p3)) (ext_dbl (ext_dbl (ext_dbl base_ext)))"
  using ge_ops_refine [OF base_p3_rep ge_p3_to_p2_rep [OF base_p3_rep] ge_p3_to_cached_rep [OF base_p3_rep]
      ge_zero_rep(3) ge_p3_dbl_rep [OF base_p3_rep]] by blast

text \<open>
  C10: The addition of \<^verbatim>\<open>ge_add\<close>, after the conversions its callers make, is the addition
  of the twisted Edwards curve: the affine coordinates of the result are
  \<open>(x1 y2 + y1 x2) / (1 + d x1 x2 y1 y2)\<close> and \<open>(y1 y2 + x1 x2) / (1 - d x1 x2 y1 y2)\<close>.
\<close>

theorem ge_add_edwards:
  assumes "p3_rep p P" and "ext_affine P x1 y1" and "p3_rep q Q" and "ext_affine Q x2 y2"
    and "k = ed_d * (x1 * x2 * y1 * y2)" and "unit_p (1 + k)" and "unit_p (1 - k)"
    and "eqp (x3 * (1 + k)) (x1 * y2 + y1 * x2)" and "eqp (y3 * (1 - k)) (y1 * y2 + x1 * x2)"
  shows "p3_in (\<lambda>R. ext_affine R x3 y3) (ge_p1p1_to_p3 (ge_add p (ge_p3_to_cached q)))"
  unfolding p3_in_def
  using ext_add_affine [OF assms(2,4-9)]
    ge_p1p1_to_p3_rep [OF ge_add_rep [OF assms(1) ge_p3_to_cached_rep [OF assms(3)]]] by blast

theorem ge_add_edwards_witness:
  "p3_in (\<lambda>R. ext_affine R base_x base_y) (ge_p1p1_to_p3 (ge_add base_p3 (ge_p3_to_cached ge_p3_0)))"
  by (rule ge_add_edwards [OF base_p3_rep base_affine ge_zero_rep(1), of 0 1 0])
    (simp_all add: ext_affine_def ext_zero_def)

text \<open>
  C11: The curve is an invariant of the arithmetic: operands on the curve give results on the
  curve, for every operation and every conversion.
\<close>

interpretation curve: point_span "\<lambda>_ :: unit. ext_on" "\<lambda>_ _. ()" "\<lambda>_. ()" "()"
proof (unfold_locales; (rule ext_on_zero ext_on_add ext_on_neg; assumption)?)
  fix P
  assume "ext_on P"
  then show "ext_on (ext_dbl P)"
    by (blast intro: ext_on_intros ext_dbl_same)
qed

theorem ge_ops_on_curve:
  assumes "p3_in ext_on p" and "p2_in ext_on h" and "cached_in ext_on q" and "precomp_in ext_on e" and "p1p1_in ext_on r"
  shows "p1p1_in ext_on (ge_add p q) \<and> p1p1_in ext_on (ge_sub p q) \<and> p1p1_in ext_on (ge_madd p e) \<and>
    p1p1_in ext_on (ge_msub p e) \<and> p1p1_in ext_on (ge_p2_dbl h) \<and> p1p1_in ext_on (ge_p3_dbl p) \<and>
    p3_in ext_on (ge_p1p1_to_p3 r) \<and> p2_in ext_on (ge_p1p1_to_p2 r) \<and> p2_in ext_on (ge_p3_to_p2 p) \<and>
    cached_in ext_on (ge_p3_to_cached p) \<and> p3_in ext_on ge_p3_0 \<and> p2_in ext_on ge_p2_0 \<and>
    precomp_in ext_on ge_precomp_0 \<and> cached_in ext_on ge_cached_0"
  using assms
  by (intro conjI curve.ge_add_in curve.ge_sub_in curve.ge_madd_in curve.ge_msub_in curve.ge_p2_dbl_in
      curve.ge_p3_dbl_in ge_p1p1_to_p3_in ge_p1p1_to_p2_in ge_p3_to_p2_in ge_p3_to_cached_in curve.ge_zero_in)

lemma base_curve: "p3_in ext_on base_p3"
  unfolding p3_in_def using base_p3_rep base_on by blast

theorem ge_ops_on_curve_witness:
  "p3_in ext_on base_p3 \<and> p1p1_in ext_on (ge_sub base_p3 (ge_p3_to_cached base_p3)) \<and> p1p1_in ext_on (ge_p3_dbl base_p3)"
  using base_curve ge_ops_on_curve [OF base_curve ge_p3_to_p2_in [OF base_curve] ge_p3_to_cached_in [OF base_curve]
      curve.ge_zero_in(3) curve.ge_p3_dbl_in [OF base_curve]] by blast

section \<open>Scalars\<close>

text \<open>
  C12: The digit expansions: for a 32-byte scalar below \<open>2^255\<close>, the recodings of
  \<^verbatim>\<open>ge_scalarmult_base\<close> and \<^verbatim>\<open>ge_scalarmult\<close> give 64 digits between -8 and 8
  that represent the scalar in radix 16, and \<^verbatim>\<open>slide\<close> gives 256 digits that represent it in
  radix 2, each zero or odd and between -15 and 15: no carry is lost at the end.
\<close>

theorem digits_correct:
  assumes "length a = 32" and "le_val a < 2 ^ 255"
  shows "length (base_digits a) = 64 \<and> radix 16 (base_digits a) = le_val a \<and> signed_digits (base_digits a) \<and>
    length (point_digits a) = 64 \<and> radix 16 (point_digits a) = le_val a \<and> signed_digits (point_digits a) \<and>
    length (slide a) = 256 \<and> radix 2 (slide a) = le_val a \<and> (\<forall>k<256. slide_digit (slide a ! k))"
proof -
  have "uint (a ! 31) div 128 = 0"
    using top_bit [OF assms(1)] assms(2) le_val_nonneg [of a] by simp
  then have "uint (a ! 31) \<le> 127"
    using pos_imp_zdiv_pos_iff [of 128 "uint (a ! 31)"] by simp
  then show ?thesis
    using base_digits_correct [OF assms(1)] point_digits_correct [OF assms(1)] slide_correct [OF assms] by blast
qed

definition scalar_ex :: "byte list" where
  "scalar_ex =
     [253, 7, 0, 19, 136, 255, 128, 64, 1, 2, 3, 250, 251, 252, 200, 100,
      50, 25, 12, 6, 3, 1, 8, 120, 119, 118, 135, 136, 137, 255, 255, 119]"

lemma scalar_ex: "length scalar_ex = 32" "le_val scalar_ex < 2 ^ 255" "uint (scalar_ex ! 31) \<le> 127"
  by (simp_all add: scalar_ex_def)

theorem digits_correct_witness:
  "radix 16 (base_digits scalar_ex) = le_val scalar_ex \<and> radix 16 (point_digits scalar_ex) = le_val scalar_ex \<and>
   radix 2 (slide scalar_ex) = le_val scalar_ex"
  using digits_correct [OF scalar_ex(1,2)] by blast

text \<open>
  C13: The constant-time selection is a plain lookup: \<^verbatim>\<open>select\<close>, which reads all eight
  entries of a row under masks, gives the entry \<open>|b|\<close> of the row, the neutral element for \<open>b = 0\<close>,
  and its negation for a negative digit.
\<close>

theorem select_is_lookup:
  assumes "pos < 32" and "- 8 \<le> b" and "b \<le> 8"
  shows "select pos b =
    (if b = 0 then ge_precomp_0
     else if b < 0 then precomp_neg (ge_base ! pos ! nat (- b - 1))
     else ge_base ! pos ! nat (b - 1))"
  using assms by (simp add: select_lookup precomp_lookup_def Let_def)

theorem select_is_lookup_witness:
  "select 31 (- 8) = precomp_neg (ge_base ! 31 ! 7)"
  using select_is_lookup [of 31 "- 8"] by simp

text \<open>
  C14: \<^verbatim>\<open>ge_scalarmult\<close> multiplies: for a 32-byte scalar \<open>a\<close> whose last byte is at most
  127 and a point that represents \<open>m B\<close>, the result represents \<open>(a m) B\<close>.
\<close>

theorem ge_scalarmult_correct:
  assumes "length a = 32" and "uint (a ! 31) \<le> 127" and "p3_in (ed_multiple B m) A"
  shows "p2_in (ed_multiple B (le_val a * m)) (ge_scalarmult a A)"
  by (rule ge_scalarmult_in [OF assms])

theorem ge_scalarmult_correct_witness:
  "p2_in (ed_multiple base_ext (le_val scalar_ex)) (ge_scalarmult scalar_ex base_p3)"
  using ge_scalarmult_correct [OF scalar_ex(1,3) base_in] by simp

text \<open>
  C15: \<^verbatim>\<open>ge_double_scalarmult_precomp_vartime\<close>, with the table that \<^verbatim>\<open>ge_dsm_precomp\<close>
  makes of the second point, computes \<open>a A + b B\<close>.
\<close>

theorem ge_double_scalarmult_precomp_correct:
  assumes "length a = 32" and "le_val a < 2 ^ 255" and "length b = 32" and "le_val b < 2 ^ 255"
    and "p3_in (ed_multiple PA 1) A" and "p3_in (ed_multiple PB 1) B"
  shows "p2_in (ed_lin PA PB (le_val a, le_val b))
    (ge_double_scalarmult_precomp_vartime a A b (ge_dsm_precomp B))"
  using ge_dsm_precomp_in [OF assms(6)]
  by (intro ge_double_scalarmult_precomp_in [OF assms(1-5)]) simp

theorem ge_double_scalarmult_precomp_correct_witness:
  "p2_in (ed_lin base_ext base_ext (le_val scalar_ex, le_val scalar_ex))
    (ge_double_scalarmult_precomp_vartime scalar_ex base_p3 scalar_ex (ge_dsm_precomp base_p3))"
  by (rule ge_double_scalarmult_precomp_correct [OF scalar_ex(1,2) scalar_ex(1,2) base_in base_in])

end
