(* ===== verification/Ge_Codec.thy ===== *)
theory Ge_Codec
  imports Ge_Ops
begin

text \<open>
  Encoding and decoding of points: \<^verbatim>\<open>ge_frombytes_vartime\<close>, \<^verbatim>\<open>ge_tobytes\<close>,
  \<^verbatim>\<open>ge_p3_tobytes\<close>, and the map \<^verbatim>\<open>ge_fromfe_frombytes_vartime\<close> from field elements
  to points. The decoder returns -1 at three places; they are the three values of
  \<open>decode_error\<close>. The assertions of the map from field elements are the value \<open>None\<close>.
\<close>

section \<open>Encoding\<close>

definition ge_tobytes :: "ge_p2 \<Rightarrow> byte list" where
  "ge_tobytes h =
    (let recip = fe_invert (p2Z h);
         x = fe_mul (p2X h) recip;
         y = fe_mul (p2Y h) recip;
         s = fe_tobytes y
     in s[31 := s ! 31 XOR word_of_int (push_bit 7 (fe_isnegative x))])"

definition ge_p3_tobytes :: "ge_p3 \<Rightarrow> byte list" where
  "ge_p3_tobytes h =
    (let recip = fe_invert (p3Z h);
         x = fe_mul (p3X h) recip;
         y = fe_mul (p3Y h) recip;
         s = fe_tobytes y
     in s[31 := s ! 31 XOR word_of_int (push_bit 7 (fe_isnegative x))])"

text \<open>The encoding of an affine point: \<open>y\<close>, with the parity of \<open>x\<close> in the top bit.\<close>

definition point_code :: "int \<Rightarrow> int \<Rightarrow> int" where
  "point_code x y = y mod fe_p + 2 ^ 255 * (x mod fe_p mod 2)"

lemma fe_p_bounds: "0 < fe_p" "fe_p < 2 ^ 255"
  by (simp_all add: fe_p_def)

lemma fe_rep_isnegative: "fe_rep n f x \<Longrightarrow> n \<le> 3 \<Longrightarrow> fe_isnegative f = x mod fe_p mod 2"
  using fe_isnegative_val [OF fe_rep_165] fe_rep_D(1) by (metis eqp_def)

lemma fe_rep_isnonzero: "fe_rep n f x \<Longrightarrow> n \<le> 3 \<Longrightarrow> fe_isnonzero f = (if eqp x 0 then 0 else 1)"
  using fe_isnonzero_val [OF fe_rep_165] fe_rep_D(1) by (metis eqp_def)

lemma fe_rep_tobytes: "fe_rep n f x \<Longrightarrow> n \<le> 3 \<Longrightarrow> le_val (fe_tobytes f) = x mod fe_p \<and> length (fe_tobytes f) = 32"
  using fe_tobytes_val [OF fe_rep_165] length_fe_tobytes [OF fe_rep_165] fe_rep_D(1) by (metis eqp_def)

lemma xor_push_bit:
  fixes x y :: int
  assumes "0 \<le> x" "x < 2 ^ n"
  shows "x XOR push_bit n y = x + 2 ^ n * y"
proof -
  have "take_bit n x = x"
    using assms by (simp add: take_bit_int_eq_self)
  then have "\<not> bit x m" if "n \<le> m" for m
    using that by (metis bit_take_bit_iff not_less)
  then have "x AND push_bit n y = 0"
    by (intro bit_eqI) (auto simp: bit_simps)
  then have "x XOR push_bit n y = x OR push_bit n y"
    by (rule disjunctive_xor_eq_or)
  then show ?thesis
    using or_push_bit [OF assms] by simp
qed

lemma set_top_bit:
  assumes s: "length s = 32" and l: "le_val s < 2 ^ 255" and b: "b = 0 \<or> b = (1 :: int)"
  shows "le_val (s[31 := s ! 31 XOR word_of_int (push_bit 7 b)]) = le_val s + 2 ^ 255 * b"
proof -
  have top: "uint (s ! 31) div 128 = 0"
    using top_bit [OF s] l le_val_nonneg [of s] by simp
  then have lt: "uint (s ! 31) < 128" "0 \<le> uint (s ! 31)"
    using pos_imp_zdiv_pos_iff [of 128 "uint (s ! 31)"] by auto
  have or: "uint (s ! 31) XOR 128 = uint (s ! 31) + 128"
    using xor_push_bit [of "uint (s ! 31)" 7 1] lt by (simp add: push_bit_eq_mult)
  have u: "uint (s ! 31 XOR word_of_int (push_bit 7 b)) = uint (s ! 31) + 128 * b"
    using b or by (auto simp: uint_xor uint_word_of_int push_bit_eq_mult)
  have split: "le_val t = le_val (take 31 t) + 2 ^ 248 * uint (t ! 31)" if "length t = 32" for t
  proof -
    have "t = take 31 t @ [t ! 31]"
      using that take_Suc_conv_app_nth [of 31 t] by simp
    then have "le_val t = le_val (take 31 t) + 256 ^ 31 * uint (t ! 31)"
      using le_val_append [of "take 31 t" "[t ! 31]"] that by simp
    then show ?thesis by simp
  qed
  show ?thesis
    using split [of s] split [of "s[31 := s ! 31 XOR word_of_int (push_bit 7 b)]"] s u
    by (simp add: take_update_cancel algebra_simps)
qed

lemma mod2_cases: "(x :: int) mod 2 = 0 \<or> x mod 2 = 1"
  by auto

lemma encode_val:
  assumes "fe_rep 1 x X" and "fe_rep 1 y Y"
  defines "s \<equiv> fe_tobytes y"
  shows "le_val (s[31 := s ! 31 XOR word_of_int (push_bit 7 (fe_isnegative x))]) = point_code X Y"
proof -
  have s: "le_val s = Y mod fe_p" "length s = 32"
    unfolding s_def using fe_rep_tobytes [OF assms(2)] by simp_all
  have "Y mod fe_p < 2 ^ 255"
    using pos_mod_bound [of fe_p Y] fe_p_bounds by linarith
  then show ?thesis
    using set_top_bit [OF s(2) _ mod2_cases [of "X mod fe_p"]] fe_rep_isnegative [OF assms(1)]
    by (simp add: point_code_def s(1))
qed

text \<open>\<open>Z^(p - 2)\<close> is the inverse of \<open>Z\<close>.\<close>

definition inv_exp :: nat where
  "inv_exp = 2 ^ 255 - 21"

lemma fe_rep_invert: "fe_rep n f x \<Longrightarrow> n \<le> 3 \<Longrightarrow> fe_rep 1 (fe_invert f) (x ^ inv_exp)"
  unfolding inv_exp_def
  by (intro fe_rep_101 fe_invert_range eqp_trans [OF fe_invert_val] eqp_power fe_rep_D(1)) (auto intro: fe_rep_165)

lemma ge_tobytes_val:
  assumes "p2_rep h (X, Y, Z, T)"
  shows "le_val (ge_tobytes h) = point_code (X * Z ^ inv_exp) (Y * Z ^ inv_exp)"
    and "length (ge_tobytes h) = 32"
proof -
  have r: "fe_rep 1 (fe_mul (p2X h) (fe_invert (p2Z h))) (X * Z ^ inv_exp)"
    "fe_rep 1 (fe_mul (p2Y h) (fe_invert (p2Z h))) (Y * Z ^ inv_exp)"
    by (rule fe_rep_mul [where m = 1 and n = 1, OF _ fe_rep_invert [where n = 1]]; use assms in simp)+
  show "le_val (ge_tobytes h) = point_code (X * Z ^ inv_exp) (Y * Z ^ inv_exp)"
    unfolding ge_tobytes_def Let_def by (rule encode_val [OF r])
  show "length (ge_tobytes h) = 32"
    using fe_rep_tobytes [OF r(2)] by (simp add: ge_tobytes_def Let_def)
qed

lemma ge_p3_tobytes_val:
  assumes "p3_rep h (X, Y, Z, T)"
  shows "le_val (ge_p3_tobytes h) = point_code (X * Z ^ inv_exp) (Y * Z ^ inv_exp)"
    and "length (ge_p3_tobytes h) = 32"
proof -
  have r: "fe_rep 1 (fe_mul (p3X h) (fe_invert (p3Z h))) (X * Z ^ inv_exp)"
    "fe_rep 1 (fe_mul (p3Y h) (fe_invert (p3Z h))) (Y * Z ^ inv_exp)"
    by (rule fe_rep_mul [where m = 1 and n = 1, OF _ fe_rep_invert [where n = 1]]; use assms in simp)+
  show "le_val (ge_p3_tobytes h) = point_code (X * Z ^ inv_exp) (Y * Z ^ inv_exp)"
    unfolding ge_p3_tobytes_def Let_def by (rule encode_val [OF r])
  show "length (ge_p3_tobytes h) = 32"
    using fe_rep_tobytes [OF r(2)] by (simp add: ge_p3_tobytes_def Let_def)
qed


section \<open>Decoding\<close>

datatype decode_error = NonCanonical | NoSquareRoot | NegativeZero

text \<open>The candidate for \<open>x\<close>, from the decoded \<open>y\<close>, before its sign is chosen.\<close>

definition ge_frombytes_vartime :: "byte list \<Rightarrow> decode_error + ge_p3" where
  "ge_frombytes_vartime s =
    (let l = fe_load_masked s in
     if fe_noncanonical l then Inl NonCanonical
     else
       let hY = fe_load_carry l;
           hZ = fe_1;
           u = fe_sq hY;
           v = fe_mul u fe_d;
           u = fe_sub u hZ;
           v = fe_add v hZ;
           hX = fe_divpowm1 u v;
           vxx = fe_sq hX;
           vxx = fe_mul vxx v;
           check = fe_sub vxx u;
           plus = fe_add vxx u
       in if fe_isnonzero check \<noteq> 0 \<and> fe_isnonzero plus \<noteq> 0 then Inl NoSquareRoot
          else
            let hX = (if fe_isnonzero check \<noteq> 0 then fe_mul hX fe_sqrtm1 else hX)
            in if fe_isnegative hX \<noteq> uint (drop_bit 7 (s ! 31)) then
                 if fe_isnonzero hX = 0 then Inl NegativeZero
                 else
                   let hX = fe_neg hX
                   in Inr \<lparr> p3X = hX, p3Y = hY, p3Z = hZ, p3T = fe_mul hX hY \<rparr>
               else Inr \<lparr> p3X = hX, p3Y = hY, p3Z = hZ, p3T = fe_mul hX hY \<rparr>)"

lemma parity_neg: "\<not> eqp x 0 \<Longrightarrow> (- x) mod fe_p mod 2 = 1 - x mod fe_p mod 2"
proof -
  assume "\<not> eqp x 0"
  then have "x mod fe_p \<noteq> 0"
    by (simp add: eqp_def)
  then have "(- x) mod fe_p = fe_p - x mod fe_p"
    by (simp add: zmod_zminus1_eq_if)
  moreover have "odd fe_p"
    by (simp add: fe_p_def)
  ultimately show ?thesis
    by (simp add: mod_2_eq_odd)
qed


definition sqrt_cand :: "int \<Rightarrow> int \<Rightarrow> int" where
  "sqrt_cand u v = (u * v ^ 7) ^ (2 ^ 252 - 3) * v ^ 3 * u"

lemma fe_rep_divpowm1:
  assumes "fe_rep m f u" "m \<le> 3" and "fe_rep n g v" "n \<le> 3"
  shows "fe_rep 1 (fe_divpowm1 f g) (sqrt_cand u v)"
  unfolding sqrt_cand_def
  by (intro fe_rep_101 fe_divpowm1_range eqp_trans [OF fe_divpowm1_val] eqp_mult eqp_power
      fe_rep_D(1) [OF assms(1)] fe_rep_D(1) [OF assms(3)] fe_rep_165 [OF assms(1,2)] fe_rep_165 [OF assms(3,4)])

definition sqrtm1 :: int where
  "sqrtm1 = fe_val fe_sqrtm1"

lemma sqrtm1_rep: "fe_rep 1 fe_sqrtm1 sqrtm1"
  unfolding sqrtm1_def by (rule fe_rep_101) (simp_all add: fe_101_25_def fe_sqrtm1_def bnd_def)

lemma sqrtm1_square: "eqp (sqrtm1 * sqrtm1) (- 1)"
  by (simp add: sqrtm1_def fe_sqrtm1_def eqp_def fe_p_def)

text \<open>The locals of the decoder for a canonical \<open>y\<close>.\<close>

lemma frombytes_locals:
  assumes "length s = 32"
  defines "y \<equiv> le_val s mod 2 ^ 255"
  defines "hY \<equiv> fe_load_carry (fe_load_masked s)"
  shows "fe_rep 1 hY y" and "fe_rep 2 (fe_sub (fe_sq hY) fe_1) (y * y - 1)"
    and "fe_rep 2 (fe_add (fe_mul (fe_sq hY) fe_d) fe_1) (y * y * ed_d + 1)"
proof -
  show y: "fe_rep 1 hY y"
    unfolding hY_def y_def
    using fe_load_carry_spec [OF fe_loaded_masked [of s]] fe_load_masked_val [OF assms(1)] by (intro fe_rep_101) simp_all
  have yy: "fe_rep 1 (fe_sq hY) (y * y)"
    by (rule fe_rep_sq [OF y]) simp
  show "fe_rep 2 (fe_sub (fe_sq hY) fe_1) (y * y - 1)"
    using fe_rep_sub [OF yy fe_rep_const(2)] by simp
  show "fe_rep 2 (fe_add (fe_mul (fe_sq hY) fe_d) fe_1) (y * y * ed_d + 1)"
    using fe_rep_add [OF fe_rep_mul [OF yy fe_d_rep] fe_rep_const(2)] by simp
qed

text \<open>What the decoder does, in terms of residues.\<close>

definition decode_spec :: "byte list \<Rightarrow> decode_error + ge_p3 \<Rightarrow> bool" where
  "decode_spec s r \<longleftrightarrow>
    (let y = le_val s mod 2 ^ 255; sign = le_val s div 2 ^ 255;
         u = y * y - 1; v = y * y * ed_d + 1; c = sqrt_cand u v;
         x = (if eqp (v * (c * c)) u then c else c * sqrtm1)
     in case r of
          Inl NonCanonical \<Rightarrow> fe_p \<le> y
        | Inl NoSquareRoot \<Rightarrow> y < fe_p \<and> \<not> eqp (v * (c * c)) u \<and> \<not> eqp (v * (c * c)) (- u)
        | Inl NegativeZero \<Rightarrow> y < fe_p \<and> eqp (v * (x * x)) u \<and> eqp x 0 \<and> sign = 1
        | Inr h \<Rightarrow> y < fe_p \<and> eqp (v * (x * x)) u \<and>
            (x mod fe_p mod 2 = sign \<and> p3_rep h (x, y, 1, x * y) \<or>
             \<not> eqp x 0 \<and> x mod fe_p mod 2 = 1 - sign \<and> p3_rep h (- x, y, 1, - x * y)))"

lemma uint_drop_top: "length s = 32 \<Longrightarrow> uint (drop_bit 7 (s ! 31)) = le_val s div 2 ^ 255"
  using top_bit [of s] by (simp only: uint_drop_word) simp

lemma sign_range: "length s = 32 \<Longrightarrow> le_val s div 2 ^ 255 = 0 \<or> le_val s div 2 ^ 255 = 1"
proof -
  assume "length s = 32"
  then have "le_val s < 2 ^ (255 + 1)"
    using le_val_less [of s] by simp
  then have "0 \<le> le_val s div 2 ^ 255" "le_val s div 2 ^ 255 < 2 ^ 1"
    using le_val_nonneg [of s] div_pow_less by (simp_all add: pos_imp_zdiv_nonneg_iff)
  then show ?thesis by simp linarith
qed


lemma ge_frombytes_spec:
  assumes s: "length s = 32"
  shows "decode_spec s (ge_frombytes_vartime s)"
proof (cases "fe_noncanonical (fe_load_masked s)")
  case True
  then show ?thesis
    using fe_noncanonical_iff [OF s] by (simp add: ge_frombytes_vartime_def decode_spec_def Let_def)
next
  case False
  define y sign where "y = le_val s mod 2 ^ 255" and "sign = le_val s div 2 ^ 255"
  define u v c where "u = y * y - 1" and "v = y * y * ed_d + 1" and "c = sqrt_cand u v"
  define hY U V C where "hY = fe_load_carry (fe_load_masked s)" and "U = fe_sub (fe_sq hY) fe_1"
    and "V = fe_add (fe_mul (fe_sq hY) fe_d) fe_1" and "C = fe_divpowm1 U V"
  have lt: "y < fe_p"
    using False fe_noncanonical_iff [OF s] by (simp add: y_def)
  have rY: "fe_rep 1 hY y" and rU: "fe_rep 2 U u" and rV: "fe_rep 2 V v"
    using frombytes_locals [OF s] by (simp_all add: y_def u_def v_def hY_def U_def V_def)
  have rC: "fe_rep 1 C c"
    unfolding C_def c_def by (rule fe_rep_divpowm1 [OF rU _ rV]) simp_all
  have vxx: "fe_rep 1 (fe_mul (fe_sq C) V) (c * c * v)"
    by (rule fe_rep_mul [OF fe_rep_sq(1) [OF rC] rV]) simp_all
  have check: "fe_isnonzero (fe_sub (fe_mul (fe_sq C) V) U) = (if eqp (v * (c * c)) u then 0 else 1)"
    using fe_rep_isnonzero [OF fe_rep_sub [OF vxx rU]] eqp_0_iff [of "v * (c * c)" u] by (simp add: mult.commute)
  have plus: "fe_isnonzero (fe_add (fe_mul (fe_sq C) V) U) = (if eqp (v * (c * c)) (- u) then 0 else 1)"
    using fe_rep_isnonzero [OF fe_rep_add [OF vxx rU]] eqp_0_iff [of "v * (c * c)" "- u"] by (simp add: mult.commute)
  show ?thesis
  proof (cases "eqp (v * (c * c)) u \<or> eqp (v * (c * c)) (- u)")
    case F: False
    then have "ge_frombytes_vartime s = Inl NoSquareRoot"
      using False check plus
      by (simp add: ge_frombytes_vartime_def Let_def flip: hY_def U_def V_def C_def)
    then show ?thesis
      using F lt by (simp add: decode_spec_def Let_def u_def v_def c_def y_def)
  next
    case root: True
    define x X where "x = (if eqp (v * (c * c)) u then c else c * sqrtm1)"
      and "X = (if eqp (v * (c * c)) u then C else fe_mul C fe_sqrtm1)"
    have rX: "fe_rep 1 X x"
      using rC fe_rep_mul [OF rC sqrtm1_rep] by (simp add: X_def x_def)
    have vx: "eqp (v * (x * x)) u"
    proof (cases "eqp (v * (c * c)) u")
      case False
      then have "eqp (v * (c * c)) (- u)" using root by simp
      then have "eqp (v * (c * c) * (sqrtm1 * sqrtm1)) ((- u) * (- 1))"
        by (rule eqp_mult [OF _ sqrtm1_square])
      then show ?thesis using False by (simp add: x_def algebra_simps)
    qed (simp add: x_def)
    have bit: "uint (drop_bit 7 (s ! 31)) = sign"
      unfolding sign_def by (rule uint_drop_top [OF s])
    have neg: "fe_isnegative X = x mod fe_p mod 2" and nz: "fe_isnonzero X = (if eqp x 0 then 0 else 1)"
      using fe_rep_isnegative [OF rX] fe_rep_isnonzero [OF rX] by simp_all
    have sel: "(if fe_isnonzero (fe_sub (fe_mul (fe_sq C) V) U) \<noteq> 0 then fe_mul C fe_sqrtm1 else C) = X"
      by (simp add: X_def check)
    have ok: "(fe_isnonzero (fe_sub (fe_mul (fe_sq C) V) U) \<noteq> 0 \<and>
        fe_isnonzero (fe_add (fe_mul (fe_sq C) V) U) \<noteq> 0) = False"
      using root check plus by auto
    have z: "((if eqp x 0 then 0 else 1) = (0 :: int)) = eqp x 0"
      by simp
    have res: "ge_frombytes_vartime s =
      (if x mod fe_p mod 2 \<noteq> sign then
         if eqp x 0 then Inl NegativeZero
         else Inr \<lparr> p3X = fe_neg X, p3Y = hY, p3Z = fe_1, p3T = fe_mul (fe_neg X) hY \<rparr>
       else Inr \<lparr> p3X = X, p3Y = hY, p3Z = fe_1, p3T = fe_mul X hY \<rparr>)"
      unfolding ge_frombytes_vartime_def Let_def hY_def [symmetric] U_def [symmetric] V_def [symmetric]
        C_def [symmetric] ok sel neg nz bit z
      using False by (simp only: if_False)
    have sg: "x mod fe_p mod 2 = sign \<or> x mod fe_p mod 2 = 1 - sign"
      using sign_range [OF s] mod2_cases [of "x mod fe_p"] by (auto simp: sign_def)
    have "p3_rep \<lparr> p3X = X, p3Y = hY, p3Z = fe_1, p3T = fe_mul X hY \<rparr> (x, y, 1, x * y)"
      "p3_rep \<lparr> p3X = fe_neg X, p3Y = hY, p3Z = fe_1, p3T = fe_mul (fe_neg X) hY \<rparr> (- x, y, 1, - x * y)"
      using fe_rep_mul [OF rX rY] fe_rep_neg [OF rX] fe_rep_mul [OF fe_rep_neg [OF rX] rY] rX rY fe_rep_const(2)
      by simp_all
    moreover have "sign = 1" if "x mod fe_p mod 2 \<noteq> sign" "eqp x 0"
      using that sign_range [OF s] by (auto simp: sign_def eqp_def)
    ultimately have "(case ge_frombytes_vartime s of
          Inl NonCanonical \<Rightarrow> fe_p \<le> y
        | Inl NoSquareRoot \<Rightarrow> y < fe_p \<and> \<not> eqp (v * (c * c)) u \<and> \<not> eqp (v * (c * c)) (- u)
        | Inl NegativeZero \<Rightarrow> y < fe_p \<and> eqp (v * (x * x)) u \<and> eqp x 0 \<and> sign = 1
        | Inr h \<Rightarrow> y < fe_p \<and> eqp (v * (x * x)) u \<and>
            (x mod fe_p mod 2 = sign \<and> p3_rep h (x, y, 1, x * y) \<or>
             \<not> eqp x 0 \<and> x mod fe_p mod 2 = 1 - sign \<and> p3_rep h (- x, y, 1, - x * y)))"
      using lt vx sg unfolding res by auto
    then show ?thesis
      by (simp only: decode_spec_def Let_def x_def c_def u_def v_def y_def sign_def)
  qed
qed


text \<open>A decoded point is on the curve, and is affine.\<close>

lemma decode_on_curve:
  assumes "eqp ((y * y * ed_d + 1) * (x * x)) (y * y - 1)"
  shows "ext_on (x, y, 1, x * y)"
proof -
  have "(y * y - x * x) - (1 + ed_d * (x * y * (x * y))) = - ((y * y * ed_d + 1) * (x * x) - (y * y - 1))"
    by (simp add: algebra_simps)
  then have "eqp (y * y - x * x) (1 + ed_d * (x * y * (x * y)))"
    using assms unfolding eqp_iff_dvd by (simp only: dvd_minus_iff)
  then show ?thesis
    by simp
qed

lemma decoded_point:
  assumes s: "length s = 32" and r: "ge_frombytes_vartime s = Inr h"
  obtains x where "p3_rep h (x, le_val s mod 2 ^ 255, 1, x * (le_val s mod 2 ^ 255))"
    and "ext_on (x, le_val s mod 2 ^ 255, 1, x * (le_val s mod 2 ^ 255))"
    and "x mod fe_p mod 2 = le_val s div 2 ^ 255" and "le_val s mod 2 ^ 255 < fe_p"
proof -
  define y where "y = le_val s mod 2 ^ 255"
  obtain x where x: "y < fe_p" "eqp ((y * y * ed_d + 1) * (x * x)) (y * y - 1)"
    and c: "x mod fe_p mod 2 = le_val s div 2 ^ 255 \<and> p3_rep h (x, y, 1, x * y) \<or>
      \<not> eqp x 0 \<and> x mod fe_p mod 2 = 1 - le_val s div 2 ^ 255 \<and> p3_rep h (- x, y, 1, - x * y)"
    using ge_frombytes_spec [OF s] unfolding r decode_spec_def Let_def sum.case y_def [symmetric] by blast
  from c show thesis
  proof
    assume "x mod fe_p mod 2 = le_val s div 2 ^ 255 \<and> p3_rep h (x, y, 1, x * y)"
    then show thesis
      using decode_on_curve [OF x(2)] x(1) by (intro that [of x]) (simp_all add: y_def)
  next
    assume a: "\<not> eqp x 0 \<and> x mod fe_p mod 2 = 1 - le_val s div 2 ^ 255 \<and> p3_rep h (- x, y, 1, - x * y)"
    have "ext_on (- x, y, 1, - x * y)"
      using x(2) by (intro decode_on_curve) simp
    then show thesis
      using a x(1) parity_neg [of x] by (intro that [of "- x"]) (simp_all add: y_def)
  qed
qed

lemma le_val_inject: "length s = length t \<Longrightarrow> le_val s = le_val t \<Longrightarrow> s = t"
proof (induction s t rule: list_induct2)
  case (Cons x s y t)
  have m: "le_val (x # s) mod 256 = uint x" "le_val (y # t) mod 256 = uint y"
    using uint_lt2p [of x] uint_lt2p [of y] by simp_all
  then have "x = y"
    using Cons.prems by (metis word_uint_eqI)
  then show ?case using Cons by simp
qed simp

lemma point_code_bytes:
  assumes "length s = 32" and "le_val s mod 2 ^ 255 < fe_p" and "x mod fe_p mod 2 = le_val s div 2 ^ 255"
  shows "point_code x (le_val s mod 2 ^ 255) = le_val s"
proof -
  have "le_val s mod 2 ^ 255 mod fe_p = le_val s mod 2 ^ 255"
    using assms(2) by (intro mod_pos_pos_trivial) simp_all
  then show ?thesis
    using assms(3) by (simp add: point_code_def)
qed

lemma decode_encode:
  assumes s: "length s = 32" and r: "ge_frombytes_vartime s = Inr h"
  shows "ge_p3_tobytes h = s"
proof -
  obtain x where h: "p3_rep h (x, le_val s mod 2 ^ 255, 1, x * (le_val s mod 2 ^ 255))"
    and x: "x mod fe_p mod 2 = le_val s div 2 ^ 255" "le_val s mod 2 ^ 255 < fe_p"
    using decoded_point [OF s r] by blast
  have "le_val (ge_p3_tobytes h) = le_val s"
    using ge_p3_tobytes_val(1) [OF h] point_code_bytes [OF s x(2,1)] by simp
  then show ?thesis
    using ge_p3_tobytes_val(2) [OF h] s by (intro le_val_inject) simp_all
qed

end
