(* ===== verification/Ge_Fromfe.thy ===== *)
theory Ge_Fromfe
  imports Ge_Codec
begin

text \<open>
  The map \<^verbatim>\<open>ge_fromfe_frombytes_vartime\<close> from a field element \<open>u\<close> to a point, which
  CryptoNote uses to hash to the curve, followed by the multiplication by 8. The result is shown
  to be on the curve, with \<open>Y/Z = (z - w)/(z + w)\<close> for \<open>w = 2 u^2 + 1\<close> and \<open>z = - 2 A u^2\<close> or
  \<open>z = - A\<close>, where \<open>A = 486662\<close>.
\<close>

text \<open>The two branches before \<^verbatim>\<open>setsign\<close>: \<^verbatim>\<open>r->X\<close>, \<^verbatim>\<open>z\<close> and \<^verbatim>\<open>sign\<close>.\<close>

definition fromfe_root :: "fe \<Rightarrow> fe \<Rightarrow> fe \<Rightarrow> (fe \<times> fe \<times> int) option" where
  "fromfe_root u v w =
    (let x = fe_sq w;
         y = fe_mul fe_ma2 v;
         x = fe_add x y;
         rX = fe_divpowm1 w x;
         y = fe_sq rX;
         x = fe_mul y x;
         z = fe_copy fe_ma
     in if fe_isnonzero (fe_sub w x) \<noteq> 0 then
          if fe_isnonzero (fe_add w x) \<noteq> 0 then
            let x = fe_mul x fe_sqrtm1
            in if fe_isnonzero (fe_sub w x) \<noteq> 0 then
                 if fe_isnonzero (fe_add w x) \<noteq> 0 then None
                 else Some (fe_mul rX fe_fffb3, z, 1)
               else Some (fe_mul rX fe_fffb4, z, 1)
          else Some (fe_mul (fe_mul rX fe_fffb1) u, fe_mul z v, 0)
        else Some (fe_mul (fe_mul rX fe_fffb2) u, fe_mul z v, 0))"

text \<open>The check at the end, of a build with assertions.\<close>

definition fromfe_check :: "ge_p2 \<Rightarrow> bool" where
  "fromfe_check r =
    (let iz = fe_invert (p2Z r);
         x = fe_mul (p2X r) iz;
         y = fe_mul (p2Y r) iz;
         x = fe_sq x;
         y = fe_sq y;
         v = fe_mul x y;
         v = fe_mul fe_d v;
         v = fe_add v x;
         v = fe_sub v y;
         x = fe_1;
         v = fe_add v x
     in fe_isnonzero v = 0)"

definition ge_fromfe_frombytes_vartime :: "byte list \<Rightarrow> ge_p2 option" where
  "ge_fromfe_frombytes_vartime s =
    (let u = fe_load_carry (fe_load_full s);
         v = fe_sq2 u;
         w = fe_1;
         w = fe_add v w
     in case fromfe_root u v w of
          None \<Rightarrow> None
        | Some (rX, z, sign) \<Rightarrow>
            if fe_isnegative rX \<noteq> sign \<and> fe_isnonzero rX = 0 then None
            else
              let rX = (if fe_isnegative rX \<noteq> sign then fe_neg rX else rX);
                  rZ = fe_add z w;
                  rY = fe_sub z w;
                  rX = fe_mul rX rZ;
                  r = \<lparr> p2X = rX, p2Y = rY, p2Z = rZ \<rparr>
              in if fromfe_check r then Some r else None)"

section \<open>Constants\<close>

definition mont_a :: int where
  "mont_a = 486662"

lemma ma_rep: "fe_rep 1 fe_ma (- mont_a)" "fe_rep 1 fe_ma2 (- (mont_a * mont_a))"
  by (simp_all add: fe_rep_def fe_ma_def fe_ma2_def bnd_def mont_a_def eqp_def fe_p_def)

text \<open>The four constants are square roots of multiples of \<open>A (A + 2)\<close>.\<close>

definition fffb_sq :: "int \<Rightarrow> fe \<Rightarrow> bool" where
  "fffb_sq c f \<longleftrightarrow> fe_rep 1 f (fe_val f) \<and> eqp (fe_val f * fe_val f) (c * (mont_a * (mont_a + 2)))"

lemma fffb_squares: "fffb_sq (- 2) fe_fffb1" "fffb_sq 2 fe_fffb2"
  "fffb_sq (- sqrtm1) fe_fffb3" "fffb_sq sqrtm1 fe_fffb4"
  by (simp_all add: fffb_sq_def fe_rep_def bnd_def fe_fffb1_def fe_fffb2_def fe_fffb3_def fe_fffb4_def
      sqrtm1_def fe_sqrtm1_def mont_a_def eqp_def fe_p_def)

lemma ed_d_mont: "eqp (ed_d * (mont_a + 2)) (- (mont_a - 2))"
  by (simp add: ed_d_def mont_a_def eqp_def fe_p_def)

lemma unit_mont: "unit_p (mont_a + 2)"
  by (rule unit_pI [of _ 9273926483667359835784520877188641297385528469960804754097196383271485070889])
    (simp add: mont_a_def eqp_def fe_p_def)

section \<open>The square root\<close>

definition fromfe_x :: "int \<Rightarrow> int \<Rightarrow> int" where
  "fromfe_x v w = w * w - mont_a * mont_a * v"

lemma root_times:
  assumes "eqp (r * r * x) (c * w)" and "eqp (f * f) (e * k)"
  shows "eqp ((r * f) * (r * f) * x) (c * e * (w * k))"
proof -
  have "eqp ((r * r * x) * (f * f)) ((c * w) * (e * k))"
    by (rule eqp_mult [OF assms])
  then show ?thesis by (simp add: algebra_simps)
qed

text \<open>What the branches establish: a square root of \<open>- (A + 2) z w / x\<close>.\<close>

definition fromfe_rooted :: "int \<Rightarrow> int \<Rightarrow> int \<Rightarrow> fe \<times> fe \<times> int \<Rightarrow> bool" where
  "fromfe_rooted u v w t \<longleftrightarrow> (case t of (X, Z, sign) \<Rightarrow> \<exists>\<rho> z. fe_rep 1 X \<rho> \<and> fe_rep 1 Z z \<and>
     (z = - mont_a * v \<and> sign = 0 \<or> z = - mont_a \<and> sign = 1) \<and>
     eqp (\<rho> * \<rho> * fromfe_x v w) (- (mont_a + 2) * (z * w)))"

lemma fromfe_rootedI:
  "fe_rep 1 X r \<Longrightarrow> fe_rep 1 Z z \<Longrightarrow> z = - mont_a * v \<and> sign = 0 \<or> z = - mont_a \<and> sign = 1 \<Longrightarrow>
   eqp (r * r * fromfe_x v w) (- (mont_a + 2) * (z * w)) \<Longrightarrow> fromfe_rooted u v w (X, Z, sign)"
  by (auto simp: fromfe_rooted_def)

lemma fromfe_root_spec:
  assumes U: "fe_rep 1 U u" and V: "fe_rep 1 V v" and W: "fe_rep 2 W w" and v: "v = 2 * (u * u)"
    and t: "fromfe_root U V W = Some t"
  shows "fromfe_rooted u v w t"
proof -
  define x where "x = fromfe_x v w"
  define r where "r = sqrt_cand w x"
  define F where "F = fe_add (fe_sq W) (fe_mul fe_ma2 V)"
  define R where "R = fe_divpowm1 W F"
  define G where "G = fe_mul (fe_sq R) F"
  define H where "H = fe_mul G fe_sqrtm1"
  have "fe_rep (1 + 1) F (w * w + (- (mont_a * mont_a)) * v)"
    unfolding F_def by (intro fe_rep_add fe_rep_sq(1) [OF W] fe_rep_mul [OF ma_rep(2) V]) simp_all
  then have F: "fe_rep 2 F x"
    by (simp add: x_def fromfe_x_def)
  have R: "fe_rep 1 R r"
    unfolding R_def r_def by (rule fe_rep_divpowm1 [OF W _ F]) simp_all
  have G: "fe_rep 1 G (r * r * x)"
    unfolding G_def by (rule fe_rep_mul [OF fe_rep_sq(1) [OF R] F]) simp_all
  have H: "fe_rep 1 H (r * r * x * sqrtm1)"
    unfolding H_def by (rule fe_rep_mul [OF G sqrtm1_rep]) simp_all
  have nz: "fe_isnonzero (fe_sub W G) = (if eqp w (r * r * x) then 0 else 1)"
    "fe_isnonzero (fe_add W G) = (if eqp w (- (r * r * x)) then 0 else 1)"
    "fe_isnonzero (fe_sub W H) = (if eqp w (r * r * x * sqrtm1) then 0 else 1)"
    "fe_isnonzero (fe_add W H) = (if eqp w (- (r * r * x * sqrtm1)) then 0 else 1)"
    using fe_rep_isnonzero [OF fe_rep_sub [OF W G]] fe_rep_isnonzero [OF fe_rep_add [OF W G]]
      fe_rep_isnonzero [OF fe_rep_sub [OF W H]] fe_rep_isnonzero [OF fe_rep_add [OF W H]]
      eqp_0_iff [of w "r * r * x"] eqp_0_iff [of w "- (r * r * x)"]
      eqp_0_iff [of w "r * r * x * sqrtm1"] eqp_0_iff [of w "- (r * r * x * sqrtm1)"]
    by simp_all
  have val: "fe_rep 1 fe_fffb1 (fe_val fe_fffb1)" "fe_rep 1 fe_fffb2 (fe_val fe_fffb2)"
    "fe_rep 1 fe_fffb3 (fe_val fe_fffb3)" "fe_rep 1 fe_fffb4 (fe_val fe_fffb4)"
    using fffb_squares by (simp_all add: fffb_sq_def)
  let ?k = "mont_a * (mont_a + 2)"
  have sq: "eqp (fe_val fe_fffb1 * fe_val fe_fffb1) (- 2 * ?k)" "eqp (fe_val fe_fffb2 * fe_val fe_fffb2) (2 * ?k)"
    "eqp (fe_val fe_fffb3 * fe_val fe_fffb3) (- sqrtm1 * ?k)" "eqp (fe_val fe_fffb4 * fe_val fe_fffb4) (sqrtm1 * ?k)"
    using fffb_squares by (simp_all add: fffb_sq_def)
  have zv: "fe_rep 1 (fe_mul (fe_copy fe_ma) V) (- mont_a * v)"
    using fe_rep_mul [OF ma_rep(1) V] by simp
  have Xu: "fe_rep 1 (fe_mul (fe_mul R f) U) (r * fe_val f * u)" if "fe_rep 1 f (fe_val f)" for f
    by (rule fe_rep_mul [OF fe_rep_mul [OF R that] U]) simp_all
  have X: "fe_rep 1 (fe_mul R f) (r * fe_val f)" if "fe_rep 1 f (fe_val f)" for f
    by (rule fe_rep_mul [OF R that]) simp_all
  have nonneg: "eqp ((r * f * u) * (r * f * u) * x) (- (mont_a + 2) * ((- mont_a * v) * w))"
    if "eqp (r * r * x) (c * w)" "eqp (f * f) (e * ?k)" "c * e = 2" for f c e
  proof -
    have "eqp ((r * f) * (r * f) * x * (u * u)) (c * e * (w * ?k) * (u * u))"
      by (intro eqp_mult root_times that eqp_refl)
    then show ?thesis
      unfolding that(3) v by (simp add: algebra_simps)
  qed
  have ii: "eqp (- (sqrtm1 * sqrtm1)) 1"
    using eqp_minus [OF sqrtm1_square] by simp
  have neg: "eqp ((r * f) * (r * f) * x) (- (mont_a + 2) * ((- mont_a) * w))"
    if "eqp (r * r * x) (c * w)" "eqp (f * f) (e * ?k)" "c * e = - (sqrtm1 * sqrtm1)" for f c e
  proof -
    have "eqp ((r * f) * (r * f) * x) (- (sqrtm1 * sqrtm1) * (w * ?k))"
      using root_times [OF that(1,2)] unfolding that(3) .
    moreover have "eqp (- (sqrtm1 * sqrtm1) * (w * ?k)) (1 * (w * ?k))"
      by (rule eqp_mult [OF ii eqp_refl])
    ultimately show ?thesis
      by (rule eqp_trans [THEN eqp_trans]) (simp add: algebra_simps)
  qed
  have turn: "eqp (r * r * x) (- sqrtm1 * w')" if "eqp w' (r * r * x * sqrtm1)" for w'
  proof -
    have "eqp (r * r * x * (- (sqrtm1 * sqrtm1))) (r * r * x * 1)"
      by (rule eqp_mult [OF eqp_refl ii])
    moreover have "eqp (- sqrtm1 * w') (- sqrtm1 * (r * r * x * sqrtm1))"
      by (rule eqp_mult [OF eqp_refl that])
    ultimately show ?thesis
      by (simp add: algebra_simps) (metis eqp_sym eqp_trans)
  qed
  have ma: "fe_rep 1 (fe_copy fe_ma) (- mont_a)"
    using ma_rep(1) by simp
  consider (a) "eqp w (r * r * x)" "t = (fe_mul (fe_mul R fe_fffb2) U, fe_mul (fe_copy fe_ma) V, 0)"
    | (b) "eqp w (- (r * r * x))" "t = (fe_mul (fe_mul R fe_fffb1) U, fe_mul (fe_copy fe_ma) V, 0)"
    | (c) "eqp w (- (r * r * x * sqrtm1))" "t = (fe_mul R fe_fffb3, fe_copy fe_ma, 1)"
    | (d) "eqp w (r * r * x * sqrtm1)" "t = (fe_mul R fe_fffb4, fe_copy fe_ma, 1)"
    using t nz unfolding fromfe_root_def Let_def F_def [symmetric] R_def [symmetric] G_def [symmetric] H_def [symmetric]
    by (auto split: if_splits)
  then show ?thesis
  proof cases
    case a
    have e: "eqp (r * r * x) (1 * w)"
      using eqp_sym [OF a(1)] by simp
    show ?thesis
      unfolding a(2) using nonneg [OF e sq(2)]
      by (intro fromfe_rootedI [OF Xu [OF val(2)] zv]) (simp_all add: x_def)
  next
    case b
    have e: "eqp (r * r * x) ((- 1) * w)"
      using eqp_minus [OF eqp_sym [OF b(1)]] by simp
    show ?thesis
      unfolding b(2) using nonneg [OF e sq(1)]
      by (intro fromfe_rootedI [OF Xu [OF val(1)] zv]) (simp_all add: x_def)
  next
    case c
    have "eqp (- w) (r * r * x * sqrtm1)"
      using eqp_minus [OF c(1)] by simp
    then have e: "eqp (r * r * x) (sqrtm1 * w)"
      using turn [of "- w"] by simp
    show ?thesis
      unfolding c(2) using neg [OF e sq(3)]
      by (intro fromfe_rootedI [OF X [OF val(3)] ma]) (simp_all add: x_def)
  next
    case d
    show ?thesis
      unfolding d(2) using neg [OF turn [OF d(1)] sq(4)]
      by (intro fromfe_rootedI [OF X [OF val(4)] ma]) (simp_all add: x_def)
  qed
qed


section \<open>The point\<close>

lemma fromfe_curve:
  assumes "eqp (r * r * fromfe_x v w) (- (mont_a + 2) * (z * w))"
    and "w = v + 1" and "z = - mont_a * v \<or> z = - mont_a"
  shows "ext_on (r * (z + w), z - w, z + w, r * (z - w))"
proof -
  let ?a = "mont_a"
  have x: "z * z + w * w + ?a * z * w = fromfe_x v w"
    using assms(2,3) by (auto simp: fromfe_x_def algebra_simps)
  define E where "E = (z - w) * (z - w) - r * (z + w) * (r * (z + w))
    - ((z + w) * (z + w) + ed_d * (r * (z - w) * (r * (z - w))))"
  have "(?a + 2) * E = 4 * (- (?a + 2) * (z * w) - r * r * (z * z + w * w + ?a * z * w))
      - r * r * ((z - w) * (z - w)) * (ed_d * (?a + 2) - (- (?a - 2)))"
    unfolding E_def by algebra
  moreover have "eqp (- (?a + 2) * (z * w) - r * r * (z * z + w * w + ?a * z * w)) 0"
    using eqp_sym [OF assms(1)] unfolding x eqp_0_iff [of "- (?a + 2) * (z * w)"] .
  moreover have "eqp (ed_d * (?a + 2) - (- (?a - 2))) 0"
    using ed_d_mont unfolding eqp_0_iff [of "ed_d * (?a + 2)"] .
  ultimately have "eqp ((?a + 2) * E) ((?a + 2) * 0)"
    using eqp_diff [OF eqp_0_mult(1) eqp_0_mult(1), of _ _ 4] by (metis diff_zero mult_zero_right)
  then have "eqp E 0"
    by (rule unit_p_cancel [OF unit_mont])
  then have "eqp ((z - w) * (z - w) - r * (z + w) * (r * (z + w)))
      ((z + w) * (z + w) + ed_d * (r * (z - w) * (r * (z - w))))"
    unfolding E_def eqp_0_iff [symmetric] .
  then show ?thesis
    by (simp add: algebra_simps)
qed

text \<open>
  The result of the map is not carried: \<open>Y\<close> and \<open>Z\<close> are sums of two elements. They are within
  the range that the doubling accepts.
\<close>

definition fe_wide :: "fe \<Rightarrow> int \<Rightarrow> bool" where
  "fe_wide f x \<longleftrightarrow> fe_bd 72000000 36000000 f \<and> eqp (fe_val f) x"

definition p2_wide :: "ge_p2 \<Rightarrow> ext \<Rightarrow> bool" where
  "p2_wide h P \<longleftrightarrow> (case P of (X, Y, Z, T) \<Rightarrow> fe_rep 1 (p2X h) X \<and> fe_wide (p2Y h) Y \<and> fe_wide (p2Z h) Z)"

lemma fe_wide_165: "fe_wide f x \<Longrightarrow> fe_165_26 f"
  unfolding fe_wide_def fe_ranges by (auto intro: fe_bd_mono)

lemma fe_wide_sq: "fe_wide f x \<Longrightarrow> fe_rep 1 (fe_sq f) (x * x)" "fe_wide f x \<Longrightarrow> fe_rep 1 (fe_sq2 f) (2 * (x * x))"
proof -
  assume a: "fe_wide f x"
  note r = fe_wide_165 [OF a] and e = conjunct2 [OF a [unfolded fe_wide_def]]
  show "fe_rep 1 (fe_sq f) (x * x)"
    by (intro fe_rep_101 fe_sq_range r eqp_trans [OF fe_sq_val [OF r]] eqp_mult e)
  show "fe_rep 1 (fe_sq2 f) (2 * (x * x))"
    by (intro fe_rep_101 fe_sq2_range r eqp_trans [OF fe_sq2_val [OF r]] eqp_mult e eqp_refl)
qed

lemma fe_wide_mul: "fe_rep 1 f x \<Longrightarrow> fe_wide g y \<Longrightarrow> fe_rep 1 (fe_mul f g) (x * y)"
proof -
  assume f: "fe_rep 1 f x" and g: "fe_wide g y"
  note r = fe_rep_165 [OF f] fe_wide_165 [OF g]
  show ?thesis
    using r by (intro fe_rep_101 fe_mul_range eqp_trans [OF fe_mul_val] eqp_mult fe_rep_D(1) [OF f]
        conjunct2 [OF g [unfolded fe_wide_def]]) simp_all
qed

lemma fe_wide_add_one:
  assumes z: "fe_rep 1 Z z" and v: "fe_rep 1 V v"
  shows "fe_wide (fe_add Z (fe_add V fe_1)) (z + (v + 1))" and "fe_wide (fe_sub Z (fe_add V fe_1)) (z - (v + 1))"
proof -
  have one: "fe_bd 1 1 fe_1" "fe_val fe_1 = 1"
    by (simp_all add: fe_1_def bnd_def)
  have V: "fe_bd 33889976 16944988 V" "eqp (fe_val V) v" and Z: "fe_bd 33889976 16944988 Z" "eqp (fe_val Z) z"
    using v z by (simp_all add: fe_rep_def)
  have W: "fe_bd 33889977 16944989 (fe_add V fe_1)" "fe_val (fe_add V fe_1) = fe_val V + 1"
    using fe_add_gen [OF V(1) one(1)] one(2) by simp_all
  have "eqp (fe_val V + 1) (v + 1)"
    by (rule eqp_add [OF V(2) eqp_refl])
  then show "fe_wide (fe_add Z (fe_add V fe_1)) (z + (v + 1))" "fe_wide (fe_sub Z (fe_add V fe_1)) (z - (v + 1))"
    using fe_add_gen [OF Z(1) W(1)] fe_sub_gen [OF Z(1) W(1)] W(2) Z(2)
    by (auto simp: fe_wide_def eqp_add eqp_diff elim: fe_bd_mono)
qed

lemma ge_p2_dbl_wide:
  assumes "p2_wide p P"
  shows "p1p1_rep (ge_p2_dbl p) (ext_dbl P)"
proof -
  obtain X Y Z T where P: "P = (X, Y, Z, T)"
    by (cases P)
  have p: "fe_rep 1 (p2X p) X" "fe_wide (p2Y p) Y" "fe_wide (p2Z p) Z"
    using assms by (simp_all add: P p2_wide_def)
  have XX: "fe_rep 1 (fe_sq (p2X p)) (X * X)" and YY: "fe_rep 1 (fe_sq (p2Y p)) (Y * Y)"
    and ZZ: "fe_rep 1 (fe_sq2 (p2Z p)) (2 * (Z * Z))"
    by (rule fe_rep_sq fe_wide_sq p | simp)+
  have "fe_bd 33889976 16944988 (p2X p)" "eqp (fe_val (p2X p)) X"
    "fe_bd 72000000 36000000 (p2Y p)" "eqp (fe_val (p2Y p)) Y"
    using p(1,2) by (simp_all add: fe_rep_def fe_wide_def)
  then have "fe_bd 105889976 52944988 (fe_add (p2X p) (p2Y p))" "eqp (fe_val (fe_add (p2X p) (p2Y p))) (X + Y)"
    using fe_add_gen [of 33889976 16944988 "p2X p" 72000000 36000000 "p2Y p"] by (simp_all add: eqp_add)
  then have r: "fe_165_26 (fe_add (p2X p) (p2Y p))" and e: "eqp (fe_val (fe_add (p2X p) (p2Y p))) (X + Y)"
    by (auto simp: fe_ranges elim: fe_bd_mono)
  have S: "fe_rep 1 (fe_sq (fe_add (p2X p) (p2Y p))) ((X + Y) * (X + Y))"
    by (intro fe_rep_101 fe_sq_range r eqp_trans [OF fe_sq_val [OF r]] eqp_mult e)
  have H: "fe_rep (1 + 1) (fe_add (fe_sq (p2Y p)) (fe_sq (p2X p))) (Y * Y + X * X)"
    by (rule fe_rep_add [OF YY XX]) simp
  have G: "fe_rep (1 + 1) (fe_sub (fe_sq (p2Y p)) (fe_sq (p2X p))) (Y * Y - X * X)"
    by (rule fe_rep_sub [OF YY XX]) simp
  show ?thesis
    by (rule p1p1_repI; (unfold ge_p2_dbl_def Let_def ge_p1p1.simps)?)
      (rule H G fe_rep_sub [OF S H] fe_rep_sub [OF ZZ G], simp | rule H G
       | simp add: P Let_def)+
qed

lemma ge_mul8_wide: "p2_wide p P \<Longrightarrow> p1p1_rep (ge_mul8 p) (ext_dbl (ext_dbl (ext_dbl P)))"
  unfolding ge_mul8_def Let_def by (intro ge_p2_dbl_rep ge_p1p1_to_p2_rep ge_p2_dbl_wide)

text \<open>The result for a 32-byte string.\<close>

lemma ge_fromfe_point:
  assumes s: "length s = 32" and r: "ge_fromfe_frombytes_vartime s = Some r"
  defines "v \<equiv> 2 * (le_val s * le_val s)"
  obtains \<rho> z where "z = - mont_a * v \<and> \<rho> mod fe_p mod 2 = 0 \<or> z = - mont_a \<and> \<rho> mod fe_p mod 2 = 1"
    and "p2_wide r (\<rho> * (z + (v + 1)), z - (v + 1), z + (v + 1), \<rho> * (z - (v + 1)))"
    and "ext_on (\<rho> * (z + (v + 1)), z - (v + 1), z + (v + 1), \<rho> * (z - (v + 1)))"
proof -
  define U V where "U = fe_load_carry (fe_load_full s)" and "V = fe_sq2 U"
  define w where "w = v + 1"
  have U: "fe_rep 1 U (le_val s)"
    unfolding U_def using fe_load_carry_spec [OF fe_loaded_full [of s]] fe_load_full_val [OF s]
    by (intro fe_rep_101) simp_all
  have V: "fe_rep 1 V v"
    unfolding V_def v_def by (rule fe_rep_sq(2) [OF U]) simp
  have W: "fe_rep 2 (fe_add V fe_1) w"
    using fe_rep_add [OF V fe_rep_const(2)] by (simp add: w_def)
  obtain X Z sign where t: "fromfe_root U V (fe_add V fe_1) = Some (X, Z, sign)"
    and guard: "\<not> (fe_isnegative X \<noteq> sign \<and> fe_isnonzero X = 0)"
    and res: "r = \<lparr> p2X = fe_mul (if fe_isnegative X \<noteq> sign then fe_neg X else X) (fe_add Z (fe_add V fe_1)),
      p2Y = fe_sub Z (fe_add V fe_1), p2Z = fe_add Z (fe_add V fe_1) \<rparr>"
    using r unfolding ge_fromfe_frombytes_vartime_def Let_def U_def [symmetric] V_def [symmetric]
    by (auto split: option.splits prod.splits if_splits)
  obtain \<rho> z where X: "fe_rep 1 X \<rho>" and Z: "fe_rep 1 Z z"
    and c: "z = - mont_a * v \<and> sign = 0 \<or> z = - mont_a \<and> sign = 1"
    and e: "eqp (\<rho> * \<rho> * fromfe_x v w) (- (mont_a + 2) * (z * w))"
    using fromfe_root_spec [OF U V W v_def [THEN meta_eq_to_obj_eq] t] by (auto simp: fromfe_rooted_def)
  define X' \<rho>' where "X' = (if fe_isnegative X \<noteq> sign then fe_neg X else X)"
    and "\<rho>' = (if fe_isnegative X \<noteq> sign then - \<rho> else \<rho>)"
  have X': "fe_rep 1 X' \<rho>'"
    using X fe_rep_neg [OF X] by (simp add: X'_def \<rho>'_def)
  have par: "\<rho>' mod fe_p mod 2 = sign"
  proof (cases "fe_isnegative X = sign")
    case True
    then show ?thesis using fe_rep_isnegative [OF X] by (simp add: \<rho>'_def)
  next
    case False
    then have "\<not> eqp \<rho> 0"
      using guard fe_rep_isnonzero [OF X] by (auto split: if_splits)
    then show ?thesis
      using False parity_neg [of \<rho>] fe_rep_isnegative [OF X] c mod2_cases [of "\<rho> mod fe_p"] by (auto simp: \<rho>'_def)
  qed
  have "eqp (\<rho>' * \<rho>' * fromfe_x v w) (- (mont_a + 2) * (z * w))"
    using e by (simp add: \<rho>'_def)
  then have "ext_on (\<rho>' * (z + w), z - w, z + w, \<rho>' * (z - w))"
    using c by (intro fromfe_curve) (auto simp: w_def)
  moreover have "p2_wide r (\<rho>' * (z + w), z - w, z + w, \<rho>' * (z - w))"
    unfolding res X'_def [symmetric] using fe_wide_add_one [OF Z V] fe_wide_mul [OF X' fe_wide_add_one(1) [OF Z V]]
    by (simp add: p2_wide_def w_def)
  moreover have "z = - mont_a * v \<and> \<rho>' mod fe_p mod 2 = 0 \<or> z = - mont_a \<and> \<rho>' mod fe_p mod 2 = 1"
    using c par by auto
  ultimately show thesis
    by (intro that [of z \<rho>']) (simp_all add: w_def)
qed


text \<open>The check at the end tests the curve equation of the affine coordinates.\<close>

lemma fe_wide_invert: "fe_wide f x \<Longrightarrow> fe_rep 1 (fe_invert f) (x ^ inv_exp)"
  unfolding inv_exp_def
  by (intro fe_rep_101 fe_invert_range eqp_trans [OF fe_invert_val] eqp_power) (auto intro: fe_wide_165 simp: fe_wide_def)

lemma eqp_cong: "eqp a b \<Longrightarrow> eqp a c \<longleftrightarrow> eqp b c"
  by (simp add: eqp_def)

lemma fromfe_check_iff:
  assumes "p2_wide r (X, Y, Z, T)"
  defines "x \<equiv> X * Z ^ inv_exp" and "y \<equiv> Y * Z ^ inv_exp"
  shows "fromfe_check r \<longleftrightarrow> eqp (ed_d * ((x * x) * (y * y)) + x * x - y * y + 1) 0"
proof -
  have r: "fe_rep 1 (p2X r) X" "fe_wide (p2Y r) Y" "fe_wide (p2Z r) Z"
    using assms(1) by (simp_all add: p2_wide_def)
  define iz where "iz = fe_invert (p2Z r)"
  have iz: "fe_rep 1 iz (Z ^ inv_exp)"
    unfolding iz_def by (rule fe_wide_invert [OF r(3)])
  have x: "fe_rep 1 (fe_sq (fe_mul (p2X r) iz)) (x * x)"
    unfolding x_def by (rule fe_rep_sq(1) [OF fe_rep_mul [OF r(1) iz]]) simp_all
  have "fe_rep 1 (fe_mul (p2Y r) iz) y"
  proof -
    note m = fe_wide_165 [OF r(2)] fe_rep_165 [OF iz]
    show ?thesis
      unfolding y_def using m
      by (intro fe_rep_101 fe_mul_range eqp_trans [OF fe_mul_val] eqp_mult fe_rep_D(1) [OF iz]
          conjunct2 [OF r(2) [unfolded fe_wide_def]]) simp_all
  qed
  then have y: "fe_rep 1 (fe_sq (fe_mul (p2Y r) iz)) (y * y)"
    by (rule fe_rep_sq(1)) simp
  have xy: "fe_rep 1 (fe_mul (fe_sq (fe_mul (p2X r) iz)) (fe_sq (fe_mul (p2Y r) iz))) ((x * x) * (y * y))"
    by (rule fe_rep_mul [OF x y]) simp_all
  define v where "v = fe_sub (fe_add (fe_mul fe_d (fe_mul (fe_sq (fe_mul (p2X r) iz)) (fe_sq (fe_mul (p2Y r) iz))))
    (fe_sq (fe_mul (p2X r) iz))) (fe_sq (fe_mul (p2Y r) iz))"
  have "fe_rep (1 + 1 + 1) v (ed_d * ((x * x) * (y * y)) + x * x - y * y)"
    unfolding v_def by (intro fe_rep_sub fe_rep_add fe_rep_mul [OF fe_d_rep xy] x y) simp_all
  then have v: "fe_bd 101669928 50834964 v" "eqp (fe_val v) (ed_d * ((x * x) * (y * y)) + x * x - y * y)"
    by (simp_all add: fe_rep_def)
  have one: "fe_bd 1 1 fe_1" "fe_val fe_1 = 1"
    by (simp_all add: fe_1_def bnd_def)
  have s: "fe_bd 101669929 50834965 (fe_add v fe_1)" "fe_val (fe_add v fe_1) = fe_val v + 1"
    using fe_add_gen [OF v(1) one(1)] one(2) by simp_all
  have "fe_165_26 (fe_add v fe_1)"
    unfolding fe_ranges by (rule fe_bd_mono [OF s(1)]) simp_all
  then have "fe_isnonzero (fe_add v fe_1) = 0 \<longleftrightarrow> eqp (fe_val v + 1) 0"
    using fe_isnonzero_val [of "fe_add v fe_1"] by (simp add: s(2))
  also have "\<dots> \<longleftrightarrow> eqp (ed_d * ((x * x) * (y * y)) + x * x - y * y + 1) 0"
    by (rule eqp_cong [OF eqp_add [OF v(2) eqp_refl]])
  finally show ?thesis
    by (simp only: fromfe_check_def Let_def iz_def v_def)
qed

end
