(* ===== verification/Codec_Properties.thy ===== *)
theory Codec_Properties
  imports Ge_Fromfe
begin

text \<open>
  The contract of the point encodings of \<^verbatim>\<open>crypto-ops.c\<close>.
\<close>

text \<open>
  C16: \<^verbatim>\<open>ge_frombytes_vartime\<close> on any 32 bytes: an accepted string gives a point of the
  curve with \<open>Z = 1\<close>, whose \<open>y\<close> is the low 255 bits, below the prime, and whose \<open>x\<close> has the
  parity of the top bit. A rejected string is not canonical, or the candidate root \<open>c\<close> of
  \<open>(y^2 - 1) / (d y^2 + 1)\<close> is a root neither of it nor of its negation, or \<open>x = 0\<close> and the top
  bit is set.
\<close>

theorem ge_frombytes_correct:
  assumes "length s = 32"
  shows "case ge_frombytes_vartime s of
      Inr h \<Rightarrow> le_val s mod 2 ^ 255 < fe_p \<and>
        (\<exists>x. p3_rep h (x, le_val s mod 2 ^ 255, 1, x * (le_val s mod 2 ^ 255)) \<and>
          ext_on (x, le_val s mod 2 ^ 255, 1, x * (le_val s mod 2 ^ 255)) \<and>
          x mod fe_p mod 2 = le_val s div 2 ^ 255)
    | Inl e \<Rightarrow> decode_spec s (Inl e)"
  using ge_frombytes_spec [OF assms] decoded_point [OF assms] by (auto split: sum.splits)

lemma decode_one: "\<exists>h. ge_frombytes_vartime (1 # replicate 31 0) = Inr h"
proof -
  have v: "le_val (1 # replicate 31 0) = 1" "length (1 # replicate 31 0 :: byte list) = 32"
    by (simp_all add: numeral_eq_Suc)
  have "decode_spec (1 # replicate 31 0) (ge_frombytes_vartime (1 # replicate 31 0))"
    by (rule ge_frombytes_spec [OF v(2)])
  moreover have "1 < fe_p" "sqrt_cand 0 w = 0" for w
    by (simp_all add: fe_p_def sqrt_cand_def)
  ultimately show ?thesis
    unfolding decode_spec_def v(1) Let_def by (auto split: sum.splits decode_error.splits)
qed

theorem ge_frombytes_correct_witness:
  "length (1 # replicate 31 0 :: byte list) = 32 \<and>
   (\<exists>h x. ge_frombytes_vartime (1 # replicate 31 0) = Inr h \<and> p3_rep h (x, 1, 1, x) \<and> ext_on (x, 1, 1, x))"
proof -
  have v: "le_val (1 # replicate 31 0) = 1" "length (1 # replicate 31 0 :: byte list) = 32"
    by (simp_all add: numeral_eq_Suc)
  show ?thesis
    using decode_one ge_frombytes_correct [OF v(2)] v by auto
qed

text \<open>
  C17: Decoding and encoding are inverse: encoding the point that \<^verbatim>\<open>ge_frombytes_vartime\<close>
  returns gives back the same 32 bytes, through \<^verbatim>\<open>ge_p3_tobytes\<close> and through
  \<^verbatim>\<open>ge_tobytes\<close> of the projected point, so that no two accepted strings denote
  the same struct.
\<close>

theorem ge_codec_roundtrip:
  assumes "length s = 32" and "ge_frombytes_vartime s = Inr h"
  shows "ge_p3_tobytes h = s \<and> ge_tobytes (ge_p3_to_p2 h) = s"
proof
  show "ge_p3_tobytes h = s"
    by (rule decode_encode [OF assms])
  then show "ge_tobytes (ge_p3_to_p2 h) = s"
    by (simp add: ge_p3_tobytes_def ge_tobytes_def ge_p3_to_p2_def)
qed

theorem ge_codec_roundtrip_witness:
  "\<exists>h. ge_frombytes_vartime (1 # replicate 31 0) = Inr h \<and> ge_p3_tobytes h = 1 # replicate 31 0"
proof -
  have "length (1 # replicate 31 0 :: byte list) = 32"
    by simp
  then show ?thesis
    using decode_one ge_codec_roundtrip by blast
qed





end
