(* ===== verification/Keccak.thy ===== *)
theory Keccak
  imports Prelude
begin

text \<open>
  The hash function of \<^verbatim>\<open>keccak.c\<close>. The state is the list of its 25 lanes. The
  permutation updates it in place, as the code does; the reference is the specification of
  the standard by coordinates, with its recurrences for the rotation offsets and the round
  constants, so that the three tables of the code are checked against them. The
  sponge is checked against absorbing the blocks of the padded message.
\<close>

section \<open>The code\<close>

definition ROTL64 :: "u64 \<Rightarrow> nat \<Rightarrow> u64" where
  "ROTL64 x y = push_bit y x OR drop_bit (64 - y) x"

definition keccakf_rndc :: "u64 list" where
  "keccakf_rndc =
     [0x0000000000000001, 0x0000000000008082, 0x800000000000808a,
      0x8000000080008000, 0x000000000000808b, 0x0000000080000001,
      0x8000000080008081, 0x8000000000008009, 0x000000000000008a,
      0x0000000000000088, 0x0000000080008009, 0x000000008000000a,
      0x000000008000808b, 0x800000000000008b, 0x8000000000008089,
      0x8000000000008003, 0x8000000000008002, 0x8000000000000080,
      0x000000000000800a, 0x800000008000000a, 0x8000000080008081,
      0x8000000000008080, 0x0000000080000001, 0x8000000080008008]"

definition keccakf_rotc :: "nat list" where
  "keccakf_rotc =
     [1,  3,  6,  10, 15, 21, 28, 36, 45, 55, 2,  14,
      27, 41, 56, 8,  25, 43, 62, 18, 39, 61, 20, 44]"

definition keccakf_piln :: "nat list" where
  "keccakf_piln =
     [10, 7,  11, 17, 18, 3, 5,  16, 8,  21, 24, 4,
      15, 23, 19, 13, 12, 2, 20, 14, 22, 9,  6,  1]"

definition theta :: "u64 list \<Rightarrow> u64 list" where
  "theta st =
    (let bc = map (\<lambda>i. st ! i XOR st ! (i + 5) XOR st ! (i + 10) XOR st ! (i + 15) XOR st ! (i + 20)) [0, 1, 2, 3, 4]
     in fold (\<lambda>i st.
          let t = bc ! ((i + 4) mod 5) XOR ROTL64 (bc ! ((i + 1) mod 5)) 1
          in fold (\<lambda>j st. st[j + i := st ! (j + i) XOR t]) [0, 5, 10, 15, 20] st) [0, 1, 2, 3, 4] st)"

definition rho_pi :: "u64 list \<Rightarrow> u64 list" where
  "rho_pi st =
     snd (fold (\<lambda>i (t, st).
       let j = keccakf_piln ! i;
           bc0 = st ! j;
           st = st[j := ROTL64 t (keccakf_rotc ! i)]
       in (bc0, st)) [0..<24] (st ! 1, st))"

definition chi :: "u64 list \<Rightarrow> u64 list" where
  "chi st =
     fold (\<lambda>j st.
       let bc = map (\<lambda>i. st ! (j + i)) [0, 1, 2, 3, 4]
       in fold (\<lambda>i st. st[j + i := st ! (j + i) XOR (NOT (bc ! ((i + 1) mod 5)) AND bc ! ((i + 2) mod 5))])
            [0, 1, 2, 3, 4] st) [0, 5, 10, 15, 20] st"

definition iota :: "nat \<Rightarrow> u64 list \<Rightarrow> u64 list" where
  "iota round st = st[0 := st ! 0 XOR keccakf_rndc ! round]"

definition keccakf :: "u64 list \<Rightarrow> nat \<Rightarrow> u64 list" where
  "keccakf st rounds = fold (\<lambda>round st. iota round (chi (rho_pi (theta st)))) [0..<rounds] st"

text \<open>The accesses through \<^verbatim>\<open>uint64_t *\<close> are little-endian.\<close>

definition load64 :: "byte list \<Rightarrow> nat \<Rightarrow> u64" where
  "load64 s k = word_of_int (le_val (take 8 (drop k s)))"

definition store64 :: "u64 \<Rightarrow> byte list" where
  "store64 w = map (\<lambda>i. ucast (drop_bit (8 * i) w)) [0, 1, 2, 3, 4, 5, 6, 7]"

definition state_bytes :: "u64 list \<Rightarrow> byte list" where
  "state_bytes st = concat (map store64 st)"

definition keccak_rsiz :: "int \<Rightarrow> nat" where
  "keccak_rsiz mdlen = (if mdlen = 200 then 136 else nat (i32 (200 - 2 * mdlen) mod 2 ^ 64))"

definition xor_words :: "u64 list \<Rightarrow> byte list \<Rightarrow> nat \<Rightarrow> u64 list" where
  "xor_words st inp rsizw = fold (\<lambda>i st. st[i := st ! i XOR load64 inp (8 * i)]) [0..<rsizw] st"

text \<open>The loop over whole blocks: the state and the rest of the input.\<close>

function keccak_absorb :: "nat \<Rightarrow> u64 list \<Rightarrow> byte list \<Rightarrow> u64 list \<times> byte list" where
  "keccak_absorb rsiz st inp =
    (if 0 < rsiz \<and> rsiz \<le> length inp
     then keccak_absorb rsiz (keccakf (xor_words st inp (rsiz div 8)) 24) (drop rsiz inp)
     else (st, inp))"
  by pat_completeness auto
termination
  by (relation "measure (\<lambda>(rsiz, st, inp). length inp)") auto

declare keccak_absorb.simps [simp del]

text \<open>
  The loop does not end for \<open>rsiz = 0\<close>, and the last block does not fit into \<^verbatim>\<open>temp[144]\<close>
  for \<open>rsiz > 144\<close>: there is no result in these cases.
\<close>

definition keccak :: "byte list \<Rightarrow> int \<Rightarrow> byte list option" where
  "keccak inp mdlen =
    (let rsiz = keccak_rsiz mdlen;
         rsizw = rsiz div 8
     in if rsiz = 0 \<or> 144 < rsiz then None
        else
          let (st, rest) = keccak_absorb rsiz (replicate 25 0) inp;
              temp = rest @ [1] @ replicate (rsiz - (length rest + 1)) 0;
              temp = temp[rsiz - 1 := temp ! (rsiz - 1) OR 0x80];
              st = xor_words st temp rsizw;
              st = keccakf st 24
          in Some (take (nat mdlen) (state_bytes st)))"

definition keccak1600 :: "byte list \<Rightarrow> byte list" where
  "keccak1600 inp = the (keccak inp 200)"

definition hash_permutation :: "u64 list \<Rightarrow> u64 list" where
  "hash_permutation st = keccakf st 24"

definition hash_process :: "byte list \<Rightarrow> byte list" where
  "hash_process buf = keccak1600 buf"

definition cn_fast_hash :: "byte list \<Rightarrow> byte list" where
  "cn_fast_hash data = take 32 (hash_process data)"

section \<open>The permutation of the standard\<close>

text \<open>The lane at \<open>(x, y)\<close>, with the coordinates modulo 5, and the state of given lanes.\<close>

definition lane :: "u64 list \<Rightarrow> nat \<Rightarrow> nat \<Rightarrow> u64" where
  "lane A x y = A ! (x mod 5 + 5 * (y mod 5))"

definition state :: "(nat \<Rightarrow> nat \<Rightarrow> u64) \<Rightarrow> u64 list" where
  "state f = map (\<lambda>k. f (k mod 5) (k div 5)) [0, 1, 2, 3, 4, 5, 6, 7, 8, 9, 10, 11, 12, 13, 14, 15, 16, 17, 18,
     19, 20, 21, 22, 23, 24]"

definition spec_theta :: "u64 list \<Rightarrow> u64 list" where
  "spec_theta A =
    (let C = (\<lambda>x. lane A x 0 XOR lane A x 1 XOR lane A x 2 XOR lane A x 3 XOR lane A x 4)
     in state (\<lambda>x y. lane A x y XOR C (x + 4) XOR word_rotl 1 (C (x + 1))))"

text \<open>Step \<open>t\<close> of the walk through the lanes: from \<open>(1, 0)\<close>, by \<open>(x, y) \<mapsto> (y, 2 x + 3 y)\<close>.\<close>

fun walk :: "nat \<Rightarrow> nat \<times> nat" where
  "walk 0 = (1, 0)"
| "walk (Suc t) = (case walk t of (x, y) \<Rightarrow> (y, (2 * x + 3 * y) mod 5))"

definition rho_offset :: "nat \<Rightarrow> nat \<Rightarrow> nat" where
  "rho_offset x y =
    (if (x mod 5, y mod 5) = (0, 0) then 0
     else case find (\<lambda>t. walk t = (x mod 5, y mod 5)) [0..<24] of
       None \<Rightarrow> 0 | Some t \<Rightarrow> (t + 1) * (t + 2) div 2 mod 64)"

definition spec_rho :: "u64 list \<Rightarrow> u64 list" where
  "spec_rho A = state (\<lambda>x y. word_rotl (rho_offset x y) (lane A x y))"

definition spec_pi :: "u64 list \<Rightarrow> u64 list" where
  "spec_pi A = state (\<lambda>x y. lane A (x + 3 * y) x)"

definition spec_chi :: "u64 list \<Rightarrow> u64 list" where
  "spec_chi A = state (\<lambda>x y. lane A x y XOR (NOT (lane A (x + 1) y) AND lane A (x + 2) y))"

text \<open>The round constants: bit \<open>2^j - 1\<close> is an output of a linear feedback shift register.\<close>

fun lfsr_step :: "bool list \<Rightarrow> bool list" where
  "lfsr_step [r0, r1, r2, r3, r4, r5, r6, r7] =
     [r7, r0, r1, r2, r3 \<noteq> r7, r4 \<noteq> r7, r5 \<noteq> r7, r6]"
| "lfsr_step R = R"

definition lfsr_start :: "bool list" where
  "lfsr_start = [True, False, False, False, False, False, False, False]"

definition rc_bit :: "nat \<Rightarrow> bool" where
  "rc_bit t = hd ((lfsr_step ^^ (t mod 255)) lfsr_start)"

definition round_constant :: "nat \<Rightarrow> u64" where
  "round_constant ir = fold (\<lambda>j c. if rc_bit (j + 7 * ir) then c OR push_bit (2 ^ j - 1) 1 else c) [0..<7] 0"

definition spec_iota :: "nat \<Rightarrow> u64 list \<Rightarrow> u64 list" where
  "spec_iota ir A = state (\<lambda>x y. if x = 0 \<and> y = 0 then lane A x y XOR round_constant ir else lane A x y)"

definition spec_round :: "nat \<Rightarrow> u64 list \<Rightarrow> u64 list" where
  "spec_round ir A = spec_iota ir (spec_chi (spec_pi (spec_rho (spec_theta A))))"

definition keccak_f :: "u64 list \<Rightarrow> u64 list" where
  "keccak_f A = fold spec_round [0..<24] A"

section \<open>The code computes the permutation\<close>

primrec rc_stream :: "nat \<Rightarrow> bool list \<Rightarrow> bool list" where
  "rc_stream 0 R = []"
| "rc_stream (Suc n) R = hd R # rc_stream n (lfsr_step R)"

lemma rc_stream_nth: "t < n \<Longrightarrow> rc_stream n R ! t = hd ((lfsr_step ^^ t) R)"
proof (induction n arbitrary: t R)
  case (Suc n)
  then show ?case
    by (cases t) (simp_all add: funpow_swap1)
qed simp

definition rc_bits :: "bool list" where
  "rc_bits = rc_stream 168 lfsr_start"

lemma rc_bit_nth: "t < 168 \<Longrightarrow> rc_bit t = rc_bits ! t"
  by (simp add: rc_bit_def rc_bits_def rc_stream_nth)

lemma rc_bits_list:
  "rc_bits =
     [True, False, False, False, False, False, False, False, True, False, True, True, False, False, False,
      True, True, True, True, False, True, False, False, False, False, True, True, True, True, True, True,
      True, True, False, False, True, False, False, False, False, True, False, True, False, False, True,
      True, True, True, True, False, True, False, True, False, True, False, True, True, True, False,
      False, False, False, False, True, True, False, False, False, True, False, True, False, True, True,
      False, False, True, True, False, False, True, False, True, True, True, True, True, True, False,
      True, True, True, True, False, False, True, True, False, True, True, True, False, True, True, True,
      False, False, True, False, True, False, True, False, False, True, False, True, False, False, False,
      True, False, False, True, False, True, True, False, True, False, False, False, True, True, False,
      False, True, True, True, False, False, True, True, True, True, False, False, False, True, True,
      False, True, True, False, False, False, False, True, False, False, False, True, False, True, True,
      True]"
  by code_simp

lemma round_constant_bits:
  "ir < 24 \<Longrightarrow> round_constant ir =
     fold (\<lambda>j c. if rc_bits ! (j + 7 * ir) then c OR push_bit (2 ^ j - 1) 1 else c) [0..<7] 0"
  unfolding round_constant_def by (rule fold_cong) (simp_all add: rc_bit_nth del: upt_rec_numeral)

lemma round_constants: "ir < 24 \<Longrightarrow> round_constant ir = keccakf_rndc ! ir"
proof -
  have "\<forall>ir\<in>set [0..<24].
    fold (\<lambda>j c. if rc_bits ! (j + 7 * ir) then c OR push_bit (2 ^ j - 1) 1 else c) [0..<7] 0 = keccakf_rndc ! ir"
    unfolding rc_bits_list keccakf_rndc_def by code_simp
  then show "ir < 24 \<Longrightarrow> round_constant ir = keccakf_rndc ! ir"
    by (simp add: round_constant_bits del: upt_rec_numeral)
qed

lemma rotl_eq:
  fixes x :: "'a :: len word"
  assumes "y < LENGTH('a)"
  shows "push_bit y x OR drop_bit (LENGTH('a) - y) x = word_rotl y x"
proof (rule bit_word_eqI)
  fix n
  assume n: "n < LENGTH('a)"
  show "bit (push_bit y x OR drop_bit (LENGTH('a) - y) x) n = bit (word_rotl y x) n"
  proof (cases "y \<le> n")
    case True
    have "(n + (LENGTH('a) - y)) mod LENGTH('a) = n - y"
      using True n assms mod_add_self2 [of "n - y" "LENGTH('a)"] by simp
    moreover have "\<not> bit x (LENGTH('a) - y + n)"
      using True assms bit_imp_le_length [of x "LENGTH('a) - y + n"] by auto
    ultimately show ?thesis
      using True n assms by (simp add: bit_simps)
  next
    case False
    then show ?thesis
      using n assms by (simp add: bit_simps add.commute)
  qed
qed

lemma word_rotl_0: "word_rotl 0 x = x"
  by (rule bit_word_eqI) (simp add: bit_simps)

lemma ROTL64_eq: "y < 64 \<Longrightarrow> ROTL64 x y = word_rotl y x"
  using rotl_eq [of y x] by (simp add: ROTL64_def)

lemma state_cases:
  assumes "length st = 25"
  obtains a0 a1 a2 a3 a4 a5 a6 a7 a8 a9 a10 a11 a12 a13 a14 a15 a16 a17 a18 a19 a20 a21 a22 a23 a24
  where "st = [a0, a1, a2, a3, a4, a5, a6, a7, a8, a9, a10, a11, a12, a13, a14, a15, a16, a17, a18, a19, a20,
    a21, a22, a23, a24]"
  using assms by (auto simp: numeral_eq_Suc length_Suc_conv)

lemma length_state [simp]: "length (state f) = 25"
  by (simp add: state_def)

lemma theta_spec:
  assumes "length st = 25"
  shows "theta st = spec_theta st"
  using assms
  by (elim state_cases) (simp add: theta_def spec_theta_def state_def lane_def Let_def ROTL64_eq xor.assoc)

lemma chi_spec:
  assumes "length st = 25"
  shows "chi st = spec_chi st"
  using assms
  by (elim state_cases) (simp add: chi_def spec_chi_def state_def lane_def Let_def)

lemma iota_spec:
  assumes "length st = 25" "ir < 24"
  shows "iota ir st = spec_iota ir st"
  using assms(1)
  by (elim state_cases) (simp add: iota_def spec_iota_def state_def lane_def round_constants [OF assms(2)])

text \<open>The tables of rotations and of targets follow the walk.\<close>

lemma rotations: "\<forall>t\<in>set [0..<24]. (t + 1) * (t + 2) div 2 mod 64 = keccakf_rotc ! t"
  and targets: "\<forall>t\<in>set [0..<24]. case walk t of (x, y) \<Rightarrow> y + 5 * ((2 * x + 3 * y) mod 5) = keccakf_piln ! t"
  by code_simp+


lemma rho_offsets:
  "rho_offset 0 0 = 0" "rho_offset 1 0 = 1" "rho_offset 2 0 = 62" "rho_offset 3 0 = 28" "rho_offset 4 0 = 27"
  "rho_offset 0 1 = 36" "rho_offset 1 1 = 44" "rho_offset 2 1 = 6" "rho_offset 3 1 = 55" "rho_offset 4 1 = 20"
  "rho_offset 0 2 = 3" "rho_offset 1 2 = 10" "rho_offset 2 2 = 43" "rho_offset 3 2 = 25" "rho_offset 4 2 = 39"
  "rho_offset 0 3 = 41" "rho_offset 1 3 = 45" "rho_offset 2 3 = 15" "rho_offset 3 3 = 21" "rho_offset 4 3 = 8"
  "rho_offset 0 4 = 18" "rho_offset 1 4 = 2" "rho_offset 2 4 = 61" "rho_offset 3 4 = 56" "rho_offset 4 4 = 14"
  by code_simp+

lemma upt_24: "[0..<24] = [0, 1, 2, 3, 4, 5, 6, 7, 8, 9, 10, 11, 12, 13, 14, 15, 16, 17, 18, 19, 20, 21, 22, 23]"
  by code_simp

lemma rho_pi_spec:
  assumes "length st = 25"
  shows "rho_pi st = spec_pi (spec_rho st)"
  using assms
  by (elim state_cases)
    (simp add: rho_pi_def spec_rho_def spec_pi_def state_def lane_def ROTL64_eq keccakf_rotc_def keccakf_piln_def
      Let_def upt_24 word_rotl_0 rho_offsets rho_offsets [simplified])


lemma length_steps: "length st = 25 \<Longrightarrow> length (spec_round ir st) = 25"
  by (simp add: spec_round_def spec_iota_def)

lemma round_spec:
  assumes "length st = 25" "ir < 24"
  shows "iota ir (chi (rho_pi (theta st))) = spec_round ir st"
proof -
  have "length (spec_theta st) = 25" "length (spec_pi (spec_rho (spec_theta st))) = 25"
    "length (spec_chi (spec_pi (spec_rho (spec_theta st)))) = 25"
    by (simp_all add: spec_theta_def spec_pi_def spec_chi_def Let_def)
  then show ?thesis
    using assms by (simp add: theta_spec rho_pi_spec chi_spec iota_spec spec_round_def)
qed

lemma keccakf_spec:
  assumes "length st = 25" "n \<le> 24"
  shows "keccakf st n = fold spec_round [0..<n] st \<and> length (keccakf st n) = 25"
  using assms(2)
proof (induction n)
  case 0
  then show ?case using assms(1) by (simp add: keccakf_def)
next
  case (Suc n)
  define A where "A = fold spec_round [0..<n] st"
  have "keccakf st n = A \<and> length (keccakf st n) = 25"
    unfolding A_def using Suc.prems by (intro Suc.IH) simp
  moreover have "n < 24"
    using Suc.prems by simp
  ultimately have "keccakf st n = A" "length A = 25" "n < 24"
    by metis+
  then show ?case
    using round_spec [of A n] length_steps [of A n] by (simp add: keccakf_def A_def)
qed

lemma keccakf_keccak_f: "length st = 25 \<Longrightarrow> keccakf st 24 = keccak_f st"
  using keccakf_spec [of st 24] by (simp add: keccak_f_def del: upt_rec_numeral)


section \<open>The sponge\<close>

definition pad101 :: "nat \<Rightarrow> byte list \<Rightarrow> byte list" where
  "pad101 r m =
    (let q = r - length m mod r
     in if q = 1 then m @ [0x81] else m @ [1] @ replicate (q - 2) 0 @ [0x80])"

function chunks :: "nat \<Rightarrow> 'a list \<Rightarrow> 'a list list" where
  "chunks r xs = (if r = 0 \<or> xs = [] then [] else take r xs # chunks r (drop r xs))"
  by pat_completeness auto
termination
  by (relation "measure (\<lambda>(r, xs). length xs)") auto

declare chunks.simps [simp del]

definition absorb_block :: "u64 list \<Rightarrow> byte list \<Rightarrow> u64 list" where
  "absorb_block st b = keccak_f (map2 (XOR) st (map (\<lambda>i. load64 b (8 * i)) [0..<25]))"

definition sponge :: "nat \<Rightarrow> nat \<Rightarrow> byte list \<Rightarrow> byte list" where
  "sponge r n m = take n (state_bytes (foldl absorb_block (replicate 25 0) (chunks r (pad101 r m))))"

lemma load64_beyond: "length s \<le> k \<Longrightarrow> load64 s k = 0"
  by (simp add: load64_def)

lemma load64_take: "k + 8 \<le> n \<Longrightarrow> load64 (take n s) k = load64 s k"
  by (simp add: load64_def drop_take min_def)

lemma xor_words_nth:
  assumes "n \<le> length st"
  shows "length (xor_words st inp n) = length st \<and>
    (\<forall>j<length st. xor_words st inp n ! j = (if j < n then st ! j XOR load64 inp (8 * j) else st ! j))"
  using assms
proof (induction n)
  case (Suc n)
  then show ?case
    by (auto simp: xor_words_def nth_list_update less_Suc_eq)
qed (simp add: xor_words_def)

lemma xor_words_block:
  assumes "length st = 25" and "r mod 8 = 0" and "r \<le> 200"
  shows "xor_words st inp (r div 8) = map2 (XOR) st (map (\<lambda>i. load64 (take r inp) (8 * i)) [0..<25])"
proof (rule nth_equalityI)
  have n: "r div 8 \<le> length st"
    using assms by simp
  note x = xor_words_nth [OF n, of inp]
  show "length (xor_words st inp (r div 8)) = length (map2 (XOR) st (map (\<lambda>i. load64 (take r inp) (8 * i)) [0..<25]))"
    using x assms by (simp del: upt_rec_numeral)
  fix j
  assume "j < length (xor_words st inp (r div 8))"
  then have j: "j < 25"
    using x assms by simp
  have r: "8 * (r div 8) = r"
    using assms(2) by auto
  have "load64 (take r inp) (8 * j) = (if j < r div 8 then load64 inp (8 * j) else 0)"
  proof (cases "j < r div 8")
    case True
    then have "8 * j + 8 \<le> r" using r by linarith
    then show ?thesis using True by (simp add: load64_take)
  next
    case False
    then have "r \<le> 8 * j" using r by linarith
    then show ?thesis using False by (simp add: load64_beyond)
  qed
  then show "xor_words st inp (r div 8) ! j = map2 (XOR) st (map (\<lambda>i. load64 (take r inp) (8 * i)) [0..<25]) ! j"
    using x j assms(1) by (simp del: upt_rec_numeral)
qed

lemma absorb_words:
  assumes "length st = 25" and "r mod 8 = 0" and "r \<le> 200"
  shows "keccakf (xor_words st inp (r div 8)) 24 = absorb_block st (take r inp)"
    and "length (absorb_block st (take r inp)) = 25"
proof -
  have l: "length (map2 (XOR) st (map (\<lambda>i. load64 (take r inp) (8 * i)) [0..<25])) = 25"
    using assms(1) by (simp del: upt_rec_numeral)
  show "keccakf (xor_words st inp (r div 8)) 24 = absorb_block st (take r inp)"
    unfolding absorb_block_def xor_words_block [OF assms] by (rule keccakf_keccak_f [OF l])
  show "length (absorb_block st (take r inp)) = 25"
    unfolding absorb_block_def keccakf_keccak_f [OF l, symmetric] by (rule conjunct2 [OF keccakf_spec [OF l order_refl]])
qed

lemma pad101_step: "0 < r \<Longrightarrow> r \<le> length m \<Longrightarrow> pad101 r m = take r m @ pad101 r (drop r m)"
proof -
  assume "0 < r" "r \<le> length m"
  then have "length m mod r = length (drop r m) mod r"
    by (simp add: le_mod_geq)
  then show ?thesis
    by (simp add: pad101_def Let_def flip: append_assoc)
qed

lemma pad101_last:
  assumes "length m < r"
  shows "length (pad101 r m) = r"
    and "(m @ [1] @ replicate (r - (length m + 1)) 0)[r - 1 := (m @ [1] @ replicate (r - (length m + 1)) 0) ! (r - 1) OR 0x80] = pad101 r m"
proof -
  show "length (pad101 r m) = r"
    using assms by (auto simp: pad101_def Let_def)
  show "(m @ [1] @ replicate (r - (length m + 1)) 0)[r - 1 := (m @ [1] @ replicate (r - (length m + 1)) 0) ! (r - 1) OR 0x80] = pad101 r m"
  proof (cases "r - length m = 1")
    case True
    then have "r - 1 = length m" "r - (length m + 1) = 0" by simp_all
    then show ?thesis
      using True assms by (simp add: pad101_def Let_def list_update_append nth_append)
  next
    case False
    then have "length m + 2 \<le> r"
      using assms by linarith
    then obtain k where k: "r = length m + 2 + k"
      using le_Suc_ex by blast
    have "replicate (Suc k) (0 :: byte) = replicate k 0 @ [0]"
      by (simp add: replicate_append_same)
    then show ?thesis
      using k by (simp add: pad101_def Let_def list_update_append nth_append)
  qed
qed

lemma sponge_absorb:
  assumes "0 < r" and "r mod 8 = 0" and "r \<le> 200"
    and "length st = 25" and "keccak_absorb r st m = (st', rest)"
  shows "length st' = 25 \<and> length rest < r \<and>
    foldl absorb_block st (chunks r (pad101 r m)) = foldl absorb_block st' (chunks r (pad101 r rest))"
  using assms
proof (induction r st m rule: keccak_absorb.induct)
  case (1 r st m)
  show ?case
  proof (cases "r \<le> length m")
    case False
    then show ?thesis
      using 1 by (simp add: keccak_absorb.simps [of r st m])
  next
    case True
    have e: "keccak_absorb r (absorb_block st (take r m)) (drop r m) = (st', rest)"
      using 1(6) 1(2) True absorb_words(1) [OF 1(5,3,4)] by (simp add: keccak_absorb.simps [of r st m])
    have "chunks r (pad101 r m) = take r m # chunks r (pad101 r (drop r m))"
      using True 1(2) chunks.simps [of r "take r m @ pad101 r (drop r m)"] unfolding pad101_step [OF 1(2) True]
      by auto
    then show ?thesis
      using 1(1) [of] 1(2-4) True e absorb_words [OF 1(5,3,4)] by simp
  qed
qed

lemma keccak_rsiz_small: "0 \<le> mdlen \<Longrightarrow> mdlen < 100 \<Longrightarrow> keccak_rsiz mdlen = nat (200 - 2 * mdlen)"
  by (simp add: keccak_rsiz_def i32_id)

lemma keccak_sponge:
  assumes "r = keccak_rsiz mdlen" and "0 < r" "r \<le> 144" "r mod 8 = 0"
  shows "keccak inp mdlen = Some (sponge r (nat mdlen) inp)"
proof -
  obtain st rest where a: "keccak_absorb r (replicate 25 0) inp = (st, rest)"
    by fastforce
  have f: "length st = 25" "length rest < r"
    "foldl absorb_block (replicate 25 0) (chunks r (pad101 r inp)) = foldl absorb_block st (chunks r (pad101 r rest))"
    using sponge_absorb [OF assms(2,4) _ _ a] assms(3) by simp_all
  have "chunks r (pad101 r rest) = [pad101 r rest]"
    using pad101_last(1) [OF f(2)] assms(2) by (auto simp: chunks.simps [of r "pad101 r rest"] chunks.simps [of r "[]"])
  then have "sponge r (nat mdlen) inp = take (nat mdlen) (state_bytes (absorb_block st (pad101 r rest)))"
    by (simp add: sponge_def f(3))
  moreover have "keccakf (xor_words st (pad101 r rest) (r div 8)) 24 = absorb_block st (pad101 r rest)"
    using absorb_words(1) [OF f(1) assms(4), of "pad101 r rest"] assms(3) pad101_last(1) [OF f(2)] by simp
  ultimately show ?thesis
    unfolding keccak_def assms(1) [symmetric] Let_def a
    using assms(2,3) pad101_last(2) [OF f(2)] by simp
qed

lemma keccak1600_sponge: "keccak inp 200 = Some (sponge 136 200 inp)" "keccak1600 inp = sponge 136 200 inp"
  using keccak_sponge [of 136 200 inp] by (simp_all add: keccak_rsiz_def keccak1600_def)

lemma length_store64 [simp]: "length (store64 w) = 8"
  by (simp add: store64_def)

lemma length_state_bytes: "length (state_bytes st) = 8 * length st"
  by (induction st) (simp_all add: state_bytes_def)

lemma length_foldl_absorb: "length st = 25 \<Longrightarrow> length (foldl absorb_block st bs) = 25"
proof (induction bs arbitrary: st)
  case (Cons b bs)
  have "length (map2 (XOR) st (map (\<lambda>i. load64 b (8 * i)) [0..<25])) = 25"
    using Cons.prems by (simp del: upt_rec_numeral)
  then have "length (absorb_block st b) = 25"
    unfolding absorb_block_def by (metis keccakf_keccak_f keccakf_spec order_refl)
  then show ?case
    using Cons.IH by simp
qed simp

lemma length_keccak1600: "length (keccak1600 inp) = 200"
  by (simp add: keccak1600_sponge sponge_def length_state_bytes length_foldl_absorb)

lemma length_cn_fast_hash: "length (cn_fast_hash data) = 32"
  by (simp add: cn_fast_hash_def hash_process_def length_keccak1600)


end
