(* ===== verification/Tree_Hash.thy ===== *)
theory Tree_Hash
  imports Keccak
begin

text \<open>
  The Merkle tree of \<^verbatim>\<open>tree-hash.c\<close>, over \<^verbatim>\<open>cn_fast_hash\<close>. The code works on
  one array of hashes that it overwrites from the left; the reference hashes the left
  half and the right half of the leaves recursively. An assertion that fails is the value \<open>None\<close>.
\<close>

section \<open>The code\<close>

function pow_loop :: "nat \<Rightarrow> nat \<Rightarrow> nat" where
  "pow_loop count pow = (if pow < count \<and> 0 < pow then pow_loop count (pow * 2) else pow)"
  by pat_completeness auto
termination
  by (relation "measure (\<lambda>(count, pow). count - pow)") auto

declare pow_loop.simps [simp del]

definition tree_hash_cnt :: "nat \<Rightarrow> nat option" where
  "tree_hash_cnt count =
    (if 3 \<le> count \<and> count \<le> 0x10000000 then Some (pow_loop count 2 div 2) else None)"

text \<open>The two loops that hash pairs: from \<^verbatim>\<open>hashes[i]\<close> to \<^verbatim>\<open>ints[j]\<close>, and in place.\<close>

definition hash_pair :: "(byte list \<Rightarrow> byte list) \<Rightarrow> byte list list \<Rightarrow> nat \<Rightarrow> byte list" where
  "hash_pair H hs i = H (hs ! i @ hs ! (i + 1))"

definition leaf_loop :: "(byte list \<Rightarrow> byte list) \<Rightarrow> byte list list \<Rightarrow> nat \<Rightarrow> nat \<Rightarrow> byte list list \<Rightarrow> byte list list" where
  "leaf_loop H hashes start cnt ints =
     fold (\<lambda>j ints. ints[j := hash_pair H hashes (start + 2 * (j - start))]) [start..<cnt] ints"

definition level_loop :: "(byte list \<Rightarrow> byte list) \<Rightarrow> nat \<Rightarrow> byte list list \<Rightarrow> byte list list" where
  "level_loop H cnt ints = fold (\<lambda>j ints. ints[j := hash_pair H ints (2 * j)]) [0..<cnt] ints"

function reduce_loop :: "(byte list \<Rightarrow> byte list) \<Rightarrow> nat \<Rightarrow> byte list list \<Rightarrow> byte list list" where
  "reduce_loop H cnt ints =
    (if 2 < cnt then reduce_loop H (cnt div 2) (level_loop H (cnt div 2) ints) else ints)"
  by pat_completeness auto
termination
  by (relation "measure (\<lambda>(H, cnt, ints). cnt)") auto

declare reduce_loop.simps [simp del]

definition tree_hash_with :: "(byte list \<Rightarrow> byte list) \<Rightarrow> byte list list \<Rightarrow> nat \<Rightarrow> byte list option" where
  "tree_hash_with H hashes count =
    (if count = 0 then None
     else if count = 1 then Some (hashes ! 0)
     else if count = 2 then Some (hash_pair H hashes 0)
     else
       case tree_hash_cnt count of
         None \<Rightarrow> None
       | Some cnt \<Rightarrow>
           let ints = replicate cnt (replicate 32 0);
               start = 2 * cnt - count;
               ints = take start hashes @ drop start ints;
               ints = leaf_loop H hashes start cnt ints
           in if start + 2 * (cnt - start) \<noteq> count then None
              else
                let ints = reduce_loop H cnt ints
                in Some (hash_pair H ints 0))"

definition tree_hash :: "byte list list \<Rightarrow> nat \<Rightarrow> byte list option" where
  "tree_hash hashes count = tree_hash_with cn_fast_hash hashes count"

section \<open>The reference\<close>

text \<open>\<open>merkle H d xs\<close>: the root of the full binary tree over \<open>2^d\<close> leaves.\<close>

primrec merkle :: "(byte list \<Rightarrow> byte list) \<Rightarrow> nat \<Rightarrow> byte list list \<Rightarrow> byte list" where
  "merkle H 0 xs = xs ! 0"
| "merkle H (Suc d) xs = H (merkle H d (take (2 ^ d) xs) @ merkle H d (drop (2 ^ d) xs))"

fun pair_up :: "(byte list \<Rightarrow> byte list) \<Rightarrow> byte list list \<Rightarrow> byte list list" where
  "pair_up H (x # y # xs) = H (x @ y) # pair_up H xs"
| "pair_up H xs = []"

text \<open>
  The CryptoNote tree over \<open>n\<close> leaves, with \<open>2^d < n \<le> 2^(d + 1)\<close>: the last \<open>2 (n - 2^d)\<close>
  leaves are hashed in pairs, which leaves a full tree of \<open>2^d\<close>.
\<close>

definition cn_root :: "(byte list \<Rightarrow> byte list) \<Rightarrow> nat \<Rightarrow> byte list list \<Rightarrow> byte list" where
  "cn_root H d xs =
    (let k = 2 * 2 ^ d - length xs in merkle H d (take k xs @ pair_up H (drop k xs)))"

section \<open>The number of nodes\<close>

lemma pow_loop_correct:
  "pow = 2 ^ k \<Longrightarrow> pow div 2 < count \<Longrightarrow> \<exists>m\<ge>k. pow_loop count pow = 2 ^ m \<and> count \<le> 2 ^ m \<and> 2 ^ m div 2 < count"
proof (induction count pow arbitrary: k rule: pow_loop.induct)
  case (1 count pow)
  show ?case
  proof (cases "pow < count \<and> 0 < pow")
    case True
    then have "\<exists>m\<ge>Suc k. pow_loop count (pow * 2) = 2 ^ m \<and> count \<le> 2 ^ m \<and> 2 ^ m div 2 < count"
      using 1 by (intro 1(1)) auto
    then show ?thesis
      using True by (auto simp: pow_loop.simps [of count pow] intro: Suc_leD)
  next
    case False
    then have "pow_loop count pow = pow"
      by (subst pow_loop.simps) (simp only: False if_False)
    then show ?thesis
      using 1 False by (intro exI [of _ k]) auto
  qed
qed

lemma tree_hash_cnt_correct:
  assumes "3 \<le> count" "count \<le> 0x10000000"
  obtains d where "1 \<le> d" "tree_hash_cnt count = Some (2 ^ d)" "2 ^ d < count" "count \<le> 2 * 2 ^ d"
proof -
  obtain m where m: "1 \<le> m" "pow_loop count 2 = 2 ^ m" "count \<le> 2 ^ m" "2 ^ m div 2 < count"
    using pow_loop_correct [of 2 1 count] assms(1) by auto
  then obtain d where d: "m = Suc d"
    by (cases m) auto
  have "d \<noteq> 0"
  proof
    assume "d = 0"
    then show False using m assms(1) by (simp add: d)
  qed
  then show thesis
    using m assms by (intro that [of d]) (auto simp: d tree_hash_cnt_def)
qed


section \<open>The loops\<close>

lemma length_pair_up: "length xs = 2 * n \<Longrightarrow> length (pair_up H xs) = n"
proof (induction n arbitrary: xs)
  case (Suc n)
  then obtain x y ys where "xs = x # y # ys"
    by (auto simp: length_Suc_conv)
  then show ?case using Suc by simp
qed simp

lemma nth_pair_up: "length xs = 2 * n \<Longrightarrow> k < n \<Longrightarrow> pair_up H xs ! k = hash_pair H xs (2 * k)"
proof (induction n arbitrary: xs k)
  case (Suc n)
  then obtain x y ys where "xs = x # y # ys"
    by (auto simp: length_Suc_conv)
  then show ?case using Suc by (cases k) (simp_all add: hash_pair_def)
qed simp

lemma pair_up_append: "even (length xs) \<Longrightarrow> pair_up H (xs @ ys) = pair_up H xs @ pair_up H ys"
  by (induction H xs rule: pair_up.induct) simp_all

text \<open>Hashing in place: the entries that are read have not been overwritten.\<close>

lemma level_loop_nth:
  assumes "2 * n \<le> length ints"
  shows "length (level_loop H n ints) = length ints \<and>
    (\<forall>k<length ints. level_loop H n ints ! k = (if k < n then hash_pair H ints (2 * k) else ints ! k))"
  using assms
proof (induction n)
  case (Suc n)
  let ?a = "level_loop H n ints"
  have IH: "length ?a = length ints"
    "\<forall>k<length ints. ?a ! k = (if k < n then hash_pair H ints (2 * k) else ints ! k)"
    using Suc by simp_all
  have "hash_pair H ?a (2 * n) = hash_pair H ints (2 * n)"
    using IH Suc.prems by (simp add: hash_pair_def)
  moreover have "level_loop H (Suc n) ints = ?a[n := hash_pair H ?a (2 * n)]"
    by (simp add: level_loop_def)
  ultimately show ?case
    using IH Suc.prems by (auto simp: nth_list_update less_Suc_eq)
qed (simp add: level_loop_def)

lemma level_loop_pair_up:
  assumes "2 * n \<le> length ints"
  shows "take n (level_loop H n ints) = pair_up H (take (2 * n) ints)"
proof (rule nth_equalityI)
  have l: "length (take (2 * n) ints) = 2 * n"
    using assms by simp
  show "length (take n (level_loop H n ints)) = length (pair_up H (take (2 * n) ints))"
    using level_loop_nth [OF assms, of H] assms length_pair_up [OF l, of H] by simp
  fix k
  assume "k < length (take n (level_loop H n ints))"
  then have k: "k < n" by simp
  have "hash_pair H (take (2 * n) ints) (2 * k) = hash_pair H ints (2 * k)"
    using k by (simp add: hash_pair_def)
  then show "take n (level_loop H n ints) ! k = pair_up H (take (2 * n) ints) ! k"
    using k level_loop_nth [OF assms, of H] assms nth_pair_up [OF l k, of H] by simp
qed

lemma leaf_loop_nth:
  assumes "cnt \<le> length ints" and "start \<le> cnt"
  shows "length (leaf_loop H hashes start cnt ints) = length ints \<and>
    (\<forall>k<length ints. leaf_loop H hashes start cnt ints ! k =
      (if start \<le> k \<and> k < cnt then hash_pair H hashes (start + 2 * (k - start)) else ints ! k))"
  using assms(2,1)
proof (induction cnt rule: dec_induct)
  case base
  then show ?case by (auto simp: leaf_loop_def)
next
  case (step n)
  have "leaf_loop H hashes start (Suc n) ints =
    (leaf_loop H hashes start n ints)[n := hash_pair H hashes (start + 2 * (n - start))]"
    using step by (simp add: leaf_loop_def)
  then show ?case
    using step by (auto simp: nth_list_update less_Suc_eq)
qed

text \<open>One level of the tree: halving from above is pairing from below.\<close>

lemma merkle_pair_up: "length xs = 2 * 2 ^ d \<Longrightarrow> merkle H (Suc d) xs = merkle H d (pair_up H xs)"
proof (induction d arbitrary: xs)
  case 0
  then obtain x y where "xs = [x, y]"
    by (auto simp: length_Suc_conv numeral_eq_Suc)
  then show ?case by simp
next
  case (Suc d)
  let ?n = "2 * 2 ^ d" and ?L = "take (2 * 2 ^ d) xs" and ?R = "drop (2 * 2 ^ d) xs"
  have l: "length ?L = ?n" "length ?R = ?n"
    using Suc.prems by simp_all
  have "pair_up H xs = pair_up H ?L @ pair_up H ?R"
    using pair_up_append [of ?L H ?R] l by simp
  moreover have "length (pair_up H ?L) = 2 ^ d"
    using length_pair_up [OF l(1)] .
  ultimately have "take (2 ^ d) (pair_up H xs) = pair_up H ?L" "drop (2 ^ d) (pair_up H xs) = pair_up H ?R"
    by simp_all
  moreover have "merkle H (Suc (Suc d)) xs = H (merkle H (Suc d) ?L @ merkle H (Suc d) ?R)"
    by simp
  ultimately show ?case
    using Suc.IH [OF l(1)] Suc.IH [OF l(2)] by simp
qed

lemma reduce_loop_merkle:
  "2 ^ d \<le> length ints \<Longrightarrow> 1 \<le> d \<Longrightarrow>
   hash_pair H (reduce_loop H (2 ^ d) ints) 0 = merkle H d (take (2 ^ d) ints)"
proof (induction d arbitrary: ints)
  case (Suc d)
  show ?case
  proof (cases "d = 0")
    case True
    then show ?thesis
      using Suc.prems by (simp add: reduce_loop.simps [of H 2] hash_pair_def)
  next
    case False
    then have gt: "2 < (2 :: nat) ^ Suc d"
      by (metis One_nat_def Suc_lessI less_Suc0 not_gr_zero power_one_right power_strict_increasing_iff one_less_numeral_iff semiring_norm(76) Suc_less_eq)
    let ?a = "level_loop H (2 ^ d) ints"
    have l: "2 * 2 ^ d \<le> length ints"
      using Suc.prems by simp
    have "reduce_loop H (2 ^ Suc d) ints = reduce_loop H (2 ^ d) ?a"
      using gt by (subst reduce_loop.simps) simp
    moreover have "2 ^ d \<le> length ?a"
      using level_loop_nth [OF l, of H] l by simp
    ultimately have "hash_pair H (reduce_loop H (2 ^ Suc d) ints) 0 = merkle H d (take (2 ^ d) ?a)"
      using Suc.IH [of ?a] False by simp
    also have "\<dots> = merkle H d (pair_up H (take (2 * 2 ^ d) ints))"
      by (simp only: level_loop_pair_up [OF l])
    also have "\<dots> = merkle H (Suc d) (take (2 * 2 ^ d) ints)"
      using l by (intro merkle_pair_up [symmetric]) simp
    finally show ?thesis by simp
  qed
qed simp

lemma tree_hash_root:
  assumes n: "3 \<le> length hs" "length hs \<le> 0x10000000" and d: "2 ^ d < length hs" "length hs \<le> 2 * 2 ^ d" "1 \<le> d"
    and cnt: "tree_hash_cnt (length hs) = Some (2 ^ d)"
  shows "tree_hash_with H hs (length hs) = Some (cn_root H d hs)"
proof -
  define c where "c = (2 :: nat) ^ d"
  define k where "k = 2 * c - length hs"
  define ints where "ints = take k hs @ drop k (replicate c (replicate 32 (0 :: byte)))"
  have kc: "k \<le> c" "k < length hs" "k + 2 * (c - k) = length hs"
    using d n by (simp_all add: k_def c_def)
  have li: "length ints = c"
    using kc by (simp add: ints_def)
  define a where "a = leaf_loop H hs k c ints"
  have la: "length a = c" "\<And>j. j < c \<Longrightarrow> a ! j = (if k \<le> j then hash_pair H hs (k + 2 * (j - k)) else hs ! j)"
    using leaf_loop_nth [of c ints k H hs] kc li by (simp_all add: a_def ints_def nth_append)
  have ld: "length (drop k hs) = 2 * (c - k)"
    using kc by simp
  have "a = take k hs @ pair_up H (drop k hs)"
  proof (rule nth_equalityI)
    show "length a = length (take k hs @ pair_up H (drop k hs))"
      using la kc length_pair_up [OF ld, of H] by simp
    fix j
    assume "j < length a"
    then have j: "j < c" using la by simp
    show "a ! j = (take k hs @ pair_up H (drop k hs)) ! j"
    proof (cases "k \<le> j")
      case True
      have "pair_up H (drop k hs) ! (j - k) = hash_pair H (drop k hs) (2 * (j - k))"
        using True j by (intro nth_pair_up [OF ld]) simp
      also have "\<dots> = hash_pair H hs (k + 2 * (j - k))"
        using True j kc by (simp add: hash_pair_def)
      finally show ?thesis
        using True j la(2) kc by (simp add: nth_append)
    next
      case False
      then show ?thesis
        using j la(2) kc by (simp add: nth_append)
    qed
  qed
  moreover have "hash_pair H (reduce_loop H c a) 0 = merkle H d (take c a)"
    unfolding c_def using reduce_loop_merkle [of d a H] la d by (simp add: c_def)
  moreover have "take c a = a"
    using la(1) by simp
  ultimately have "hash_pair H (reduce_loop H c a) 0 = cn_root H d hs"
    by (simp only: cn_root_def k_def c_def Let_def)
  moreover have "length hs \<noteq> 0" "length hs \<noteq> 1" "length hs \<noteq> 2"
    using n(1) by linarith+
  ultimately show ?thesis
    unfolding tree_hash_with_def cnt [folded c_def] option.case Let_def k_def [symmetric] ints_def [symmetric] a_def [symmetric] kc(3)
    by (simp only: if_False simp_thms)
qed


section \<open>Hashes of 32 bytes\<close>

text \<open>
  The array holds 32-byte entries, and the code hashes 64 contiguous bytes: this needs a hash
  function with 32-byte results.
\<close>

locale hash32 =
  fixes H :: "byte list \<Rightarrow> byte list"
  assumes length_H: "length (H x) = 32"
begin

lemma length_merkle: "1 \<le> d \<Longrightarrow> length (merkle H d xs) = 32"
  by (cases d) (simp_all add: length_H)

lemma length_root:
  assumes "\<forall>x\<in>set hs. length x = 32" and "tree_hash_with H hs (length hs) = Some r"
  shows "length r = 32"
proof (cases "length hs = 1")
  case True
  then show ?thesis using assms by (auto simp: tree_hash_with_def length_Suc_conv)
next
  case False
  then show ?thesis
    using assms(2) by (auto simp: tree_hash_with_def hash_pair_def length_H Let_def split: if_splits option.splits)
qed

end

interpretation cn_fast: hash32 cn_fast_hash
  by unfold_locales (rule length_cn_fast_hash)

text \<open>The result for every number of leaves.\<close>

lemma tree_hash_cases:
  assumes "1 \<le> length hs" "length hs \<le> 0x10000000"
  shows "\<exists>r. tree_hash hs (length hs) = Some r \<and>
    (length hs = 1 \<and> r = hs ! 0 \<or>
     (\<exists>d. 2 ^ d < length hs \<and> length hs \<le> 2 * 2 ^ d \<and> r = cn_root cn_fast_hash d hs))"
proof -
  consider "length hs = 1" | "length hs = 2" | "3 \<le> length hs"
    using assms(1) by linarith
  then show ?thesis
  proof cases
    case 1
    then show ?thesis by (simp add: tree_hash_def tree_hash_with_def)
  next
    case 2
    then obtain x y where "hs = [x, y]"
      by (auto simp: length_Suc_conv numeral_eq_Suc)
    then show ?thesis
      by (auto simp: tree_hash_def tree_hash_with_def hash_pair_def cn_root_def intro!: exI [of _ 0])
  next
    case 3
    then obtain d where d: "1 \<le> d" "tree_hash_cnt (length hs) = Some (2 ^ d)" "2 ^ d < length hs" "length hs \<le> 2 * 2 ^ d"
      using tree_hash_cnt_correct assms(2) by blast
    then show ?thesis
      using tree_hash_root [OF 3 assms(2) d(3,4,1,2), of cn_fast_hash] by (auto simp: tree_hash_def)
  qed
qed

end
