(* ===== verification/Hash_Properties.thy ===== *)
theory Hash_Properties
  imports Tree_Hash
begin

text \<open>
  The contract of \<^verbatim>\<open>keccak.c\<close>, \<^verbatim>\<open>hash.c\<close> and \<^verbatim>\<open>tree-hash.c\<close>.
\<close>

text \<open>
  C19: The in-place permutation \<^verbatim>\<open>keccakf\<close> is the permutation of the standard, for any
  number of rounds up to 24: theta, rho, pi, chi and iota by coordinates, with the
  rotation offsets \<open>(t + 1)(t + 2)/2\<close> and the round constants of the shift register, so that
  the tables of rotations, of positions and of constants are the right ones.
\<close>

theorem keccakf_correct:
  assumes "length st = 25" and "rounds \<le> 24"
  shows "keccakf st rounds = fold spec_round [0..<rounds] st \<and> length (keccakf st rounds) = 25"
  by (rule keccakf_spec [OF assms])

theorem keccakf_correct_witness:
  "keccakf (replicate 25 0) 24 = fold spec_round [0..<24] (replicate 25 0)"
  using keccakf_correct [of "replicate 25 0" 24] by (simp del: upt_rec_numeral)

text \<open>
  C20: \<^verbatim>\<open>keccak\<close> is the sponge: for a digest of \<open>28\<close> to \<open>96\<close> bytes, a multiple of 4,
  and for the full state, the result is the state after absorbing the blocks of the message
  padded with \<open>0x01 ... 0x80\<close>, cut to the length of the digest.
\<close>

theorem keccak_correct:
  assumes "mdlen = 200 \<or> (28 \<le> mdlen \<and> mdlen \<le> 96 \<and> mdlen mod 4 = 0)"
  shows "keccak inp mdlen =
    Some (sponge (if mdlen = 200 then 136 else nat (200 - 2 * mdlen)) (nat mdlen) inp)"
proof (cases "mdlen = 200")
  case True
  then show ?thesis by (simp add: keccak1600_sponge(1))
next
  case False
  define k where "k = mdlen div 4"
  then have k: "mdlen = 4 * k" "28 \<le> mdlen" "mdlen \<le> 96"
    using assms False by auto
  have "keccak_rsiz mdlen = 8 * nat (25 - k)"
    using k by (simp add: keccak_rsiz_small)
  moreover have "nat (200 - 2 * mdlen) = 8 * nat (25 - k)"
    using k by simp
  moreover have "0 < 8 * nat (25 - k)" "8 * nat (25 - k) \<le> 144" "8 * nat (25 - k) mod 8 = 0"
    using k by simp_all
  ultimately show ?thesis
    using False keccak_sponge [OF refl, of mdlen inp] by metis
qed

theorem keccak_correct_witness:
  "keccak [1, 2, 3] 32 = Some (sponge 136 32 [1, 2, 3])"
  using keccak_correct [of 32 "[1, 2, 3]"] by simp



text \<open>
  C22: \<^verbatim>\<open>cn_fast_hash\<close> is the Keccak sponge of rate 136 cut to 32 bytes, on every input.
\<close>

theorem cn_fast_hash_correct:
  "cn_fast_hash data = sponge 136 32 data \<and> length (cn_fast_hash data) = 32"
  by (simp add: cn_fast_hash_def hash_process_def keccak1600_sponge(2) sponge_def length_state_bytes
      length_foldl_absorb)

text \<open>
  C23: The Merkle root of \<^verbatim>\<open>tree_hash\<close>: for 1 to \<open>2^28\<close> leaves there is a result, the leaf
  itself or the root of the CryptoNote tree, in which the last leaves are paired so that a full
  binary tree over a power of two remains; the array that is overwritten in place never loses an
  entry that is still to be read. For no leaf, or more than \<open>2^28\<close>, an assertion fails.
\<close>

theorem tree_hash_correct:
  "case tree_hash hs (length hs) of
     None \<Rightarrow> hs = [] \<or> 0x10000000 < length hs
   | Some r \<Rightarrow> hs \<noteq> [] \<and> length hs \<le> 0x10000000 \<and>
       (length hs = 1 \<and> r = hs ! 0 \<or>
        (\<exists>d. 2 ^ d < length hs \<and> length hs \<le> 2 * 2 ^ d \<and> r = cn_root cn_fast_hash d hs))"
proof (cases "1 \<le> length hs \<and> length hs \<le> 0x10000000")
  case True
  then show ?thesis
    using tree_hash_cases [of hs] by auto
next
  case False
  then have "tree_hash hs (length hs) = None"
    by (auto simp: tree_hash_def tree_hash_with_def tree_hash_cnt_def)
  then show ?thesis
    using False by (cases hs) simp_all
qed

text \<open>
  C24: \<^verbatim>\<open>tree_hash_cnt\<close> returns the greatest power of two below the number of leaves, from
  3 leaves to \<open>2^28\<close>.
\<close>

theorem tree_hash_cnt_bounds:
  assumes "3 \<le> count" and "count \<le> 0x10000000"
  shows "\<exists>d. tree_hash_cnt count = Some (2 ^ d) \<and> 2 ^ d < count \<and> count \<le> 2 * 2 ^ d"
  using tree_hash_cnt_correct [OF assms] by blast

theorem tree_hash_cnt_bounds_witness:
  "\<exists>d. tree_hash_cnt 4 = Some (2 ^ d) \<and> 2 ^ d < (4 :: nat)"
  using tree_hash_cnt_bounds [of 4] by auto

text \<open>For four leaves this is 2, not \<^verbatim>\<open>1 << floor(log2(count))\<close>, which is 4.\<close>

lemma tree_hash_cnt_4: "tree_hash_cnt 4 = Some 2"
  by (simp add: tree_hash_cnt_def pow_loop.simps)

end
