(* ===== verification/Blake256.thy ===== *)
theory Blake256
  imports Keccak
begin

text \<open>
  The BLAKE-256 and BLAKE-224 hash functions of \<^verbatim>\<open>blake256.c\<close>, with their streaming
  interface and HMAC. The reference pads the message and folds the compression over its
  blocks, with the bit counter of the standard. Data lengths are in bits, as in the code; the
  list holds the bytes that the pointer points at.
\<close>

section \<open>The compression function\<close>

definition U8TO32 :: "byte list \<Rightarrow> nat \<Rightarrow> u32" where
  "U8TO32 p k =
     push_bit 24 (ucast (p ! k)) OR push_bit 16 (ucast (p ! (k + 1))) OR
     push_bit 8 (ucast (p ! (k + 2))) OR ucast (p ! (k + 3))"

definition U32TO8 :: "u32 \<Rightarrow> byte list" where
  "U32TO8 v = [ucast (drop_bit 24 v), ucast (drop_bit 16 v), ucast (drop_bit 8 v), ucast v]"

definition sigma :: "nat list list" where
  "sigma =
    [[ 0, 1, 2, 3, 4, 5, 6, 7, 8, 9,10,11,12,13,14,15],
     [14,10, 4, 8, 9,15,13, 6, 1,12, 0, 2,11, 7, 5, 3],
     [11, 8,12, 0, 5, 2,15,13,10,14, 3, 6, 7, 1, 9, 4],
     [ 7, 9, 3, 1,13,12,11,14, 2, 6, 5,10, 4, 0,15, 8],
     [ 9, 0, 5, 7, 2, 4,10,15,14, 1,11,12, 6, 8, 3,13],
     [ 2,12, 6,10, 0,11, 8, 3, 4,13, 7, 5,15,14, 1, 9],
     [12, 5, 1,15,14,13, 4,10, 0, 7, 6, 3, 9, 2, 8,11],
     [13,11, 7,14,12, 1, 3, 9, 5, 0,15, 4, 8, 6, 2,10],
     [ 6,15,14, 9,11, 3, 0, 8,12, 2,13, 7, 1, 4,10, 5],
     [10, 2, 8, 4, 7, 6, 1, 5,15,11, 9,14, 3,12,13, 0],
     [ 0, 1, 2, 3, 4, 5, 6, 7, 8, 9,10,11,12,13,14,15],
     [14,10, 4, 8, 9,15,13, 6, 1,12, 0, 2,11, 7, 5, 3],
     [11, 8,12, 0, 5, 2,15,13,10,14, 3, 6, 7, 1, 9, 4],
     [ 7, 9, 3, 1,13,12,11,14, 2, 6, 5,10, 4, 0,15, 8]]"

definition cst :: "u32 list" where
  "cst =
    [0x243F6A88, 0x85A308D3, 0x13198A2E, 0x03707344,
     0xA4093822, 0x299F31D0, 0x082EFA98, 0xEC4E6C89,
     0x452821E6, 0x38D01377, 0xBE5466CF, 0x34E90C6C,
     0xC0AC29B7, 0xC97C50DD, 0x3F84D5B5, 0xB5470917]"

record blake_state =
  bh :: "u32 list"
  bs :: "u32 list"
  bt0 :: u32
  bt1 :: u32
  buflen :: nat
  nullt :: int
  buf :: "byte list"

definition ROT :: "u32 \<Rightarrow> nat \<Rightarrow> u32" where
  "ROT x n = push_bit (32 - n) x OR drop_bit n x"

definition G :: "u32 list \<Rightarrow> nat \<Rightarrow> nat \<Rightarrow> nat \<Rightarrow> nat \<Rightarrow> nat \<Rightarrow> nat \<Rightarrow> u32 list \<Rightarrow> u32 list" where
  "G m i a b c d e v =
    (let v = v[a := v ! a + ((m ! (sigma ! i ! e) XOR cst ! (sigma ! i ! (e + 1))) + v ! b)];
         v = v[d := ROT (v ! d XOR v ! a) 16];
         v = v[c := v ! c + v ! d];
         v = v[b := ROT (v ! b XOR v ! c) 12];
         v = v[a := v ! a + ((m ! (sigma ! i ! (e + 1)) XOR cst ! (sigma ! i ! e)) + v ! b)];
         v = v[d := ROT (v ! d XOR v ! a) 8];
         v = v[c := v ! c + v ! d]
     in v[b := ROT (v ! b XOR v ! c) 7])"

definition G_round :: "u32 list \<Rightarrow> nat \<Rightarrow> u32 list \<Rightarrow> u32 list" where
  "G_round m i v =
    (let v = G m i 0 4 8 12 0 v;
         v = G m i 1 5 9 13 2 v;
         v = G m i 2 6 10 14 4 v;
         v = G m i 3 7 11 15 6 v;
         v = G m i 3 4 9 14 14 v;
         v = G m i 2 7 8 13 12 v;
         v = G m i 0 5 10 15 8 v
     in G m i 1 6 11 12 10 v)"

definition blake256_compress :: "blake_state \<Rightarrow> byte list \<Rightarrow> blake_state" where
  "blake256_compress S block =
    (let m = map (\<lambda>i. U8TO32 block (i * 4)) [0..<16];
         v = map (\<lambda>i. bh S ! i) [0..<8] @
           [bs S ! 0 XOR 0x243F6A88, bs S ! 1 XOR 0x85A308D3, bs S ! 2 XOR 0x13198A2E, bs S ! 3 XOR 0x03707344,
            0xA4093822, 0x299F31D0, 0x082EFA98, 0xEC4E6C89];
         v = (if nullt S = 0 then
                v[12 := v ! 12 XOR bt0 S, 13 := v ! 13 XOR bt0 S, 14 := v ! 14 XOR bt1 S, 15 := v ! 15 XOR bt1 S]
              else v);
         v = fold (G_round m) [0..<14] v;
         h = fold (\<lambda>i h. h[i mod 8 := h ! (i mod 8) XOR v ! i]) [0..<16] (bh S);
         h = fold (\<lambda>i h. h[i := h ! i XOR bs S ! (i mod 4)]) [0..<8] h
     in S\<lparr>bh := h\<rparr>)"

section \<open>Hashing\<close>

definition blake256_init :: "blake_state \<Rightarrow> blake_state" where
  "blake256_init S = S\<lparr>
     bh := [0x6A09E667, 0xBB67AE85, 0x3C6EF372, 0xA54FF53A, 0x510E527F, 0x9B05688C, 0x1F83D9AB, 0x5BE0CD19],
     bt0 := 0, bt1 := 0, buflen := 0, nullt := 0, bs := [0, 0, 0, 0] \<rparr>"

definition blake224_init :: "blake_state \<Rightarrow> blake_state" where
  "blake224_init S = S\<lparr>
     bh := [0xC1059ED8, 0x367CD507, 0x3070DD17, 0xF70E5939, 0xFFC00B31, 0x68581511, 0x64F98FA7, 0xBEFA4FA4],
     bt0 := 0, bt1 := 0, buflen := 0, nullt := 0, bs := [0, 0, 0, 0] \<rparr>"

text \<open>\<^verbatim>\<open>S->t[0] += 512; if (S->t[0] == 0) S->t[1]++;\<close> and the compression.\<close>

definition blake_step :: "blake_state \<Rightarrow> byte list \<Rightarrow> blake_state" where
  "blake_step S block =
    (let S = S\<lparr>bt0 := bt0 S + 512\<rparr>;
         S = (if bt0 S = 0 then S\<lparr>bt1 := bt1 S + 1\<rparr> else S)
     in blake256_compress S block)"

fun blake_blocks :: "blake_state \<Rightarrow> byte list \<Rightarrow> nat \<Rightarrow> blake_state \<times> byte list \<times> nat" where
  "blake_blocks S data datalen =
    (if 512 \<le> datalen then blake_blocks (blake_step S data) (drop 64 data) (datalen - 512)
     else (S, data, datalen))"

declare blake_blocks.simps [simp del]

text \<open>\<^verbatim>\<open>memcpy(S->buf + left, data, n)\<close>.\<close>

definition buf_copy :: "byte list \<Rightarrow> nat \<Rightarrow> byte list \<Rightarrow> nat \<Rightarrow> byte list" where
  "buf_copy b left data n = take left b @ take n data @ drop (left + n) b"

definition blake256_update :: "blake_state \<Rightarrow> byte list \<Rightarrow> nat \<Rightarrow> blake_state" where
  "blake256_update S data datalen =
    (let left = buflen S div 8;
         fill = 64 - left;
         (S, data, datalen, left) =
           (if left \<noteq> 0 \<and> fill \<le> datalen div 8 mod 64 then
              let S = S\<lparr>buf := buf_copy (buf S) left data fill\<rparr>;
                  S = blake_step S (buf S)
              in (S, drop fill data, datalen - fill * 8, 0)
            else (S, data, datalen, left));
         (S, data, datalen) = blake_blocks S data datalen
     in if 0 < datalen then
          S\<lparr>buf := buf_copy (buf S) left data (datalen div 8), buflen := left * 8 + datalen\<rparr>
        else S\<lparr>buflen := 0\<rparr>)"

definition blake224_update :: "blake_state \<Rightarrow> byte list \<Rightarrow> nat \<Rightarrow> blake_state" where
  "blake224_update S data datalen = blake256_update S data datalen"

definition padding :: "byte list" where
  "padding = 0x80 # replicate 63 0"

definition blake256_final_h :: "blake_state \<Rightarrow> byte \<Rightarrow> byte \<Rightarrow> byte list" where
  "blake256_final_h S pa pb =
    (let lo = bt0 S + of_nat (buflen S);
         hi = (if lo < of_nat (buflen S) then bt1 S + 1 else bt1 S);
         msglen = U32TO8 hi @ U32TO8 lo;
         S = (if buflen S = 440 then
                let S = S\<lparr>bt0 := bt0 S - 8\<rparr>
                in blake256_update S [pa] 8
              else
                let S =
                  (if buflen S < 440 then
                     let S = (if buflen S = 0 then S\<lparr>nullt := 1\<rparr> else S);
                         n = 440 - buflen S;
                         S = S\<lparr>bt0 := bt0 S - of_nat n\<rparr>
                     in blake256_update S padding n
                   else
                     let n = 512 - buflen S;
                         S = S\<lparr>bt0 := bt0 S - of_nat n\<rparr>;
                         S = blake256_update S padding n;
                         S = S\<lparr>bt0 := bt0 S - 440\<rparr>;
                         S = blake256_update S (drop 1 padding) 440
                     in S\<lparr>nullt := 1\<rparr>);
                    S = blake256_update S [pb] 8
                in S\<lparr>bt0 := bt0 S - 8\<rparr>);
         S = S\<lparr>bt0 := bt0 S - 64\<rparr>;
         S = blake256_update S msglen 64
     in concat (map (\<lambda>i. U32TO8 (bh S ! i)) [0..<8]))"

definition blake256_final :: "blake_state \<Rightarrow> byte list" where
  "blake256_final S = blake256_final_h S 0x81 0x01"

definition blake224_final :: "blake_state \<Rightarrow> byte list" where
  "blake224_final S = blake256_final_h S 0x80 0x00"

text \<open>A local \<^verbatim>\<open>state S\<close> is not initialised: its contents are the parameter \<open>S0\<close>.\<close>

definition blake256_hash :: "blake_state \<Rightarrow> byte list \<Rightarrow> nat \<Rightarrow> byte list" where
  "blake256_hash S0 inp inlen =
     blake256_final (blake256_update (blake256_init S0) inp (inlen * 8 mod 2 ^ 64))"

definition blake224_hash :: "blake_state \<Rightarrow> byte list \<Rightarrow> nat \<Rightarrow> byte list" where
  "blake224_hash S0 inp inlen =
     blake224_final (blake224_update (blake224_init S0) inp (inlen * 8 mod 2 ^ 64))"


section \<open>The compression of the standard\<close>

definition rotr :: "nat \<Rightarrow> u32 \<Rightarrow> u32" where
  "rotr n x = word_rotr n x"

text \<open>The function \<open>G\<close> on four words, with \<open>p = m_i XOR c_j\<close> and \<open>q = m_j XOR c_i\<close>.\<close>

definition spec_G :: "u32 \<Rightarrow> u32 \<Rightarrow> u32 \<times> u32 \<times> u32 \<times> u32 \<Rightarrow> u32 \<times> u32 \<times> u32 \<times> u32" where
  "spec_G p q w =
    (case w of (a, b, c, d) \<Rightarrow>
     let a = a + (p + b);
         d = rotr 16 (d XOR a);
         c = c + d;
         b = rotr 12 (b XOR c);
         a = a + (q + b);
         d = rotr 8 (d XOR a);
         c = c + d;
         b = rotr 7 (b XOR c)
     in (a, b, c, d))"

text \<open>The four columns, then the four diagonals, of the 4 by 4 matrix of words.\<close>

definition spec_mix :: "u32 list \<Rightarrow> nat \<Rightarrow> nat \<Rightarrow> nat \<Rightarrow> nat \<Rightarrow> nat \<Rightarrow> nat \<Rightarrow> u32 list \<Rightarrow> u32 list" where
  "spec_mix m r k a b c d v =
    (let x = sigma ! (r mod 10) ! (2 * k); y = sigma ! (r mod 10) ! (2 * k + 1);
         (a', b', c', d') = spec_G (m ! x XOR cst ! y) (m ! y XOR cst ! x) (v ! a, v ! b, v ! c, v ! d)
     in v[a := a', b := b', c := c', d := d'])"

definition mix_round :: "u32 list \<Rightarrow> nat \<Rightarrow> u32 list \<Rightarrow> u32 list" where
  "mix_round m r v =
    fold (\<lambda>k. spec_mix m r (4 + k) k (4 + (k + 1) mod 4) (8 + (k + 2) mod 4) (12 + (k + 3) mod 4)) [0, 1, 2, 3]
      (fold (\<lambda>k. spec_mix m r k k (4 + k) (8 + k) (12 + k)) [0, 1, 2, 3] v)"

definition spec_compress :: "u32 list \<Rightarrow> u32 list \<Rightarrow> u32 \<Rightarrow> u32 \<Rightarrow> byte list \<Rightarrow> u32 list" where
  "spec_compress h s t0 t1 block =
    (let m = map (\<lambda>i. U8TO32 block (4 * i)) [0..<16];
         v = h @ map2 (XOR) s (take 4 cst) @
           [t0 XOR cst ! 4, t0 XOR cst ! 5, t1 XOR cst ! 6, t1 XOR cst ! 7];
         v = fold (mix_round m) [0..<14] v
     in map (\<lambda>i. h ! i XOR s ! (i mod 4) XOR v ! i XOR v ! (i + 8)) [0, 1, 2, 3, 4, 5, 6, 7])"

lemma ROT_eq: "0 < n \<Longrightarrow> n < 32 \<Longrightarrow> ROT x n = rotr n x"
proof -
  assume n: "0 < n" "n < 32"
  then have "ROT x n = word_rotl (32 - n) x"
    using rotl_eq [of "32 - n" x] by (simp add: ROT_def)
  also have "\<dots> = word_rotr n x"
    using n by (intro bit_word_eqI) (simp add: bit_simps)
  finally show ?thesis by (simp add: rotr_def)
qed

lemma sigma_rows: "i < 14 \<Longrightarrow> sigma ! (i mod 10) = sigma ! i"
proof -
  have "\<forall>i\<in>set [0..<14]. sigma ! (i mod 10) = sigma ! i"
    by code_simp
  then show "i < 14 \<Longrightarrow> sigma ! (i mod 10) = sigma ! i"
    by (simp del: upt_rec_numeral)
qed

text \<open>Four registers of the list.\<close>

definition quad :: "nat \<Rightarrow> nat \<Rightarrow> nat \<Rightarrow> nat \<Rightarrow> u32 list \<Rightarrow> u32 \<Rightarrow> u32 \<Rightarrow> u32 \<Rightarrow> u32 \<Rightarrow> u32 list" where
  "quad a b c d v w x y z = v[a := w, b := x, c := y, d := z]"

lemma quad_start: "v = quad a b c d v (v ! a) (v ! b) (v ! c) (v ! d)"
  by (simp add: quad_def)

lemma quad_nth:
  assumes "a < length v" "b < length v" "c < length v" "d < length v" "distinct [a, b, c, d]"
  shows "quad a b c d v w x y z ! a = w" "quad a b c d v w x y z ! b = x"
    "quad a b c d v w x y z ! c = y" "quad a b c d v w x y z ! d = z"
  using assms by (simp_all add: quad_def)

lemma quad_update:
  assumes "a < length v" "b < length v" "c < length v" "d < length v" "distinct [a, b, c, d]"
  shows "(quad a b c d v w x y z)[a := u] = quad a b c d v u x y z"
    "(quad a b c d v w x y z)[b := u] = quad a b c d v w u y z"
    "(quad a b c d v w x y z)[c := u] = quad a b c d v w x u z"
    "(quad a b c d v w x y z)[d := u] = quad a b c d v w x y u"
  using assms by (auto simp: quad_def list_eq_iff_nth_eq nth_list_update)

lemma G_mix:
  assumes "length v = 16" "a < 16" "b < 16" "c < 16" "d < 16" "distinct [a, b, c, d]" "r < 14"
  shows "G m r a b c d (2 * k) v = spec_mix m r k a b c d v"
proof -
  have l: "a < length v" "b < length v" "c < length v" "d < length v"
    using assms by simp_all
  note q = quad_nth [OF l assms(6)] quad_update [OF l assms(6)]
  have "G m r a b c d (2 * k) (quad a b c d v (v ! a) (v ! b) (v ! c) (v ! d)) = spec_mix m r k a b c d v"
    unfolding G_def Let_def q spec_mix_def spec_G_def
    by (simp add: ROT_eq sigma_rows [OF assms(7)] Let_def quad_def)
  then show ?thesis
    by (simp only: quad_start [symmetric])
qed

lemma length_spec_mix [simp]: "length (spec_mix m r k a b c d v) = length v"
  by (simp add: spec_mix_def Let_def split: prod.splits)

text \<open>The code takes the diagonals in another order: they are disjoint.\<close>

definition mix_result :: "u32 list \<Rightarrow> nat \<Rightarrow> nat \<Rightarrow> u32 \<times> u32 \<times> u32 \<times> u32 \<Rightarrow> u32 \<times> u32 \<times> u32 \<times> u32" where
  "mix_result m r k w =
    (let x = sigma ! (r mod 10) ! (2 * k); y = sigma ! (r mod 10) ! (2 * k + 1)
     in spec_G (m ! x XOR cst ! y) (m ! y XOR cst ! x) w)"

lemma spec_mix_eq:
  "spec_mix m r k a b c d v =
    (let w = mix_result m r k (v ! a, v ! b, v ! c, v ! d)
     in v[a := fst w, b := fst (snd w), c := fst (snd (snd w)), d := snd (snd (snd w))])"
  by (simp add: spec_mix_def mix_result_def Let_def split: prod.splits)

lemma diagonals_order:
  assumes "length w = 16"
  shows "spec_mix m r 5 1 6 11 12 (spec_mix m r 4 0 5 10 15 (spec_mix m r 6 2 7 8 13 (spec_mix m r 7 3 4 9 14 w))) =
    spec_mix m r 7 3 4 9 14 (spec_mix m r 6 2 7 8 13 (spec_mix m r 5 1 6 11 12 (spec_mix m r 4 0 5 10 15 w)))"
proof -
  obtain w0 w1 w2 w3 w4 w5 w6 w7 w8 w9 w10 w11 w12 w13 w14 w15
    where "w = [w0, w1, w2, w3, w4, w5, w6, w7, w8, w9, w10, w11, w12, w13, w14, w15]"
    using assms by (auto simp: numeral_eq_Suc length_Suc_conv)
  then show ?thesis
    by (simp add: spec_mix_eq Let_def)
qed

lemma G_round_spec:
  assumes "length v = 16" "r < 14"
  shows "G_round m r v = mix_round m r v"
proof -
  define w where "w = fold (\<lambda>k. spec_mix m r k k (4 + k) (8 + k) (12 + k)) [0, 1, 2, 3] v"
  have lw: "length w = 16"
    using assms by (simp add: w_def)
  have g: "G m r a b c d e u = spec_mix m r k a b c d u"
    if "e = 2 * k" "length u = 16" "a < 16" "b < 16" "c < 16" "d < 16" "distinct [a, b, c, d]" for a b c d e k u
    using that G_mix [of u a b c d r m k] assms(2) by simp
  have "G_round m r v =
    spec_mix m r 5 1 6 11 12 (spec_mix m r 4 0 5 10 15 (spec_mix m r 6 2 7 8 13 (spec_mix m r 7 3 4 9 14 w)))"
    using assms by (simp add: G_round_def Let_def w_def g [of _ 0] g [of _ 1] g [of _ 2] g [of _ 3] g [of _ 4] g [of _ 5] g [of _ 6] g [of _ 7])
  also have "\<dots> =
    spec_mix m r 7 3 4 9 14 (spec_mix m r 6 2 7 8 13 (spec_mix m r 5 1 6 11 12 (spec_mix m r 4 0 5 10 15 w)))"
    by (rule diagonals_order [OF lw])
  also have "\<dots> = mix_round m r v"
    by (simp add: mix_round_def w_def)
  finally show ?thesis .
qed


lemma length_mix_round [simp]: "length (mix_round m r v) = length v"
  by (simp add: mix_round_def)

lemma rounds_spec:
  assumes "length v = 16" "n \<le> 14"
  shows "fold (G_round m) [0..<n] v = fold (mix_round m) [0..<n] v \<and> length (fold (mix_round m) [0..<n] v) = 16"
  using assms(2)
proof (induction n)
  case (Suc n)
  define w where "w = fold (mix_round m) [0..<n] v"
  have w: "fold (G_round m) [0..<n] v = w" "length w = 16" "n < 14"
    using Suc by (simp_all add: w_def)
  have "fold (G_round m) [0..<Suc n] v = mix_round m n w" "fold (mix_round m) [0..<Suc n] v = mix_round m n w"
    using w G_round_spec [OF w(2,3)] by (simp_all add: w_def)
  then show ?case
    using w by simp
qed (simp add: assms(1))

lemma upt_16: "[0..<16] = [0, 1, 2, 3, 4, 5, 6, 7, 8, 9, 10, 11, 12, 13, 14, 15]"
  and upt_8: "[0..<8] = [0, 1, 2, 3, 4, 5, 6, 7]"
  by code_simp+

lemma output_words:
  assumes h: "length h = 8" and s: "length s = 4" and v: "length v = 16"
  shows "fold (\<lambda>i h. h[i := h ! i XOR s ! (i mod 4)]) [0..<8] (fold (\<lambda>i h. h[i mod 8 := h ! (i mod 8) XOR v ! i]) [0..<16] h) =
    map (\<lambda>i. h ! i XOR s ! (i mod 4) XOR v ! i XOR v ! (i + 8)) [0, 1, 2, 3, 4, 5, 6, 7]"
proof -
  obtain h0 h1 h2 h3 h4 h5 h6 h7 where "h = [h0, h1, h2, h3, h4, h5, h6, h7]"
    using h by (auto simp: numeral_eq_Suc length_Suc_conv)
  then show ?thesis
    unfolding upt_16 upt_8 by (simp add: ac_simps)
qed

text \<open>The counter that a compression uses: none in a block without message bits.\<close>

definition blake_counter :: "blake_state \<Rightarrow> u32 \<times> u32" where
  "blake_counter S = (if nullt S = 0 then (bt0 S, bt1 S) else (0, 0))"

lemma compress_spec:
  assumes "length (bh S) = 8" and "length (bs S) = 4"
  shows "blake256_compress S block =
    S\<lparr>bh := spec_compress (bh S) (bs S) (fst (blake_counter S)) (snd (blake_counter S)) block\<rparr>"
proof -
  define m where "m = map (\<lambda>i. U8TO32 block (4 * i)) [0..<16]"
  define v where "v = bh S @ map2 (XOR) (bs S) (take 4 cst) @
    [fst (blake_counter S) XOR cst ! 4, fst (blake_counter S) XOR cst ! 5,
     snd (blake_counter S) XOR cst ! 6, snd (blake_counter S) XOR cst ! 7]"
  have l: "length v = 16"
    using assms by (simp add: v_def cst_def)
  obtain s0 s1 s2 s3 where s: "bs S = [s0, s1, s2, s3]"
    using assms(2) by (auto simp: numeral_eq_Suc length_Suc_conv)
  obtain h0 h1 h2 h3 h4 h5 h6 h7 where h: "bh S = [h0, h1, h2, h3, h4, h5, h6, h7]"
    using assms(1) by (auto simp: numeral_eq_Suc length_Suc_conv)
  have m': "map (\<lambda>i. U8TO32 block (i * 4)) [0..<16] = m"
    by (simp add: m_def mult.commute)
  have v': "(let v = map (\<lambda>i. bh S ! i) [0..<8] @
           [bs S ! 0 XOR 0x243F6A88, bs S ! 1 XOR 0x85A308D3, bs S ! 2 XOR 0x13198A2E, bs S ! 3 XOR 0x03707344,
            0xA4093822, 0x299F31D0, 0x082EFA98, 0xEC4E6C89]
        in if nullt S = 0 then
                v[12 := v ! 12 XOR bt0 S, 13 := v ! 13 XOR bt0 S, 14 := v ! 14 XOR bt1 S, 15 := v ! 15 XOR bt1 S]
              else v) = v"
    unfolding upt_8 h s v_def blake_counter_def by (simp add: cst_def xor.commute Let_def)
  have r: "fold (G_round m) [0..<14] v = fold (mix_round m) [0..<14] v"
    "length (fold (mix_round m) [0..<14] v) = 16"
    using rounds_spec [OF l order_refl, of m] by simp_all
  show ?thesis
    unfolding blake256_compress_def spec_compress_def
    unfolding m' m_def [symmetric] v_def [symmetric]
    using v' r output_words [OF assms r(2)] by (simp add: Let_def del: upt_rec_numeral)
qed

end
