(* ===== verification/Blake_Stream.thy ===== *)
theory Blake_Stream
  imports Blake256
begin

text \<open>
  The streaming interface of \<^verbatim>\<open>blake256.c\<close> against the hash of the whole message, and
  HMAC. \<open>absorbed iv m S\<close> relates the state to the message it has been given.
\<close>

section \<open>The reference\<close>

definition counter :: "nat \<Rightarrow> u32 \<times> u32" where
  "counter n = (of_nat n, of_nat (n div 2 ^ 32))"

definition compress_at :: "nat \<Rightarrow> byte list \<Rightarrow> u32 list \<Rightarrow> u32 list" where
  "compress_at n block h = spec_compress h [0, 0, 0, 0] (fst (counter n)) (snd (counter n)) block"

text \<open>The padding of a message of \<open>n\<close> bytes.\<close>

definition blake_pad :: "byte \<Rightarrow> byte \<Rightarrow> nat \<Rightarrow> byte list" where
  "blake_pad pa pb n =
    (let r = n mod 64
     in (if r = 55 then [pa]
         else if r < 55 then 0x80 # replicate (54 - r) 0 @ [pb]
         else 0x80 # replicate (118 - r) 0 @ [pb])
        @ U32TO8 (snd (counter (8 * n))) @ U32TO8 (fst (counter (8 * n))))"

text \<open>The number of message bits up to block \<open>i\<close>, 0 when the block has none.\<close>

definition bit_count :: "nat \<Rightarrow> nat \<Rightarrow> nat" where
  "bit_count n i = (if n \<le> 64 * i then 0 else min (8 * n) (512 * (i + 1)))"

definition blake_spec :: "u32 list \<Rightarrow> byte \<Rightarrow> byte \<Rightarrow> byte list \<Rightarrow> byte list" where
  "blake_spec iv pa pb m =
    (let M = m @ blake_pad pa pb (length m)
     in concat (map U32TO8
          (fold (\<lambda>i. compress_at (bit_count (length m) i) (take 64 (drop (64 * i) M))) [0..<length M div 64] iv)))"

section \<open>The state and the message\<close>

definition chain :: "u32 list \<Rightarrow> byte list \<Rightarrow> nat \<Rightarrow> u32 list" where
  "chain iv m n = fold (\<lambda>i. compress_at (512 * (i + 1)) (take 64 (drop (64 * i) m))) [0..<n] iv"

definition core :: "u32 list \<Rightarrow> byte list \<Rightarrow> nat \<Rightarrow> blake_state \<Rightarrow> bool" where
  "core iv m n S \<longleftrightarrow> length iv = 8 \<and> bh S = chain iv m n \<and> bs S = [0, 0, 0, 0] \<and> nullt S = 0 \<and>
     (bt0 S, bt1 S) = counter (512 * n)"

definition absorbed :: "u32 list \<Rightarrow> byte list \<Rightarrow> blake_state \<Rightarrow> bool" where
  "absorbed iv m S \<longleftrightarrow> core iv m (length m div 64) S \<and> buflen S = 8 * (length m mod 64) \<and> length (buf S) = 64 \<and>
     take (length m mod 64) (buf S) = drop (64 * (length m div 64)) m"

lemma U8TO32_take: "k + 3 < 64 \<Longrightarrow> U8TO32 (take 64 b) k = U8TO32 b k"
  by (simp add: U8TO32_def)

lemma spec_compress_take: "spec_compress h s t0 t1 (take 64 b) = spec_compress h s t0 t1 b"
proof -
  have "map (\<lambda>i. U8TO32 (take 64 b) (4 * i)) [0..<16] = map (\<lambda>i. U8TO32 b (4 * i)) [0..<16]"
    by (rule map_cong) (simp_all add: U8TO32_take del: upt_rec_numeral)
  then show ?thesis
    by (simp only: spec_compress_def)
qed

lemma length_spec_compress [simp]: "length (spec_compress h s t0 t1 b) = 8"
  by (simp add: spec_compress_def Let_def)

lemma compress_at_take: "compress_at n (take 64 b) h = compress_at n b h"
  by (simp add: compress_at_def spec_compress_take)

lemma chain_Suc: "chain iv m (Suc n) = compress_at (512 * (n + 1)) (take 64 (drop (64 * n) m)) (chain iv m n)"
  by (simp add: chain_def)

lemma length_chain: "length iv = 8 \<Longrightarrow> length (chain iv m n) = 8"
  by (cases n) (simp_all add: chain_Suc compress_at_def, simp add: chain_def)

lemma chain_append: "64 * n \<le> length m \<Longrightarrow> chain iv (m @ x) n = chain iv m n"
proof (induction n)
  case (Suc n)
  then show ?case by (simp add: chain_Suc)
qed (simp add: chain_def)

lemma of_nat_eq_0: "(of_nat m :: u32) = 0 \<longleftrightarrow> m mod 2 ^ 32 = 0"
  using word_of_nat_eq_0_iff [of m, where 'a = 32] by (simp add: dvd_eq_mod_eq_0)

text \<open>The counter carries into its high word.\<close>

lemma counter_step:
  assumes "512 dvd n"
  shows "fst (counter n) + 512 = fst (counter (n + 512))"
    and "(if fst (counter (n + 512)) = 0 then snd (counter n) + 1 else snd (counter n)) = snd (counter (n + 512))"
proof -
  show "fst (counter n) + 512 = fst (counter (n + 512))"
    by (simp add: counter_def)
  have z: "fst (counter (n + 512)) = 0 \<longleftrightarrow> (n + 512) mod 2 ^ 32 = 0"
    unfolding counter_def fst_conv by (rule of_nat_eq_0)
  have "(n + 512) div 2 ^ 32 = (if (n + 512) mod 2 ^ 32 = 0 then n div 2 ^ 32 + 1 else n div 2 ^ 32)"
  proof -
    obtain k where k: "n = 512 * k" using assms by auto
    have e: "512 * k + 512 = 512 * (k + 1)" "(2 ^ 32 :: nat) = 512 * 2 ^ 23"
      by simp_all
    have "(512 * k + 512) div 2 ^ 32 = (k + 1) div 2 ^ 23" "512 * k div 2 ^ 32 = k div 2 ^ 23"
      "(512 * k + 512) mod 2 ^ 32 = 512 * ((k + 1) mod 2 ^ 23)"
      unfolding e by (rule div_mult_mult1, simp)+ (rule mult_mod_right [symmetric])
    moreover have "(k + 1) div 2 ^ 23 = (if (k + 1) mod 2 ^ 23 = 0 then k div 2 ^ 23 + 1 else k div 2 ^ 23)"
      using div_Suc [of k "2 ^ 23"] by simp
    ultimately show ?thesis
      unfolding k by (simp only: mult_eq_0_iff) simp
  qed
  then show "(if fst (counter (n + 512)) = 0 then snd (counter n) + 1 else snd (counter n)) = snd (counter (n + 512))"
    unfolding z by (simp add: counter_def)
qed

lemma blake_step_core:
  assumes "core iv m n S" and "take 64 block = take 64 (drop (64 * n) m)"
  shows "core iv m (Suc n) (blake_step S block)"
    and "buf (blake_step S block) = buf S" "buflen (blake_step S block) = buflen S"
proof -
  have c: "length iv = 8" "bh S = chain iv m n" "length (chain iv m n) = 8" "bs S = [0, 0, 0, 0]" "nullt S = 0"
    "(bt0 S, bt1 S) = counter (512 * n)"
    using assms(1) by (auto simp: core_def length_chain)
  have t: "bt0 S = fst (counter (512 * n))" "bt1 S = snd (counter (512 * n))"
    using c by (simp_all add: prod_eq_iff)
  define S1 where "S1 = S\<lparr>bt0 := bt0 S + 512\<rparr>"
  define S2 where "S2 = (if bt0 S1 = 0 then S1\<lparr>bt1 := bt1 S1 + 1\<rparr> else S1)"
  have "bt0 S1 = fst (counter (512 * n + 512))" "bt1 S1 = snd (counter (512 * n))"
    using counter_step(1) [of "512 * n"] t by (simp_all add: S1_def)
  then have t2: "bt0 S2 = fst (counter (512 * n + 512))" "bt1 S2 = snd (counter (512 * n + 512))"
    using counter_step(2) [of "512 * n"] by (auto simp: S2_def)
  have same: "bh S2 = bh S" "bs S2 = bs S" "nullt S2 = nullt S" "buf S2 = buf S" "buflen S2 = buflen S"
    by (simp_all add: S1_def S2_def)
  have st: "blake_step S block = S2\<lparr>bh := spec_compress (bh S) (bs S) (bt0 S2) (bt1 S2) block\<rparr>"
  proof -
    have l: "length (bh S2) = 8" "length (bs S2) = 4" "nullt S2 = 0"
      using c same by simp_all
    have "blake_step S block = blake256_compress S2 block"
      by (simp only: blake_step_def Let_def S1_def S2_def)
    also have "\<dots> = S2\<lparr>bh := spec_compress (bh S) (bs S) (bt0 S2) (bt1 S2) block\<rparr>"
      using compress_spec [OF l(1,2), of block] same l(3) by (simp add: blake_counter_def)
    finally show ?thesis .
  qed
  have "spec_compress (bh S) (bs S) (bt0 S2) (bt1 S2) block = chain iv m (Suc n)"
    using c t2 assms(2) unfolding chain_Suc compress_at_def
    by (metis spec_compress_take Suc_eq_plus1 mult_Suc_right add.commute)
  then show "core iv m (Suc n) (blake_step S block)"
    using c same t2 by (simp add: core_def st prod_eq_iff add.commute)
  show "buf (blake_step S block) = buf S" "buflen (blake_step S block) = buflen S"
    by (simp_all add: st same)
qed

lemma blake_blocks_core:
  assumes "core iv m n S" and "take d (data) = take d (drop (64 * n) m)" and "d \<le> length data"
  shows "\<exists>S'. blake_blocks S data (8 * d) = (S', drop (64 * (d div 64)) data, 8 * (d mod 64)) \<and>
    core iv m (n + d div 64) S' \<and> buf S' = buf S \<and> buflen S' = buflen S"
  using assms
proof (induction d arbitrary: n S data rule: less_induct)
  case (less d)
  show ?case
  proof (cases "64 \<le> d")
    case False
    then show ?thesis
      using less.prems by (simp add: blake_blocks.simps [of S data "8 * d"])
  next
    case True
    define e where "e = d - 64"
    have e: "d = e + 64" "e < d" using True by (simp_all add: e_def)
    have "take 64 data = take 64 (drop (64 * n) m)"
      using less.prems(2) True by (metis min_absorb1 take_take)
    note s = blake_step_core [OF less.prems(1) this]
    have "take e (drop 64 data) = take e (drop (64 * Suc n) m)"
      using arg_cong [OF less.prems(2), of "drop 64"] by (simp add: e drop_take add.commute)
    then obtain S' where S': "blake_blocks (blake_step S data) (drop 64 data) (8 * e) =
        (S', drop (64 * (e div 64)) (drop 64 data), 8 * (e mod 64))"
      "core iv m (Suc n + e div 64) S'" "buf S' = buf S" "buflen S' = buflen S"
      using less.IH [OF e(2) s(1), of "drop 64 data"] less.prems(3) s(2,3) e(1) by force
    have "blake_blocks S data (8 * d) = blake_blocks (blake_step S data) (drop 64 data) (8 * e)"
      using True by (simp add: blake_blocks.simps [of S data "8 * d"] e_def diff_mult_distrib2)
    moreover have "d div 64 = Suc (e div 64)" "d mod 64 = e mod 64"
      by (simp_all add: e)
    ultimately show ?thesis
      using S' by (intro exI [of _ S']) (simp add: add.commute)
  qed
qed

text \<open>What \<^verbatim>\<open>blake256_update\<close> does after its blocks.\<close>

definition keep_rest :: "nat \<Rightarrow> blake_state \<times> byte list \<times> nat \<Rightarrow> blake_state" where
  "keep_rest left r =
    (case r of (S, data, datalen) \<Rightarrow>
       if 0 < datalen then
         S\<lparr>buf := buf_copy (buf S) left data (datalen div 8), buflen := left * 8 + datalen\<rparr>
       else S\<lparr>buflen := 0\<rparr>)"

lemma update_keep:
  assumes "buflen S = 8 * l"
  shows "l \<noteq> 0 \<Longrightarrow> 64 - l \<le> n mod 64 \<Longrightarrow> blake256_update S data (8 * n) =
      keep_rest 0 (let S = S\<lparr>buf := buf_copy (buf S) l data (64 - l)\<rparr>
        in blake_blocks (blake_step S (buf S)) (drop (64 - l) data) (8 * (n - (64 - l))))"
    and "\<not> (l \<noteq> 0 \<and> 64 - l \<le> n mod 64) \<Longrightarrow> blake256_update S data (8 * n) = keep_rest l (blake_blocks S data (8 * n))"
proof -
  have l: "buflen S div 8 = l" "8 * n div 8 mod 64 = n mod 64"
    "8 * n - (64 - l) * 8 = 8 * (n - (64 - l))"
    using assms by (simp_all add: diff_mult_distrib2)
  show "blake256_update S data (8 * n) =
      keep_rest 0 (let S = S\<lparr>buf := buf_copy (buf S) l data (64 - l)\<rparr>
        in blake_blocks (blake_step S (buf S)) (drop (64 - l) data) (8 * (n - (64 - l))))"
    if c: "l \<noteq> 0" "64 - l \<le> n mod 64"
    using c unfolding blake256_update_def Let_def keep_rest_def l by (simp split: prod.splits)
  show "blake256_update S data (8 * n) = keep_rest l (blake_blocks S data (8 * n))"
    if c: "\<not> (l \<noteq> 0 \<and> 64 - l \<le> n mod 64)"
    unfolding blake256_update_def Let_def keep_rest_def l if_not_P [OF c] prod.case by (rule refl)
qed

lemma keep_rest_absorbed:
  assumes "core iv m k S" and "length (buf S) = 64" and "length m = 64 * k + l + e" and "l + e < 64"
    and "take l (buf S) = take l (drop (64 * k) m)" and "data = drop (64 * k + l) m" and "e = 0 \<Longrightarrow> l = 0"
  shows "absorbed iv m (keep_rest l (S, data, 8 * e))"
proof -
  have d: "length m div 64 = k" "length m mod 64 = l + e"
    using assms(3,4) div_mult_self4 [of 64 k "l + e"] mod_mult_self4 [of k 64 "l + e"]
    by (simp_all add: add.assoc mult.commute)
  have "take (l + e) (buf_copy (buf S) l data e) = drop (64 * k) m"
  proof -
    have "length data = e" "length (drop (64 * k) m) = l + e"
      using assms(3,6) by simp_all
    then have "take (l + e) (buf_copy (buf S) l data e) = take l (buf S) @ data"
      using assms(2,4) by (simp add: buf_copy_def)
    also have "\<dots> = take l (drop (64 * k) m) @ drop l (drop (64 * k) m)"
      using assms(5,6) by (simp add: add.commute)
    also have "\<dots> = drop (64 * k) m"
      by (rule append_take_drop_id)
    finally show ?thesis .
  qed
  moreover have "length (buf_copy (buf S) l data e) = 64"
    using assms(2,3,4,6) by (simp add: buf_copy_def)
  ultimately show ?thesis
    unfolding absorbed_def d using assms(1,2,7) by (cases "e = 0") (simp_all add: keep_rest_def core_def)
qed

text \<open>The updates for which the buffered bytes and the data keep their order.\<close>

definition update_ok :: "nat \<Rightarrow> nat \<Rightarrow> bool" where
  "update_ok r n \<longleftrightarrow> r = 0 \<or> 64 - r \<le> n mod 64 \<or> (0 < n \<and> n + r < 64)"

lemma core_append: "core iv m n S \<Longrightarrow> 64 * n \<le> length m \<Longrightarrow> core iv (m @ x) n S"
  by (simp add: core_def chain_append)

lemma update_absorbed:
  assumes "absorbed iv m S" and "update_ok (length m mod 64) (length data)"
  shows "absorbed iv (m @ data) (blake256_update S data (8 * length data))"
proof -
  define q l n where "q = length m div 64" and "l = length m mod 64" and "n = length data"
  have m: "length m = 64 * q + l" "l < 64"
    by (simp_all add: q_def l_def)
  have a: "core iv (m @ data) q S" "buflen S = 8 * l" "length (buf S) = 64" "take l (buf S) = drop (64 * q) m"
  proof -
    have "core iv m q S" "64 * q \<le> length m"
      using assms(1) by (simp_all add: absorbed_def q_def)
    then show "core iv (m @ data) q S" by (rule core_append)
  qed (use assms(1) in \<open>simp_all add: absorbed_def q_def l_def\<close>)
  have dq: "drop (64 * q) (m @ data) = drop (64 * q) m @ data"
    using m by simp
  consider (fill) "l \<noteq> 0" "64 - l \<le> n mod 64" | (blocks) "l = 0" | (small) "0 < n" "n + l < 64" "l \<noteq> 0"
    using assms(2) by (auto simp: update_ok_def l_def n_def)
  then show ?thesis
  proof cases
    case fill
    define S1 where "S1 = S\<lparr>buf := buf_copy (buf S) l data (64 - l)\<rparr>"
    define f where "f = 64 - l"
    have f: "f \<le> n mod 64" "l + f = 64" "f \<le> n" "0 < f"
      using fill m mod_less_eq_dividend [of n 64] by (simp_all add: f_def)
    have b: "take 64 (buf S1) = take 64 (drop (64 * q) (m @ data))"
      using a(3,4) m f by (simp add: S1_def buf_copy_def dq f_def n_def)
    have c: "core iv (m @ data) q S1"
      using a(1) by (simp add: core_def S1_def)
    note s = blake_step_core(1,2) [OF c b]
    have "64 * Suc q = length m + f"
      using m f by simp
    then have dr: "drop f data = drop (64 * Suc q) (m @ data)"
      by simp
    obtain S' where S': "blake_blocks (blake_step S1 (buf S1)) (drop f data) (8 * (n - f)) =
        (S', drop (64 * ((n - f) div 64)) (drop f data), 8 * ((n - f) mod 64))"
      "core iv (m @ data) (Suc q + (n - f) div 64) S'" "buf S' = buf S1"
    proof -
      have "take (n - f) (drop f data) = take (n - f) (drop (64 * Suc q) (m @ data))"
        by (simp only: dr)
      moreover have "n - f \<le> length (drop f data)"
        by (simp add: n_def)
      ultimately show ?thesis
        using that blake_blocks_core [OF s(1)] s(2) by metis
    qed
    have "blake256_update S data (8 * n) =
        keep_rest 0 (S', drop (64 * ((n - f) div 64)) (drop f data), 8 * ((n - f) mod 64))"
      using update_keep(1) [OF a(2) fill, of data] S'(1) by (simp add: Let_def S1_def f_def)
    moreover have "absorbed iv (m @ data) (keep_rest 0 (S', drop (64 * ((n - f) div 64)) (drop f data), 8 * ((n - f) mod 64)))"
    proof (rule keep_rest_absorbed [OF S'(2)])
      show "length (buf S') = 64"
        using S'(3) a(3) f m by (simp add: S1_def buf_copy_def f_def n_def)
      show "length (m @ data) = 64 * (Suc q + (n - f) div 64) + 0 + (n - f) mod 64"
        using m f by (simp add: n_def algebra_simps)
      show "drop (64 * ((n - f) div 64)) (drop f data) = drop (64 * (Suc q + (n - f) div 64) + 0) (m @ data)"
      proof -
        have "64 * ((n - f) div 64) + 64 * Suc q = 64 * (Suc q + (n - f) div 64) + 0"
          by simp
        then show ?thesis by (simp only: dr drop_drop)
      qed
    qed simp_all
    ultimately show ?thesis by (simp add: n_def)
  next
    case blocks
    have dr: "drop (64 * q) (m @ data) = data"
      using m blocks by simp
    obtain S' where S': "blake_blocks S data (8 * n) = (S', drop (64 * (n div 64)) data, 8 * (n mod 64))"
      "core iv (m @ data) (q + n div 64) S'" "buf S' = buf S"
    proof -
      have "take n data = take n (drop (64 * q) (m @ data))"
        by (simp only: dr)
      moreover have "n \<le> length data"
        by (simp add: n_def)
      ultimately show ?thesis
        using that blake_blocks_core [OF a(1)] by metis
    qed
    have "absorbed iv (m @ data) (keep_rest 0 (S', drop (64 * (n div 64)) data, 8 * (n mod 64)))"
    proof (rule keep_rest_absorbed [OF S'(2)])
      show "length (m @ data) = 64 * (q + n div 64) + 0 + n mod 64"
        using m blocks by (simp add: n_def algebra_simps)
      show "drop (64 * (n div 64)) data = drop (64 * (q + n div 64) + 0) (m @ data)"
        using m blocks by (simp add: algebra_simps)
    qed (simp_all add: S'(3) a(3))
    moreover have "blake256_update S data (8 * n) = keep_rest 0 (S', drop (64 * (n div 64)) data, 8 * (n mod 64))"
      using update_keep(2) [OF a(2), of n data] blocks S'(1) by simp
    ultimately show ?thesis by (simp add: n_def)
  next
    case small
    have "blake256_update S data (8 * n) = keep_rest l (S, data, 8 * n)"
      using update_keep(2) [OF a(2), of n data] small by (simp add: blake_blocks.simps [of S data "8 * n"])
    moreover have "absorbed iv (m @ data) (keep_rest l (S, data, 8 * n))"
      using small m a by (intro keep_rest_absorbed [of iv "m @ data" q]) (simp_all add: dq n_def)
    ultimately show ?thesis by (simp add: n_def)
  qed
qed

section \<open>The padding\<close>

lemma update_append:
  assumes "buflen S = 8 * l" and "0 < k" and "l + k < 64"
  shows "blake256_update S data (8 * k) = S\<lparr>buf := buf_copy (buf S) l data k, buflen := 8 * (l + k)\<rparr>"
proof -
  have "\<not> (l \<noteq> 0 \<and> 64 - l \<le> k mod 64)"
    using assms(3) by simp linarith
  then show ?thesis
    using update_keep(2) [OF assms(1), of k data] assms(2,3)
    by (simp add: blake_blocks.simps [of S data "8 * k"] keep_rest_def)
qed

lemma update_fill:
  assumes "buflen S = 8 * l" and "0 < l" and "0 < k" and "l + k = 64"
  shows "blake256_update S data (8 * k) =
    (blake_step (S\<lparr>buf := buf_copy (buf S) l data k\<rparr>) (buf_copy (buf S) l data k))\<lparr>buflen := 0\<rparr>"
proof -
  have "k = 64 - l" "l \<noteq> 0" "64 - l \<le> k mod 64"
    using assms by simp_all
  then show ?thesis
    using update_keep(1) [OF assms(1), of k data]
    by (simp add: blake_blocks.simps [of _ _ 0] keep_rest_def Let_def)
qed

lemma blake_step_bh:
  assumes "length (bh T) = 8" and "bs T = [0, 0, 0, 0]"
  shows "blake_step T b = T\<lparr>bt0 := bt0 T + 512, bt1 := (if bt0 T + 512 = 0 then bt1 T + 1 else bt1 T),
      bh := (if nullt T = 0 then spec_compress (bh T) [0, 0, 0, 0] (bt0 T + 512) (if bt0 T + 512 = 0 then bt1 T + 1 else bt1 T) b
             else spec_compress (bh T) [0, 0, 0, 0] 0 0 b)\<rparr>"
proof -
  define U where "U = (let S = T\<lparr>bt0 := bt0 T + 512\<rparr> in if bt0 S = 0 then S\<lparr>bt1 := bt1 S + 1\<rparr> else S)"
  have u: "U = T\<lparr>bt0 := bt0 T + 512, bt1 := (if bt0 T + 512 = 0 then bt1 T + 1 else bt1 T)\<rparr>"
    by (simp add: U_def Let_def)
  have "blake_step T b = blake256_compress U b"
    by (simp only: blake_step_def U_def Let_def)
  also have "\<dots> = U\<lparr>bh := spec_compress (bh U) (bs U) (fst (blake_counter U)) (snd (blake_counter U)) b\<rparr>"
    by (rule compress_spec) (simp_all add: u assms)
  finally show ?thesis
    by (simp add: u assms blake_counter_def)
qed

text \<open>The number of bits of a message that ends within a block.\<close>

lemma aligned:
  fixes x q :: nat
  assumes "x < 512"
  shows "(512 * q + x) div 2 ^ 32 = 512 * q div 2 ^ 32" "(512 * q + x) mod 2 ^ 32 = 512 * (q mod 2 ^ 23) + x"
proof -
  have e: "(2 ^ 32 :: nat) = 512 * 2 ^ 23"
    by simp
  have "(512 * q + x) div 512 = q" "(512 * q + x) mod 512 = x" "512 * q div 512 = q"
    using assms by simp_all
  then show "(512 * q + x) div 2 ^ 32 = 512 * q div 2 ^ 32" "(512 * q + x) mod 2 ^ 32 = 512 * (q mod 2 ^ 23) + x"
    unfolding e div_mult2_eq mod_mult2_eq by simp_all
qed

lemma counter_end:
  assumes "x < 512"
  shows "fst (counter (512 * q)) + of_nat x = fst (counter (512 * q + x))"
    and "snd (counter (512 * q + x)) = snd (counter (512 * q))"
    and "\<not> fst (counter (512 * q + x)) < of_nat x"
    and "0 < x \<Longrightarrow> fst (counter (512 * q + x)) \<noteq> 0"
proof -
  have u: "unat (of_nat (512 * q + x) :: u32) = 512 * (q mod 2 ^ 23) + x"
    using aligned(2) [OF assms, of q] by (simp only: unat_of_nat len_of_numeral_defs) simp
  have x: "unat (of_nat x :: u32) = x"
    using assms by (simp add: unat_of_nat)
  show "\<not> fst (counter (512 * q + x)) < of_nat x"
    unfolding counter_def fst_conv word_less_nat_alt u x by simp
  show "fst (counter (512 * q + x)) \<noteq> 0" if "0 < x"
    unfolding counter_def fst_conv using u that by (metis unat_0 add_is_0 less_irrefl)
  show "fst (counter (512 * q)) + of_nat x = fst (counter (512 * q + x))"
    by (simp add: counter_def)
  show "snd (counter (512 * q + x)) = snd (counter (512 * q))"
    unfolding counter_def snd_conv aligned(1) [OF assms] by (rule refl)
qed

lemma step_end:
  assumes "length (bh T) = 8" and "bs T = [0, 0, 0, 0]" and "nullt T = 0"
    and "0 < x" and "x < 512" and "bt0 T + 512 = fst (counter (512 * q + x))" and "bt1 T = snd (counter (512 * q))"
  shows "bh (blake_step T b) = compress_at (512 * q + x) b (bh T)"
  using counter_end(2,4) [OF assms(5), of q] assms
  by (simp add: blake_step_bh compress_at_def)

lemma step_null:
  assumes "length (bh T) = 8" and "bs T = [0, 0, 0, 0]" and "nullt T = 1"
  shows "bh (blake_step T b) = compress_at 0 b (bh T)"
  using assms by (simp add: blake_step_bh compress_at_def counter_def)

lemma digest_map: "length h = 8 \<Longrightarrow> map (\<lambda>i. U32TO8 (h ! i)) [0..<8] = map U32TO8 h"
  by (rule nth_equalityI) (simp_all del: upt_rec_numeral)

lemma length_U32TO8 [simp]: "length (U32TO8 w) = 4"
  by (simp add: U32TO8_def)

lemma buf_copy_full: "l \<le> length b \<Longrightarrow> take (l + k) (buf_copy b l data k) = take l b @ take k data" if "length data \<ge> k"
  using that by (simp add: buf_copy_def)

lemma length_buf_copy: "l + k \<le> length b \<Longrightarrow> k \<le> length data \<Longrightarrow> length (buf_copy b l data k) = length b"
  by (simp add: buf_copy_def)

text \<open>The blocks of the message proper.\<close>

lemma spec_chain:
  assumes "k \<le> length m div 64"
  shows "fold (\<lambda>i. compress_at (bit_count (length m) i) (take 64 (drop (64 * i) (m @ x)))) [0..<k] iv = chain iv m k"
  using assms
proof (induction k)
  case (Suc k)
  then have k: "64 * (k + 1) \<le> length m"
    by (metis Suc_eq_plus1 div_times_less_eq_dividend le_trans mult.commute mult_le_mono1)
  then have "bit_count (length m) k = 512 * (k + 1)"
    by (simp add: bit_count_def)
  moreover have "take 64 (drop (64 * k) (m @ x)) = take 64 (drop (64 * k) m)"
    using k by simp
  ultimately show ?case
    using Suc by (simp add: chain_Suc)
qed (simp add: chain_def)

lemma blake_spec_blocks:
  assumes "length m = 64 * q + r" and "r < 64"
  shows "r < 56 \<Longrightarrow> blake_spec iv pa pb m =
      concat (map U32TO8 (compress_at (bit_count (length m) q) (drop (64 * q) m @ blake_pad pa pb (length m)) (chain iv m q)))"
    and "56 \<le> r \<Longrightarrow> blake_spec iv pa pb m =
      concat (map U32TO8 (compress_at 0 (drop 64 (drop (64 * q) m @ blake_pad pa pb (length m)))
        (compress_at (8 * length m) (take 64 (drop (64 * q) m @ blake_pad pa pb (length m))) (chain iv m q))))"
proof -
  define M where "M = m @ blake_pad pa pb (length m)"
  have q: "length m div 64 = q" "length m mod 64 = r"
    using assms div_mult_self4 [of 64 q r] mod_mult_self4 [of q 64 r] by (simp_all add: mult.commute)
  have ch: "fold (\<lambda>i. compress_at (bit_count (length m) i) (take 64 (drop (64 * i) M))) [0..<q] iv = chain iv m q"
    unfolding M_def using spec_chain [of q m] q by simp
  have d: "drop (64 * q) M = drop (64 * q) m @ blake_pad pa pb (length m)"
    using assms by (simp add: M_def)
  have pl: "length (blake_pad pa pb (length m)) = (if r < 56 then 64 - r else 128 - r)"
    using assms(2) unfolding blake_pad_def q by (auto simp: Let_def)
  show "blake_spec iv pa pb m =
      concat (map U32TO8 (compress_at (bit_count (length m) q) (drop (64 * q) m @ blake_pad pa pb (length m)) (chain iv m q)))"
    if r: "r < 56"
  proof -
    have "length M div 64 = Suc q"
      using assms pl r by (simp add: M_def)
    then show ?thesis
      by (simp only: blake_spec_def Let_def M_def [symmetric] upt_Suc fold_append fold.simps ch comp_apply id_apply
          compress_at_take if_True le0 d)
  qed
  show "blake_spec iv pa pb m =
      concat (map U32TO8 (compress_at 0 (drop 64 (drop (64 * q) m @ blake_pad pa pb (length m)))
        (compress_at (8 * length m) (take 64 (drop (64 * q) m @ blake_pad pa pb (length m))) (chain iv m q))))"
    if r: "56 \<le> r"
  proof -
    have "length M div 64 = Suc (Suc q)"
      using assms pl r by (simp add: M_def)
    moreover have "bit_count (length m) q = 8 * length m" "bit_count (length m) (Suc q) = 0"
      using assms r by (simp_all add: bit_count_def)
    moreover have "drop (64 * Suc q) M = drop 64 (drop (64 * q) M)"
      by (simp add: add.commute)
    ultimately show ?thesis
      by (simp only: blake_spec_def Let_def M_def [symmetric] upt_Suc fold_append fold.simps ch comp_apply id_apply
          compress_at_take if_True le0 le_SucI d)
  qed
qed

text \<open>The last block: the buffer holds 56 bytes and the length is added.\<close>

definition finish :: "u32 \<Rightarrow> u32 \<Rightarrow> blake_state \<Rightarrow> byte list" where
  "finish hi lo S = concat (map (\<lambda>i. U32TO8 (bh (blake256_update (S\<lparr>bt0 := bt0 S - 64\<rparr>) (U32TO8 hi @ U32TO8 lo) 64) ! i)) [0..<8])"

lemma finish_step:
  assumes "buflen S = 448" and "length (buf S) = 64" and "length (bh S) = 8" and "bs S = [0, 0, 0, 0]"
  shows "finish hi lo S = concat (map U32TO8 (bh (blake_step (S\<lparr>bt0 := bt0 S - 64, buf := take 56 (buf S) @ U32TO8 hi @ U32TO8 lo\<rparr>)
    (take 56 (buf S) @ U32TO8 hi @ U32TO8 lo))))"
proof -
  have "buf_copy (buf S) 56 (U32TO8 hi @ U32TO8 lo) 8 = take 56 (buf S) @ U32TO8 hi @ U32TO8 lo"
    using assms(2) by (simp add: buf_copy_def)
  then have "bh (blake256_update (S\<lparr>bt0 := bt0 S - 64\<rparr>) (U32TO8 hi @ U32TO8 lo) 64) =
      bh (blake_step (S\<lparr>bt0 := bt0 S - 64, buf := take 56 (buf S) @ U32TO8 hi @ U32TO8 lo\<rparr>)
    (take 56 (buf S) @ U32TO8 hi @ U32TO8 lo))"
    using update_fill [of "S\<lparr>bt0 := bt0 S - 64\<rparr>" 56 8 "U32TO8 hi @ U32TO8 lo"] assms(1) by simp
  moreover have "length (bh (blake_step T b)) = 8" if "length (bh T) = 8" "bs T = [0, 0, 0, 0]" for T b
    using that by (simp add: blake_step_bh)
  ultimately show ?thesis
    using assms(3,4) by (simp add: finish_def digest_map)
qed

lemma final_cases:
  assumes "core iv m q S" and "length m = 64 * q + r" and "r < 64" and "buflen S = 8 * r"
  shows "blake256_final_h S pa pb = finish (snd (counter (8 * length m))) (fst (counter (8 * length m)))
    (if r = 55 then blake256_update (S\<lparr>bt0 := bt0 S - 8\<rparr>) [pa] (8 * 1)
     else
       let S' = (if r < 55 then
                   let S = (if r = 0 then S\<lparr>nullt := 1\<rparr> else S)
                   in blake256_update (S\<lparr>bt0 := bt0 S - of_nat (440 - 8 * r)\<rparr>) padding (8 * (55 - r))
                 else
                   let S = blake256_update (S\<lparr>bt0 := bt0 S - of_nat (512 - 8 * r)\<rparr>) padding (8 * (64 - r))
                   in (blake256_update (S\<lparr>bt0 := bt0 S - 440\<rparr>) (drop 1 padding) (8 * 55))\<lparr>nullt := 1\<rparr>);
           S' = blake256_update S' [pb] (8 * 1)
       in S'\<lparr>bt0 := bt0 S' - 8\<rparr>)"
proof -
  have n: "8 * length m = 512 * q + 8 * r" "8 * r < 512"
    using assms(2,3) by simp_all
  have t: "bt0 S = fst (counter (512 * q))" "bt1 S = snd (counter (512 * q))"
    using assms(1) by (simp_all add: core_def prod_eq_iff)
  have lo: "bt0 S + of_nat (buflen S) = fst (counter (8 * length m))"
    unfolding assms(4) n(1) t by (rule counter_end(1) [OF n(2)])
  have hi: "(if fst (counter (8 * length m)) < of_nat (buflen S) then bt1 S + 1 else bt1 S) = snd (counter (8 * length m))"
    unfolding assms(4) n(1) t using counter_end(2,3) [OF n(2), of q] by simp
  have e: "8 * r = 440 \<longleftrightarrow> r = 55" "8 * r < 440 \<longleftrightarrow> r < 55" "8 * r = 0 \<longleftrightarrow> r = 0"
    by simp_all
  show ?thesis
    unfolding blake256_final_h_def Let_def lo hi finish_def unfolding assms(4) e(1-3)
    by (simp add: diff_mult_distrib2 assms(4))
qed

lemma length_padding [simp]: "length padding = 64"
  by (simp add: padding_def)

lemma take_padding: "0 < k \<Longrightarrow> k \<le> 64 \<Longrightarrow> take k padding = 0x80 # replicate (k - 1) 0"
  by (cases k) (simp_all add: padding_def min_def)

lemma final_absorbed:
  assumes "absorbed iv m S"
  shows "blake256_final_h S pa pb = blake_spec iv pa pb m"
proof -
  define q r where "q = length m div 64" and "r = length m mod 64"
  have m: "length m = 64 * q + r" "r < 64"
    by (simp_all add: q_def r_def)
  have c: "core iv m q S" and b: "buflen S = 8 * r" "length (buf S) = 64" "take r (buf S) = drop (64 * q) m"
    using assms by (simp_all add: absorbed_def q_def r_def)
  have s: "length iv = 8" "bh S = chain iv m q" "length (chain iv m q) = 8" "bs S = [0, 0, 0, 0]" "nullt S = 0"
    "bt0 S = fst (counter (512 * q))" "bt1 S = snd (counter (512 * q))"
    using c by (auto simp: core_def length_chain prod_eq_iff)
  have n8: "8 * length m = 512 * q + 8 * r" "8 * r < 512"
    using m by simp_all
  let ?hi = "snd (counter (8 * length m))" and ?lo = "fst (counter (8 * length m))"
  note ct = counter_end(1) [OF n8(2), of q]
  note f = final_cases [OF c m b(1), of pa pb]
  consider (one) "r = 55" | (small) "r < 55" | (two) "56 \<le> r"
    using m(2) by linarith
  then show ?thesis
  proof cases
    case one
    define T where "T = S\<lparr>bt0 := bt0 S - 8, buf := buf_copy (buf S) 55 [pa] 1, buflen := 448\<rparr>"
    have u: "blake256_update (S\<lparr>bt0 := bt0 S - 8\<rparr>) [pa] (8 * 1) = T"
      using update_append [of "S\<lparr>bt0 := bt0 S - 8\<rparr>" 55 1 "[pa]"] b(1) one by (simp add: T_def)
    have t: "buflen T = 448" "length (buf T) = 64" "length (bh T) = 8" "bs T = [0, 0, 0, 0]"
      using b s by (simp_all add: T_def buf_copy_def)
    have "take 56 (buf T) @ U32TO8 ?hi @ U32TO8 ?lo = drop (64 * q) m @ blake_pad pa pb (length m)"
      using b(2,3) one m by (simp add: T_def buf_copy_def blake_pad_def Let_def flip: r_def)
    moreover have "bh (blake_step (T\<lparr>bt0 := bt0 T - 64, buf := x\<rparr>) x) = compress_at (512 * q + 8 * r) x (bh T)" for x
      using step_end [of "T\<lparr>bt0 := bt0 T - 64, buf := x\<rparr>" "8 * r" q x] t s n8(2) ct one by (simp add: T_def add.commute)
    moreover have "bit_count (length m) q = 512 * q + 8 * r" "bh T = chain iv m q"
      using one m s(2) by (simp_all add: bit_count_def T_def)
    ultimately show ?thesis
      unfolding f u using blake_spec_blocks(1) [OF m] one finish_step [OF t] by simp
  next
    case small
    define S0 where "S0 = (if r = 0 then S\<lparr>nullt := 1\<rparr> else S)"
    define T1 where "T1 = S0\<lparr>bt0 := bt0 S0 - of_nat (440 - 8 * r), buf := buf_copy (buf S) r padding (55 - r), buflen := 440\<rparr>"
    define T2 where "T2 = T1\<lparr>buf := buf_copy (buf T1) 55 [pb] 1, buflen := 448\<rparr>"
    define T where "T = T2\<lparr>bt0 := bt0 T2 - 8\<rparr>"
    have S0: "bh S0 = bh S" "bs S0 = bs S" "bt0 S0 = bt0 S" "bt1 S0 = bt1 S" "buflen S0 = buflen S" "buf S0 = buf S"
      "nullt S0 = (if r = 0 then 1 else 0)"
      using s(5) by (simp_all add: S0_def)
    have u1: "blake256_update (S0\<lparr>bt0 := bt0 S0 - of_nat (440 - 8 * r)\<rparr>) padding (8 * (55 - r)) = T1"
      using update_append [of "S0\<lparr>bt0 := bt0 S0 - of_nat (440 - 8 * r)\<rparr>" r "55 - r" padding] b(1) small
      by (simp add: T1_def S0)
    have u2: "blake256_update T1 [pb] (8 * 1) = T2"
      using update_append [of T1 55 1 "[pb]"] by (simp add: T1_def T2_def)
    have l1: "length (buf T1) = 64"
      using b small by (simp add: T1_def length_buf_copy)
    have t: "buflen T = 448" "length (buf T) = 64" "length (bh T) = 8" "bs T = [0, 0, 0, 0]"
      using b s S0 l1 by (simp_all add: T_def T2_def length_buf_copy, simp_all add: T1_def)
    have "take 55 (buf T1) = drop (64 * q) m @ 0x80 # replicate (54 - r) 0"
      using buf_copy_full [of "55 - r" padding r "buf S"] b small by (simp add: T1_def take_padding)
    then have blk: "take 56 (buf T) @ U32TO8 ?hi @ U32TO8 ?lo = drop (64 * q) m @ blake_pad pa pb (length m)"
      using buf_copy_full [of 1 "[pb]" 55 "buf T1"] l1 small
      by (simp add: T_def T2_def blake_pad_def Let_def flip: r_def)
    have bt: "bt0 T - 64 + 512 = fst (counter (512 * q + 8 * r))" "bt1 T = snd (counter (512 * q))" "bh T = chain iv m q"
      "nullt T = (if r = 0 then 1 else 0)"
      using s S0 small by (simp_all add: T_def T2_def T1_def flip: ct)
    have "bh (blake_step (T\<lparr>bt0 := bt0 T - 64, buf := x\<rparr>) x) = compress_at (bit_count (length m) q) x (bh T)" for x
    proof (cases "r = 0")
      case True
      then show ?thesis
        using step_null [of "T\<lparr>bt0 := bt0 T - 64, buf := x\<rparr>" x] t bt m by (simp add: bit_count_def)
    next
      case False
      then have "bit_count (length m) q = 512 * q + 8 * r"
        using m by (simp add: bit_count_def)
      then show ?thesis
        using step_end [of "T\<lparr>bt0 := bt0 T - 64, buf := x\<rparr>" "8 * r" q x] t bt n8(2) False by simp
    qed
    then show ?thesis
      unfolding f using u1 u2 blake_spec_blocks(1) [OF m] small finish_step [OF t] blk bt(3)
      by (simp add: Let_def flip: S0_def T_def)
  next
    case two
    define B where "B = buf_copy (buf S) r padding (64 - r)"
    define V where "V = S\<lparr>bt0 := bt0 S - of_nat (512 - 8 * r), buf := B\<rparr>"
    define T0 where "T0 = (blake_step V B)\<lparr>buflen := 0\<rparr>"
    define T1 where "T1 = T0\<lparr>bt0 := bt0 T0 - 440, buf := buf_copy B 0 (drop 1 padding) 55, buflen := 440, nullt := 1\<rparr>"
    define T2 where "T2 = T1\<lparr>buf := buf_copy (buf T1) 55 [pb] 1, buflen := 448\<rparr>"
    define T where "T = T2\<lparr>bt0 := bt0 T2 - 8\<rparr>"
    have u0: "blake256_update (S\<lparr>bt0 := bt0 S - of_nat (512 - 8 * r)\<rparr>) padding (8 * (64 - r)) = T0"
      using update_fill [of "S\<lparr>bt0 := bt0 S - of_nat (512 - 8 * r)\<rparr>" r "64 - r" padding] b(1) two m(2)
      by (simp add: T0_def V_def B_def)
    have V: "length (bh V) = 8" "bs V = [0, 0, 0, 0]" "nullt V = 0" "bt1 V = snd (counter (512 * q))"
      "bt0 V + 512 = fst (counter (512 * q + 8 * r))" "buf V = B"
      using s two m(2) by (simp_all add: V_def flip: ct)
    have "bh (blake_step V B) = compress_at (512 * q + 8 * r) B (chain iv m q)"
      using step_end [OF V(1-3) _ n8(2) V(5,4), of B] two s(2) by (simp add: V_def)
    then have T0: "bh T0 = compress_at (512 * q + 8 * r) B (chain iv m q)" "bs T0 = [0, 0, 0, 0]" "buf T0 = B" "buflen T0 = 0"
      "length (bh T0) = 8"
      using V by (simp_all add: T0_def blake_step_bh compress_at_def)
    have u1: "(blake256_update (T0\<lparr>bt0 := bt0 T0 - 440\<rparr>) (drop 1 padding) (8 * 55))\<lparr>nullt := 1\<rparr> = T1"
      using update_append [of "T0\<lparr>bt0 := bt0 T0 - 440\<rparr>" 0 55 "drop 1 padding"] T0 by (simp add: T1_def)
    have u2: "blake256_update T1 [pb] (8 * 1) = T2"
      using update_append [of T1 55 1 "[pb]"] by (simp add: T1_def T2_def)
    have lB: "length B = 64" and tB: "B = drop (64 * q) m @ 0x80 # replicate (63 - r) 0"
      using buf_copy_full [of "64 - r" padding r "buf S"] b two m
      by (simp_all add: B_def length_buf_copy take_padding)
    have l1: "length (buf T1) = 64"
      using lB by (simp add: T1_def length_buf_copy)
    have t: "buflen T = 448" "length (buf T) = 64" "length (bh T) = 8" "bs T = [0, 0, 0, 0]"
      using T0 l1 by (simp_all add: T_def T2_def length_buf_copy, simp_all add: T1_def)
    have "118 - r = (63 - r) + 55"
      using two m(2) by simp
    then have bp: "blake_pad pa pb (length m) = (0x80 # replicate (63 - r) 0) @ replicate 55 0 @ pb # U32TO8 ?hi @ U32TO8 ?lo"
      using two by (simp only: blake_pad_def Let_def replicate_add flip: r_def) simp
    have M: "drop (64 * q) m @ blake_pad pa pb (length m) = B @ replicate 55 0 @ pb # U32TO8 ?hi @ U32TO8 ?lo"
      unfolding bp tB by (simp only: append_assoc append_Cons)
    have "take 55 (buf T1) = replicate 55 0"
      using buf_copy_full [of 55 "drop 1 padding" 0 B] by (simp add: T1_def padding_def)
    then have blk: "take 56 (buf T) @ U32TO8 ?hi @ U32TO8 ?lo = drop 64 (drop (64 * q) m @ blake_pad pa pb (length m))"
      and blk0: "take 64 (drop (64 * q) m @ blake_pad pa pb (length m)) = B"
      using buf_copy_full [of 1 "[pb]" 55 "buf T1"] l1 lB
      unfolding M by (simp_all add: T_def T2_def)
    have "bh (blake_step (T\<lparr>bt0 := bt0 T - 64, buf := x\<rparr>) x) = compress_at 0 x (bh T)" "bh T = bh T0" for x
      using step_null [of "T\<lparr>bt0 := bt0 T - 64, buf := x\<rparr>" x] t by (simp_all add: T_def T2_def T1_def)
    then show ?thesis
      unfolding f using u0 u1 u2 blake_spec_blocks(2) [OF m] two finish_step [OF t] blk blk0 T0(1) n8(1)
      by (simp add: Let_def flip: T_def)
  qed
qed

section \<open>Hashing a message\<close>

definition iv256 :: "u32 list" where
  "iv256 = [0x6A09E667, 0xBB67AE85, 0x3C6EF372, 0xA54FF53A, 0x510E527F, 0x9B05688C, 0x1F83D9AB, 0x5BE0CD19]"

definition iv224 :: "u32 list" where
  "iv224 = [0xC1059ED8, 0x367CD507, 0x3070DD17, 0xF70E5939, 0xFFC00B31, 0x68581511, 0x64F98FA7, 0xBEFA4FA4]"

definition blake256 :: "byte list \<Rightarrow> byte list" where
  "blake256 m = blake_spec iv256 0x81 0x01 m"

text \<open>The code writes 32 bytes for BLAKE-224 too; its hash is the first 28 of them.\<close>

definition blake224 :: "byte list \<Rightarrow> byte list" where
  "blake224 m = blake_spec iv224 0x80 0x00 m"

lemma length_concat_U32TO8: "length (concat (map U32TO8 ws)) = 4 * length ws"
  by (induction ws) simp_all

lemma length_compress_at [simp]: "length (compress_at n b h) = 8"
  by (simp add: compress_at_def)

lemma length_blake_spec: "length (blake_spec iv pa pb m) = 32"
proof -
  define q r where "q = length m div 64" and "r = length m mod 64"
  then have "length m = 64 * q + r" "r < 64"
    by simp_all
  then show ?thesis
    using blake_spec_blocks [of m q r iv pa pb] by (cases "r < 56") (simp_all add: length_concat_U32TO8)
qed

lemma length_blake [simp]: "length (blake256 m) = 32" "length (blake224 m) = 32"
  by (simp_all add: blake256_def blake224_def length_blake_spec)

lemma absorbed_init:
  assumes "length (buf S) = 64"
  shows "absorbed iv256 [] (blake256_init S)" "absorbed iv224 [] (blake224_init S)"
  using assms by (simp_all add: absorbed_def core_def chain_def counter_def blake256_init_def blake224_init_def iv256_def iv224_def)

text \<open>The interface of a hash that is given its message in pieces.\<close>

locale stream_hash =
  fixes rel :: "byte list \<Rightarrow> 's \<Rightarrow> bool" and update :: "'s \<Rightarrow> byte list \<Rightarrow> 's"
    and final :: "'s \<Rightarrow> byte list" and H :: "byte list \<Rightarrow> byte list"
  assumes update: "rel m S \<Longrightarrow> update_ok (length m mod 64) (length d) \<Longrightarrow> rel (m @ d) (update S d)"
    and final: "rel m S \<Longrightarrow> final S = H m"
begin

lemma one_piece: "rel [] S \<Longrightarrow> final (update S m) = H m"
  using update [of "[]" S m] final by (simp add: update_ok_def)

lemma two_pieces: "rel [] S \<Longrightarrow> length p = 64 \<Longrightarrow> final (update (update S p) m) = H (p @ m)"
  using update [of "[]" S p] update [of p "update S p" m] final by (simp add: update_ok_def)

lemma pieces:
  assumes "rel m S" and "\<forall>d\<in>set ds. length d mod 64 = 0" and "length m mod 64 = 0"
  shows "final (update (foldl update S ds) e) = H (m @ concat ds @ e)"
  using assms
proof (induction ds arbitrary: m S)
  case Nil
  then show ?case
    using update [of m S e] final by (simp add: update_ok_def)
next
  case (Cons d ds)
  then show ?case
    using update [of m S d] Cons.IH [of "m @ d" "update S d"] by (simp add: update_ok_def mod_add_eq [of "length m", symmetric])
qed

end

interpretation b256: stream_hash "absorbed iv256" "\<lambda>S d. blake256_update S d (8 * length d)" blake256_final blake256
  by unfold_locales (simp_all add: update_absorbed final_absorbed blake256_final_def blake256_def)

interpretation b224: stream_hash "absorbed iv224" "\<lambda>S d. blake224_update S d (8 * length d)" blake224_final blake224
  by unfold_locales (simp_all add: update_absorbed final_absorbed blake224_final_def blake224_def blake224_update_def)

text \<open>
  The buffered bytes are lost when a block follows that does not fill up the buffer.
\<close>

lemma update_loses:
  assumes "absorbed iv m S" and "0 < length m" and "length m < 64" and "length data = 64"
  shows "absorbed iv data (blake256_update S data 512)"
proof -
  define l where "l = length m"
  have l: "0 < l" "l < 64"
    using assms by (simp_all add: l_def)
  have a: "core iv data 0 S" "buflen S = 8 * l" "length (buf S) = 64"
    using assms by (simp_all add: absorbed_def core_def chain_def l_def)
  obtain S' where S': "blake_blocks S data (8 * 64) = (S', drop (64 * (64 div 64)) data, 8 * (64 mod 64))"
    "core iv data (0 + 64 div 64) S'" "buf S' = buf S"
    using blake_blocks_core [OF a(1), of 64 data] assms(4) by auto
  have "\<not> (l \<noteq> 0 \<and> 64 - l \<le> 64 mod 64)"
    using l by simp
  then have "blake256_update S data 512 = S'\<lparr>buflen := 0\<rparr>"
    using update_keep(2) [OF a(2), of 64 data] S'(1) by (simp add: keep_rest_def)
  then show ?thesis
    using S'(2,3) a(3) assms(4) by (simp add: absorbed_def core_def)
qed

end
