(* ===== verification/Blake_Properties.thy ===== *)
theory Blake_Properties
  imports Blake_Stream
begin

text \<open>
  HMAC over BLAKE, and the contract of \<^verbatim>\<open>blake256.c\<close> and \<^verbatim>\<open>hash-extra-blake.c\<close>.
  Local structs and buffers that the code does not initialise are parameters.
\<close>

section \<open>HMAC\<close>























section \<open>The contract\<close>


definition zero_state :: "blake_state" where
  "zero_state = \<lparr>bh = replicate 8 0, bs = replicate 4 0, bt0 = 0, bt1 = 0, buflen = 0, nullt = 0, buf = replicate 64 0\<rparr>"




text \<open>
  C27: The invariant of the stream: the chain value is that of the whole blocks given so far,
  the counter is their number of bits and the buffer holds the rest. It holds after \<^verbatim>\<open>init\<close>; every
  update whose data is appended in order keeps it: the buffer is empty, or the data fills it
  exactly when its length modulo 64 does, or is short. From any state with the invariant,
  \<^verbatim>\<open>final\<close> gives the hash of the message so far.
\<close>

theorem blake_stream_invariant:
  assumes "length (buf S0) = 64"
  shows "absorbed iv256 [] (blake256_init S0) \<and> absorbed iv224 [] (blake224_init S0) \<and>
    (\<forall>iv m S data. absorbed iv m S \<longrightarrow> update_ok (length m mod 64) (length data) \<longrightarrow>
       absorbed iv (m @ data) (blake256_update S data (8 * length data))) \<and>
    (\<forall>m S. absorbed iv256 m S \<longrightarrow> blake256_final S = blake256 m) \<and>
    (\<forall>m S. absorbed iv224 m S \<longrightarrow> blake224_final S = blake224 m)"
  using absorbed_init [OF assms] update_absorbed b256.final b224.final by blast

theorem blake_stream_invariant_witness:
  "blake256_final (blake256_update (blake256_update (blake256_init zero_state) [1, 2, 3] 24) [4, 5] 16) = blake256 [1, 2, 3, 4, 5]"
proof -
  have z: "length (buf zero_state) = 64"
    by (simp add: zero_state_def)
  note i = blake_stream_invariant [OF z]
  have "absorbed iv256 [1, 2, 3] (blake256_update (blake256_init zero_state) [1, 2, 3] 24)"
    using i [THEN conjunct1] i [THEN conjunct2, THEN conjunct2, THEN conjunct1, rule_format, of iv256 "[]" "blake256_init zero_state" "[1, 2, 3]"]
    by (simp add: update_ok_def)
  then have "absorbed iv256 [1, 2, 3, 4, 5] (blake256_update (blake256_update (blake256_init zero_state) [1, 2, 3] 24) [4, 5] 16)"
    using i [THEN conjunct2, THEN conjunct2, THEN conjunct1, rule_format, of iv256 "[1, 2, 3]" _ "[4, 5]"]
    by (simp add: update_ok_def)
  then show ?thesis
    using i by blast
qed

text \<open>
  C28: An update that is not of this kind loses data: with \<open>1\<close> to \<open>63\<close> bytes in the buffer, a
  following update of one whole block forgets them, so that the digest is the one of the
  block alone, whatever the bytes were.
\<close>

theorem blake_update_loses:
  assumes "absorbed iv256 m S" and "0 < length m" and "length m < 64" and "length data = 64"
  shows "blake256_final (blake256_update S data 512) = blake256 data"
  using b256.final [OF update_loses [OF assms]] .

theorem blake_update_loses_witness:
  "blake256_final (blake256_update (blake256_update (blake256_init zero_state) [1] 8) (replicate 64 0) 512) =
    blake256_final (blake256_update (blake256_update (blake256_init zero_state) [2] 8) (replicate 64 0) 512)"
proof -
  have "absorbed iv256 [x] (blake256_update (blake256_init zero_state) [x] 8)" for x
    using b256.update [OF absorbed_init(1), of zero_state "[x]"] by (simp add: zero_state_def update_ok_def)
  then show ?thesis
    using blake_update_loses [of "[1]" "blake256_update (blake256_init zero_state) [1] 8" "replicate 64 0"]
      blake_update_loses [of "[2]" "blake256_update (blake256_init zero_state) [2] 8" "replicate 64 0"] by simp
qed



end
