(* ===== verification/Aes.thy ===== *)
theory Aes
  imports Prelude
begin

text \<open>
  The block cipher of \<^verbatim>\<open>oaes_lib.c\<close>: its byte tables, and the operations on the block and on
  its columns. The reference is FIPS 197: the field of 256 elements, the substitution as
  inversion followed by an affine map, and the rounds on a list of 16 bytes by columns.
\<close>

section \<open>The tables of the code\<close>

definition oaes_sub_byte_value :: "byte list list" where
  "oaes_sub_byte_value =
    [[0x63, 0x7c, 0x77, 0x7b, 0xf2, 0x6b, 0x6f, 0xc5, 0x30, 0x01, 0x67, 0x2b, 0xfe, 0xd7, 0xab, 0x76],
     [0xca, 0x82, 0xc9, 0x7d, 0xfa, 0x59, 0x47, 0xf0, 0xad, 0xd4, 0xa2, 0xaf, 0x9c, 0xa4, 0x72, 0xc0],
     [0xb7, 0xfd, 0x93, 0x26, 0x36, 0x3f, 0xf7, 0xcc, 0x34, 0xa5, 0xe5, 0xf1, 0x71, 0xd8, 0x31, 0x15],
     [0x04, 0xc7, 0x23, 0xc3, 0x18, 0x96, 0x05, 0x9a, 0x07, 0x12, 0x80, 0xe2, 0xeb, 0x27, 0xb2, 0x75],
     [0x09, 0x83, 0x2c, 0x1a, 0x1b, 0x6e, 0x5a, 0xa0, 0x52, 0x3b, 0xd6, 0xb3, 0x29, 0xe3, 0x2f, 0x84],
     [0x53, 0xd1, 0x00, 0xed, 0x20, 0xfc, 0xb1, 0x5b, 0x6a, 0xcb, 0xbe, 0x39, 0x4a, 0x4c, 0x58, 0xcf],
     [0xd0, 0xef, 0xaa, 0xfb, 0x43, 0x4d, 0x33, 0x85, 0x45, 0xf9, 0x02, 0x7f, 0x50, 0x3c, 0x9f, 0xa8],
     [0x51, 0xa3, 0x40, 0x8f, 0x92, 0x9d, 0x38, 0xf5, 0xbc, 0xb6, 0xda, 0x21, 0x10, 0xff, 0xf3, 0xd2],
     [0xcd, 0x0c, 0x13, 0xec, 0x5f, 0x97, 0x44, 0x17, 0xc4, 0xa7, 0x7e, 0x3d, 0x64, 0x5d, 0x19, 0x73],
     [0x60, 0x81, 0x4f, 0xdc, 0x22, 0x2a, 0x90, 0x88, 0x46, 0xee, 0xb8, 0x14, 0xde, 0x5e, 0x0b, 0xdb],
     [0xe0, 0x32, 0x3a, 0x0a, 0x49, 0x06, 0x24, 0x5c, 0xc2, 0xd3, 0xac, 0x62, 0x91, 0x95, 0xe4, 0x79],
     [0xe7, 0xc8, 0x37, 0x6d, 0x8d, 0xd5, 0x4e, 0xa9, 0x6c, 0x56, 0xf4, 0xea, 0x65, 0x7a, 0xae, 0x08],
     [0xba, 0x78, 0x25, 0x2e, 0x1c, 0xa6, 0xb4, 0xc6, 0xe8, 0xdd, 0x74, 0x1f, 0x4b, 0xbd, 0x8b, 0x8a],
     [0x70, 0x3e, 0xb5, 0x66, 0x48, 0x03, 0xf6, 0x0e, 0x61, 0x35, 0x57, 0xb9, 0x86, 0xc1, 0x1d, 0x9e],
     [0xe1, 0xf8, 0x98, 0x11, 0x69, 0xd9, 0x8e, 0x94, 0x9b, 0x1e, 0x87, 0xe9, 0xce, 0x55, 0x28, 0xdf],
     [0x8c, 0xa1, 0x89, 0x0d, 0xbf, 0xe6, 0x42, 0x68, 0x41, 0x99, 0x2d, 0x0f, 0xb0, 0x54, 0xbb, 0x16]]"

definition oaes_inv_sub_byte_value :: "byte list list" where
  "oaes_inv_sub_byte_value =
    [[0x52, 0x09, 0x6a, 0xd5, 0x30, 0x36, 0xa5, 0x38, 0xbf, 0x40, 0xa3, 0x9e, 0x81, 0xf3, 0xd7, 0xfb],
     [0x7c, 0xe3, 0x39, 0x82, 0x9b, 0x2f, 0xff, 0x87, 0x34, 0x8e, 0x43, 0x44, 0xc4, 0xde, 0xe9, 0xcb],
     [0x54, 0x7b, 0x94, 0x32, 0xa6, 0xc2, 0x23, 0x3d, 0xee, 0x4c, 0x95, 0x0b, 0x42, 0xfa, 0xc3, 0x4e],
     [0x08, 0x2e, 0xa1, 0x66, 0x28, 0xd9, 0x24, 0xb2, 0x76, 0x5b, 0xa2, 0x49, 0x6d, 0x8b, 0xd1, 0x25],
     [0x72, 0xf8, 0xf6, 0x64, 0x86, 0x68, 0x98, 0x16, 0xd4, 0xa4, 0x5c, 0xcc, 0x5d, 0x65, 0xb6, 0x92],
     [0x6c, 0x70, 0x48, 0x50, 0xfd, 0xed, 0xb9, 0xda, 0x5e, 0x15, 0x46, 0x57, 0xa7, 0x8d, 0x9d, 0x84],
     [0x90, 0xd8, 0xab, 0x00, 0x8c, 0xbc, 0xd3, 0x0a, 0xf7, 0xe4, 0x58, 0x05, 0xb8, 0xb3, 0x45, 0x06],
     [0xd0, 0x2c, 0x1e, 0x8f, 0xca, 0x3f, 0x0f, 0x02, 0xc1, 0xaf, 0xbd, 0x03, 0x01, 0x13, 0x8a, 0x6b],
     [0x3a, 0x91, 0x11, 0x41, 0x4f, 0x67, 0xdc, 0xea, 0x97, 0xf2, 0xcf, 0xce, 0xf0, 0xb4, 0xe6, 0x73],
     [0x96, 0xac, 0x74, 0x22, 0xe7, 0xad, 0x35, 0x85, 0xe2, 0xf9, 0x37, 0xe8, 0x1c, 0x75, 0xdf, 0x6e],
     [0x47, 0xf1, 0x1a, 0x71, 0x1d, 0x29, 0xc5, 0x89, 0x6f, 0xb7, 0x62, 0x0e, 0xaa, 0x18, 0xbe, 0x1b],
     [0xfc, 0x56, 0x3e, 0x4b, 0xc6, 0xd2, 0x79, 0x20, 0x9a, 0xdb, 0xc0, 0xfe, 0x78, 0xcd, 0x5a, 0xf4],
     [0x1f, 0xdd, 0xa8, 0x33, 0x88, 0x07, 0xc7, 0x31, 0xb1, 0x12, 0x10, 0x59, 0x27, 0x80, 0xec, 0x5f],
     [0x60, 0x51, 0x7f, 0xa9, 0x19, 0xb5, 0x4a, 0x0d, 0x2d, 0xe5, 0x7a, 0x9f, 0x93, 0xc9, 0x9c, 0xef],
     [0xa0, 0xe0, 0x3b, 0x4d, 0xae, 0x2a, 0xf5, 0xb0, 0xc8, 0xeb, 0xbb, 0x3c, 0x83, 0x53, 0x99, 0x61],
     [0x17, 0x2b, 0x04, 0x7e, 0xba, 0x77, 0xd6, 0x26, 0xe1, 0x69, 0x14, 0x63, 0x55, 0x21, 0x0c, 0x7d]]"

definition oaes_gf_mul_2 :: "byte list list" where
  "oaes_gf_mul_2 =
    [[0x00, 0x02, 0x04, 0x06, 0x08, 0x0a, 0x0c, 0x0e, 0x10, 0x12, 0x14, 0x16, 0x18, 0x1a, 0x1c, 0x1e],
     [0x20, 0x22, 0x24, 0x26, 0x28, 0x2a, 0x2c, 0x2e, 0x30, 0x32, 0x34, 0x36, 0x38, 0x3a, 0x3c, 0x3e],
     [0x40, 0x42, 0x44, 0x46, 0x48, 0x4a, 0x4c, 0x4e, 0x50, 0x52, 0x54, 0x56, 0x58, 0x5a, 0x5c, 0x5e],
     [0x60, 0x62, 0x64, 0x66, 0x68, 0x6a, 0x6c, 0x6e, 0x70, 0x72, 0x74, 0x76, 0x78, 0x7a, 0x7c, 0x7e],
     [0x80, 0x82, 0x84, 0x86, 0x88, 0x8a, 0x8c, 0x8e, 0x90, 0x92, 0x94, 0x96, 0x98, 0x9a, 0x9c, 0x9e],
     [0xa0, 0xa2, 0xa4, 0xa6, 0xa8, 0xaa, 0xac, 0xae, 0xb0, 0xb2, 0xb4, 0xb6, 0xb8, 0xba, 0xbc, 0xbe],
     [0xc0, 0xc2, 0xc4, 0xc6, 0xc8, 0xca, 0xcc, 0xce, 0xd0, 0xd2, 0xd4, 0xd6, 0xd8, 0xda, 0xdc, 0xde],
     [0xe0, 0xe2, 0xe4, 0xe6, 0xe8, 0xea, 0xec, 0xee, 0xf0, 0xf2, 0xf4, 0xf6, 0xf8, 0xfa, 0xfc, 0xfe],
     [0x1b, 0x19, 0x1f, 0x1d, 0x13, 0x11, 0x17, 0x15, 0x0b, 0x09, 0x0f, 0x0d, 0x03, 0x01, 0x07, 0x05],
     [0x3b, 0x39, 0x3f, 0x3d, 0x33, 0x31, 0x37, 0x35, 0x2b, 0x29, 0x2f, 0x2d, 0x23, 0x21, 0x27, 0x25],
     [0x5b, 0x59, 0x5f, 0x5d, 0x53, 0x51, 0x57, 0x55, 0x4b, 0x49, 0x4f, 0x4d, 0x43, 0x41, 0x47, 0x45],
     [0x7b, 0x79, 0x7f, 0x7d, 0x73, 0x71, 0x77, 0x75, 0x6b, 0x69, 0x6f, 0x6d, 0x63, 0x61, 0x67, 0x65],
     [0x9b, 0x99, 0x9f, 0x9d, 0x93, 0x91, 0x97, 0x95, 0x8b, 0x89, 0x8f, 0x8d, 0x83, 0x81, 0x87, 0x85],
     [0xbb, 0xb9, 0xbf, 0xbd, 0xb3, 0xb1, 0xb7, 0xb5, 0xab, 0xa9, 0xaf, 0xad, 0xa3, 0xa1, 0xa7, 0xa5],
     [0xdb, 0xd9, 0xdf, 0xdd, 0xd3, 0xd1, 0xd7, 0xd5, 0xcb, 0xc9, 0xcf, 0xcd, 0xc3, 0xc1, 0xc7, 0xc5],
     [0xfb, 0xf9, 0xff, 0xfd, 0xf3, 0xf1, 0xf7, 0xf5, 0xeb, 0xe9, 0xef, 0xed, 0xe3, 0xe1, 0xe7, 0xe5]]"

definition oaes_gf_mul_3 :: "byte list list" where
  "oaes_gf_mul_3 =
    [[0x00, 0x03, 0x06, 0x05, 0x0c, 0x0f, 0x0a, 0x09, 0x18, 0x1b, 0x1e, 0x1d, 0x14, 0x17, 0x12, 0x11],
     [0x30, 0x33, 0x36, 0x35, 0x3c, 0x3f, 0x3a, 0x39, 0x28, 0x2b, 0x2e, 0x2d, 0x24, 0x27, 0x22, 0x21],
     [0x60, 0x63, 0x66, 0x65, 0x6c, 0x6f, 0x6a, 0x69, 0x78, 0x7b, 0x7e, 0x7d, 0x74, 0x77, 0x72, 0x71],
     [0x50, 0x53, 0x56, 0x55, 0x5c, 0x5f, 0x5a, 0x59, 0x48, 0x4b, 0x4e, 0x4d, 0x44, 0x47, 0x42, 0x41],
     [0xc0, 0xc3, 0xc6, 0xc5, 0xcc, 0xcf, 0xca, 0xc9, 0xd8, 0xdb, 0xde, 0xdd, 0xd4, 0xd7, 0xd2, 0xd1],
     [0xf0, 0xf3, 0xf6, 0xf5, 0xfc, 0xff, 0xfa, 0xf9, 0xe8, 0xeb, 0xee, 0xed, 0xe4, 0xe7, 0xe2, 0xe1],
     [0xa0, 0xa3, 0xa6, 0xa5, 0xac, 0xaf, 0xaa, 0xa9, 0xb8, 0xbb, 0xbe, 0xbd, 0xb4, 0xb7, 0xb2, 0xb1],
     [0x90, 0x93, 0x96, 0x95, 0x9c, 0x9f, 0x9a, 0x99, 0x88, 0x8b, 0x8e, 0x8d, 0x84, 0x87, 0x82, 0x81],
     [0x9b, 0x98, 0x9d, 0x9e, 0x97, 0x94, 0x91, 0x92, 0x83, 0x80, 0x85, 0x86, 0x8f, 0x8c, 0x89, 0x8a],
     [0xab, 0xa8, 0xad, 0xae, 0xa7, 0xa4, 0xa1, 0xa2, 0xb3, 0xb0, 0xb5, 0xb6, 0xbf, 0xbc, 0xb9, 0xba],
     [0xfb, 0xf8, 0xfd, 0xfe, 0xf7, 0xf4, 0xf1, 0xf2, 0xe3, 0xe0, 0xe5, 0xe6, 0xef, 0xec, 0xe9, 0xea],
     [0xcb, 0xc8, 0xcd, 0xce, 0xc7, 0xc4, 0xc1, 0xc2, 0xd3, 0xd0, 0xd5, 0xd6, 0xdf, 0xdc, 0xd9, 0xda],
     [0x5b, 0x58, 0x5d, 0x5e, 0x57, 0x54, 0x51, 0x52, 0x43, 0x40, 0x45, 0x46, 0x4f, 0x4c, 0x49, 0x4a],
     [0x6b, 0x68, 0x6d, 0x6e, 0x67, 0x64, 0x61, 0x62, 0x73, 0x70, 0x75, 0x76, 0x7f, 0x7c, 0x79, 0x7a],
     [0x3b, 0x38, 0x3d, 0x3e, 0x37, 0x34, 0x31, 0x32, 0x23, 0x20, 0x25, 0x26, 0x2f, 0x2c, 0x29, 0x2a],
     [0x0b, 0x08, 0x0d, 0x0e, 0x07, 0x04, 0x01, 0x02, 0x13, 0x10, 0x15, 0x16, 0x1f, 0x1c, 0x19, 0x1a]]"

definition oaes_gf_mul_9 :: "byte list list" where
  "oaes_gf_mul_9 =
    [[0x00, 0x09, 0x12, 0x1b, 0x24, 0x2d, 0x36, 0x3f, 0x48, 0x41, 0x5a, 0x53, 0x6c, 0x65, 0x7e, 0x77],
     [0x90, 0x99, 0x82, 0x8b, 0xb4, 0xbd, 0xa6, 0xaf, 0xd8, 0xd1, 0xca, 0xc3, 0xfc, 0xf5, 0xee, 0xe7],
     [0x3b, 0x32, 0x29, 0x20, 0x1f, 0x16, 0x0d, 0x04, 0x73, 0x7a, 0x61, 0x68, 0x57, 0x5e, 0x45, 0x4c],
     [0xab, 0xa2, 0xb9, 0xb0, 0x8f, 0x86, 0x9d, 0x94, 0xe3, 0xea, 0xf1, 0xf8, 0xc7, 0xce, 0xd5, 0xdc],
     [0x76, 0x7f, 0x64, 0x6d, 0x52, 0x5b, 0x40, 0x49, 0x3e, 0x37, 0x2c, 0x25, 0x1a, 0x13, 0x08, 0x01],
     [0xe6, 0xef, 0xf4, 0xfd, 0xc2, 0xcb, 0xd0, 0xd9, 0xae, 0xa7, 0xbc, 0xb5, 0x8a, 0x83, 0x98, 0x91],
     [0x4d, 0x44, 0x5f, 0x56, 0x69, 0x60, 0x7b, 0x72, 0x05, 0x0c, 0x17, 0x1e, 0x21, 0x28, 0x33, 0x3a],
     [0xdd, 0xd4, 0xcf, 0xc6, 0xf9, 0xf0, 0xeb, 0xe2, 0x95, 0x9c, 0x87, 0x8e, 0xb1, 0xb8, 0xa3, 0xaa],
     [0xec, 0xe5, 0xfe, 0xf7, 0xc8, 0xc1, 0xda, 0xd3, 0xa4, 0xad, 0xb6, 0xbf, 0x80, 0x89, 0x92, 0x9b],
     [0x7c, 0x75, 0x6e, 0x67, 0x58, 0x51, 0x4a, 0x43, 0x34, 0x3d, 0x26, 0x2f, 0x10, 0x19, 0x02, 0x0b],
     [0xd7, 0xde, 0xc5, 0xcc, 0xf3, 0xfa, 0xe1, 0xe8, 0x9f, 0x96, 0x8d, 0x84, 0xbb, 0xb2, 0xa9, 0xa0],
     [0x47, 0x4e, 0x55, 0x5c, 0x63, 0x6a, 0x71, 0x78, 0x0f, 0x06, 0x1d, 0x14, 0x2b, 0x22, 0x39, 0x30],
     [0x9a, 0x93, 0x88, 0x81, 0xbe, 0xb7, 0xac, 0xa5, 0xd2, 0xdb, 0xc0, 0xc9, 0xf6, 0xff, 0xe4, 0xed],
     [0x0a, 0x03, 0x18, 0x11, 0x2e, 0x27, 0x3c, 0x35, 0x42, 0x4b, 0x50, 0x59, 0x66, 0x6f, 0x74, 0x7d],
     [0xa1, 0xa8, 0xb3, 0xba, 0x85, 0x8c, 0x97, 0x9e, 0xe9, 0xe0, 0xfb, 0xf2, 0xcd, 0xc4, 0xdf, 0xd6],
     [0x31, 0x38, 0x23, 0x2a, 0x15, 0x1c, 0x07, 0x0e, 0x79, 0x70, 0x6b, 0x62, 0x5d, 0x54, 0x4f, 0x46]]"

definition oaes_gf_mul_b :: "byte list list" where
  "oaes_gf_mul_b =
    [[0x00, 0x0b, 0x16, 0x1d, 0x2c, 0x27, 0x3a, 0x31, 0x58, 0x53, 0x4e, 0x45, 0x74, 0x7f, 0x62, 0x69],
     [0xb0, 0xbb, 0xa6, 0xad, 0x9c, 0x97, 0x8a, 0x81, 0xe8, 0xe3, 0xfe, 0xf5, 0xc4, 0xcf, 0xd2, 0xd9],
     [0x7b, 0x70, 0x6d, 0x66, 0x57, 0x5c, 0x41, 0x4a, 0x23, 0x28, 0x35, 0x3e, 0x0f, 0x04, 0x19, 0x12],
     [0xcb, 0xc0, 0xdd, 0xd6, 0xe7, 0xec, 0xf1, 0xfa, 0x93, 0x98, 0x85, 0x8e, 0xbf, 0xb4, 0xa9, 0xa2],
     [0xf6, 0xfd, 0xe0, 0xeb, 0xda, 0xd1, 0xcc, 0xc7, 0xae, 0xa5, 0xb8, 0xb3, 0x82, 0x89, 0x94, 0x9f],
     [0x46, 0x4d, 0x50, 0x5b, 0x6a, 0x61, 0x7c, 0x77, 0x1e, 0x15, 0x08, 0x03, 0x32, 0x39, 0x24, 0x2f],
     [0x8d, 0x86, 0x9b, 0x90, 0xa1, 0xaa, 0xb7, 0xbc, 0xd5, 0xde, 0xc3, 0xc8, 0xf9, 0xf2, 0xef, 0xe4],
     [0x3d, 0x36, 0x2b, 0x20, 0x11, 0x1a, 0x07, 0x0c, 0x65, 0x6e, 0x73, 0x78, 0x49, 0x42, 0x5f, 0x54],
     [0xf7, 0xfc, 0xe1, 0xea, 0xdb, 0xd0, 0xcd, 0xc6, 0xaf, 0xa4, 0xb9, 0xb2, 0x83, 0x88, 0x95, 0x9e],
     [0x47, 0x4c, 0x51, 0x5a, 0x6b, 0x60, 0x7d, 0x76, 0x1f, 0x14, 0x09, 0x02, 0x33, 0x38, 0x25, 0x2e],
     [0x8c, 0x87, 0x9a, 0x91, 0xa0, 0xab, 0xb6, 0xbd, 0xd4, 0xdf, 0xc2, 0xc9, 0xf8, 0xf3, 0xee, 0xe5],
     [0x3c, 0x37, 0x2a, 0x21, 0x10, 0x1b, 0x06, 0x0d, 0x64, 0x6f, 0x72, 0x79, 0x48, 0x43, 0x5e, 0x55],
     [0x01, 0x0a, 0x17, 0x1c, 0x2d, 0x26, 0x3b, 0x30, 0x59, 0x52, 0x4f, 0x44, 0x75, 0x7e, 0x63, 0x68],
     [0xb1, 0xba, 0xa7, 0xac, 0x9d, 0x96, 0x8b, 0x80, 0xe9, 0xe2, 0xff, 0xf4, 0xc5, 0xce, 0xd3, 0xd8],
     [0x7a, 0x71, 0x6c, 0x67, 0x56, 0x5d, 0x40, 0x4b, 0x22, 0x29, 0x34, 0x3f, 0x0e, 0x05, 0x18, 0x13],
     [0xca, 0xc1, 0xdc, 0xd7, 0xe6, 0xed, 0xf0, 0xfb, 0x92, 0x99, 0x84, 0x8f, 0xbe, 0xb5, 0xa8, 0xa3]]"

definition oaes_gf_mul_d :: "byte list list" where
  "oaes_gf_mul_d =
    [[0x00, 0x0d, 0x1a, 0x17, 0x34, 0x39, 0x2e, 0x23, 0x68, 0x65, 0x72, 0x7f, 0x5c, 0x51, 0x46, 0x4b],
     [0xd0, 0xdd, 0xca, 0xc7, 0xe4, 0xe9, 0xfe, 0xf3, 0xb8, 0xb5, 0xa2, 0xaf, 0x8c, 0x81, 0x96, 0x9b],
     [0xbb, 0xb6, 0xa1, 0xac, 0x8f, 0x82, 0x95, 0x98, 0xd3, 0xde, 0xc9, 0xc4, 0xe7, 0xea, 0xfd, 0xf0],
     [0x6b, 0x66, 0x71, 0x7c, 0x5f, 0x52, 0x45, 0x48, 0x03, 0x0e, 0x19, 0x14, 0x37, 0x3a, 0x2d, 0x20],
     [0x6d, 0x60, 0x77, 0x7a, 0x59, 0x54, 0x43, 0x4e, 0x05, 0x08, 0x1f, 0x12, 0x31, 0x3c, 0x2b, 0x26],
     [0xbd, 0xb0, 0xa7, 0xaa, 0x89, 0x84, 0x93, 0x9e, 0xd5, 0xd8, 0xcf, 0xc2, 0xe1, 0xec, 0xfb, 0xf6],
     [0xd6, 0xdb, 0xcc, 0xc1, 0xe2, 0xef, 0xf8, 0xf5, 0xbe, 0xb3, 0xa4, 0xa9, 0x8a, 0x87, 0x90, 0x9d],
     [0x06, 0x0b, 0x1c, 0x11, 0x32, 0x3f, 0x28, 0x25, 0x6e, 0x63, 0x74, 0x79, 0x5a, 0x57, 0x40, 0x4d],
     [0xda, 0xd7, 0xc0, 0xcd, 0xee, 0xe3, 0xf4, 0xf9, 0xb2, 0xbf, 0xa8, 0xa5, 0x86, 0x8b, 0x9c, 0x91],
     [0x0a, 0x07, 0x10, 0x1d, 0x3e, 0x33, 0x24, 0x29, 0x62, 0x6f, 0x78, 0x75, 0x56, 0x5b, 0x4c, 0x41],
     [0x61, 0x6c, 0x7b, 0x76, 0x55, 0x58, 0x4f, 0x42, 0x09, 0x04, 0x13, 0x1e, 0x3d, 0x30, 0x27, 0x2a],
     [0xb1, 0xbc, 0xab, 0xa6, 0x85, 0x88, 0x9f, 0x92, 0xd9, 0xd4, 0xc3, 0xce, 0xed, 0xe0, 0xf7, 0xfa],
     [0xb7, 0xba, 0xad, 0xa0, 0x83, 0x8e, 0x99, 0x94, 0xdf, 0xd2, 0xc5, 0xc8, 0xeb, 0xe6, 0xf1, 0xfc],
     [0x67, 0x6a, 0x7d, 0x70, 0x53, 0x5e, 0x49, 0x44, 0x0f, 0x02, 0x15, 0x18, 0x3b, 0x36, 0x21, 0x2c],
     [0x0c, 0x01, 0x16, 0x1b, 0x38, 0x35, 0x22, 0x2f, 0x64, 0x69, 0x7e, 0x73, 0x50, 0x5d, 0x4a, 0x47],
     [0xdc, 0xd1, 0xc6, 0xcb, 0xe8, 0xe5, 0xf2, 0xff, 0xb4, 0xb9, 0xae, 0xa3, 0x80, 0x8d, 0x9a, 0x97]]"

definition oaes_gf_mul_e :: "byte list list" where
  "oaes_gf_mul_e =
    [[0x00, 0x0e, 0x1c, 0x12, 0x38, 0x36, 0x24, 0x2a, 0x70, 0x7e, 0x6c, 0x62, 0x48, 0x46, 0x54, 0x5a],
     [0xe0, 0xee, 0xfc, 0xf2, 0xd8, 0xd6, 0xc4, 0xca, 0x90, 0x9e, 0x8c, 0x82, 0xa8, 0xa6, 0xb4, 0xba],
     [0xdb, 0xd5, 0xc7, 0xc9, 0xe3, 0xed, 0xff, 0xf1, 0xab, 0xa5, 0xb7, 0xb9, 0x93, 0x9d, 0x8f, 0x81],
     [0x3b, 0x35, 0x27, 0x29, 0x03, 0x0d, 0x1f, 0x11, 0x4b, 0x45, 0x57, 0x59, 0x73, 0x7d, 0x6f, 0x61],
     [0xad, 0xa3, 0xb1, 0xbf, 0x95, 0x9b, 0x89, 0x87, 0xdd, 0xd3, 0xc1, 0xcf, 0xe5, 0xeb, 0xf9, 0xf7],
     [0x4d, 0x43, 0x51, 0x5f, 0x75, 0x7b, 0x69, 0x67, 0x3d, 0x33, 0x21, 0x2f, 0x05, 0x0b, 0x19, 0x17],
     [0x76, 0x78, 0x6a, 0x64, 0x4e, 0x40, 0x52, 0x5c, 0x06, 0x08, 0x1a, 0x14, 0x3e, 0x30, 0x22, 0x2c],
     [0x96, 0x98, 0x8a, 0x84, 0xae, 0xa0, 0xb2, 0xbc, 0xe6, 0xe8, 0xfa, 0xf4, 0xde, 0xd0, 0xc2, 0xcc],
     [0x41, 0x4f, 0x5d, 0x53, 0x79, 0x77, 0x65, 0x6b, 0x31, 0x3f, 0x2d, 0x23, 0x09, 0x07, 0x15, 0x1b],
     [0xa1, 0xaf, 0xbd, 0xb3, 0x99, 0x97, 0x85, 0x8b, 0xd1, 0xdf, 0xcd, 0xc3, 0xe9, 0xe7, 0xf5, 0xfb],
     [0x9a, 0x94, 0x86, 0x88, 0xa2, 0xac, 0xbe, 0xb0, 0xea, 0xe4, 0xf6, 0xf8, 0xd2, 0xdc, 0xce, 0xc0],
     [0x7a, 0x74, 0x66, 0x68, 0x42, 0x4c, 0x5e, 0x50, 0x0a, 0x04, 0x16, 0x18, 0x32, 0x3c, 0x2e, 0x20],
     [0xec, 0xe2, 0xf0, 0xfe, 0xd4, 0xda, 0xc8, 0xc6, 0x9c, 0x92, 0x80, 0x8e, 0xa4, 0xaa, 0xb8, 0xb6],
     [0x0c, 0x02, 0x10, 0x1e, 0x34, 0x3a, 0x28, 0x26, 0x7c, 0x72, 0x60, 0x6e, 0x44, 0x4a, 0x58, 0x56],
     [0x37, 0x39, 0x2b, 0x25, 0x0f, 0x01, 0x13, 0x1d, 0x47, 0x49, 0x5b, 0x55, 0x7f, 0x71, 0x63, 0x6d],
     [0xd7, 0xd9, 0xcb, 0xc5, 0xef, 0xe1, 0xf3, 0xfd, 0xa7, 0xa9, 0xbb, 0xb5, 0x9f, 0x91, 0x83, 0x8d]]"

definition oaes_gf_8 :: "byte list" where
  "oaes_gf_8 = [0x01, 0x02, 0x04, 0x08, 0x10, 0x20, 0x40, 0x80, 0x1b, 0x36]"

text \<open>\<^verbatim>\<open>table[_y][_x]\<close> with the high and the low half of the byte.\<close>

definition lookup16 :: "byte list list \<Rightarrow> byte \<Rightarrow> byte" where
  "lookup16 t b = t ! unat (drop_bit 4 (b AND 0xf0)) ! unat (b AND 0x0f)"

definition oaes_sub_byte :: "byte \<Rightarrow> byte" where
  "oaes_sub_byte b = lookup16 oaes_sub_byte_value b"

definition oaes_inv_sub_byte :: "byte \<Rightarrow> byte" where
  "oaes_inv_sub_byte b = lookup16 oaes_inv_sub_byte_value b"

definition oaes_word_rot_left :: "byte list \<Rightarrow> byte list" where
  "oaes_word_rot_left word = take 3 (drop 1 word) @ [word ! 0]"

definition oaes_shift_rows :: "byte list \<Rightarrow> byte list" where
  "oaes_shift_rows block =
    [block ! 0x00, block ! 0x05, block ! 0x0a, block ! 0x0f, block ! 0x04, block ! 0x09, block ! 0x0e, block ! 0x03,
     block ! 0x08, block ! 0x0d, block ! 0x02, block ! 0x07, block ! 0x0c, block ! 0x01, block ! 0x06, block ! 0x0b]"

definition oaes_inv_shift_rows :: "byte list \<Rightarrow> byte list" where
  "oaes_inv_shift_rows block =
    [block ! 0x00, block ! 0x0d, block ! 0x0a, block ! 0x07, block ! 0x04, block ! 0x01, block ! 0x0e, block ! 0x0b,
     block ! 0x08, block ! 0x05, block ! 0x02, block ! 0x0f, block ! 0x0c, block ! 0x09, block ! 0x06, block ! 0x03]"

definition oaes_gf_mul :: "byte \<Rightarrow> byte \<Rightarrow> byte" where
  "oaes_gf_mul left right =
    (if right = 0x02 then lookup16 oaes_gf_mul_2 left
     else if right = 0x03 then lookup16 oaes_gf_mul_3 left
     else if right = 0x09 then lookup16 oaes_gf_mul_9 left
     else if right = 0x0b then lookup16 oaes_gf_mul_b left
     else if right = 0x0d then lookup16 oaes_gf_mul_d left
     else if right = 0x0e then lookup16 oaes_gf_mul_e left
     else left)"

definition oaes_mix_cols :: "byte list \<Rightarrow> byte list" where
  "oaes_mix_cols word =
    [oaes_gf_mul (word ! 0) 0x02 XOR oaes_gf_mul (word ! 1) 0x03 XOR word ! 2 XOR word ! 3,
     word ! 0 XOR oaes_gf_mul (word ! 1) 0x02 XOR oaes_gf_mul (word ! 2) 0x03 XOR word ! 3,
     word ! 0 XOR word ! 1 XOR oaes_gf_mul (word ! 2) 0x02 XOR oaes_gf_mul (word ! 3) 0x03,
     oaes_gf_mul (word ! 0) 0x03 XOR word ! 1 XOR word ! 2 XOR oaes_gf_mul (word ! 3) 0x02]"

definition oaes_inv_mix_cols :: "byte list \<Rightarrow> byte list" where
  "oaes_inv_mix_cols word =
    [oaes_gf_mul (word ! 0) 0x0e XOR oaes_gf_mul (word ! 1) 0x0b XOR oaes_gf_mul (word ! 2) 0x0d XOR oaes_gf_mul (word ! 3) 0x09,
     oaes_gf_mul (word ! 0) 0x09 XOR oaes_gf_mul (word ! 1) 0x0e XOR oaes_gf_mul (word ! 2) 0x0b XOR oaes_gf_mul (word ! 3) 0x0d,
     oaes_gf_mul (word ! 0) 0x0d XOR oaes_gf_mul (word ! 1) 0x09 XOR oaes_gf_mul (word ! 2) 0x0e XOR oaes_gf_mul (word ! 3) 0x0b,
     oaes_gf_mul (word ! 0) 0x0b XOR oaes_gf_mul (word ! 1) 0x0d XOR oaes_gf_mul (word ! 2) 0x09 XOR oaes_gf_mul (word ! 3) 0x0e]"

section \<open>The field and the substitution of the standard\<close>

definition xtime :: "byte \<Rightarrow> byte" where
  "xtime x = push_bit 1 (x AND 0x7f) XOR (if bit x 7 then 0x1b else 0)"

definition rotl8 :: "nat \<Rightarrow> byte \<Rightarrow> byte" where
  "rotl8 k b = push_bit k b OR drop_bit (8 - k) b"

definition affine :: "byte \<Rightarrow> byte" where
  "affine b = b XOR rotl8 1 b XOR rotl8 2 b XOR rotl8 3 b XOR rotl8 4 b XOR 0x63"

text \<open>
  The powers of the generator 3 are the nonzero elements of the field; \<open>sbox_of x s\<close> says that
  \<open>s\<close> is the affine image of the inverse of \<open>x\<close>, where the inverse of \<open>3^i\<close> is \<open>3^(255 - i)\<close>, or of 0.
\<close>

definition times3 :: "byte \<Rightarrow> byte" where
  "times3 x = xtime x XOR x"

definition gpow :: "nat \<Rightarrow> byte" where
  "gpow i = (times3 ^^ i) 1"

definition sbox_of :: "byte \<Rightarrow> byte \<Rightarrow> bool" where
  "sbox_of x s \<longleftrightarrow> (x = 0 \<and> s = affine 0) \<or> (\<exists>i<255. x = gpow i \<and> s = affine (gpow (255 - i)))"

section \<open>Checking the tables\<close>

definition bytes256 :: "byte list" where
  "bytes256 =
    [0, 1, 2, 3, 4, 5, 6, 7, 8, 9, 10, 11, 12, 13, 14, 15, 16, 17, 18, 19, 20, 21, 22, 23,
     24, 25, 26, 27, 28, 29, 30, 31, 32, 33, 34, 35, 36, 37, 38, 39, 40, 41, 42, 43, 44, 45, 46, 47,
     48, 49, 50, 51, 52, 53, 54, 55, 56, 57, 58, 59, 60, 61, 62, 63, 64, 65, 66, 67, 68, 69, 70, 71,
     72, 73, 74, 75, 76, 77, 78, 79, 80, 81, 82, 83, 84, 85, 86, 87, 88, 89, 90, 91, 92, 93, 94, 95,
     96, 97, 98, 99, 100, 101, 102, 103, 104, 105, 106, 107, 108, 109, 110, 111, 112, 113, 114, 115, 116, 117, 118, 119,
     120, 121, 122, 123, 124, 125, 126, 127, 128, 129, 130, 131, 132, 133, 134, 135, 136, 137, 138, 139, 140, 141, 142, 143,
     144, 145, 146, 147, 148, 149, 150, 151, 152, 153, 154, 155, 156, 157, 158, 159, 160, 161, 162, 163, 164, 165, 166, 167,
     168, 169, 170, 171, 172, 173, 174, 175, 176, 177, 178, 179, 180, 181, 182, 183, 184, 185, 186, 187, 188, 189, 190, 191,
     192, 193, 194, 195, 196, 197, 198, 199, 200, 201, 202, 203, 204, 205, 206, 207, 208, 209, 210, 211, 212, 213, 214, 215,
     216, 217, 218, 219, 220, 221, 222, 223, 224, 225, 226, 227, 228, 229, 230, 231, 232, 233, 234, 235, 236, 237, 238, 239,
     240, 241, 242, 243, 244, 245, 246, 247, 248, 249, 250, 251, 252, 253, 254, 255]"

text \<open>The powers of 3, and the exponents of 1 to 255.\<close>

definition powers :: "byte list" where
  "powers =
    [1, 3, 5, 15, 17, 51, 85, 255, 26, 46, 114, 150, 161, 248, 19, 53, 95, 225, 56, 72, 216, 115, 149, 164,
     247, 2, 6, 10, 30, 34, 102, 170, 229, 52, 92, 228, 55, 89, 235, 38, 106, 190, 217, 112, 144, 171, 230, 49,
     83, 245, 4, 12, 20, 60, 68, 204, 79, 209, 104, 184, 211, 110, 178, 205, 76, 212, 103, 169, 224, 59, 77, 215,
     98, 166, 241, 8, 24, 40, 120, 136, 131, 158, 185, 208, 107, 189, 220, 127, 129, 152, 179, 206, 73, 219, 118, 154,
     181, 196, 87, 249, 16, 48, 80, 240, 11, 29, 39, 105, 187, 214, 97, 163, 254, 25, 43, 125, 135, 146, 173, 236,
     47, 113, 147, 174, 233, 32, 96, 160, 251, 22, 58, 78, 210, 109, 183, 194, 93, 231, 50, 86, 250, 21, 63, 65,
     195, 94, 226, 61, 71, 201, 64, 192, 91, 237, 44, 116, 156, 191, 218, 117, 159, 186, 213, 100, 172, 239, 42, 126,
     130, 157, 188, 223, 122, 142, 137, 128, 155, 182, 193, 88, 232, 35, 101, 175, 234, 37, 111, 177, 200, 67, 197, 84,
     252, 31, 33, 99, 165, 244, 7, 9, 27, 45, 119, 153, 176, 203, 70, 202, 69, 207, 74, 222, 121, 139, 134, 145,
     168, 227, 62, 66, 198, 81, 243, 14, 18, 54, 90, 238, 41, 123, 141, 140, 143, 138, 133, 148, 167, 242, 13, 23,
     57, 75, 221, 124, 132, 151, 162, 253, 28, 36, 108, 180, 199, 82, 246, 1]"

definition logs :: "nat list" where
  "logs =
    [0, 25, 1, 50, 2, 26, 198, 75, 199, 27, 104, 51, 238, 223, 3, 100, 4, 224, 14, 52, 141, 129, 239, 76,
     113, 8, 200, 248, 105, 28, 193, 125, 194, 29, 181, 249, 185, 39, 106, 77, 228, 166, 114, 154, 201, 9, 120, 101,
     47, 138, 5, 33, 15, 225, 36, 18, 240, 130, 69, 53, 147, 218, 142, 150, 143, 219, 189, 54, 208, 206, 148, 19,
     92, 210, 241, 64, 70, 131, 56, 102, 221, 253, 48, 191, 6, 139, 98, 179, 37, 226, 152, 34, 136, 145, 16, 126,
     110, 72, 195, 163, 182, 30, 66, 58, 107, 40, 84, 250, 133, 61, 186, 43, 121, 10, 21, 155, 159, 94, 202, 78,
     212, 172, 229, 243, 115, 167, 87, 175, 88, 168, 80, 244, 234, 214, 116, 79, 174, 233, 213, 231, 230, 173, 232, 44,
     215, 117, 122, 235, 22, 11, 245, 89, 203, 95, 176, 156, 169, 81, 160, 127, 12, 246, 111, 23, 196, 73, 236, 216,
     67, 31, 45, 164, 118, 123, 183, 204, 187, 62, 90, 251, 96, 177, 134, 59, 82, 161, 108, 170, 85, 41, 157, 151,
     178, 135, 144, 97, 190, 220, 252, 188, 149, 207, 205, 55, 63, 91, 209, 83, 57, 132, 60, 65, 162, 109, 71, 20,
     42, 158, 93, 86, 242, 211, 171, 68, 17, 146, 217, 35, 32, 46, 137, 180, 124, 184, 38, 119, 153, 227, 165, 103,
     74, 237, 222, 197, 49, 254, 24, 13, 99, 140, 128, 192, 247, 112, 7]"

text \<open>The inverses of 1 to 255.\<close>

definition inverses :: "byte list" where
  "inverses =
    [1, 141, 246, 203, 82, 123, 209, 232, 79, 41, 192, 176, 225, 229, 199, 116, 180, 170, 75, 153, 43, 96, 95, 88,
     63, 253, 204, 255, 64, 238, 178, 58, 110, 90, 241, 85, 77, 168, 201, 193, 10, 152, 21, 48, 68, 162, 194, 44,
     69, 146, 108, 243, 57, 102, 66, 242, 53, 32, 111, 119, 187, 89, 25, 29, 254, 55, 103, 45, 49, 245, 105, 167,
     100, 171, 19, 84, 37, 233, 9, 237, 92, 5, 202, 76, 36, 135, 191, 24, 62, 34, 240, 81, 236, 97, 23, 22,
     94, 175, 211, 73, 166, 54, 67, 244, 71, 145, 223, 51, 147, 33, 59, 121, 183, 151, 133, 16, 181, 186, 60, 182,
     112, 208, 6, 161, 250, 129, 130, 131, 126, 127, 128, 150, 115, 190, 86, 155, 158, 149, 217, 247, 2, 185, 164, 222,
     106, 50, 109, 216, 138, 132, 114, 42, 20, 159, 136, 249, 220, 137, 154, 251, 124, 46, 195, 143, 184, 101, 72, 38,
     200, 18, 74, 206, 231, 210, 98, 12, 224, 31, 239, 17, 117, 120, 113, 165, 142, 118, 61, 189, 188, 134, 87, 11,
     40, 47, 163, 218, 212, 228, 15, 169, 39, 83, 4, 27, 252, 172, 230, 122, 7, 174, 99, 197, 219, 226, 234, 148,
     139, 196, 213, 157, 248, 144, 107, 177, 13, 214, 235, 198, 14, 207, 173, 8, 78, 215, 227, 93, 80, 30, 179, 91,
     35, 56, 52, 104, 70, 3, 140, 221, 156, 125, 160, 205, 26, 65, 28]"

lemma bytes256_eq: "bytes256 = map of_nat [0..<256]"
  by code_simp

lemma byte_index: "unat x < 256" for x :: byte
  using unsigned_less [of x] by simp

lemma bytes256_nth: "bytes256 ! unat x = x"
  using byte_index [of x] by (simp add: bytes256_eq del: upt_rec_numeral)

lemma concat_nth_rows:
  "\<forall>r\<in>set t. length r = 16 \<Longrightarrow> i < length t \<Longrightarrow> j < 16 \<Longrightarrow> concat t ! (16 * i + j) = t ! i ! j"
proof (induction t arbitrary: i)
  case (Cons r t)
  then show ?case by (cases i) (simp_all add: nth_append)
qed simp

lemma lookup16_concat:
  assumes "length t = 16" and "\<forall>r\<in>set t. length r = 16"
  shows "lookup16 t b = concat t ! unat b"
proof -
  have h: "unat (drop_bit 4 (b AND 0xf0)) = unat b div 16"
  proof -
    have "drop_bit 4 (b AND 0xf0) = drop_bit 4 b"
      by (rule bit_word_eqI) (auto simp: bit_simps numeral_eq_Suc less_Suc_eq dest: bit_imp_le_length)
    then show ?thesis
      by (simp only: unat_drop_bit_eq) (simp add: drop_bit_eq_div)
  qed
  have l: "unat (b AND 0x0f) = unat b mod 16"
    using unsigned_and_eq [of b 15] take_bit_eq_mask [of 4 "unat b"]
    by (simp add: take_bit_eq_mod mask_eq_exp_minus_1)
  have "unat b = 16 * (unat b div 16) + unat b mod 16" "unat b div 16 < 16"
    using byte_index [of b] by simp_all
  then show ?thesis
    unfolding lookup16_def h l using concat_nth_rows [OF assms(2), of "unat b div 16" "unat b mod 16"] assms(1)
    by simp
qed

lemma lookup_table:
  assumes "length t = 16" and "\<forall>r\<in>set t. length r = 16" and "concat t = map f bytes256"
  shows "lookup16 t b = f b"
proof -
  have "length bytes256 = 256"
    by (simp add: bytes256_eq del: upt_rec_numeral)
  then show ?thesis
    using byte_index [of b] by (simp add: lookup16_concat [OF assms(1,2)] assms(3) bytes256_nth)
qed

lemma gf_tables:
  "lookup16 oaes_gf_mul_2 x = xtime x"
  "lookup16 oaes_gf_mul_3 x = xtime x XOR x"
  "lookup16 oaes_gf_mul_9 x = xtime (xtime (xtime x)) XOR x"
  "lookup16 oaes_gf_mul_b x = xtime (xtime (xtime x)) XOR xtime x XOR x"
  "lookup16 oaes_gf_mul_d x = xtime (xtime (xtime x)) XOR xtime (xtime x) XOR x"
  "lookup16 oaes_gf_mul_e x = xtime (xtime (xtime x)) XOR xtime (xtime x) XOR xtime x"
  by (rule lookup_table; simp add: oaes_gf_mul_2_def oaes_gf_mul_3_def oaes_gf_mul_9_def oaes_gf_mul_b_def
      oaes_gf_mul_d_def oaes_gf_mul_e_def bytes256_def xtime_def)+

lemma sub_byte_tables:
  "length oaes_sub_byte_value = 16" "\<forall>r\<in>set oaes_sub_byte_value. length r = 16"
  "length oaes_inv_sub_byte_value = 16" "\<forall>r\<in>set oaes_inv_sub_byte_value. length r = 16"
  by (simp_all add: oaes_sub_byte_value_def oaes_inv_sub_byte_value_def)

lemma oaes_sub_byte_nth: "oaes_sub_byte x = concat oaes_sub_byte_value ! unat x"
  by (simp add: oaes_sub_byte_def lookup16_concat sub_byte_tables)

lemma inv_sub_byte: "oaes_inv_sub_byte (oaes_sub_byte x) = x"
proof -
  have "map (\<lambda>y. concat oaes_inv_sub_byte_value ! unat y) (concat oaes_sub_byte_value) = bytes256"
    by (simp add: oaes_sub_byte_value_def oaes_inv_sub_byte_value_def bytes256_def)
  then have "map (\<lambda>y. concat oaes_inv_sub_byte_value ! unat y) (concat oaes_sub_byte_value) ! unat x = x"
    by (simp only: bytes256_nth)
  moreover have "length (concat oaes_sub_byte_value) = 256"
    by (simp add: oaes_sub_byte_value_def)
  ultimately show ?thesis
    using byte_index [of x]
    by (simp add: oaes_sub_byte_nth oaes_inv_sub_byte_def lookup16_concat sub_byte_tables)
qed

lemma powers_list: "length powers = 256" "powers ! 0 = 1" "tl powers = map times3 (butlast powers)"
  by (simp_all add: powers_def times3_def xtime_def)

lemma powers_gpow: "i < 256 \<Longrightarrow> powers ! i = gpow i"
proof (induction i)
  case 0
  then show ?case by (simp add: gpow_def powers_list)
next
  case (Suc i)
  have "powers ! Suc i = tl powers ! i"
    using Suc.prems by (simp add: nth_tl powers_list(1))
  also have "\<dots> = times3 (powers ! i)"
    unfolding powers_list(3) using Suc.prems by (simp add: nth_butlast powers_list(1))
  finally show ?case
    using Suc by (simp add: gpow_def)
qed

lemma sub_byte_correct: "sbox_of x (oaes_sub_byte x)"
proof (cases "x = 0")
  case True
  then show ?thesis
    by (simp add: sbox_of_def oaes_sub_byte_nth oaes_sub_byte_value_def affine_def rotl8_def)
next
  case False
  have t: "tl (concat oaes_sub_byte_value) = map (\<lambda>i. affine (powers ! (255 - i))) logs"
  proof -
    have "map (\<lambda>i. powers ! (255 - i)) logs = inverses"
      by (simp add: logs_def powers_def inverses_def)
    moreover have "tl (concat oaes_sub_byte_value) = map affine inverses"
      by (simp add: oaes_sub_byte_value_def inverses_def affine_def rotl8_def)
    ultimately show ?thesis
      by (metis (no_types, lifting) map_map comp_apply map_eq_conv)
  qed
  have b: "tl bytes256 = map (\<lambda>i. powers ! i) logs"
    by (simp add: bytes256_def logs_def powers_def)
  have l: "length logs = 255" "\<forall>i\<in>set logs. i < 255" "length bytes256 = 256" "length (concat oaes_sub_byte_value) = 256"
    by (simp_all add: logs_def bytes256_def oaes_sub_byte_value_def)
  define k i where "k = unat x - 1" and "i = logs ! k"
  have k: "unat x = Suc k" "k < 255"
    using False byte_index [of x] by (simp_all add: k_def unat_gt_0 Suc_diff_1)
  then have i: "i < 255"
    using l by (simp add: i_def)
  have "x = tl bytes256 ! k"
    using bytes256_nth [of x] k l by (simp add: nth_tl)
  then have "x = gpow i"
    unfolding b using k l(1) i by (simp add: i_def powers_gpow)
  moreover have "oaes_sub_byte x = tl (concat oaes_sub_byte_value) ! k"
    using k l by (simp add: nth_tl oaes_sub_byte_nth)
  then have "oaes_sub_byte x = affine (gpow (255 - i))"
    unfolding t using k l(1) i by (simp add: i_def powers_gpow)
  ultimately show ?thesis
    using i by (auto simp: sbox_of_def)
qed

text \<open>The substitution as a function.\<close>

definition field_inverse :: "byte \<Rightarrow> byte" where
  "field_inverse x = (case find (\<lambda>i. gpow i = x) [0..<255] of None \<Rightarrow> 0 | Some i \<Rightarrow> gpow (255 - i))"

definition aes_sbox :: "byte \<Rightarrow> byte" where
  "aes_sbox x = affine (field_inverse x)"

lemma gpow_inj: 
  assumes "i < 255" "j < 255" "gpow i = gpow j"
  shows "i = j"
proof -
  have l: "map (\<lambda>x. logs ! (unat x - 1)) (butlast powers) = [0..<255]"
    by (simp add: logs_def powers_def) code_simp
  have "logs ! (unat (gpow k) - 1) = k" if "k < 255" for k
  proof -
    have "butlast powers ! k = gpow k"
      using that powers_gpow [of k] by (simp add: nth_butlast powers_list(1))
    then have "map (\<lambda>x. logs ! (unat x - 1)) (butlast powers) ! k = logs ! (unat (gpow k) - 1)"
      using that by (simp add: powers_list(1))
    then show ?thesis
      unfolding l using that by (simp del: upt_rec_numeral)
  qed
  then show ?thesis
    using assms by metis
qed

lemma field_inverse_gpow: "i < 255 \<Longrightarrow> field_inverse (gpow i) = gpow (255 - i)"
proof -
  assume i: "i < 255"
  have "find (\<lambda>j. gpow j = gpow i) [0..<255] = Some i"
    unfolding find_Some_iff
  proof (intro exI [of _ i] conjI allI impI)
    show "gpow ([0..<255] ! j) \<noteq> gpow i" if "j < i" for j
      using gpow_inj [of j i] i that by (auto simp del: upt_rec_numeral)
  qed (use i in \<open>simp_all del: upt_rec_numeral\<close>)
  then show ?thesis by (simp add: field_inverse_def)
qed

lemma oaes_sub_byte_eq: "oaes_sub_byte x = aes_sbox x"
proof -
  have s: "sbox_of x (oaes_sub_byte x)"
    by (rule sub_byte_correct)
  show ?thesis
  proof (cases "x = 0")
    case True
    have nz: "gpow i \<noteq> 0" if "i < 255" for i
    proof
      assume "gpow i = 0"
      then have "powers ! i = 0"
        using that by (simp add: powers_gpow)
      moreover have "0 \<notin> set powers"
        by (simp add: powers_def)
      ultimately show False
        using that powers_list(1) nth_mem [of i powers] by simp
    qed
    have "find (\<lambda>i. gpow i = 0) [0..<255] = None"
      using nz by (simp add: find_None_iff del: upt_rec_numeral)
    then have "field_inverse x = 0" "\<not> (\<exists>i<255. x = gpow i)"
      using True nz by (auto simp: field_inverse_def)
    then show ?thesis
      using s True by (auto simp: sbox_of_def aes_sbox_def)
  next
    case False
    then show ?thesis
      using s by (auto simp: sbox_of_def aes_sbox_def field_inverse_gpow)
  qed
qed

end
