(* ===== verification/Oaes.thy ===== *)
theory Oaes
  imports Aes
begin

text \<open>
  Keys, contexts and block encryption of \<^verbatim>\<open>oaes_lib.c\<close>. A pointer that may be \<^verbatim>\<open>NULL\<close> is
  an option; the outcome of every \<^verbatim>\<open>calloc\<close> is a parameter. Configurations with
  \<^verbatim>\<open>OAES_DEBUG\<close> or \<^verbatim>\<open>OAES_HAVE_ISAAC\<close> are not modelled: \<^verbatim>\<open>oaes_config.h\<close> leaves them out.
\<close>

section \<open>Results, keys and contexts\<close>

datatype oaes_ret =
  OAES_RET_SUCCESS | OAES_RET_UNKNOWN | OAES_RET_ARG1 | OAES_RET_ARG2 | OAES_RET_ARG3 | OAES_RET_ARG4 |
  OAES_RET_ARG5 | OAES_RET_NOKEY | OAES_RET_MEM | OAES_RET_BUF | OAES_RET_HEADER | OAES_RET_COUNT

text \<open>
  \<^verbatim>\<open>_rc = _rc || f()\<close>: the call is made only when \<^verbatim>\<open>_rc\<close> is zero, and the result is 0 or 1,
  so that every error becomes \<^verbatim>\<open>OAES_RET_UNKNOWN\<close>.
\<close>

definition rc_or :: "oaes_ret \<Rightarrow> oaes_ret \<Rightarrow> oaes_ret" where
  "rc_or a b = (if a = OAES_RET_SUCCESS \<and> b = OAES_RET_SUCCESS then OAES_RET_SUCCESS else OAES_RET_UNKNOWN)"

record oaes_key =
  k_data_len :: nat
  k_data :: "byte list"
  k_exp_data_len :: nat
  k_exp_data :: "byte list"
  k_num_keys :: nat
  k_key_base :: nat

record oaes_ctx =
  c_key :: "oaes_key option"
  c_options :: "16 word"
  c_iv :: "byte list"

definition oaes_header :: "byte list" where
  "oaes_header =
    [0x4f, 0x41, 0x45, 0x53, 0x01, 0x02, 0x00, 0x00, 0x00, 0x00, 0x00, 0x00, 0x00, 0x00, 0x00, 0x00]"

section \<open>Key expansion\<close>

text \<open>One column of the loop of \<^verbatim>\<open>oaes_key_expand\<close>.\<close>

definition expand_temp :: "nat \<Rightarrow> nat \<Rightarrow> byte list \<Rightarrow> byte list" where
  "expand_temp base i temp =
    (if i mod base = 0 then
       let t = map oaes_sub_byte (oaes_word_rot_left temp)
       in t[0 := t ! 0 XOR oaes_gf_8 ! (i div base - 1)]
     else if 6 < base \<and> i mod base = 4 then map oaes_sub_byte temp
     else temp)"

definition expand_step :: "nat \<Rightarrow> nat \<Rightarrow> byte list \<Rightarrow> byte list" where
  "expand_step base i e =
    (let temp = expand_temp base i (take 4 (drop ((i - 1) * 4) e))
     in fold (\<lambda>j e. e[i * 4 + j := e ! ((i - base) * 4 + j) XOR temp ! j]) [0, 1, 2, 3] e)"

definition oaes_key_expand :: "bool \<Rightarrow> oaes_ctx option \<Rightarrow> oaes_ret \<times> oaes_ctx option" where
  "oaes_key_expand mem ctx =
    (case ctx of
       None \<Rightarrow> (OAES_RET_ARG1, ctx)
     | Some c \<Rightarrow>
         (case c_key c of
            None \<Rightarrow> (OAES_RET_NOKEY, ctx)
          | Some k \<Rightarrow>
              let base = k_data_len k div 4;
                  n = base + 7;
                  k = k\<lparr>k_key_base := base, k_num_keys := n, k_exp_data_len := n * 4 * 4\<rparr>
              in if \<not> mem then (OAES_RET_MEM, Some (c\<lparr>c_key := Some k\<rparr>))
                 else
                   let e = replicate (n * 4 * 4) 0;
                       e = take (k_data_len k) (k_data k) @ drop (k_data_len k) e;
                       e = fold (expand_step base) [base..<n * 4] e
                   in (OAES_RET_SUCCESS, Some (c\<lparr>c_key := Some (k\<lparr>k_exp_data := e\<rparr>)\<rparr>))))"

text \<open>The key behind a pointer, which is cleared; the memory is released.\<close>

definition oaes_key_destroy :: "oaes_key option \<Rightarrow> oaes_ret \<times> oaes_key option" where
  "oaes_key_destroy key =
    (case key of
       None \<Rightarrow> (OAES_RET_SUCCESS, key)
     | Some k \<Rightarrow> (OAES_RET_SUCCESS, None))"

lemma key_destroy [simp]: "oaes_key_destroy k = (OAES_RET_SUCCESS, None)"
  by (simp add: oaes_key_destroy_def split: option.split)

text \<open>
  The callocs of the key, of its data and of the expanded data succeed or not:
  \<open>m1\<close>, \<open>m2\<close>, \<open>m3\<close>.
\<close>

definition set_key :: "bool \<Rightarrow> bool \<Rightarrow> bool \<Rightarrow> oaes_ctx \<Rightarrow> byte list \<Rightarrow> oaes_ret \<times> oaes_ctx option" where
  "set_key m1 m2 m3 c data =
    (let c = c\<lparr>c_key := snd (oaes_key_destroy (c_key c))\<rparr>
     in if \<not> m1 then (OAES_RET_MEM, Some c)
        else if \<not> m2 then (OAES_RET_MEM, Some c)
        else
          let k = \<lparr>k_data_len = length data, k_data = data, k_exp_data_len = 0, k_exp_data = [], k_num_keys = 0, k_key_base = 0\<rparr>;
              (r, ctx) = oaes_key_expand m3 (Some (c\<lparr>c_key := Some k\<rparr>));
              rc = rc_or OAES_RET_SUCCESS r
          in if rc \<noteq> OAES_RET_SUCCESS then (rc, map_option (\<lambda>c. c\<lparr>c_key := snd (oaes_key_destroy (c_key c))\<rparr>) ctx) else (OAES_RET_SUCCESS, ctx))"

definition oaes_key_import_data ::
  "bool \<Rightarrow> bool \<Rightarrow> bool \<Rightarrow> oaes_ctx option \<Rightarrow> byte list option \<Rightarrow> nat \<Rightarrow> oaes_ret \<times> oaes_ctx option" where
  "oaes_key_import_data m1 m2 m3 ctx data data_len =
    (case ctx of
       None \<Rightarrow> (OAES_RET_ARG1, ctx)
     | Some c \<Rightarrow>
         (case data of
            None \<Rightarrow> (OAES_RET_ARG2, ctx)
          | Some d \<Rightarrow>
              if data_len \<noteq> 16 \<and> data_len \<noteq> 24 \<and> data_len \<noteq> 32 then (OAES_RET_ARG3, ctx)
              else set_key m1 m2 m3 c (take data_len d)))"

definition oaes_key_import ::
  "bool \<Rightarrow> bool \<Rightarrow> bool \<Rightarrow> oaes_ctx option \<Rightarrow> byte list option \<Rightarrow> nat \<Rightarrow> oaes_ret \<times> oaes_ctx option" where
  "oaes_key_import m1 m2 m3 ctx data data_len =
    (case ctx of
       None \<Rightarrow> (OAES_RET_ARG1, ctx)
     | Some c \<Rightarrow>
         (case data of
            None \<Rightarrow> (OAES_RET_ARG2, ctx)
          | Some d \<Rightarrow>
              if data_len \<noteq> 16 + 16 \<and> data_len \<noteq> 24 + 16 \<and> data_len \<noteq> 32 + 16 then (OAES_RET_ARG3, ctx)
              else if take 4 d \<noteq> take 4 oaes_header then (OAES_RET_HEADER, ctx)
              else if d ! 4 \<noteq> 0x01 then (OAES_RET_HEADER, ctx)
              else if d ! 5 \<noteq> 0x01 then (OAES_RET_HEADER, ctx)
              else
                let key_length = unat (d ! 7)
                in if key_length \<noteq> 16 \<and> key_length \<noteq> 24 \<and> key_length \<noteq> 32 then (OAES_RET_HEADER, ctx)
                   else if data_len \<noteq> key_length + 16 then (OAES_RET_ARG3, ctx)
                   else set_key m1 m2 m3 c (take key_length (drop 16 d))))"

text \<open>Here \<open>rnd\<close> are the bytes that \<^verbatim>\<open>rand()\<close> returns; the old key survives only the first failure.\<close>

definition oaes_key_gen ::
  "bool \<Rightarrow> bool \<Rightarrow> bool \<Rightarrow> byte list \<Rightarrow> oaes_ctx option \<Rightarrow> nat \<Rightarrow> oaes_ret \<times> oaes_ctx option" where
  "oaes_key_gen m1 m2 m3 rnd ctx key_size =
    (case ctx of
       None \<Rightarrow> (OAES_RET_ARG1, ctx)
     | Some c \<Rightarrow>
         if \<not> m1 then (OAES_RET_MEM, ctx)
         else set_key True m2 m3 c (take key_size rnd))"

definition oaes_key_gen_128 where
  "oaes_key_gen_128 m1 m2 m3 rnd ctx = oaes_key_gen m1 m2 m3 rnd ctx 16"

definition oaes_key_gen_192 where
  "oaes_key_gen_192 m1 m2 m3 rnd ctx = oaes_key_gen m1 m2 m3 rnd ctx 24"

definition oaes_key_gen_256 where
  "oaes_key_gen_256 m1 m2 m3 rnd ctx = oaes_key_gen m1 m2 m3 rnd ctx 32"

text \<open>\<^verbatim>\<open>memcpy\<close> into a buffer at an offset.\<close>

definition put :: "nat \<Rightarrow> byte list \<Rightarrow> byte list \<Rightarrow> byte list" where
  "put k x b = take k b @ x @ drop (k + length x) b"

definition oaes_key_export ::
  "oaes_ctx option \<Rightarrow> byte list option \<Rightarrow> nat option \<Rightarrow> oaes_ret \<times> byte list option \<times> nat option" where
  "oaes_key_export ctx data data_len =
    (case ctx of
       None \<Rightarrow> (OAES_RET_ARG1, data, data_len)
     | Some c \<Rightarrow>
         (case c_key c of
            None \<Rightarrow> (OAES_RET_NOKEY, data, data_len)
          | Some k \<Rightarrow>
              (case data_len of
                 None \<Rightarrow> (OAES_RET_ARG3, data, data_len)
               | Some l \<Rightarrow>
                   let l' = k_data_len k + 16
                   in (case data of
                         None \<Rightarrow> (OAES_RET_SUCCESS, data, Some l')
                       | Some d \<Rightarrow>
                           if l < l' then (OAES_RET_BUF, data, Some l')
                           else
                             let d = put 0 oaes_header d;
                                 d = d[5 := 0x01];
                                 d = d[7 := of_nat (k_data_len k)];
                                 d = put 16 (take (k_data_len k) (k_data k)) d
                             in (OAES_RET_SUCCESS, Some d, Some l')))))"

definition oaes_key_export_data ::
  "oaes_ctx option \<Rightarrow> byte list option \<Rightarrow> nat option \<Rightarrow> oaes_ret \<times> byte list option \<times> nat option" where
  "oaes_key_export_data ctx data data_len =
    (case ctx of
       None \<Rightarrow> (OAES_RET_ARG1, data, data_len)
     | Some c \<Rightarrow>
         (case c_key c of
            None \<Rightarrow> (OAES_RET_NOKEY, data, data_len)
          | Some k \<Rightarrow>
              (case data_len of
                 None \<Rightarrow> (OAES_RET_ARG3, data, data_len)
               | Some l \<Rightarrow>
                   let l' = k_data_len k
                   in (case data of
                         None \<Rightarrow> (OAES_RET_SUCCESS, data, Some l')
                       | Some d \<Rightarrow>
                           if l < l' then (OAES_RET_BUF, data, Some l')
                           else (OAES_RET_SUCCESS, Some (put 0 (take l' (k_data k)) d), Some l')))))"

section \<open>Contexts\<close>

text \<open>\<open>rnd\<close> are the 16 bytes that \<^verbatim>\<open>rand()\<close> returns.\<close>

definition oaes_set_option ::
  "byte list \<Rightarrow> oaes_ctx option \<Rightarrow> 16 word \<Rightarrow> byte list option \<Rightarrow> oaes_ret \<times> oaes_ctx option" where
  "oaes_set_option rnd ctx option value =
    (case ctx of
       None \<Rightarrow> (OAES_RET_ARG1, ctx)
     | Some c \<Rightarrow>
         if option = 1 then
           (OAES_RET_SUCCESS, Some (c\<lparr>c_options := (c_options c AND NOT 2) OR option, c_iv := replicate 16 0\<rparr>))
         else if option = 2 then
           (OAES_RET_SUCCESS, Some (c\<lparr>c_options := (c_options c AND NOT 1) OR option,
              c_iv := (case value of Some v \<Rightarrow> take 16 v | None \<Rightarrow> take 16 rnd)\<rparr>))
         else (OAES_RET_ARG2, ctx))"

definition oaes_alloc :: "bool \<Rightarrow> byte list \<Rightarrow> oaes_ctx option" where
  "oaes_alloc mem rnd =
    (if \<not> mem then None
     else snd (oaes_set_option rnd (Some \<lparr>c_key = None, c_options = 0, c_iv = replicate 16 0\<rparr>) 2 None))"

text \<open>The context through a pointer to the pointer: the memory is released, the pointer cleared.\<close>

definition oaes_free :: "oaes_ctx option option \<Rightarrow> oaes_ret \<times> oaes_ctx option option" where
  "oaes_free ctx =
    (case ctx of
       None \<Rightarrow> (OAES_RET_ARG1, ctx)
     | Some None \<Rightarrow> (OAES_RET_SUCCESS, ctx)
     | Some (Some c) \<Rightarrow> (OAES_RET_SUCCESS, Some None))"

section \<open>Printing\<close>

definition hex_digit :: "nat \<Rightarrow> char" where
  "hex_digit n = ''0123456789abcdef'' ! n"

text \<open>\<^verbatim>\<open>sprintf(_temp, "%02x ", b)\<close>\<close>

definition hex_byte :: "byte \<Rightarrow> string" where
  "hex_byte b = [hex_digit (unat b div 16), hex_digit (unat b mod 16), CHR 0x20]"

definition sprint_bytes :: "byte list \<Rightarrow> nat \<Rightarrow> string" where
  "sprint_bytes data n =
     fold (\<lambda>i s.
       let s = s @ hex_byte (data ! i)
       in if i \<noteq> 0 \<and> (i + 1) mod 16 = 0 then s @ [CHR 0x0A] else s) [0..<n] []"

definition oaes_sprintf ::
  "string option \<Rightarrow> nat option \<Rightarrow> byte list option \<Rightarrow> nat \<Rightarrow> oaes_ret \<times> string option \<times> nat option" where
  "oaes_sprintf buf buf_len data data_len =
    (case buf_len of
       None \<Rightarrow> (OAES_RET_ARG2, buf, buf_len)
     | Some l \<Rightarrow>
         let l' = data_len * 3 + data_len div 16 + 1
         in (case buf of
               None \<Rightarrow> (OAES_RET_SUCCESS, buf, Some l')
             | Some b \<Rightarrow>
                 if l < l' then (OAES_RET_BUF, buf, Some l')
                 else
                   (case data of
                      None \<Rightarrow> (OAES_RET_ARG3, buf, Some l')
                    | Some d \<Rightarrow> (OAES_RET_SUCCESS, Some (sprint_bytes d data_len), Some l'))))"

section \<open>Blocks\<close>

definition xor_bytes :: "byte list \<Rightarrow> byte list \<Rightarrow> byte list" where
  "xor_bytes a b = map2 (XOR) a b"

definition mix_block :: "(byte list \<Rightarrow> byte list) \<Rightarrow> byte list \<Rightarrow> byte list" where
  "mix_block f c = f (take 4 c) @ f (take 4 (drop 4 c)) @ f (take 4 (drop 8 c)) @ f (take 4 (drop 12 c))"

definition round_key :: "oaes_key \<Rightarrow> nat \<Rightarrow> byte list" where
  "round_key k i = take 16 (drop (i * 4 * 4) (k_exp_data k))"

definition encrypt_round :: "oaes_key \<Rightarrow> nat \<Rightarrow> byte list \<Rightarrow> byte list" where
  "encrypt_round k i c = xor_bytes (mix_block oaes_mix_cols (oaes_shift_rows (map oaes_sub_byte c))) (round_key k i)"

definition encrypt_bytes :: "oaes_key \<Rightarrow> byte list \<Rightarrow> byte list" where
  "encrypt_bytes k c =
    (let c = xor_bytes c (round_key k 0);
         c = fold (encrypt_round k) [1..<k_num_keys k - 1] c;
         c = oaes_shift_rows (map oaes_sub_byte c)
     in xor_bytes c (round_key k (k_num_keys k - 1)))"

definition oaes_encrypt_block :: "oaes_ctx option \<Rightarrow> byte list option \<Rightarrow> nat \<Rightarrow> oaes_ret \<times> byte list option" where
  "oaes_encrypt_block ctx c c_len =
    (case ctx of
       None \<Rightarrow> (OAES_RET_ARG1, c)
     | Some x \<Rightarrow>
         (case c of
            None \<Rightarrow> (OAES_RET_ARG2, c)
          | Some b \<Rightarrow>
              if c_len \<noteq> 16 then (OAES_RET_ARG3, c)
              else (case c_key x of
                      None \<Rightarrow> (OAES_RET_NOKEY, c)
                    | Some k \<Rightarrow> (OAES_RET_SUCCESS, Some (encrypt_bytes k b)))))"

definition decrypt_round :: "oaes_key \<Rightarrow> nat \<Rightarrow> byte list \<Rightarrow> byte list" where
  "decrypt_round k i c =
    mix_block oaes_inv_mix_cols (xor_bytes (map oaes_inv_sub_byte (oaes_inv_shift_rows c)) (round_key k i))"

definition decrypt_bytes :: "oaes_key \<Rightarrow> byte list \<Rightarrow> byte list" where
  "decrypt_bytes k c =
    (let c = xor_bytes c (round_key k (k_num_keys k - 1));
         c = fold (decrypt_round k) (rev [1..<k_num_keys k - 1]) c;
         c = map oaes_inv_sub_byte (oaes_inv_shift_rows c)
     in xor_bytes c (round_key k 0))"

definition oaes_decrypt_block :: "oaes_ctx option \<Rightarrow> byte list option \<Rightarrow> nat \<Rightarrow> oaes_ret \<times> byte list option" where
  "oaes_decrypt_block ctx c c_len =
    (case ctx of
       None \<Rightarrow> (OAES_RET_ARG1, c)
     | Some x \<Rightarrow>
         (case c of
            None \<Rightarrow> (OAES_RET_ARG2, c)
          | Some b \<Rightarrow>
              if c_len \<noteq> 16 then (OAES_RET_ARG3, c)
              else (case c_key x of
                      None \<Rightarrow> (OAES_RET_NOKEY, c)
                    | Some k \<Rightarrow> (OAES_RET_SUCCESS, Some (decrypt_bytes k b)))))"

definition oaes_encryption_round :: "byte list option \<Rightarrow> byte list option \<Rightarrow> oaes_ret \<times> byte list option" where
  "oaes_encryption_round key c =
    (case key of
       None \<Rightarrow> (OAES_RET_ARG1, c)
     | Some k \<Rightarrow>
         (case c of
            None \<Rightarrow> (OAES_RET_ARG2, c)
          | Some b \<Rightarrow>
              (OAES_RET_SUCCESS,
               Some (xor_bytes (mix_block oaes_mix_cols (oaes_shift_rows (map oaes_sub_byte b))) (take 16 k)))))"

definition oaes_pseudo_encrypt_ecb :: "oaes_ctx option \<Rightarrow> byte list option \<Rightarrow> oaes_ret \<times> byte list option" where
  "oaes_pseudo_encrypt_ecb ctx c =
    (case ctx of
       None \<Rightarrow> (OAES_RET_ARG1, c)
     | Some x \<Rightarrow>
         (case c of
            None \<Rightarrow> (OAES_RET_ARG2, c)
          | Some b \<Rightarrow>
              (case c_key x of
                 None \<Rightarrow> (OAES_RET_NOKEY, c)
               | Some k \<Rightarrow>
                   (OAES_RET_SUCCESS,
                    fold (\<lambda>i c. snd (oaes_encryption_round (Some (drop (i * 4 * 4) (k_exp_data k))) c)) [0..<10] c))))"

end
