(* ===== verification/Oaes_Correct.thy ===== *)
theory Oaes_Correct
  imports Oaes
begin

text \<open>
  \<^verbatim>\<open>oaes_lib.c\<close> against FIPS 197: the key schedule and the cipher, and that the inverse
  operations undo it.
\<close>

section \<open>The standard\<close>

definition sub_bytes :: "byte list \<Rightarrow> byte list" where
  "sub_bytes s = map aes_sbox s"

text \<open>The state by columns: the byte of row \<open>i mod 4\<close> comes from \<open>i mod 4\<close> columns further on.\<close>

definition shift_rows :: "byte list \<Rightarrow> byte list" where
  "shift_rows s = map (\<lambda>i. s ! ((i + 4 * (i mod 4)) mod 16)) [0..<16]"

definition mix_column :: "byte list \<Rightarrow> byte list" where
  "mix_column w = map (\<lambda>i. xtime (w ! i) XOR times3 (w ! ((i + 1) mod 4)) XOR w ! ((i + 2) mod 4) XOR w ! ((i + 3) mod 4)) [0..<4]"

definition mix_columns :: "byte list \<Rightarrow> byte list" where
  "mix_columns s = concat (map (\<lambda>c. mix_column (take 4 (drop (4 * c) s))) [0..<4])"

definition aes_round :: "byte list \<Rightarrow> byte list \<Rightarrow> byte list" where
  "aes_round k s = xor_bytes (mix_columns (shift_rows (sub_bytes s))) k"

definition rcon :: "nat \<Rightarrow> byte list" where
  "rcon j = [(xtime ^^ (j - 1)) 1, 0, 0, 0]"

definition rot_word :: "byte list \<Rightarrow> byte list" where
  "rot_word w = tl w @ [hd w]"

function key_word :: "byte list \<Rightarrow> nat \<Rightarrow> byte list" where
  "key_word K i =
    (let nk = length K div 4
     in if i < nk \<or> nk = 0 then take 4 (drop (4 * i) K)
        else
          let t = key_word K (i - 1);
              t = (if i mod nk = 0 then xor_bytes (sub_bytes (rot_word t)) (rcon (i div nk))
                   else if 6 < nk \<and> i mod nk = 4 then sub_bytes t else t)
          in xor_bytes (key_word K (i - nk)) t)"
  by pat_completeness auto
termination
  by (relation "measure snd") auto

declare key_word.simps [simp del]

definition schedule :: "byte list \<Rightarrow> nat \<Rightarrow> byte list" where
  "schedule K n = concat (map (key_word K) [0..<n])"

definition schedule_key :: "byte list \<Rightarrow> nat \<Rightarrow> byte list" where
  "schedule_key K i = concat (map (key_word K) [4 * i..<4 * i + 4])"

definition aes_cipher :: "byte list \<Rightarrow> byte list \<Rightarrow> byte list" where
  "aes_cipher K s =
    (let nr = length K div 4 + 6;
         s = xor_bytes s (schedule_key K 0);
         s = fold (\<lambda>i. aes_round (schedule_key K i)) [1..<nr] s
     in xor_bytes (shift_rows (sub_bytes s)) (schedule_key K nr))"

section \<open>The operations on blocks and columns\<close>

lemma length_xor_bytes [simp]: "length (xor_bytes a b) = min (length a) (length b)"
  by (simp add: xor_bytes_def)

lemmas xor_ac = xor.assoc xor.commute xor.left_commute

lemma length_4: "length w = 4 \<longleftrightarrow> (\<exists>a b c d. w = [a, b, c, d])"
  by (auto simp: numeral_eq_Suc length_Suc_conv)

lemma upt_4: "[0..<4] = [0, 1, 2, 3]"
  and upt_16_list: "[0..<16] = [0, 1, 2, 3, 4, 5, 6, 7, 8, 9, 10, 11, 12, 13, 14, 15]"
  by code_simp+

lemma sub_bytes_eq: "map oaes_sub_byte s = sub_bytes s"
  by (simp add: sub_bytes_def oaes_sub_byte_eq)

lemma shift_rows_eq: "oaes_shift_rows s = shift_rows s"
  unfolding oaes_shift_rows_def shift_rows_def upt_16_list by simp

lemma mix_cols_eq: "oaes_mix_cols w = mix_column w"
  unfolding oaes_mix_cols_def mix_column_def upt_4 oaes_gf_mul_def by (simp add: gf_tables times3_def xor_ac) (simp add: numeral_eq_Suc)

lemma mix_block_eq: "mix_block oaes_mix_cols s = mix_columns s"
  unfolding mix_block_def mix_columns_def upt_4 mix_cols_eq by simp

lemma length_mix_column [simp]: "length (mix_column w) = 4"
  by (simp add: mix_column_def)

lemma length_mix_columns [simp]: "length (mix_columns s) = 16"
  unfolding mix_columns_def upt_4 by simp

lemma length_shift_rows [simp]: "length (shift_rows s) = 16"
  by (simp add: shift_rows_def)

lemma length_sub_bytes [simp]: "length (sub_bytes s) = length s"
  by (simp add: sub_bytes_def)

lemma encrypt_round_eq: "encrypt_round k i s = aes_round (round_key k i) s"
  by (simp add: encrypt_round_def aes_round_def sub_bytes_eq shift_rows_eq mix_block_eq)

lemma oaes_encryption_round_eq: "oaes_encryption_round (Some k) (Some s) = (OAES_RET_SUCCESS, Some (aes_round (take 16 k) s))"
  by (simp add: oaes_encryption_round_def aes_round_def sub_bytes_eq shift_rows_eq mix_block_eq)

section \<open>The key schedule\<close>

lemma key_word_unfold:
  assumes "length K = 4 * nk" and "0 < nk" and "nk \<le> i"
  shows "key_word K i = xor_bytes (key_word K (i - nk))
    (if i mod nk = 0 then xor_bytes (sub_bytes (rot_word (key_word K (i - 1)))) (rcon (i div nk))
     else if 6 < nk \<and> i mod nk = 4 then sub_bytes (key_word K (i - 1)) else key_word K (i - 1))"
proof -
  have "length K div 4 = nk" "\<not> (i < nk \<or> nk = 0)"
    using assms by simp_all
  then show ?thesis
    by (subst key_word.simps) (simp only: Let_def if_False)
qed

lemma length_key_word:
  assumes "length K = 4 * nk" and "0 < nk"
  shows "length (key_word K i) = 4"
proof (induction i rule: less_induct)
  case (less i)
  have r: "length (rot_word w) = 4" if "length w = 4" for w
    using that by (cases w) (auto simp: rot_word_def)
  show ?case
  proof (cases "i < nk")
    case True
    then show ?thesis
      using assms by (subst key_word.simps) simp
  next
    case False
    then have "length (key_word K (i - 1)) = 4" "length (key_word K (i - nk)) = 4"
      using assms(2) less by simp_all
    then show ?thesis
      using False r by (simp add: key_word_unfold [OF assms, of i] rcon_def)
  qed
qed

lemma schedule_Suc: "schedule K (Suc n) = schedule K n @ key_word K n"
  by (simp add: schedule_def)

lemma length_schedule:
  assumes "length K = 4 * nk" and "0 < nk"
  shows "length (schedule K n) = 4 * n"
proof (induction n)
  case (Suc n)
  then show ?case
    by (simp add: schedule_Suc length_key_word [OF assms])
qed (simp add: schedule_def)

lemma schedule_word:
  assumes "length K = 4 * nk" and "0 < nk" "i < n"
  shows "take 4 (drop (4 * i) (schedule K n)) = key_word K i"
  using assms(3)
proof (induction n)
  case (Suc n)
  then show ?case
    by (cases "i = n") (simp_all add: schedule_Suc length_schedule [OF assms(1,2)] length_key_word [OF assms(1,2)])
qed simp

lemma schedule_start:
  assumes "length K = 4 * nk"
  shows "schedule K nk = K"
proof -
  have "i \<le> nk \<Longrightarrow> schedule K i = take (4 * i) K" for i
  proof (induction i)
    case (Suc i)
    then have "key_word K i = take 4 (drop (4 * i) K)"
      using assms by (subst key_word.simps) simp
    then show ?case
      using Suc by (simp add: schedule_Suc take_add [symmetric] add.commute)
  qed (simp add: schedule_def)
  then show ?thesis
    using assms by simp
qed

lemma schedule_blocks:
  assumes "length K = 4 * nk" and "0 < nk" and "4 * i + 4 \<le> n"
  shows "take 16 (drop (16 * i) (schedule K n)) = schedule_key K i"
proof -
  have "4 * i + k \<le> n \<Longrightarrow> schedule K (4 * i + k) = schedule K (4 * i) @ concat (map (key_word K) [4 * i..<4 * i + k])" for k
    by (induction k) (simp_all add: schedule_Suc)
  then have s: "schedule K (4 * i + 4) = schedule K (4 * i) @ schedule_key K i"
    using assms(3) by (simp add: schedule_key_def)
  have p: "schedule K n = schedule K (4 * i + 4) @ concat (map (key_word K) [4 * i + 4..<n])"
    using assms(3) upt_add_eq_append [of 0 "4 * i + 4" "n - (4 * i + 4)"] by (simp add: schedule_def)
  have l: "length (schedule K (4 * i)) = 16 * i" "length (schedule K (4 * i + 4)) = 16 * i + 16"
    using length_schedule [OF assms(1,2)] by simp_all
  then have "length (schedule_key K i) = 16"
    using s by simp
  then show ?thesis
    unfolding p s using l(1) by simp
qed

text \<open>One step of the expansion writes one word.\<close>

lemma length_expand_temp: "length t = 4 \<Longrightarrow> length (expand_temp base i t) = 4"
  by (simp add: expand_temp_def oaes_word_rot_left_def Let_def)

lemma write_word:
  assumes "b + 4 \<le> p"
  shows "fold (\<lambda>j e. e[p + j := e ! (b + j) XOR t ! j]) [0, 1, 2, 3] e =
    e[p := e ! b XOR t ! 0, p + 1 := e ! (b + 1) XOR t ! 1, p + 2 := e ! (b + 2) XOR t ! 2, p + 3 := e ! (b + 3) XOR t ! 3]"
  using assms by simp

lemma expand_step_put:
  assumes "0 < base" and "base \<le> i" and "4 * i + 4 \<le> length e"
  shows "expand_step base i e =
    put (4 * i) (xor_bytes (take 4 (drop (4 * (i - base)) e)) (expand_temp base i (take 4 (drop (4 * (i - 1)) e)))) e"
proof -
  define t where "t = expand_temp base i (take 4 (drop (4 * (i - 1)) e))"
  have lt: "length t = 4"
    using assms unfolding t_def by (intro length_expand_temp) simp
  define b where "b = 4 * (i - base)"
  have b: "b + 4 \<le> 4 * i"
    using assms(1,2) by (simp add: b_def)
  have n: "e ! (b + j) = take 4 (drop b e) ! j" if "j < 4" for j
    using that assms(3) b by simp
  have "expand_step base i e =
    e[4 * i := e ! b XOR t ! 0, 4 * i + 1 := e ! (b + 1) XOR t ! 1, 4 * i + 2 := e ! (b + 2) XOR t ! 2, 4 * i + 3 := e ! (b + 3) XOR t ! 3]"
  proof -
    have "i * 4 = 4 * i" "(i - base) * 4 = b" "(i - 1) * 4 = 4 * (i - 1)"
      by (simp_all add: b_def)
    then show ?thesis
      unfolding expand_step_def Let_def by (simp only: t_def [symmetric] write_word [OF b])
  qed
  also have "\<dots> = put (4 * i) [e ! b XOR t ! 0, e ! (b + 1) XOR t ! 1, e ! (b + 2) XOR t ! 2, e ! (b + 3) XOR t ! 3] e"
  proof -
    define p q where "p = take (4 * i) e" and "q = drop (4 * i) e"
    have e: "e = p @ q" "length p = 4 * i" "4 \<le> length q"
      using assms(3) by (simp_all add: p_def q_def)
    then obtain q0 q1 q2 q3 r where q: "q = q0 # q1 # q2 # q3 # r"
      by (auto simp: numeral_eq_Suc Suc_le_length_iff)
    have "(p @ q0 # q1 # q2 # q3 # r)[4 * i := x, 4 * i + 1 := y, 4 * i + 2 := z, 4 * i + 3 := w] =
        put (4 * i) [x, y, z, w] (p @ q0 # q1 # q2 # q3 # r)" for x y z w
      using e(2) by (simp add: put_def list_update_append numeral_eq_Suc)
    then show ?thesis
      unfolding e(1) [unfolded q] .
  qed
  also have "[e ! b XOR t ! 0, e ! (b + 1) XOR t ! 1, e ! (b + 2) XOR t ! 2, e ! (b + 3) XOR t ! 3] = xor_bytes (take 4 (drop b e)) t"
  proof -
    obtain t0 t1 t2 t3 where "t = [t0, t1, t2, t3]"
      using lt by (auto simp: length_4)
    moreover obtain u0 u1 u2 u3 where "take 4 (drop b e) = [u0, u1, u2, u3]"
      using b assms(3) length_4 [of "take 4 (drop b e)"] by auto
    ultimately show ?thesis
      using n [of 0] n [of 1] n [of 2] n [of 3] by (simp add: xor_bytes_def)
  qed
  finally show ?thesis
    by (simp only: t_def b_def)
qed

lemma gf_8_rcon: "j < 10 \<Longrightarrow> oaes_gf_8 ! j = (xtime ^^ j) 1"
proof -
  have "\<forall>j\<in>{0, 1, 2, 3, 4, 5, 6, 7, 8, 9}. oaes_gf_8 ! j = (xtime ^^ j) 1"
    by (simp add: numeral_eq_Suc) (simp add: oaes_gf_8_def xtime_def)
  then show "j < 10 \<Longrightarrow> oaes_gf_8 ! j = (xtime ^^ j) 1"
    by (auto simp: numeral_eq_Suc less_Suc_eq)
qed

lemma expand_temp_eq:
  assumes "length t = 4" and "1 \<le> i div base" "i div base \<le> 10"
  shows "expand_temp base i t =
    (if i mod base = 0 then xor_bytes (sub_bytes (rot_word t)) (rcon (i div base))
     else if 6 < base \<and> i mod base = 4 then sub_bytes t else t)"
proof -
  obtain a b c d where t: "t = [a, b, c, d]"
    using assms(1) by (auto simp: length_4)
  have "oaes_gf_8 ! (i div base - 1) = (xtime ^^ (i div base - 1)) 1"
    using assms(2,3) by (intro gf_8_rcon) simp
  then show ?thesis
    by (simp add: expand_temp_def oaes_word_rot_left_def rot_word_def rcon_def xor_bytes_def t oaes_sub_byte_eq
        sub_bytes_def Let_def)
qed

lemma expand_loop:
  assumes "length K = 4 * nk" and "nk \<in> {4, 6, 8}" and "nk \<le> n" "n \<le> 4 * (nk + 7)"
  shows "fold (expand_step nk) [nk..<n] (K @ replicate (16 * (nk + 7) - 4 * nk) 0) =
    schedule K n @ replicate (16 * (nk + 7) - 4 * n) 0"
  using assms(3,4)
proof (induction n)
  case 0
  then show ?case using assms(2) by auto
next
  case (Suc n)
  have nk: "0 < nk"
    using assms(2) by auto
  show ?case
  proof (cases "nk = Suc n")
    case True
    then show ?thesis
      using schedule_start [OF assms(1)] by simp
  next
    case False
    define E where "E = schedule K n @ replicate (16 * (nk + 7) - 4 * n) 0"
    have n: "nk \<le> n" "n < 4 * (nk + 7)"
      using False Suc.prems by simp_all
    have ls: "length (schedule K n) = 4 * n"
      by (rule length_schedule [OF assms(1) nk])
    have w: "take 4 (drop (4 * i) E) = key_word K i" if "i < n" for i
      using schedule_word [OF assms(1) nk that] that by (simp add: E_def ls)
    have rep: "replicate (16 * (nk + 7) - 4 * n) (0 :: byte) = replicate 4 0 @ replicate (16 * (nk + 7) - 4 * Suc n) 0"
      using n by (simp flip: replicate_add)
    have d: "1 \<le> n div nk" "n div nk \<le> 10"
      using n nk assms(2) div_le_mono [of n "4 * (nk + 7)" nk] by (auto simp: div_greater_zero_iff Suc_le_eq less_eq_div_iff_mult_less_eq)
    have "fold (expand_step nk) [nk..<Suc n] (K @ replicate (16 * (nk + 7) - 4 * nk) 0) = expand_step nk n E"
      using Suc.IH n by (simp add: E_def)
    also have "\<dots> = put (4 * n) (xor_bytes (key_word K (n - nk)) (expand_temp nk n (key_word K (n - 1)))) E"
      using expand_step_put [OF nk n(1), of E] w [of "n - nk"] w [of "n - 1"] n nk by (simp add: E_def ls)
    also have "expand_temp nk n (key_word K (n - 1)) =
      (if n mod nk = 0 then xor_bytes (sub_bytes (rot_word (key_word K (n - 1)))) (rcon (n div nk))
       else if 6 < nk \<and> n mod nk = 4 then sub_bytes (key_word K (n - 1)) else key_word K (n - 1))"
      by (rule expand_temp_eq [OF length_key_word [OF assms(1) nk] d])
    also have "xor_bytes (key_word K (n - nk)) \<dots> = key_word K n"
      by (rule key_word_unfold [OF assms(1) nk n(1), symmetric])
    also have "put (4 * n) (key_word K n) E = schedule K (Suc n) @ replicate (16 * (nk + 7) - 4 * Suc n) 0"
      using length_key_word [OF assms(1) nk, of n] ls unfolding E_def rep by (simp add: put_def schedule_Suc)
    finally show ?thesis .
  qed
qed

text \<open>What a successful import leaves in the context.\<close>

definition expanded :: "byte list \<Rightarrow> oaes_key" where
  "expanded K = \<lparr>k_data_len = length K, k_data = K, k_exp_data_len = 16 * (length K div 4 + 7),
     k_exp_data = schedule K (4 * (length K div 4 + 7)), k_num_keys = length K div 4 + 7, k_key_base = length K div 4\<rparr>"

lemma set_key_cases:
  assumes "length K \<in> {16, 24, 32}"
  shows "set_key m1 m2 m3 c K =
    (if m1 \<and> m2 \<and> m3 then (OAES_RET_SUCCESS, Some (c\<lparr>c_key := Some (expanded K)\<rparr>))
     else (if m1 \<and> m2 then OAES_RET_UNKNOWN else OAES_RET_MEM, Some (c\<lparr>c_key := None\<rparr>)))"
proof -
  define nk where "nk = length K div 4"
  have nk: "length K = 4 * nk" "nk \<in> {4, 6, 8}"
    using assms by (auto simp: nk_def)
  have "drop (4 * nk) (replicate (16 * (nk + 7)) 0) = replicate (16 * (nk + 7) - 4 * nk) (0 :: byte)"
    by simp
  then have "fold (expand_step nk) [nk..<4 * (nk + 7)] (K @ drop (4 * nk) (replicate (16 * (nk + 7)) 0)) = schedule K (4 * (nk + 7))"
    using expand_loop [OF nk, of "4 * (nk + 7)"] by simp
  moreover have "(nk + 7) * 4 * 4 = 16 * (nk + 7)" "(nk + 7) * 4 = 4 * (nk + 7)"
    by simp_all
  ultimately show ?thesis
    using nk(1) by (simp add: set_key_def oaes_key_expand_def Let_def rc_or_def expanded_def mult.commute [of nk])
qed

section \<open>The cipher\<close>

lemma expanded_round_key:
  assumes "length K \<in> {16, 24, 32}" and "i < length K div 4 + 7"
  shows "round_key (expanded K) i = schedule_key K i"
proof -
  have "length K = 4 * (length K div 4)" "0 < length K div 4"
    using assms(1) by auto
  then show ?thesis
    using schedule_blocks [of K "length K div 4" i "4 * (length K div 4 + 7)"] assms(2)
    by (simp add: round_key_def expanded_def mult.commute mult.left_commute)
qed

lemma encrypt_cipher:
  assumes "length K \<in> {16, 24, 32}"
  shows "encrypt_bytes (expanded K) s = aes_cipher K s"
proof -
  define nr where "nr = length K div 4 + 6"
  have rk: "i \<le> nr \<Longrightarrow> round_key (expanded K) i = schedule_key K i" for i
    using expanded_round_key [OF assms] by (simp add: nr_def)
  have n: "k_num_keys (expanded K) - 1 = nr"
    by (simp add: expanded_def nr_def)
  have "fold (encrypt_round (expanded K)) [1..<nr] x = fold (\<lambda>i. aes_round (schedule_key K i)) [1..<nr] x" for x
    by (rule fold_cong) (simp_all add: encrypt_round_eq rk fun_eq_iff)
  then show ?thesis
    unfolding encrypt_bytes_def aes_cipher_def n Let_def nr_def [symmetric]
    by (simp add: rk sub_bytes_eq shift_rows_eq)
qed

section \<open>Decryption\<close>

lemma xor_bytes_cancel: "length b = length a \<Longrightarrow> xor_bytes (xor_bytes a b) b = a"
  by (induction a b rule: list_induct2') (simp_all add: xor_bytes_def xor.assoc)

lemma inv_shift_rows: "length s = 16 \<Longrightarrow> oaes_inv_shift_rows (oaes_shift_rows s) = s"
proof -
  assume "length s = 16"
  then have "s = map ((!) s) [0..<16]"
    using map_nth [of s] by metis
  also have "\<dots> = oaes_inv_shift_rows (oaes_shift_rows s)"
    unfolding upt_16_list by (simp add: oaes_inv_shift_rows_def oaes_shift_rows_def)
  finally show ?thesis by simp
qed

lemma inv_sub_bytes: "map oaes_inv_sub_byte (map oaes_sub_byte s) = s"
  by (induction s) (simp_all add: inv_sub_byte)

lemma xtime_xor: "xtime (a XOR b) = xtime a XOR xtime b"
  unfolding xtime_def by (rule bit_word_eqI) (auto simp: bit_simps)

lemma xor_cancel: "a XOR (a XOR b) = b" for a b :: byte
  by (simp flip: xor.assoc)

lemma inv_mix_column: "length w = 4 \<Longrightarrow> oaes_inv_mix_cols (oaes_mix_cols w) = w"
proof -
  assume "length w = 4"
  then obtain a b c d where "w = [a, b, c, d]"
    by (auto simp: length_4)
  then show ?thesis
    by (simp add: oaes_inv_mix_cols_def oaes_mix_cols_def oaes_gf_mul_def gf_tables xtime_xor xor_ac xor_cancel)
qed

lemma mix_block_inverse:
  assumes "length s = 16"
  shows "mix_block oaes_inv_mix_cols (mix_block oaes_mix_cols s) = s"
proof -
  have l: "length (oaes_mix_cols w) = 4" for w
    by (simp add: oaes_mix_cols_def)
  have "mix_block oaes_inv_mix_cols (mix_block oaes_mix_cols s) =
      take 4 s @ take 4 (drop 4 s) @ take 4 (drop 8 s) @ take 4 (drop 12 s)"
    using assms by (simp add: mix_block_def l inv_mix_column)
  also have "\<dots> = s"
    using assms take_add [of 4 4 s] take_add [of 8 4 s] take_add [of 12 4 s] by simp
  finally show ?thesis .
qed

lemma length_encrypt_round: "length (round_key k i) = 16 \<Longrightarrow> length (encrypt_round k i s) = 16"
  by (simp add: encrypt_round_eq aes_round_def)

lemma decrypt_round_inverse:
  assumes "length (round_key k i) = 16"
  shows "decrypt_round k i (oaes_shift_rows (map oaes_sub_byte (encrypt_round k i s))) = oaes_shift_rows (map oaes_sub_byte s)"
proof -
  define m where "m = mix_block oaes_mix_cols (oaes_shift_rows (map oaes_sub_byte s))"
  have m: "length m = 16" "encrypt_round k i s = xor_bytes m (round_key k i)"
    by (simp_all add: m_def mix_block_eq encrypt_round_def)
  have "decrypt_round k i (oaes_shift_rows (map oaes_sub_byte (encrypt_round k i s))) =
      mix_block oaes_inv_mix_cols (xor_bytes (encrypt_round k i s) (round_key k i))"
    using length_encrypt_round [OF assms] by (simp add: decrypt_round_def inv_shift_rows inv_sub_bytes del: map_map)
  also have "\<dots> = mix_block oaes_inv_mix_cols m"
    using m assms by (simp add: xor_bytes_cancel)
  also have "\<dots> = oaes_shift_rows (map oaes_sub_byte s)"
    unfolding m_def by (rule mix_block_inverse) (simp add: shift_rows_eq)
  finally show ?thesis .
qed

text \<open>A key whose expanded data holds all its round keys.\<close>

definition good_key :: "oaes_key \<Rightarrow> bool" where
  "good_key k \<longleftrightarrow> 1 < k_num_keys k \<and> length (k_exp_data k) = 16 * k_num_keys k"

lemma length_round_key: "good_key k \<Longrightarrow> i < k_num_keys k \<Longrightarrow> length (round_key k i) = 16"
  by (simp add: good_key_def round_key_def)

lemma good_expanded: "length K \<in> {16, 24, 32} \<Longrightarrow> good_key (expanded K)"
  using length_schedule [of K "length K div 4"] by (auto simp: good_key_def expanded_def)

lemma decrypt_rounds:
  assumes "good_key k" and "n < k_num_keys k" "1 \<le> n" and "length s = 16"
  shows "length (fold (encrypt_round k) [1..<n] s) = 16 \<and>
    fold (decrypt_round k) (rev [1..<n]) (oaes_shift_rows (map oaes_sub_byte (fold (encrypt_round k) [1..<n] s))) =
      oaes_shift_rows (map oaes_sub_byte s)"
  using assms(2,3)
proof (induction n)
  case (Suc n)
  show ?case
  proof (cases "n = 0")
    case True
    then show ?thesis using assms(4) by simp
  next
    case False
    define t where "t = fold (encrypt_round k) [1..<n] s"
    have t: "length t = 16" "fold (decrypt_round k) (rev [1..<n]) (oaes_shift_rows (map oaes_sub_byte t)) = oaes_shift_rows (map oaes_sub_byte s)"
      using Suc False by (simp_all add: t_def)
    have rk: "length (round_key k n) = 16"
      using Suc.prems by (intro length_round_key [OF assms(1)]) simp
    note d = decrypt_round_inverse [OF rk, of t]
    have "[1..<Suc n] = [1..<n] @ [n]"
      using False by simp
    then have "fold (encrypt_round k) [1..<Suc n] s = encrypt_round k n t" "rev [1..<Suc n] = n # rev [1..<n]"
      by (simp_all add: t_def)
    then show ?thesis
      using t d length_encrypt_round [OF rk] by (simp only: fold.simps comp_apply simp_thms)
  qed
qed simp

lemma decrypt_encrypt:
  assumes "good_key k" and "length s = 16"
  shows "decrypt_bytes k (encrypt_bytes k s) = s" "length (encrypt_bytes k s) = 16"
proof -
  define n where "n = k_num_keys k - 1"
  have n: "n < k_num_keys k" "1 \<le> n"
    using assms(1) unfolding n_def good_key_def by linarith+
  define x where "x = xor_bytes s (round_key k 0)"
  have lx: "length x = 16" and rk: "length (round_key k 0) = 16" "length (round_key k n) = 16"
    using length_round_key [OF assms(1)] n assms(2) by (simp_all add: x_def)
  define y where "y = fold (encrypt_round k) [1..<n] x"
  have y: "length y = 16" "fold (decrypt_round k) (rev [1..<n]) (oaes_shift_rows (map oaes_sub_byte y)) = oaes_shift_rows (map oaes_sub_byte x)"
    using decrypt_rounds [OF assms(1) n lx] by (simp_all add: y_def)
  have e: "encrypt_bytes k s = xor_bytes (oaes_shift_rows (map oaes_sub_byte y)) (round_key k n)"
    by (simp add: encrypt_bytes_def Let_def x_def y_def n_def)
  then show "length (encrypt_bytes k s) = 16"
    using rk by (simp add: shift_rows_eq)
  have "decrypt_bytes k (encrypt_bytes k s) = xor_bytes (map oaes_inv_sub_byte (oaes_inv_shift_rows (oaes_shift_rows (map oaes_sub_byte x)))) (round_key k 0)"
    unfolding decrypt_bytes_def Let_def n_def [symmetric] e using rk y(2) by (simp add: xor_bytes_cancel shift_rows_eq)
  also have "\<dots> = s"
    using lx rk assms(2) by (simp add: inv_shift_rows inv_sub_bytes xor_bytes_cancel x_def del: map_map)
  finally show "decrypt_bytes k (encrypt_bytes k s) = s" .
qed

end
