(* ===== verification/Oaes_Message.thy ===== *)
theory Oaes_Message
  imports Oaes_Correct
begin

text \<open>
  Encryption and decryption of whole messages by \<^verbatim>\<open>oaes_lib.c\<close>: the header, ECB and CBC, and the
  padding, with every error return. Input and output buffers do not overlap. The size of an
  object in memory does not wrap; the subtraction in \<^verbatim>\<open>oaes_decrypt\<close>, which can, is written out.
\<close>

section \<open>Encryption\<close>

definition pad_len :: "nat \<Rightarrow> nat" where
  "pad_len m_len = (if m_len mod 16 = 0 then 0 else 16 - m_len mod 16)"

text \<open>One pass of the loop: the return code, the output buffer and the initialization vector.\<close>

definition encrypt_step ::
  "oaes_ctx \<Rightarrow> nat \<Rightarrow> nat \<Rightarrow> oaes_ret \<times> byte list \<times> byte list \<Rightarrow> oaes_ret \<times> byte list \<times> byte list" where
  "encrypt_step x m_len i s =
    (case s of (rc, c, iv) \<Rightarrow>
       let cbc = (c_options x AND 2 \<noteq> 0);
           bs = min (m_len - i) 16;
           block = take bs (drop (2 * 16 + i) c) @ map (\<lambda>j. of_nat (j + 1)) [0..<16 - bs];
           block = (if cbc then xor_bytes block iv else block);
           (rc, block) =
             (if rc \<noteq> OAES_RET_SUCCESS then (OAES_RET_UNKNOWN, block)
              else case oaes_encrypt_block (Some x) (Some block) 16 of (r, b) \<Rightarrow> (rc_or rc r, the b));
           c = put (2 * 16 + i) block c;
           iv = (if cbc then block else iv)
       in (rc, c, iv))"

definition oaes_encrypt ::
  "oaes_ctx option \<Rightarrow> byte list option \<Rightarrow> nat \<Rightarrow> byte list option \<Rightarrow> nat option \<Rightarrow>
    oaes_ret \<times> oaes_ctx option \<times> byte list option \<times> nat option" where
  "oaes_encrypt ctx m m_len c c_len =
    (case ctx of
       None \<Rightarrow> (OAES_RET_ARG1, ctx, c, c_len)
     | Some x \<Rightarrow>
         (case m of
            None \<Rightarrow> (OAES_RET_ARG2, ctx, c, c_len)
          | Some md \<Rightarrow>
              (case c_len of
                 None \<Rightarrow> (OAES_RET_ARG5, ctx, c, c_len)
               | Some c_len_in \<Rightarrow>
                   let flags = (if pad_len m_len \<noteq> 0 then 1 else 0);
                       c_data_len = m_len + pad_len m_len;
                       n = 2 * 16 + m_len + pad_len m_len
                   in (case c of
                         None \<Rightarrow> (OAES_RET_SUCCESS, ctx, c, Some n)
                       | Some cd \<Rightarrow>
                           if c_len_in < n then (OAES_RET_BUF, ctx, c, Some n)
                           else if c_key x = None then (OAES_RET_NOKEY, ctx, c, Some n)
                           else
                             let cd = put 0 oaes_header cd;
                                 cd = put 6 [ucast (c_options x), ucast (drop_bit 8 (c_options x))] cd;
                                 cd = put 8 [flags] cd;
                                 cd = put 16 (c_iv x) cd;
                                 cd = put (2 * 16) (take m_len md) cd;
                                 (rc, cd, iv) = fold (\<lambda>j. encrypt_step x m_len (16 * j)) [0..<c_data_len div 16]
                                   (OAES_RET_SUCCESS, cd, c_iv x)
                             in (rc, Some (x\<lparr>c_iv := iv\<rparr>), Some cd, Some n)))))"

section \<open>Decryption\<close>

definition decrypt_step ::
  "oaes_ctx \<Rightarrow> bool \<Rightarrow> byte list \<Rightarrow> nat \<Rightarrow> nat \<Rightarrow> oaes_ret \<times> byte list \<times> byte list \<Rightarrow> oaes_ret \<times> byte list \<times> byte list" where
  "decrypt_step x cbc c m_len i s =
    (case s of (rc, m, iv) \<Rightarrow>
       let iv = (if cbc \<and> 0 < i then take 16 (drop (16 + i) c) else iv);
           n = min (m_len - i) 16;
           (rc, m) =
             (if rc \<noteq> OAES_RET_SUCCESS then (OAES_RET_UNKNOWN, m)
              else case oaes_decrypt_block (Some x) (Some (take n (drop i m))) n of (r, b) \<Rightarrow> (rc_or rc r, put i (the b) m));
           m = (if cbc then put i (xor_bytes (take 16 (drop i m)) iv) m else m)
       in (rc, m, iv))"

text \<open>The padding \<open>1, 2, \<dots>, k\<close>; the result is the buffer and the length without it.\<close>

definition remove_pad :: "byte list \<Rightarrow> nat \<Rightarrow> oaes_ret \<times> byte list \<times> nat" where
  "remove_pad m m_len =
    (let k = unat (m ! (m_len - 1))
     in if k \<le> 0 \<or> 0x0f < k then (OAES_RET_HEADER, m, m_len)
        else if list_all (\<lambda>i. unat (m ! (m_len - 1 - i)) = k - i) [0..<k]
        then (OAES_RET_SUCCESS, put (m_len - k) (replicate k 0) m, m_len - k)
        else (OAES_RET_HEADER, m, m_len))"

text \<open>
  \<open>None\<close> is an access out of bounds: a message shorter than its two header blocks, whose length
  wraps around, and a padding flag on an empty body.
\<close>

definition oaes_decrypt ::
  "oaes_ctx option \<Rightarrow> byte list option \<Rightarrow> nat \<Rightarrow> byte list option \<Rightarrow> nat option \<Rightarrow>
    (oaes_ret \<times> byte list option \<times> nat option) option" where
  "oaes_decrypt ctx c c_len m m_len =
    (case ctx of
       None \<Rightarrow> Some (OAES_RET_ARG1, m, m_len)
     | Some x \<Rightarrow>
         (case c of
            None \<Rightarrow> Some (OAES_RET_ARG2, m, m_len)
          | Some cd \<Rightarrow>
              if c_len mod 16 \<noteq> 0 then Some (OAES_RET_ARG3, m, m_len)
              else (case m_len of
                 None \<Rightarrow> Some (OAES_RET_ARG5, m, m_len)
               | Some m_len_in \<Rightarrow>
                   let n = (c_len + 2 ^ 64 - 2 * 16) mod 2 ^ 64
                   in (case m of
                         None \<Rightarrow> Some (OAES_RET_SUCCESS, m, Some n)
                       | Some md \<Rightarrow>
                           if m_len_in < n then Some (OAES_RET_BUF, m, Some n)
                           else if c_key x = None then Some (OAES_RET_NOKEY, m, Some n)
                           else if c_len < 2 * 16 then None
                           else if take 4 cd \<noteq> take 4 oaes_header \<or> cd ! 4 \<noteq> 0x01 \<or> cd ! 5 \<noteq> 0x02 then Some (OAES_RET_HEADER, m, Some n)
                           else
                             let options = (ucast (cd ! 6) OR push_bit 8 (ucast (cd ! 7)) :: 16 word)
                             in if options AND NOT (1 OR 2) \<noteq> 0 \<or> (options AND 1 \<noteq> 0 \<and> options AND 2 \<noteq> 0) \<or> options = 0
                                then Some (OAES_RET_HEADER, m, Some n)
                                else
                                  let flags = cd ! 8
                                  in if flags AND NOT 1 \<noteq> 0 then Some (OAES_RET_HEADER, m, Some n)
                                     else
                                       let md = put 0 (take n (drop (2 * 16) cd)) md;
                                           (rc, md, iv) = fold (\<lambda>j. decrypt_step x (options AND 2 \<noteq> 0) cd n (16 * j)) [0..<n div 16]
                                             (OAES_RET_SUCCESS, md, take 16 (drop 16 cd))
                                       in if flags AND 1 \<noteq> 0 then
                                            if n = 0 then None
                                            else case remove_pad md n of (r, md, k) \<Rightarrow> Some (r, Some md, Some k)
                                          else Some (OAES_RET_SUCCESS, Some md, Some n)))))"

section \<open>The modes of operation\<close>

text \<open>The padded message, its blocks, and the blocks of the cipher text.\<close>

definition pad_bytes :: "nat \<Rightarrow> byte list" where
  "pad_bytes n = map (\<lambda>j. of_nat (j + 1)) [0..<n]"

definition padded :: "byte list \<Rightarrow> byte list" where
  "padded m = m @ pad_bytes (pad_len (length m))"

definition block :: "byte list \<Rightarrow> nat \<Rightarrow> byte list" where
  "block p j = take 16 (drop (16 * j) p)"

fun cipher_block :: "oaes_key \<Rightarrow> bool \<Rightarrow> byte list \<Rightarrow> byte list \<Rightarrow> nat \<Rightarrow> byte list" where
  "cipher_block k cbc iv p 0 = encrypt_bytes k (if cbc then xor_bytes (block p 0) iv else block p 0)"
| "cipher_block k cbc iv p (Suc j) =
     encrypt_bytes k (if cbc then xor_bytes (block p (Suc j)) (cipher_block k cbc iv p j) else block p (Suc j))"

definition cipher_text :: "oaes_key \<Rightarrow> bool \<Rightarrow> byte list \<Rightarrow> byte list \<Rightarrow> nat \<Rightarrow> byte list" where
  "cipher_text k cbc iv p n = concat (map (cipher_block k cbc iv p) [0..<n])"

definition last_iv :: "oaes_key \<Rightarrow> bool \<Rightarrow> byte list \<Rightarrow> byte list \<Rightarrow> nat \<Rightarrow> byte list" where
  "last_iv k cbc iv p n = (if cbc \<and> 0 < n then cipher_block k cbc iv p (n - 1) else iv)"

lemma length_padded: "length (padded m) = length m + pad_len (length m)" "length (padded m) mod 16 = 0"
proof -
  show "length (padded m) = length m + pad_len (length m)"
    by (simp add: padded_def pad_bytes_def)
  then show "length (padded m) mod 16 = 0"
    by (simp add: pad_len_def) presburger
qed

lemma cipher_block_eq:
  "cipher_block k cbc iv p j = encrypt_bytes k (if cbc then xor_bytes (block p j) (last_iv k cbc iv p j) else block p j)"
  by (cases j) (simp_all add: last_iv_def)

lemma padded_blocks:
  assumes "16 * j < length (padded m)"
  shows "16 * j + 16 \<le> length (padded m)" "16 * j < length m"
proof -
  obtain k where k: "length (padded m) = 16 * k"
    using length_padded(2) [of m] by (auto elim: dvdE simp: mod_eq_0_iff_dvd)
  then have "j < k"
    using assms by simp
  then show *: "16 * j + 16 \<le> length (padded m)"
    using k by simp
  have "pad_len (length m) < 16"
    by (simp add: pad_len_def)
  then show "16 * j < length m"
    using * length_padded(1) [of m] by linarith
qed

lemma padded_block:
  assumes "16 * j < length (padded m)"
  shows "take (min (length m - 16 * j) 16) (drop (16 * j) m) @ pad_bytes (16 - min (length m - 16 * j) 16) = block (padded m) j"
proof (cases "16 * j + 16 \<le> length m")
  case True
  then show ?thesis
    by (simp add: block_def padded_def pad_bytes_def)
next
  case False
  define r where "r = length m - 16 * j"
  have r: "length m = 16 * j + r" "r < 16" "0 < r"
    using padded_blocks(2) [OF assms] False by (simp_all add: r_def)
  have "pad_len (length m) = 16 - r"
    using r by (simp add: pad_len_def)
  then show ?thesis
    using r by (simp add: block_def padded_def pad_bytes_def)
qed

lemma length_block: "16 * j < length (padded m) \<Longrightarrow> length (block (padded m) j) = 16"
  using padded_blocks(1) [of j m] by (simp add: block_def)

lemma length_cipher_block:
  assumes "good_key k" and "length iv = 16" and "16 * j < length (padded m)"
  shows "length (cipher_block k cbc iv (padded m) j) = 16"
  using assms(3)
proof (induction j)
  case 0
  then show ?case
    using length_block [OF 0] assms(2) by (cases cbc) (simp_all add: decrypt_encrypt(2) [OF assms(1)])
next
  case (Suc j)
  then have "length (cipher_block k cbc iv (padded m) j) = 16"
    by simp
  then show ?case
    using length_block [OF Suc.prems] by (cases cbc) (simp_all add: decrypt_encrypt(2) [OF assms(1)])
qed

lemma length_last_iv:
  assumes "good_key k" and "length iv = 16" and "16 * j < length (padded m) + 16"
  shows "length (last_iv k cbc iv (padded m) j) = 16"
  using assms length_cipher_block [OF assms(1,2), of "j - 1" m cbc] by (cases cbc) (simp_all add: last_iv_def)

lemma length_cipher_text:
  assumes "good_key k" and "length iv = 16" and "16 * n \<le> length (padded m)"
  shows "length (cipher_text k cbc iv (padded m) n) = 16 * n"
  using assms(3) by (induction n) (simp_all add: cipher_text_def length_cipher_block [OF assms(1,2)])

lemma cipher_text_Suc: "cipher_text k cbc iv p (Suc n) = cipher_text k cbc iv p n @ cipher_block k cbc iv p n"
  by (simp add: cipher_text_def)

lemma put_append: "length a = n \<Longrightarrow> put n x (a @ b) = a @ x @ drop (length x) b"
  by (simp add: put_def)

lemma encrypt_step_eq:
  fixes H tail iv
  assumes "c_key x = Some k" "good_key k" "length iv = 16" and "length H = 32" "pad_len (length m) \<le> length tail"
    and j: "16 * j < length (padded m)" and cbc: "cbc = (c_options x AND 2 \<noteq> 0)"
  shows "encrypt_step x (length m) (16 * j)
      (OAES_RET_SUCCESS, H @ cipher_text k cbc iv (padded m) j @ drop (16 * j) (m @ tail), last_iv k cbc iv (padded m) j) =
    (OAES_RET_SUCCESS, H @ cipher_text k cbc iv (padded m) (Suc j) @ drop (16 * Suc j) (m @ tail), last_iv k cbc iv (padded m) (Suc j))"
proof -
  define B where "B = block (padded m) j"
  define C where "C = cipher_text k cbc iv (padded m) j"
  define L where "L = last_iv k cbc iv (padded m) j"
  define b where "b = (if cbc then xor_bytes B L else B)"
  have lC: "length (H @ C) = 32 + 16 * j"
    using length_cipher_text [OF assms(2,3), of j m cbc] j assms(4) by (simp add: C_def)
  have lb: "length b = 16"
    using length_block [OF j] length_last_iv [OF assms(2,3), of j m cbc] j by (cases cbc) (simp_all add: b_def B_def L_def)
  have e: "cipher_block k cbc iv (padded m) j = encrypt_bytes k b"
    by (simp add: cipher_block_eq b_def B_def L_def)
  have le: "length (encrypt_bytes k b) = 16"
    by (rule decrypt_encrypt(2) [OF assms(2) lb])
  have "drop (2 * 16 + 16 * j) ((H @ C) @ drop (16 * j) (m @ tail)) = drop (16 * j) (m @ tail)"
    using lC by (subst drop_append) simp
  moreover have "take (min (length m - 16 * j) 16) (drop (16 * j) (m @ tail)) = take (min (length m - 16 * j) 16) (drop (16 * j) m)"
    by simp
  ultimately have B: "take (min (length m - 16 * j) 16) (drop (2 * 16 + 16 * j) ((H @ C) @ drop (16 * j) (m @ tail))) @
      map (\<lambda>j. of_nat (j + 1)) [0..<16 - min (length m - 16 * j) 16] = B"
    using padded_block [OF j] unfolding B_def pad_bytes_def by metis
  have p: "put (32 + 16 * j) (encrypt_bytes k b) ((H @ C) @ drop (16 * j) (m @ tail)) =
      (H @ C) @ encrypt_bytes k b @ drop 16 (drop (16 * j) (m @ tail))"
    by (simp only: put_append [OF lC] le)
  have "encrypt_step x (length m) (16 * j) (OAES_RET_SUCCESS, (H @ C) @ drop (16 * j) (m @ tail), L) =
      (OAES_RET_SUCCESS, (H @ C) @ encrypt_bytes k b @ drop 16 (drop (16 * j) (m @ tail)), if cbc then encrypt_bytes k b else L)"
    unfolding encrypt_step_def Let_def prod.case B cbc [symmetric] b_def [symmetric]
    by (simp add: oaes_encrypt_block_def assms(1) rc_or_def p del: append_assoc drop_drop drop_append)
  moreover have "last_iv k cbc iv (padded m) (Suc j) = (if cbc then encrypt_bytes k b else L)"
    by (cases cbc) (simp_all add: last_iv_def e [symmetric] L_def del: cipher_block.simps)
  moreover have "drop 16 (drop (16 * j) (m @ tail)) = drop (16 * Suc j) (m @ tail)"
    by (simp only: drop_drop mult_Suc_right)
  ultimately show ?thesis
    by (simp add: C_def [symmetric] L_def [symmetric] cipher_text_Suc e del: cipher_block.simps drop_append drop_drop mult_Suc_right)
qed

lemma encrypt_loop:
  assumes "c_key x = Some k" "good_key k" "length iv = 16" and "length H = 32" "pad_len (length m) \<le> length tail"
    and "16 * j \<le> length (padded m)" and "cbc = (c_options x AND 2 \<noteq> 0)"
  shows "fold (\<lambda>j. encrypt_step x (length m) (16 * j)) [0..<j] (OAES_RET_SUCCESS, H @ m @ tail, iv) =
    (OAES_RET_SUCCESS, H @ cipher_text k cbc iv (padded m) j @ drop (16 * j) (m @ tail), last_iv k cbc iv (padded m) j)"
  using assms(6)
proof (induction j)
  case 0
  then show ?case by (simp add: cipher_text_def last_iv_def)
next
  case (Suc j)
  then have *: "16 * j < length (padded m)" by simp
  then show ?case
    using Suc.IH encrypt_step_eq [OF assms(1-5) * assms(7)] by (simp del: drop_append)
qed

section \<open>Decryption undoes encryption\<close>

lemma take_block: "16 * j + 16 \<le> length p \<Longrightarrow> take (16 * Suc j) p = take (16 * j) p @ block p j"
  using take_add [of "16 * j" 16 p] by (simp add: block_def add.commute)

lemma cipher_text_block:
  assumes "good_key k" "length iv = 16" "16 * N \<le> length (padded m)" "j < N"
  shows "take 16 (drop (16 * j) (cipher_text k cbc iv (padded m) N)) = cipher_block k cbc iv (padded m) j"
proof -
  obtain d where d: "N = Suc j + d"
    using assms(4) by (metis less_imp_Suc_add add_Suc)
  have "[0..<N] = [0..<j] @ j # [Suc j..<N]"
    using upt_add_eq_append [of 0 j "N - j"] assms(4) by (simp add: upt_conv_Cons)
  then have "cipher_text k cbc iv (padded m) N =
      cipher_text k cbc iv (padded m) j @ cipher_block k cbc iv (padded m) j @ concat (map (cipher_block k cbc iv (padded m)) [Suc j..<N])"
    by (simp add: cipher_text_def)
  then show ?thesis
    using length_cipher_text [OF assms(1,2), of j m cbc] length_cipher_block [OF assms(1,2), of j m cbc] assms(3,4) by simp
qed

lemma decrypt_step_eq:
  fixes H ys iv m
  defines "p \<equiv> padded m"
  defines "N \<equiv> length p div 16"
  assumes "c_key x = Some k" "good_key k" "length iv = 16" and H: "length H = 32" "take 16 (drop 16 H) = iv" and j: "j < N"
  shows "decrypt_step x cbc (H @ cipher_text k cbc iv p N) (16 * N) (16 * j)
      (OAES_RET_SUCCESS, take (16 * j) p @ drop (16 * j) (cipher_text k cbc iv p N) @ ys, last_iv k cbc iv p (j - 1)) =
    (OAES_RET_SUCCESS, take (16 * Suc j) p @ drop (16 * Suc j) (cipher_text k cbc iv p N) @ ys, last_iv k cbc iv p j)"
proof -
  define T where "T = cipher_text k cbc iv p N"
  define B where "B = block p j"
  define L where "L = last_iv k cbc iv p j"
  define b where "b = (if cbc then xor_bytes B L else B)"
  have N: "16 * N = length p"
    using length_padded(2) [of m] by (simp add: N_def p_def mult.commute mod_0_imp_dvd)
  have lj: "16 * j + 16 \<le> length p" "16 * j < length p"
    using j N by linarith+
  have lT: "length T = 16 * N"
    unfolding T_def p_def by (rule length_cipher_text [OF assms(4,5)]) (simp add: N [unfolded p_def])
  have lb: "length B = 16" "length b = 16" "length L = 16"
    using length_block [of j m] length_last_iv [OF assms(4,5), of j m cbc] lj unfolding b_def B_def L_def p_def
    by (cases cbc; simp)+
  have Tj: "take 16 (drop (16 * i) T) = cipher_block k cbc iv p i" if "i < N" for i
    unfolding T_def p_def by (rule cipher_text_block [OF assms(4,5) _ that]) (simp add: N [unfolded p_def])
  have e: "take 16 (drop (16 * j) T) = encrypt_bytes k b"
    using Tj [OF j] by (simp add: cipher_block_eq b_def B_def L_def)
  have le: "length (encrypt_bytes k b) = 16" and de: "decrypt_bytes k (encrypt_bytes k b) = b"
    by (rule decrypt_encrypt [OF assms(4) lb(2)])+
  have iv: "(if cbc \<and> 0 < 16 * j then take 16 (drop (16 + 16 * j) (H @ T)) else last_iv k cbc iv p (j - 1)) = L"
  proof (cases "cbc \<and> 0 < j")
    case True
    then obtain i where i: "j = Suc i" by (cases j) auto
    have "drop (16 + 16 * j) (H @ T) = drop (16 * i) T"
      using H(1) i by simp
    then show ?thesis
      using True Tj [of i] i j by (simp add: L_def last_iv_def)
  next
    case False
    then show ?thesis by (auto simp: L_def last_iv_def)
  qed
  have ltp: "length (take (16 * j) p) = 16 * j"
    using lj by simp
  have rest: "drop (16 * j) T @ ys = encrypt_bytes k b @ drop (16 * Suc j) T @ ys"
    using append_take_drop_id [of 16 "drop (16 * j) T"] e by (metis append_assoc drop_drop mult_Suc_right)
  have tk: "take 16 (drop (16 * j) (take (16 * j) p @ u @ v)) = u" if "length u = 16" for u v
    using ltp that by simp
  have pt: "put (16 * j) u (take (16 * j) p @ w @ v) = take (16 * j) p @ u @ v" if "length u = 16" "length w = 16" for u v w
    using put_append [OF ltp, of u "w @ v"] that by simp
  have mn: "min (16 * N - 16 * j) 16 = 16"
    using j by simp
  have dec: "oaes_decrypt_block (Some x) (Some (encrypt_bytes k b)) 16 = (OAES_RET_SUCCESS, Some b)"
    by (simp add: oaes_decrypt_block_def assms(3) de)
  have "decrypt_step x cbc (H @ T) (16 * N) (16 * j)
      (OAES_RET_SUCCESS, take (16 * j) p @ encrypt_bytes k b @ drop (16 * Suc j) T @ ys, last_iv k cbc iv p (j - 1)) =
    (OAES_RET_SUCCESS, take (16 * j) p @ B @ drop (16 * Suc j) T @ ys, L)"
  proof (cases cbc)
    case True
    have "xor_bytes b L = B"
      using True lb by (simp add: b_def xor_bytes_cancel)
    then show ?thesis
      unfolding decrypt_step_def Let_def prod.case iv mn tk [OF le] dec
      using True by (simp add: rc_or_def pt [OF lb(2) le] pt [OF lb(1) lb(2)] tk [OF lb(2)] del: drop_append take_append mult_Suc_right)
  next
    case False
    then have "b = B"
      by (simp add: b_def)
    with False show ?thesis
      unfolding decrypt_step_def Let_def prod.case iv mn tk [OF le] dec
      using pt [OF lb(2) le, of "drop (16 * Suc j) T @ ys"] by (simp add: rc_or_def del: drop_append take_append mult_Suc_right)
  qed
  then show ?thesis
    unfolding T_def [symmetric] rest L_def [symmetric] take_block [OF lj(1)] B_def by simp
qed

lemma decrypt_loop:
  fixes H ys iv m
  defines "p \<equiv> padded m"
  defines "N \<equiv> length p div 16"
  assumes "c_key x = Some k" "good_key k" "length iv = 16" and "length H = 32" "take 16 (drop 16 H) = iv" and "j \<le> N"
  shows "fold (\<lambda>j. decrypt_step x cbc (H @ cipher_text k cbc iv p N) (16 * N) (16 * j)) [0..<j]
      (OAES_RET_SUCCESS, cipher_text k cbc iv p N @ ys, iv) =
    (OAES_RET_SUCCESS, take (16 * j) p @ drop (16 * j) (cipher_text k cbc iv p N) @ ys, last_iv k cbc iv p (j - 1))"
  using assms(8)
proof (induction j)
  case 0
  then show ?case by (simp add: last_iv_def)
next
  case (Suc j)
  then have "j < length (padded m) div 16"
    by (simp add: N_def p_def)
  note step = decrypt_step_eq [OF assms(3-7) this, folded p_def, folded N_def]
  show ?case
    using Suc.IH Suc.prems step
    by (simp only: Suc_leD diff_Suc_1 upt_Suc_append le0 fold_append fold.simps comp_apply id_comp)
qed

lemma remove_padding:
  assumes "pad_len (length m) \<noteq> 0"
  shows "remove_pad (padded m @ ys) (length (padded m)) =
    (OAES_RET_SUCCESS, m @ replicate (pad_len (length m)) 0 @ ys, length m)"
proof -
  define k where "k = pad_len (length m)"
  have k: "0 < k" "k < 16"
    using assms by (simp_all add: k_def pad_len_def)
  have lp: "length (padded m) = length m + k"
    by (simp add: length_padded k_def)
  have nth: "unat ((padded m @ ys) ! (length m + k - 1 - i)) = k - i" if "i < k" for i
  proof -
    have "(padded m @ ys) ! (length m + (k - 1 - i)) = (m @ pad_bytes k @ ys) ! (length m + (k - 1 - i))"
      by (simp add: padded_def k_def)
    also have "\<dots> = pad_bytes k ! (k - 1 - i)"
      using that unfolding nth_append_length_plus by (simp add: nth_append pad_bytes_def)
    also have "\<dots> = of_nat (k - i)"
      using that by (simp add: pad_bytes_def Suc_diff_Suc del: of_nat_diff flip: of_nat_Suc)
    also have "length m + (k - 1 - i) = length m + k - 1 - i"
      using that by simp
    finally have "(padded m @ ys) ! (length m + k - 1 - i) = of_nat (k - i)" .
    then show ?thesis
      using k by (simp add: unat_of_nat take_bit_nat_eq_self del: of_nat_diff)
  qed
  have last: "unat ((padded m @ ys) ! (length m + k - 1)) = k"
    using nth [of 0] k by simp
  have "list_all (\<lambda>i. unat ((padded m @ ys) ! (length m + k - 1 - i)) = k - i) [0..<k]"
    using nth by (simp add: list_all_iff)
  moreover have "put (length m + k - k) (replicate k 0) (padded m @ ys) = m @ replicate k 0 @ ys"
    by (simp add: put_def padded_def pad_bytes_def k_def [symmetric])
  ultimately show ?thesis
    using k unfolding remove_pad_def lp last Let_def k_def [symmetric] by simp
qed

definition message_header :: "byte \<Rightarrow> byte \<Rightarrow> byte list \<Rightarrow> byte list" where
  "message_header opt flags iv =
    [0x4f, 0x41, 0x45, 0x53, 0x01, 0x02, opt, 0, flags, 0, 0, 0, 0, 0, 0, 0] @ iv"

definition message :: "oaes_key \<Rightarrow> bool \<Rightarrow> byte list \<Rightarrow> byte list \<Rightarrow> byte list" where
  "message k cbc iv m =
    message_header (if cbc then 2 else 1) (if pad_len (length m) \<noteq> 0 then 1 else 0) iv @
    cipher_text k cbc iv (padded m) (length (padded m) div 16)"

lemma length_message:
  assumes "good_key k" "length iv = 16"
  shows "length (message k cbc iv m) = 32 + length (padded m)"
proof -
  have "16 * (length (padded m) div 16) = length (padded m)"
    using length_padded(2) [of m] by (simp add: mult.commute mod_0_imp_dvd)
  then show ?thesis
    using length_cipher_text [OF assms, of "length (padded m) div 16" m cbc] assms(2)
    by (simp add: message_def message_header_def)
qed

lemma encrypt_message:
  assumes "c_key x = Some k" "good_key k" "length (c_iv x) = 16" and "c_options x = (if cbc then 2 else 1)"
    and "n = 32 + length (padded m)" "n \<le> length c" "n \<le> l"
  shows "oaes_encrypt (Some x) (Some m) (length m) (Some c) (Some l) =
    (OAES_RET_SUCCESS, Some (x\<lparr>c_iv := last_iv k cbc (c_iv x) (padded m) (length (padded m) div 16)\<rparr>),
     Some (message k cbc (c_iv x) m @ drop n c), Some n)"
proof -
  define f where "f = (if pad_len (length m) \<noteq> 0 then 1 else 0 :: byte)"
  define o' where "o' = (if cbc then 2 else 1 :: byte)"
  define tail where "tail = drop (32 + length m) c"
  define N where "N = length (padded m) div 16"
  have N: "16 * N = length (padded m)" "(length m + pad_len (length m)) div 16 = N"
    using length_padded [of m] by (simp_all add: N_def mult.commute mod_0_imp_dvd)
  have "length oaes_header = 16"
    by (simp add: oaes_header_def)
  then have "put 0 oaes_header c = oaes_header @ drop 16 c"
    by (simp add: put_def)
  then have "put 8 [f] (put 6 [ucast (c_options x), ucast (drop_bit 8 (c_options x))] (put 0 oaes_header c)) =
      [0x4f, 0x41, 0x45, 0x53, 0x01, 0x02, o', 0, f, 0, 0, 0, 0, 0, 0, 0] @ drop 16 c"
    by (simp add: put_def oaes_header_def assms(4) o'_def)
  then have h: "put 16 (c_iv x) (put 8 [f] (put 6 [ucast (c_options x), ucast (drop_bit 8 (c_options x))] (put 0 oaes_header c))) =
      message_header o' f (c_iv x) @ drop 32 c"
    by (simp add: put_def assms(3) message_header_def)
  have lh: "length (message_header o' f (c_iv x)) = 32"
    by (simp add: message_header_def assms(3))
  have p: "put (2 * 16) (take (length m) m) (message_header o' f (c_iv x) @ drop 32 c) = message_header o' f (c_iv x) @ m @ tail"
    by (simp add: put_append [OF lh] tail_def add.commute)
  have t: "pad_len (length m) \<le> length tail"
    using assms(5,6) length_padded(1) [of m] by (simp add: tail_def)
  have d: "drop (16 * N) (m @ tail) = drop n c"
    using N(1) length_padded(1) [of m] by (simp add: tail_def assms(5) ac_simps)
  have cbc: "cbc = (c_options x AND 2 \<noteq> 0)"
    by (simp add: assms(4))
  note loop = encrypt_loop [OF assms(1-3) lh t, of N cbc]
  have n: "2 * 16 + length m + pad_len (length m) = n"
    by (simp add: assms(5) length_padded)
  show ?thesis
    unfolding oaes_encrypt_def option.case Let_def f_def [symmetric] n h p N(2) loop [OF _ cbc, unfolded N(1), OF order_refl]
    using assms(1,7) by (simp add: N(1) d [unfolded N(1)] message_def f_def o'_def N_def del: drop_append)
qed

lemma decrypt_message:
  assumes "c_key y = Some k" "good_key k" "length iv = 16"
    and "length (padded m) + 32 < 2 ^ 64" and "length (padded m) \<le> length md" "length (padded m) \<le> l"
  shows "oaes_decrypt (Some y) (Some (message k cbc iv m)) (32 + length (padded m)) (Some md) (Some l) =
    Some (OAES_RET_SUCCESS, Some (m @ replicate (pad_len (length m)) 0 @ drop (length (padded m)) md), Some (length m))"
proof -
  define f where "f = (if pad_len (length m) \<noteq> 0 then 1 else 0 :: byte)"
  define o' where "o' = (if cbc then 2 else 1 :: byte)"
  define H where "H = message_header o' f iv"
  define N where "N = length (padded m) div 16"
  define T where "T = cipher_text k cbc iv (padded m) N"
  define ys where "ys = drop (length (padded m)) md"
  have N: "16 * N = length (padded m)"
    using length_padded(2) [of m] by (simp add: N_def mult.commute mod_0_imp_dvd)
  have lT: "length T = 16 * N"
    unfolding T_def by (rule length_cipher_text [OF assms(2,3)]) (simp add: N)
  have msg: "message k cbc iv m = H @ T"
    by (simp add: message_def H_def T_def N_def o'_def f_def)
  have lh: "length H = 32" and iv: "take 16 (drop 16 H) = iv"
    by (simp_all add: H_def message_header_def assms(3))
  have len: "(32 + length (padded m) + 2 ^ 64 - 2 * 16) mod 2 ^ 64 = 16 * N"
    using assms(4) N by simp
  have "take (16 * N) (drop (2 * 16) (H @ T)) = T"
    using lh lT by simp
  then have md: "put 0 (take (16 * N) (drop (2 * 16) (H @ T))) md = T @ ys"
    using lT N by (simp add: put_def ys_def)
  have ivm: "take 16 (drop 16 (H @ T)) = iv"
    using iv lh assms(3) by simp
  have loop: "fold (\<lambda>j. decrypt_step y cbc (H @ T) (16 * N) (16 * j)) [0..<N] (OAES_RET_SUCCESS, T @ ys, iv) =
      (OAES_RET_SUCCESS, padded m @ ys, last_iv k cbc iv (padded m) (N - 1))"
    using decrypt_loop [OF assms(1-3) lh iv, of N m cbc ys] lT N by (simp add: T_def N_def)
  have hd: "take 4 (H @ T) = take 4 oaes_header" "(H @ T) ! 4 = 1" "(H @ T) ! 5 = 2" "(H @ T) ! 6 = o'" "(H @ T) ! 7 = 0" "(H @ T) ! 8 = f"
    by (simp_all add: H_def message_header_def oaes_header_def)
  have opt: "(ucast o' OR push_bit 8 (ucast (0 :: byte)) :: 16 word) = (if cbc then 2 else 1)"
    by (simp add: o'_def)
  have c: "((if cbc then 2 else 1 :: 16 word) AND 2 \<noteq> 0) = cbc" and d: "16 * N div 16 = N"
    by simp_all
  have m16: "(32 + length (padded m)) mod 16 = 0"
    using length_padded(2) [of m] by (simp add: mod_add_eq [of 32 16, symmetric])
  show ?thesis
  proof (cases "pad_len (length m) = 0")
    case True
    then have "f = 0" "padded m = m"
      by (simp_all add: f_def padded_def pad_bytes_def)
    then show ?thesis
      unfolding oaes_decrypt_def msg Let_def option.case len md hd ivm opt c d loop using m16 assms(1,6) N True
      by (simp add: ys_def)
  next
    case False
    then have "f = 1" "0 < N" "padded m \<noteq> []"
      using N length_padded(1) [of m] by (auto simp: f_def)
    then show ?thesis
      unfolding oaes_decrypt_def msg Let_def option.case len md hd ivm opt c d loop using m16 assms(1,6) N remove_padding [OF False, of ys]
      by (simp add: ys_def)
  qed
qed

end
