(* ===== verification/Aesb.thy ===== *)
theory Aesb
  imports Oaes_Correct
begin

text \<open>
  The AES rounds of \<^verbatim>\<open>aesb.c\<close>, with the four tables the macros make from the S-box at compile
  time. The byte arrays are read and written as arrays of \<^verbatim>\<open>uint32_t\<close>, on a little-endian machine
  (the one the project is built for). The constants of the macros are non-negative \<^verbatim>\<open>int\<close>s of at
  most ten bits: they are held in 32-bit words.
\<close>

section \<open>The tables\<close>

definition sb_data :: "(u32 \<Rightarrow> u32) \<Rightarrow> u32 list" where
  "sb_data w = map w
    [0x63, 0x7c, 0x77, 0x7b, 0xf2, 0x6b, 0x6f, 0xc5, 0x30, 0x01, 0x67, 0x2b, 0xfe, 0xd7, 0xab, 0x76,
     0xca, 0x82, 0xc9, 0x7d, 0xfa, 0x59, 0x47, 0xf0, 0xad, 0xd4, 0xa2, 0xaf, 0x9c, 0xa4, 0x72, 0xc0,
     0xb7, 0xfd, 0x93, 0x26, 0x36, 0x3f, 0xf7, 0xcc, 0x34, 0xa5, 0xe5, 0xf1, 0x71, 0xd8, 0x31, 0x15,
     0x04, 0xc7, 0x23, 0xc3, 0x18, 0x96, 0x05, 0x9a, 0x07, 0x12, 0x80, 0xe2, 0xeb, 0x27, 0xb2, 0x75,
     0x09, 0x83, 0x2c, 0x1a, 0x1b, 0x6e, 0x5a, 0xa0, 0x52, 0x3b, 0xd6, 0xb3, 0x29, 0xe3, 0x2f, 0x84,
     0x53, 0xd1, 0x00, 0xed, 0x20, 0xfc, 0xb1, 0x5b, 0x6a, 0xcb, 0xbe, 0x39, 0x4a, 0x4c, 0x58, 0xcf,
     0xd0, 0xef, 0xaa, 0xfb, 0x43, 0x4d, 0x33, 0x85, 0x45, 0xf9, 0x02, 0x7f, 0x50, 0x3c, 0x9f, 0xa8,
     0x51, 0xa3, 0x40, 0x8f, 0x92, 0x9d, 0x38, 0xf5, 0xbc, 0xb6, 0xda, 0x21, 0x10, 0xff, 0xf3, 0xd2,
     0xcd, 0x0c, 0x13, 0xec, 0x5f, 0x97, 0x44, 0x17, 0xc4, 0xa7, 0x7e, 0x3d, 0x64, 0x5d, 0x19, 0x73,
     0x60, 0x81, 0x4f, 0xdc, 0x22, 0x2a, 0x90, 0x88, 0x46, 0xee, 0xb8, 0x14, 0xde, 0x5e, 0x0b, 0xdb,
     0xe0, 0x32, 0x3a, 0x0a, 0x49, 0x06, 0x24, 0x5c, 0xc2, 0xd3, 0xac, 0x62, 0x91, 0x95, 0xe4, 0x79,
     0xe7, 0xc8, 0x37, 0x6d, 0x8d, 0xd5, 0x4e, 0xa9, 0x6c, 0x56, 0xf4, 0xea, 0x65, 0x7a, 0xae, 0x08,
     0xba, 0x78, 0x25, 0x2e, 0x1c, 0xa6, 0xb4, 0xc6, 0xe8, 0xdd, 0x74, 0x1f, 0x4b, 0xbd, 0x8b, 0x8a,
     0x70, 0x3e, 0xb5, 0x66, 0x48, 0x03, 0xf6, 0x0e, 0x61, 0x35, 0x57, 0xb9, 0x86, 0xc1, 0x1d, 0x9e,
     0xe1, 0xf8, 0x98, 0x11, 0x69, 0xd9, 0x8e, 0x94, 0x9b, 0x1e, 0x87, 0xe9, 0xce, 0x55, 0x28, 0xdf,
     0x8c, 0xa1, 0x89, 0x0d, 0xbf, 0xe6, 0x42, 0x68, 0x41, 0x99, 0x2d, 0x0f, 0xb0, 0x54, 0xbb, 0x16]"

definition bytes2word :: "u32 \<Rightarrow> u32 \<Rightarrow> u32 \<Rightarrow> u32 \<Rightarrow> u32" where
  "bytes2word b0 b1 b2 b3 = push_bit 24 b3 OR push_bit 16 b2 OR push_bit 8 b1 OR b0"

definition f2 :: "u32 \<Rightarrow> u32" where
  "f2 x = push_bit 1 x XOR ((drop_bit 7 x AND 1) * 0x011b)"

definition f3 :: "u32 \<Rightarrow> u32" where
  "f3 x = f2 x XOR x"

definition u0 :: "u32 \<Rightarrow> u32" where
  "u0 p = bytes2word (f2 p) p p (f3 p)"

definition u1 :: "u32 \<Rightarrow> u32" where
  "u1 p = bytes2word (f3 p) (f2 p) p p"

definition u2 :: "u32 \<Rightarrow> u32" where
  "u2 p = bytes2word p (f3 p) (f2 p) p"

definition u3 :: "u32 \<Rightarrow> u32" where
  "u3 p = bytes2word p p (f3 p) (f2 p)"

definition t_fn :: "u32 list list" where
  "t_fn = [sb_data u0, sb_data u1, sb_data u2, sb_data u3]"

section \<open>Rounds\<close>

definition word_in :: "byte list \<Rightarrow> nat \<Rightarrow> u32" where
  "word_in x c = bytes2word (ucast (x ! (4 * c))) (ucast (x ! (4 * c + 1))) (ucast (x ! (4 * c + 2))) (ucast (x ! (4 * c + 3)))"

definition bval :: "u32 \<Rightarrow> nat \<Rightarrow> u32" where
  "bval x n = drop_bit (8 * n) x AND 0xff"

definition word_out :: "u32 \<Rightarrow> byte list" where
  "word_out v = [ucast v, ucast (drop_bit 8 v), ucast (drop_bit 16 v), ucast (drop_bit 24 v)]"

definition fwd_var :: "u32 list \<Rightarrow> nat \<Rightarrow> nat \<Rightarrow> u32" where
  "fwd_var x r c =
    (if r = 0 then (if c = 0 then x ! 0 else if c = 1 then x ! 1 else if c = 2 then x ! 2 else x ! 3)
     else if r = 1 then (if c = 0 then x ! 1 else if c = 1 then x ! 2 else if c = 2 then x ! 3 else x ! 0)
     else if r = 2 then (if c = 0 then x ! 2 else if c = 1 then x ! 3 else if c = 2 then x ! 0 else x ! 1)
     else (if c = 0 then x ! 3 else if c = 1 then x ! 0 else if c = 2 then x ! 1 else x ! 2))"

definition four_tables :: "u32 list \<Rightarrow> nat \<Rightarrow> u32" where
  "four_tables x c =
    t_fn ! 0 ! unat (bval (fwd_var x 0 c) 0) XOR
    t_fn ! 1 ! unat (bval (fwd_var x 1 c) 1) XOR
    t_fn ! 2 ! unat (bval (fwd_var x 2 c) 2) XOR
    t_fn ! 3 ! unat (bval (fwd_var x 3 c) 3)"

definition fwd_rnd :: "u32 list \<Rightarrow> u32 list \<Rightarrow> nat \<Rightarrow> u32" where
  "fwd_rnd x k c = k ! c XOR four_tables x c"

text \<open>The macro \<^verbatim>\<open>round(fwd_rnd, y, x, k)\<close>: the new value of \<^verbatim>\<open>y\<close>.\<close>

definition round_fwd :: "u32 list \<Rightarrow> u32 list \<Rightarrow> u32 list" where
  "round_fwd x k = [fwd_rnd x k 0, fwd_rnd x k 1, fwd_rnd x k 2, fwd_rnd x k 3]"

definition state_in :: "byte list \<Rightarrow> u32 list" where
  "state_in x = [word_in x 0, word_in x 1, word_in x 2, word_in x 3]"

definition state_out :: "u32 list \<Rightarrow> byte list" where
  "state_out x = word_out (x ! 0) @ word_out (x ! 1) @ word_out (x ! 2) @ word_out (x ! 3)"

definition aesb_single_round :: "byte list \<Rightarrow> byte list \<Rightarrow> byte list" where
  "aesb_single_round inp expandedKey =
    (let kp = map (word_in expandedKey) [0..<4];
         b0 = state_in inp;
         b1 = round_fwd b0 kp
     in state_out b1)"

definition aesb_pseudo_round :: "byte list \<Rightarrow> byte list \<Rightarrow> byte list" where
  "aesb_pseudo_round inp expandedKey =
    (let kp = map (word_in expandedKey) [0..<40];
         b0 = state_in inp;
         b1 = round_fwd b0 kp;
         b0 = round_fwd b1 (drop (1 * 4) kp);
         b1 = round_fwd b0 (drop (2 * 4) kp);
         b0 = round_fwd b1 (drop (3 * 4) kp);
         b1 = round_fwd b0 (drop (4 * 4) kp);
         b0 = round_fwd b1 (drop (5 * 4) kp);
         b1 = round_fwd b0 (drop (6 * 4) kp);
         b0 = round_fwd b1 (drop (7 * 4) kp);
         b1 = round_fwd b0 (drop (8 * 4) kp);
         b0 = round_fwd b1 (drop (9 * 4) kp)
     in state_out b0)"

section \<open>The tables combine the S-box and the mixing of columns\<close>

definition le32 :: "byte \<Rightarrow> byte \<Rightarrow> byte \<Rightarrow> byte \<Rightarrow> u32" where
  "le32 a b c d = bytes2word (ucast a) (ucast b) (ucast c) (ucast d)"

lemma bit_le32:
  "bit (le32 a b c d) n \<longleftrightarrow>
    (if n < 8 then bit a n else if n < 16 then bit b (n - 8) else if n < 24 then bit c (n - 16) else n < 32 \<and> bit d (n - 24))"
  by (auto simp: le32_def bytes2word_def bit_simps dest: bit_imp_le_length)

lemma xor_le32: "le32 a b c d XOR le32 a' b' c' d' = le32 (a XOR a') (b XOR b') (c XOR c') (d XOR d')"
  by (rule bit_word_eqI) (simp add: bit_xor_iff bit_le32)

lemma bval_le32:
  "bval (le32 a b c d) 0 = ucast a" "bval (le32 a b c d) 1 = ucast b"
  "bval (le32 a b c d) 2 = ucast c" "bval (le32 a b c d) 3 = ucast d"
proof -
  have m: "x AND 0xff = take_bit 8 x" for x :: u32
    by (simp add: take_bit_eq_mask mask_eq_exp_minus_1)
  show "bval (le32 a b c d) 0 = ucast a" "bval (le32 a b c d) 1 = ucast b"
    "bval (le32 a b c d) 2 = ucast c" "bval (le32 a b c d) 3 = ucast d"
    unfolding bval_def m
    by (rule bit_word_eqI; auto simp: bit_take_bit_iff bit_drop_bit_eq bit_le32 bit_ucast_iff dest: bit_imp_le_length)+
qed

lemma word_out_le32: "word_out (le32 a b c d) = [a, b, c, d]"
  by (auto simp: word_out_def bit_ucast_iff bit_drop_bit_eq bit_le32 intro!: bit_word_eqI)

lemma f2_xtime: "f2 (ucast x) = ucast (xtime x)" for x :: byte
proof -
  have "map (\<lambda>x. f2 (ucast x)) bytes256 = map (\<lambda>x. ucast (xtime x)) bytes256"
    unfolding bytes256_def by (simp add: f2_def xtime_def)
  then have "\<forall>x\<in>set bytes256. f2 (ucast x) = ucast (xtime x)"
    by simp
  moreover have "x \<in> set bytes256"
    using byte_index [of x] nth_mem [of "unat x" bytes256] by (simp add: bytes256_nth bytes256_eq del: upt_rec_numeral)
  ultimately show ?thesis by simp
qed

lemma f3_times3: "f3 (ucast x) = ucast (times3 x)" for x :: byte
  by (simp add: f3_def times3_def f2_xtime unsigned_xor_eq)

lemma tables_le32:
  fixes x :: byte
  shows "u0 (ucast x) = le32 (xtime x) x x (times3 x)" "u1 (ucast x) = le32 (times3 x) (xtime x) x x"
    "u2 (ucast x) = le32 x (times3 x) (xtime x) x" "u3 (ucast x) = le32 x x (times3 x) (xtime x)"
  by (simp_all add: u0_def u1_def u2_def u3_def le32_def f2_xtime f3_times3)

lemma sb_data_sbox: "sb_data w ! unat (ucast x :: u32) = w (ucast (aes_sbox x))" for x :: byte
proof -
  have "sb_data w = map (\<lambda>x. w (ucast x)) (concat oaes_sub_byte_value)"
    by (simp add: sb_data_def oaes_sub_byte_value_def)
  moreover have "length (concat oaes_sub_byte_value) = 256"
    by (simp add: oaes_sub_byte_value_def)
  moreover have "unat (ucast x :: u32) = unat x"
    using byte_index [of x] by (simp add: unsigned_ucast_eq take_bit_nat_eq_self)
  ultimately show ?thesis
    using byte_index [of x] by (simp add: oaes_sub_byte_nth flip: oaes_sub_byte_eq)
qed

section \<open>A round on words is the round on bytes\<close>

lemma word_in_le32: "word_in x c = le32 (x ! (4 * c)) (x ! (4 * c + 1)) (x ! (4 * c + 2)) (x ! (4 * c + 3))"
  by (simp add: word_in_def le32_def)

definition words_of :: "byte list \<Rightarrow> u32 list" where
  "words_of s = map (word_in s) [0..<4]"

lemma words_of_list: "words_of s = [word_in s 0, word_in s 1, word_in s 2, word_in s 3]"
  unfolding words_of_def upt_4 by simp

lemma state_out_words: "length s = 16 \<Longrightarrow> state_out (words_of s) = s"
proof -
  assume "length s = 16"
  then have "s = map ((!) s) [0..<16]"
    using map_nth [of s] by metis
  also have "\<dots> = state_out (words_of s)"
    unfolding upt_16_list words_of_list by (simp add: state_out_def word_in_le32 word_out_le32) (simp add: numeral_eq_Suc)
  finally show ?thesis by simp
qed

lemma aes_round_list:
  fixes k s
  defines "t \<equiv> \<lambda>i. aes_sbox (s ! i)"
  assumes "length s = 16" "length k = 16"
  shows "aes_round k s =
    [xtime (t 0) XOR times3 (t 5) XOR t 10 XOR t 15 XOR k ! 0, t 0 XOR xtime (t 5) XOR times3 (t 10) XOR t 15 XOR k ! 1,
     t 0 XOR t 5 XOR xtime (t 10) XOR times3 (t 15) XOR k ! 2, times3 (t 0) XOR t 5 XOR t 10 XOR xtime (t 15) XOR k ! 3,
     xtime (t 4) XOR times3 (t 9) XOR t 14 XOR t 3 XOR k ! 4, t 4 XOR xtime (t 9) XOR times3 (t 14) XOR t 3 XOR k ! 5,
     t 4 XOR t 9 XOR xtime (t 14) XOR times3 (t 3) XOR k ! 6, times3 (t 4) XOR t 9 XOR t 14 XOR xtime (t 3) XOR k ! 7,
     xtime (t 8) XOR times3 (t 13) XOR t 2 XOR t 7 XOR k ! 8, t 8 XOR xtime (t 13) XOR times3 (t 2) XOR t 7 XOR k ! 9,
     t 8 XOR t 13 XOR xtime (t 2) XOR times3 (t 7) XOR k ! 10, times3 (t 8) XOR t 13 XOR t 2 XOR xtime (t 7) XOR k ! 11,
     xtime (t 12) XOR times3 (t 1) XOR t 6 XOR t 11 XOR k ! 12, t 12 XOR xtime (t 1) XOR times3 (t 6) XOR t 11 XOR k ! 13,
     t 12 XOR t 1 XOR xtime (t 6) XOR times3 (t 11) XOR k ! 14, times3 (t 12) XOR t 1 XOR t 6 XOR xtime (t 11) XOR k ! 15]"
proof -
  have k: "k = map ((!) k) [0..<16]"
    using map_nth [of k] assms(3) by metis
  have m: "mix_column [a, b, c, d] =
      [xtime a XOR times3 b XOR c XOR d, a XOR xtime b XOR times3 c XOR d,
       a XOR b XOR xtime c XOR times3 d, times3 a XOR b XOR c XOR xtime d]" for a b c d
    unfolding mix_column_def upt_4 by (simp add: xor_ac)
  have sh: "shift_rows (sub_bytes s) =
      [t 0, t 5, t 10, t 15, t 4, t 9, t 14, t 3, t 8, t 13, t 2, t 7, t 12, t 1, t 6, t 11]"
    unfolding shift_rows_def upt_16_list by (simp add: sub_bytes_def assms(2) t_def)
  have "mix_columns (shift_rows (sub_bytes s)) =
      mix_column [t 0, t 5, t 10, t 15] @ mix_column [t 4, t 9, t 14, t 3] @ mix_column [t 8, t 13, t 2, t 7] @
      mix_column [t 12, t 1, t 6, t 11]"
    unfolding mix_columns_def sh upt_4 by simp
  then show ?thesis
    unfolding aes_round_def m by (subst k, unfold upt_16_list) (simp add: xor_bytes_def xor.assoc)
qed

lemma round_fwd_eq:
  assumes "length s = 16" "length k = 16"
  shows "round_fwd (words_of s) (words_of k) = words_of (aes_round k s)"
  unfolding aes_round_list [OF assms] words_of_list round_fwd_def fwd_rnd_def four_tables_def t_fn_def fwd_var_def
  by (simp add: word_in_le32 bval_le32 bval_le32(2) [unfolded One_nat_def] sb_data_sbox tables_le32 xor_le32)
    (simp add: xor_ac numeral_2_eq_2)

definition key_block :: "byte list \<Rightarrow> nat \<Rightarrow> byte list" where
  "key_block key j = take 16 (drop (16 * j) key)"

lemma round_fwd_key:
  assumes "j < n" "16 * n \<le> length key" "length s = 16"
  shows "round_fwd (words_of s) (drop (j * 4) (map (word_in key) [0..<4 * n])) = words_of (aes_round (key_block key j) s)"
proof -
  have w: "word_in key (j * 4 + c) = word_in (key_block key j) c" if "c < 4" for c
    using that assms(1,2) by (simp add: word_in_def key_block_def ac_simps)
  have "drop (j * 4) (map (word_in key) [0..<4 * n]) ! c = words_of (key_block key j) ! c" if "c < 4" for c
    using that assms(1) w [OF that] by (simp add: words_of_def)
  then have "round_fwd (words_of s) (drop (j * 4) (map (word_in key) [0..<4 * n])) = round_fwd (words_of s) (words_of (key_block key j))"
    by (simp add: round_fwd_def fwd_rnd_def)
  also have "\<dots> = words_of (aes_round (key_block key j) s)"
    using assms by (intro round_fwd_eq) (simp_all add: key_block_def)
  finally show ?thesis .
qed

lemma length_aes_round: "length k = 16 \<Longrightarrow> length (aes_round k s) = 16"
  by (simp add: aes_round_def)

lemma state_in_words: "state_in s = words_of s"
  by (simp add: state_in_def words_of_list)

lemma single_round_eq:
  assumes "length s = 16" "16 \<le> length key"
  shows "aesb_single_round s key = aes_round (take 16 key) s"
proof -
  have "round_fwd (words_of s) (map (word_in key) [0..<4]) = words_of (aes_round (take 16 key) s)"
    using round_fwd_key [of 0 1 key s] assms by (simp add: key_block_def)
  then show ?thesis
    using assms by (simp add: aesb_single_round_def state_in_words state_out_words length_aes_round)
qed

lemma pseudo_rounds:
  assumes "length s = 16" "16 * n \<le> length key" "j \<le> n"
  shows "length (fold (\<lambda>j. aes_round (key_block key j)) [0..<j] s) = 16 \<and>
    words_of (fold (\<lambda>j. aes_round (key_block key j)) [0..<j] s) =
      fold (\<lambda>j x. round_fwd x (drop (j * 4) (map (word_in key) [0..<4 * n]))) [0..<j] (words_of s)"
  using assms(3)
proof (induction j)
  case (Suc j)
  then have "length (key_block key j) = 16"
    using assms(2) by (simp add: key_block_def)
  then show ?case
    using Suc round_fwd_key [of j n key "fold (\<lambda>j. aes_round (key_block key j)) [0..<j] s"] assms(2)
    by (simp add: length_aes_round)
qed (simp add: assms(1))

lemma pseudo_round_eq:
  assumes "length s = 16" "160 \<le> length key"
  shows "aesb_pseudo_round s key = fold (\<lambda>j. aes_round (key_block key j)) [0..<10] s"
proof -
  have u: "[0..<10] = [0, 1, 2, 3, 4, 5, 6, 7, 8, 9]"
    by code_simp
  have "aesb_pseudo_round s key =
      state_out (fold (\<lambda>j x. round_fwd x (drop (j * 4) (map (word_in key) [0..<4 * 10]))) [0..<10] (words_of s))"
    unfolding aesb_pseudo_round_def u Let_def state_in_words by (simp del: upt_rec_numeral)
  also have "\<dots> = state_out (words_of (fold (\<lambda>j. aes_round (key_block key j)) [0..<10] s))"
    using pseudo_rounds [OF assms(1), of 10 key 10] assms(2) by simp
  also have "\<dots> = fold (\<lambda>j. aes_round (key_block key j)) [0..<10] s"
    using pseudo_rounds [OF assms(1), of 10 key 10] assms(2) by (intro state_out_words) simp
  finally show ?thesis .
qed

end
