(* ===== verification/Aes_Properties.thy ===== *)
theory Aes_Properties
  imports Oaes_Message Aesb
begin

text \<open>
  The properties of the AES code: \<^verbatim>\<open>oaes_lib.c\<close> and \<^verbatim>\<open>aesb.c\<close> against FIPS 197.
\<close>

lemma import_data_success:
  assumes "length K \<in> {16, 24, 32}"
  shows "oaes_key_import_data True True True (Some c) (Some K) (length K) = (OAES_RET_SUCCESS, Some (c\<lparr>c_key := Some (expanded K)\<rparr>))"
  using assms set_key_cases [OF assms, of True True True c] by (auto simp: oaes_key_import_data_def)

definition sample_key :: "byte list" where
  "sample_key = replicate 16 7"

definition sample_ctx :: oaes_ctx where
  "sample_ctx = \<lparr>c_key = None, c_options = 2, c_iv = replicate 16 9\<rparr>"

text \<open>
  C30: after a successful import of a key of 16, 24 or 32 bytes, the block functions of the library
  are the AES cipher of FIPS 197 for that key, with its key schedule, and its inverse.
\<close>

theorem oaes_block_correct:
  assumes "length K \<in> {16, 24, 32}" and "length s = 16"
  shows "\<exists>x. oaes_key_import_data True True True (Some c) (Some K) (length K) = (OAES_RET_SUCCESS, Some x) \<and>
    oaes_encrypt_block (Some x) (Some s) 16 = (OAES_RET_SUCCESS, Some (aes_cipher K s)) \<and>
    oaes_decrypt_block (Some x) (Some (aes_cipher K s)) 16 = (OAES_RET_SUCCESS, Some s)"
  using import_data_success [OF assms(1), of c] decrypt_encrypt(1) [OF good_expanded [OF assms(1)] assms(2)]
    encrypt_cipher [OF assms(1), of s]
  by (intro exI [of _ "c\<lparr>c_key := Some (expanded K)\<rparr>"]) (simp add: oaes_encrypt_block_def oaes_decrypt_block_def)

theorem oaes_block_correct_witness:
  "\<exists>x. oaes_key_import_data True True True (Some sample_ctx) (Some sample_key) 16 = (OAES_RET_SUCCESS, Some x) \<and>
    oaes_encrypt_block (Some x) (Some (replicate 16 3)) 16 = (OAES_RET_SUCCESS, Some (aes_cipher sample_key (replicate 16 3))) \<and>
    oaes_decrypt_block (Some x) (Some (aes_cipher sample_key (replicate 16 3))) 16 = (OAES_RET_SUCCESS, Some (replicate 16 3))"
  using oaes_block_correct [of sample_key "replicate 16 3" sample_ctx] by (simp add: sample_key_def)

text \<open>
  C31: what \<^verbatim>\<open>oaes_encrypt\<close> writes in a large enough buffer, \<^verbatim>\<open>oaes_decrypt\<close> reads back to the
  message, with any context that holds the same key: it takes mode, initialization vector and
  padding from the header. Both succeed; the lengths they report are those of the cipher text and
  of the message.
\<close>

theorem oaes_message_roundtrip:
  assumes "c_key x = Some k" "c_key y = Some k" "good_key k" "length (c_iv x) = 16" "c_options x = 1 \<or> c_options x = 2"
    and "n = 32 + length (padded m)" "n \<le> length c" "n \<le> l" "n < 2 ^ 64"
    and "length (padded m) \<le> length md" "length (padded m) \<le> l2"
  shows "\<exists>x' c' md'. oaes_encrypt (Some x) (Some m) (length m) (Some c) (Some l) = (OAES_RET_SUCCESS, Some x', Some c', Some n) \<and>
    oaes_decrypt (Some y) (Some (take n c')) n (Some md) (Some l2) = Some (OAES_RET_SUCCESS, Some md', Some (length m)) \<and>
    take (length m) md' = m"
proof -
  obtain cbc where cbc: "c_options x = (if cbc then 2 else 1)"
    using assms(5) by metis
  have n: "length (padded m) + 32 < 2 ^ 64"
    using assms(6,9) by simp
  show ?thesis
    using encrypt_message [OF assms(1,3,4) cbc assms(6,7,8)] decrypt_message [OF assms(2-4) n assms(10,11), of cbc]
      length_message [OF assms(3,4), of cbc m] assms(6) by auto
qed

theorem oaes_message_roundtrip_witness:
  "\<exists>x' c' md'. oaes_encrypt (Some (sample_ctx\<lparr>c_key := Some (expanded sample_key)\<rparr>)) (Some [1, 2, 3]) 3
      (Some (replicate 48 0)) (Some 48) = (OAES_RET_SUCCESS, Some x', Some c', Some 48) \<and>
    oaes_decrypt (Some (sample_ctx\<lparr>c_key := Some (expanded sample_key)\<rparr>)) (Some (take 48 c')) 48
      (Some (replicate 16 0)) (Some 16) = Some (OAES_RET_SUCCESS, Some md', Some 3) \<and>
    take 3 md' = [1, 2, 3]"
proof -
  have "good_key (expanded sample_key)"
    by (rule good_expanded) (simp add: sample_key_def)
  moreover have "length (padded [1, 2, 3]) = 16"
    by (simp add: length_padded(1) pad_len_def)
  ultimately show ?thesis
    using oaes_message_roundtrip [of "sample_ctx\<lparr>c_key := Some (expanded sample_key)\<rparr>" "expanded sample_key"
        "sample_ctx\<lparr>c_key := Some (expanded sample_key)\<rparr>" 48 "[1, 2, 3]" "replicate 48 0" 48 "replicate 16 0" 16]
    by (simp add: sample_ctx_def numeral_3_eq_3)
qed

text \<open>A key as \<^verbatim>\<open>oaes_key_export\<close> writes it: a header of 16 bytes and the key.\<close>

definition key_file :: "byte list \<Rightarrow> bool" where
  "key_file d \<longleftrightarrow> 16 \<le> length d \<and> take 6 d = [0x4f, 0x41, 0x45, 0x53, 0x01, 0x01] \<and> unat (d ! 7) \<in> {16, 24, 32} \<and>
    length d = 16 + unat (d ! 7)"

lemma key_file_header:
  assumes "32 \<le> length d"
  shows "take 6 d = [0x4f, 0x41, 0x45, 0x53, 0x01, 0x01] \<longleftrightarrow> take 4 d = take 4 oaes_header \<and> d ! 4 = 0x01 \<and> d ! 5 = 0x01"
proof -
  have "take (Suc 5) d = take 5 d @ [d ! 5]" "take (Suc 4) d = take 4 d @ [d ! 4]"
    using assms by (intro take_Suc_conv_app_nth; simp)+
  then have "take 6 d = take 4 d @ [d ! 4, d ! 5]"
    by simp
  then show ?thesis
    by (auto simp: oaes_header_def append_eq_append_conv [where ys = "[0x4f, 0x41, 0x45, 0x53]"])
qed

lemma import_cases:
  assumes "length d = n"
  shows "oaes_key_import m1 m2 m3 (Some c) (Some d) n =
    (if key_file d then
       if m1 \<and> m2 \<and> m3 then (OAES_RET_SUCCESS, Some (c\<lparr>c_key := Some (expanded (drop 16 d))\<rparr>))
       else (if m1 \<and> m2 then OAES_RET_UNKNOWN else OAES_RET_MEM, Some (c\<lparr>c_key := None\<rparr>))
     else if n \<notin> {32, 40, 48} \<or> (take 6 d = [0x4f, 0x41, 0x45, 0x53, 0x01, 0x01] \<and> unat (d ! 7) \<in> {16, 24, 32}) then (OAES_RET_ARG3, Some c)
     else (OAES_RET_HEADER, Some c))"
proof (cases "n \<in> {32, 40, 48}")
  case False
  then have "\<not> key_file d"
    using assms by (auto simp: key_file_def)
  then show ?thesis
    using False by (simp add: oaes_key_import_def)
next
  case True
  note hdr = key_file_header [of d]
  have n: "n = 16 + 16 \<or> n = 24 + 16 \<or> n = 32 + 16" "32 \<le> length d"
    using True assms by auto
  show ?thesis
  proof (cases "take 6 d = [0x4f, 0x41, 0x45, 0x53, 0x01, 0x01] \<and> unat (d ! 7) \<in> {16, 24, 32}")
    case False
    then have "\<not> key_file d"
      by (auto simp: key_file_def)
    then show ?thesis
      using False True n hdr by (simp add: oaes_key_import_def Let_def)
  next
    case H: True
    then have kl: "unat (d ! 7) \<noteq> 16 \<and> unat (d ! 7) \<noteq> 24 \<and> unat (d ! 7) \<noteq> 32 \<longleftrightarrow> False" and
      h: "take 4 d = take 4 oaes_header" "d ! 4 = 1" "d ! 5 = 1"
      using hdr n by auto
    show ?thesis
    proof (cases "n = unat (d ! 7) + 16")
      case True
      then have "key_file d" and l: "length (drop 16 d) \<in> {16, 24, 32}" "take (unat (d ! 7)) (drop 16 d) = drop 16 d"
        using H assms n by (auto simp: key_file_def)
      then show ?thesis
        using True n h kl l(2) by (simp add: oaes_key_import_def Let_def set_key_cases [OF l(1)])
    next
      case False
      then have "\<not> key_file d"
        using assms by (auto simp: key_file_def)
      then show ?thesis
        using False n h kl H by (simp add: oaes_key_import_def Let_def)
    qed
  qed
qed

lemma export_file:
  assumes "length K \<in> {16, 24, 32}" and "length b = 16 + length K" "16 + length K \<le> l"
  shows "\<exists>d. oaes_key_export (Some (c\<lparr>c_key := Some (expanded K)\<rparr>)) (Some b) (Some l) = (OAES_RET_SUCCESS, Some d, Some (16 + length K)) \<and>
    key_file d \<and> drop 16 d = K \<and> length d = 16 + length K"
proof -
  have "length oaes_header = 16"
    by (simp add: oaes_header_def)
  then have 1: "put 0 oaes_header b = oaes_header @ drop 16 b"
    by (simp add: put_def)
  define h where "h = (oaes_header[5 := 0x01])[7 := of_nat (length K)]"
  have h: "length h = 16" "take 6 h = [0x4f, 0x41, 0x45, 0x53, 0x01, 0x01]" "h ! 7 = of_nat (length K)"
    by (simp_all add: h_def oaes_header_def)
  have "((oaes_header @ drop 16 b)[5 := 0x01])[7 := of_nat (length K)] = h @ drop 16 b"
    by (simp add: h_def oaes_header_def)
  moreover have "put 16 K (h @ drop 16 b) = h @ K"
    using assms(2) h(1) by (simp add: put_append)
  ultimately have "oaes_key_export (Some (c\<lparr>c_key := Some (expanded K)\<rparr>)) (Some b) (Some l) = (OAES_RET_SUCCESS, Some (h @ K), Some (16 + length K))"
    using assms 1 by (simp add: oaes_key_export_def expanded_def Let_def add.commute)
  moreover have "unat ((h @ K) ! 7) = length K"
    using h assms(1) by (auto simp: nth_append)
  then have "key_file (h @ K)"
    using h assms(1) by (simp add: key_file_def)
  ultimately show ?thesis
    using h by auto
qed

text \<open>
  C32: a key file is imported exactly when its header, its length byte and its size agree and memory
  is available; then the context holds the expanded key. A bad file leaves the context as it was;
  a failure of memory leaves it without a key. What \<^verbatim>\<open>oaes_key_export\<close> writes imports as the same key.
\<close>

theorem oaes_key_file_correct:
  assumes "length d = n" and "oaes_key_import m1 m2 m3 (Some c) (Some d) n = (r, x)"
    and "length K \<in> {16, 24, 32}" "length b = 16 + length K" "16 + length K \<le> l"
  shows "(r = OAES_RET_SUCCESS \<longleftrightarrow> key_file d \<and> m1 \<and> m2 \<and> m3) \<and>
    (r = OAES_RET_SUCCESS \<longrightarrow> x = Some (c\<lparr>c_key := Some (expanded (drop 16 d))\<rparr>)) \<and>
    (\<not> key_file d \<longrightarrow> r \<in> {OAES_RET_ARG3, OAES_RET_HEADER} \<and> x = Some c) \<and>
    (key_file d \<and> \<not> (m1 \<and> m2 \<and> m3) \<longrightarrow> r \<in> {OAES_RET_MEM, OAES_RET_UNKNOWN} \<and> x = Some (c\<lparr>c_key := None\<rparr>)) \<and>
    (\<exists>e. oaes_key_export (Some (c\<lparr>c_key := Some (expanded K)\<rparr>)) (Some b) (Some l) = (OAES_RET_SUCCESS, Some e, Some (16 + length K)) \<and>
      oaes_key_import True True True (Some c) (Some e) (16 + length K) = (OAES_RET_SUCCESS, Some (c\<lparr>c_key := Some (expanded K)\<rparr>)))"
proof -
  obtain e where e: "oaes_key_export (Some (c\<lparr>c_key := Some (expanded K)\<rparr>)) (Some b) (Some l) = (OAES_RET_SUCCESS, Some e, Some (16 + length K))"
    "key_file e" "drop 16 e = K" "length e = 16 + length K"
    using export_file [OF assms(3-5), of c] by auto
  have "oaes_key_import True True True (Some c) (Some e) (16 + length K) = (OAES_RET_SUCCESS, Some (c\<lparr>c_key := Some (expanded K)\<rparr>))"
    using import_cases [OF e(4), of True True True c] e(2,3) by simp
  with e(1) show ?thesis
    using import_cases [OF assms(1), of m1 m2 m3 c] assms(2) by (auto split: if_splits)
qed

theorem oaes_key_file_correct_witness:
  "oaes_key_import True True True (Some sample_ctx) (Some [1]) 1 = (OAES_RET_ARG3, Some sample_ctx) \<and>
    (\<exists>e. oaes_key_export (Some (sample_ctx\<lparr>c_key := Some (expanded sample_key)\<rparr>)) (Some (replicate 32 0)) (Some 32) = (OAES_RET_SUCCESS, Some e, Some 32) \<and>
      oaes_key_import True True True (Some sample_ctx) (Some e) 32 = (OAES_RET_SUCCESS, Some (sample_ctx\<lparr>c_key := Some (expanded sample_key)\<rparr>)))"
proof -
  have "oaes_key_import True True True (Some sample_ctx) (Some [1]) 1 = (OAES_RET_ARG3, Some sample_ctx)"
    by (simp add: oaes_key_import_def)
  then show ?thesis
    using oaes_key_file_correct [of "[1]" 1 True True True sample_ctx _ _ sample_key "replicate 32 0" 32] by (simp add: sample_key_def)
qed

text \<open>
  C33: the rounds of \<^verbatim>\<open>aesb.c\<close>, made of 32-bit table lookups, are the round of AES on bytes with the
  16 bytes of the key at the address given; \<^verbatim>\<open>aesb_pseudo_round\<close> makes the ten rounds of
  \<^verbatim>\<open>oaes_pseudo_encrypt_ecb\<close> with an expanded key.
\<close>

theorem aesb_rounds_correct:
  assumes "length s = 16" and "160 \<le> length key" and "k_exp_data k = key" "c_key x = Some k"
  shows "aesb_single_round s key = aes_round (take 16 key) s \<and>
    oaes_encryption_round (Some key) (Some s) = (OAES_RET_SUCCESS, Some (aesb_single_round s key)) \<and>
    aesb_pseudo_round s key = fold (\<lambda>j. aes_round (take 16 (drop (16 * j) key))) [0..<10] s \<and>
    oaes_pseudo_encrypt_ecb (Some x) (Some s) = (OAES_RET_SUCCESS, Some (aesb_pseudo_round s key))"
proof -
  have "fold (\<lambda>i c. snd (oaes_encryption_round (Some (drop (i * 4 * 4) key)) c)) js (Some s) =
      Some (fold (\<lambda>j. aes_round (take 16 (drop (16 * j) key))) js s)" for js
    by (induction js arbitrary: s) (simp_all add: oaes_encryption_round_eq ac_simps)
  then show ?thesis
    using single_round_eq [OF assms(1), of key] pseudo_round_eq [OF assms(1,2)] assms(2-4)
    by (simp add: oaes_encryption_round_eq oaes_pseudo_encrypt_ecb_def key_block_def del: upt_rec_numeral)
qed

theorem aesb_rounds_correct_witness:
  "aesb_single_round (replicate 16 5) (replicate 160 1) = aes_round (replicate 16 1) (replicate 16 5)"
  using aesb_rounds_correct [of "replicate 16 5" "replicate 160 1" "(expanded sample_key)\<lparr>k_exp_data := replicate 160 1\<rparr>"
      "sample_ctx\<lparr>c_key := Some ((expanded sample_key)\<lparr>k_exp_data := replicate 160 1\<rparr>)\<rparr>"] by simp

end
