(* ===== verification/Mul128.thy ===== *)
theory Mul128
  imports Keccak
begin

text \<open>
  The product of two 64-bit numbers in 128 bits, in three versions: \<^verbatim>\<open>mul128\<close> of
  \<^verbatim>\<open>common/int-util.h\<close>, on words, and the two functions \<^verbatim>\<open>mul\<close> of \<^verbatim>\<open>slow-hash.c\<close>, on the first
  halves of two blocks of 16 bytes (the portable one, and the one for ARM with limbs of 32 bits).
  The results are the high word and the low word, in this order.
\<close>

section \<open>The code\<close>

definition hi_dword :: "u64 \<Rightarrow> u64" where
  "hi_dword val = drop_bit 32 val"

definition lo_dword :: "u64 \<Rightarrow> u64" where
  "lo_dword val = val AND 0xFFFFFFFF"

definition mul128 :: "u64 \<Rightarrow> u64 \<Rightarrow> (u64 \<times> u64) option" where
  "mul128 multiplier multiplicand =
    (let a = hi_dword multiplier;
         b = lo_dword multiplier;
         c = hi_dword multiplicand;
         d = lo_dword multiplicand;
         ac = a * c;
         ad = a * d;
         bc = b * c;
         bd = b * d;
         adbc = ad + bc;
         adbc_carry = (if adbc < ad then 1 else 0);
         product_lo = bd + push_bit 32 adbc;
         product_lo_carry = (if product_lo < bd then 1 else 0);
         product_hi = ac + drop_bit 32 adbc + push_bit 32 adbc_carry + product_lo_carry
     in if ac \<le> product_hi then Some (product_hi, product_lo) else None)"

definition mul :: "byte list \<Rightarrow> byte list \<Rightarrow> byte list option" where
  "mul a b =
    (case mul128 (load64 a 0) (load64 b 0) of
       None \<Rightarrow> None
     | Some (hi, lo) \<Rightarrow> Some (store64 hi @ store64 lo))"

text \<open>
  The union of four \<^verbatim>\<open>LONG\<close> and eight \<^verbatim>\<open>SHORT\<close>: \<^verbatim>\<open>tmp[2 * i]\<close> and \<^verbatim>\<open>tmp[2 * i + 1]\<close> are the low
  and the high half of \<^verbatim>\<open>ltmp[i]\<close>.
\<close>

definition tmp :: "u64 list \<Rightarrow> nat \<Rightarrow> u64" where
  "tmp ltmp i = (if even i then ltmp ! (i div 2) AND 0xFFFFFFFF else drop_bit 32 (ltmp ! (i div 2)))"

definition arm_mul :: "byte list \<Rightarrow> byte list \<Rightarrow> byte list" where
  "arm_mul ca cb =
    (let A = drop_bit 32 (load64 ca 0);
         a = load64 ca 0 AND 0xFFFFFFFF;
         B = drop_bit 32 (load64 cb 0);
         b = load64 cb 0 AND 0xFFFFFFFF;
         t = [a * b, a * B, A * b, A * B];
         res2 = tmp t 0;
         t = t[1 := t ! 1 + tmp t 1];
         t = t[1 := t ! 1 + tmp t 4];
         t = t[3 := t ! 3 + tmp t 3];
         t = t[3 := t ! 3 + tmp t 5];
         res3 = tmp t 2;
         res0 = tmp t 6;
         res1 = tmp t 7
     in store64 (res0 OR push_bit 32 res1) @ store64 (res2 OR push_bit 32 res3))"

section \<open>The product\<close>

text \<open>The two halves of the product: what the instruction \<^verbatim>\<open>mulq\<close> computes.\<close>

definition mul_hi :: "u64 \<Rightarrow> u64 \<Rightarrow> u64" where
  "mul_hi x y = of_nat (unat x * unat y div 2 ^ 64)"

lemma word_carry: "unat (x + y) + (if x + y < x then 2 ^ 64 else 0) = unat x + unat y" for x y :: u64
proof (cases "unat x + unat y < 2 ^ 64")
  case True
  then have "unat (x + y) = unat x + unat y"
    by (simp add: unat_word_ariths)
  then show ?thesis
    by (simp add: word_less_nat_alt)
next
  case False
  have "unat x < 2 ^ 64" "unat y < 2 ^ 64"
    using unsigned_less [of x] unsigned_less [of y] by simp_all
  moreover from this False have "unat (x + y) = unat x + unat y - 2 ^ 64"
    by (simp add: unat_word_ariths mod_if)
  ultimately show ?thesis
    using False by (simp add: word_less_nat_alt)
qed

lemma unat_dwords:
  "unat (hi_dword x) = unat x div 2 ^ 32" "unat (lo_dword x) = unat x mod 2 ^ 32"
  "unat (hi_dword x) < 2 ^ 32" "unat (lo_dword x) < 2 ^ 32"
proof -
  show *: "unat (hi_dword x) = unat x div 2 ^ 32"
    unfolding hi_dword_def unat_drop_bit_eq by (simp add: drop_bit_eq_div)
  have "lo_dword x = take_bit 32 x"
    by (simp add: lo_dword_def take_bit_eq_mask mask_eq_exp_minus_1)
  then show **: "unat (lo_dword x) = unat x mod 2 ^ 32"
    by (simp only: unsigned_take_bit_eq) (simp add: take_bit_eq_mod)
  have "unat x < 2 ^ 64"
    using unsigned_less [of x] by simp
  then show "unat (hi_dword x) < 2 ^ 32" "unat (lo_dword x) < 2 ^ 32"
    unfolding * ** by (simp_all add: less_mult_imp_div_less)
qed

lemma unat_small_product:
  fixes x y :: u64
  assumes "unat x < 2 ^ 32" "unat y < 2 ^ 32"
  shows "unat (x * y) = unat x * unat y"
proof -
  have "unat x * unat y < 2 ^ 32 * 2 ^ 32"
    using assms by (intro mult_strict_mono') simp_all
  then show ?thesis
    by (simp add: unat_word_ariths)
qed

lemma unat_push32: "unat (push_bit 32 x) = (unat x mod 2 ^ 32) * 2 ^ 32" for x :: u64
proof -
  have "unat (push_bit 32 x) = unat x * 2 ^ 32 mod (2 ^ 32 * 2 ^ 32)"
    unfolding unsigned_push_bit_eq by (simp add: push_bit_eq_mult take_bit_eq_mod)
  also have "\<dots> = (unat x mod 2 ^ 32) * 2 ^ 32"
    by (rule mod_mult_mult2)
  finally show ?thesis .
qed

lemma split_product:
  fixes x y :: u64
  shows "unat x * unat y =
    unat (hi_dword x) * unat (hi_dword y) * 2 ^ 64 +
    (unat (hi_dword x) * unat (lo_dword y) + unat (lo_dword x) * unat (hi_dword y)) * 2 ^ 32 +
    unat (lo_dword x) * unat (lo_dword y)"
proof -
  have "unat x = unat (hi_dword x) * 2 ^ 32 + unat (lo_dword x)" for x :: u64
    by (simp add: unat_dwords)
  from this [of x] this [of y] show ?thesis
    by (simp add: algebra_simps)
qed

lemma product_less: "unat x * unat y < 2 ^ 64 * 2 ^ 64" for x y :: u64
  using unsigned_less [of x] unsigned_less [of y] by (intro mult_strict_mono') simp_all

lemma product_words:
  fixes x y lo :: u64
  assumes "unat x * unat y = h * 2 ^ 64 + unat lo"
  shows "of_nat h = mul_hi x y" "lo = x * y" "h < 2 ^ 64"
proof -
  have lo: "unat lo < 2 ^ 64"
    using unsigned_less [of lo] by simp
  show "of_nat h = mul_hi x y"
    using lo by (simp add: mul_hi_def assms)
  have "unat (x * y) = unat lo"
    using lo by (simp add: unat_word_ariths assms)
  then show "lo = x * y"
    by (simp add: word_unat_eq_iff)
  show "h < 2 ^ 64"
    using product_less [of x y] lo unfolding assms by simp
qed

lemma carry_sum:
  fixes P S Z :: nat
  assumes "s + c1 * 2 ^ 64 = S" "l + c2 * 2 ^ 64 = Z + r * 2 ^ 32" "s = q * 2 ^ 32 + r"
  shows "P * 2 ^ 64 + S * 2 ^ 32 + Z = (P + q + c1 * 2 ^ 32 + c2) * 2 ^ 64 + l"
  using assms by simp

lemma mul128_correct: "mul128 x y = Some (mul_hi x y, x * y)"
proof -
  define a b c d where "a = hi_dword x" and "b = lo_dword x" and "c = hi_dword y" and "d = lo_dword y"
  define adbc where "adbc = a * d + b * c"
  define lo where "lo = b * d + push_bit 32 adbc"
  define c1 where "c1 = (if adbc < a * d then 1 else 0 :: nat)"
  define c2 where "c2 = (if lo < b * d then 1 else 0 :: nat)"
  define h where "h = unat a * unat c + unat adbc div 2 ^ 32 + c1 * 2 ^ 32 + c2"
  have s: "unat a < 2 ^ 32" "unat b < 2 ^ 32" "unat c < 2 ^ 32" "unat d < 2 ^ 32"
    unfolding a_def b_def c_def d_def by (rule unat_dwords)+
  have "unat adbc + c1 * 2 ^ 64 = unat a * unat d + unat b * unat c"
    using word_carry [of "a * d" "b * c"] s by (cases "adbc < a * d") (simp_all add: adbc_def c1_def unat_small_product)
  moreover have "unat lo + c2 * 2 ^ 64 = unat b * unat d + (unat adbc mod 2 ^ 32) * 2 ^ 32"
    using word_carry [of "b * d" "push_bit 32 adbc"] s by (cases "lo < b * d") (simp_all add: lo_def c2_def unat_small_product unat_push32)
  moreover have "unat adbc = (unat adbc div 2 ^ 32) * 2 ^ 32 + unat adbc mod 2 ^ 32"
    by simp
  ultimately have prod: "unat x * unat y = h * 2 ^ 64 + unat lo"
    unfolding h_def split_product [of x y, folded a_def b_def c_def d_def] by (rule carry_sum)
  note w = product_words [OF prod]
  define hi where "hi = a * c + drop_bit 32 adbc + push_bit 32 (if adbc < a * d then 1 else 0) + (if lo < b * d then 1 else 0)"
  have "of_nat (unat adbc div 2 ^ 32) = drop_bit 32 adbc"
    unfolding unat_dwords(1) [symmetric] by (simp add: hi_dword_def)
  then have "hi = of_nat h"
    by (simp add: hi_def h_def c1_def c2_def)
  moreover have "a * c \<le> of_nat h"
    using w(3) s by (simp add: word_le_nat_alt unat_small_product unat_of_nat) (simp add: h_def)
  moreover have "mul128 x y = (if a * c \<le> hi then Some (hi, lo) else None)"
    by (simp only: mul128_def Let_def a_def b_def c_def d_def adbc_def lo_def hi_def)
  ultimately show ?thesis
    using w by simp
qed

section \<open>The version with limbs of 32 bits\<close>

lemma lo_dword_take: "lo_dword x = take_bit 32 x"
  by (simp add: lo_dword_def take_bit_eq_mask mask_eq_exp_minus_1)

lemma dwords_or: "lo_dword x OR push_bit 32 (hi_dword x) = x"
proof (rule bit_word_eqI)
  fix n
  assume "n < LENGTH(64)"
  then show "bit (lo_dword x OR push_bit 32 (hi_dword x)) n = bit x n"
    by (cases "n < 32") (simp_all add: lo_dword_take hi_dword_def bit_or_iff bit_push_bit_iff bit_drop_bit_eq bit_take_bit_iff)
qed

lemma unat_or_dwords:
  assumes "unat l < 2 ^ 32" "unat h < 2 ^ 32"
  shows "unat (l OR push_bit 32 h :: u64) = unat l + unat h * 2 ^ 32"
proof -
  have "l AND push_bit 32 h = 0"
  proof (rule bit_word_eqI)
    fix n
    assume "n < LENGTH(64)"
    have "take_bit 32 l = l"
      using assms(1) by (simp add: word_unat_eq_iff unsigned_take_bit_eq take_bit_nat_eq_self)
    then have "bit l n \<Longrightarrow> n < 32"
      by (metis bit_take_bit_iff)
    then show "bit (l AND push_bit 32 h) n = bit 0 n"
      by (auto simp: bit_simps)
  qed
  then have "l OR push_bit 32 h = l + push_bit 32 h"
    by (simp add: disjunctive_add_eq_or)
  moreover have "unat (push_bit 32 h) = unat h * 2 ^ 32"
    using assms(2) by (simp add: unat_push32)
  moreover have "unat h * 2 ^ 32 + unat l < 2 ^ 64"
    using assms by simp
  ultimately show ?thesis
    by (simp add: unat_word_ariths)
qed

text \<open>A product of two limbs with two more limbs added fits in 64 bits.\<close>

lemma unat_add_limbs:
  assumes "unat x < 2 ^ 32" "unat y < 2 ^ 32" "unat p < 2 ^ 32" "unat q < 2 ^ 32"
  shows "unat (x * y + p + q :: u64) = unat x * unat y + unat p + unat q"
proof -
  have "unat x * unat y \<le> (2 ^ 32 - 1) * (2 ^ 32 - 1)"
    using assms by (intro mult_mono) simp_all
  then show ?thesis
    using assms by (simp add: unat_word_ariths)
qed

lemma arm_sum:
  fixes aa aB Ab AB t1 t3 :: nat
  assumes "t1 = aB + aa div 2 ^ 32 + Ab mod 2 ^ 32" "t3 = AB + t1 div 2 ^ 32 + Ab div 2 ^ 32"
  shows "AB * 2 ^ 64 + (Ab + aB) * 2 ^ 32 + aa = t3 * 2 ^ 64 + (aa mod 2 ^ 32 + (t1 mod 2 ^ 32) * 2 ^ 32)"
proof -
  define q1 r1 q2 r2 q3 r3 where "q1 = aa div 2 ^ 32" and "r1 = aa mod 2 ^ 32" and "q2 = Ab div 2 ^ 32" and "r2 = Ab mod 2 ^ 32"
    and "q3 = t1 div 2 ^ 32" and "r3 = t1 mod 2 ^ 32"
  have "aa = q1 * 2 ^ 32 + r1" "Ab = q2 * 2 ^ 32 + r2" "t1 = q3 * 2 ^ 32 + r3"
    by (simp_all add: q1_def r1_def q2_def r2_def q3_def r3_def)
  with assms show ?thesis
    unfolding q1_def [symmetric] r1_def [symmetric] q2_def [symmetric] r2_def [symmetric] q3_def [symmetric] r3_def [symmetric]
    by simp
qed

lemma arm_mul_correct: "arm_mul u v = store64 (mul_hi (load64 u 0) (load64 v 0)) @ store64 (load64 u 0 * load64 v 0)"
proof -
  define x y where "x = load64 u 0" and "y = load64 v 0"
  define A a B b where "A = hi_dword x" and "a = lo_dword x" and "B = hi_dword y" and "b = lo_dword y"
  have s: "unat A < 2 ^ 32" "unat a < 2 ^ 32" "unat B < 2 ^ 32" "unat b < 2 ^ 32"
    unfolding A_def a_def B_def b_def by (rule unat_dwords)+
  define t1 where "t1 = a * B + hi_dword (a * b) + lo_dword (A * b)"
  define t3 where "t3 = A * B + hi_dword t1 + hi_dword (A * b)"
  have r: "arm_mul u v = store64 (lo_dword t3 OR push_bit 32 (hi_dword t3)) @ store64 (lo_dword (a * b) OR push_bit 32 (lo_dword t1))"
    by (simp add: arm_mul_def tmp_def Let_def t3_def t1_def A_def a_def B_def b_def x_def y_def hi_dword_def lo_dword_def)
  have n1: "unat t1 = unat a * unat B + unat a * unat b div 2 ^ 32 + unat A * unat b mod 2 ^ 32"
    unfolding t1_def using s unat_dwords(3) [of "a * b"] unat_dwords(4) [of "A * b"] unat_dwords(3) [of "A * b"] unat_dwords(3) [of t1]
    by (subst unat_add_limbs) (simp_all add: unat_dwords(1,2) unat_small_product)
  have n3: "unat t3 = unat A * unat B + unat t1 div 2 ^ 32 + unat A * unat b div 2 ^ 32"
    unfolding t3_def using s unat_dwords(3) [of "a * b"] unat_dwords(4) [of "A * b"] unat_dwords(3) [of "A * b"] unat_dwords(3) [of t1]
    by (subst unat_add_limbs) (simp_all add: unat_dwords(1,2) unat_small_product)
  have l: "unat (lo_dword (a * b) OR push_bit 32 (lo_dword t1)) = unat a * unat b mod 2 ^ 32 + (unat t1 mod 2 ^ 32) * 2 ^ 32"
    using s unat_dwords(4) [of "a * b"] unat_dwords(4) [of t1]
    by (subst unat_or_dwords) (simp_all add: unat_dwords(2) unat_small_product)
  have "unat x * unat y = unat t3 * 2 ^ 64 + unat (lo_dword (a * b) OR push_bit 32 (lo_dword t1))"
    unfolding l split_product [of x y, folded A_def a_def B_def b_def] by (rule arm_sum [OF n1 n3])
  from product_words [OF this] show ?thesis
    by (simp add: r dwords_or x_def y_def)
qed

lemma mul_correct: "mul u v = Some (store64 (mul_hi (load64 u 0) (load64 v 0)) @ store64 (load64 u 0 * load64 v 0))"
  by (simp add: mul_def mul128_correct)

end
