(* ===== verification/Slow_Hash.thy ===== *)
theory Slow_Hash
  imports Mul128 Aesb Oaes_Message
begin

text \<open>
  The proof-of-work hash of \<^verbatim>\<open>slow-hash.c\<close> and \<^verbatim>\<open>slow-hash-lite.c\<close>, which differ in the size of the
  scratchpad and the number of iterations: both are parameters (\<open>mem\<close> for \<^verbatim>\<open>MEMORY\<close>, \<open>iter\<close> for
  \<^verbatim>\<open>ITER\<close>). The file holds several versions of the function, of which the preprocessor takes one:
  for x86-64 (which chooses between the AES instructions and software at run time), for ARM without
  AES instructions, and a portable one. The version for ARM with AES instructions is not
  modelled: its key expansion is assembly code.

  The four final hash functions are a parameter here. A scratchpad or a buffer that the code
  leaves uninitialised is a parameter as well. \<open>None\<close> is a call through a null pointer or a
  failed assertion. Memory is read and written through \<^verbatim>\<open>uint64_t *\<close>, little-endian.
\<close>

section \<open>Blocks of 16 bytes\<close>

definition read_block :: "nat \<Rightarrow> byte list \<Rightarrow> byte list" where
  "read_block j s = take 16 (drop j s)"

text \<open>\<^verbatim>\<open>xor_blocks\<close> and \<^verbatim>\<open>sum_half_blocks\<close> with 64-bit accesses; the portable \<^verbatim>\<open>xor_blocks\<close> goes by bytes.\<close>

definition xor_blocks64 :: "byte list \<Rightarrow> byte list \<Rightarrow> byte list" where
  "xor_blocks64 a b = store64 (load64 a 0 XOR load64 b 0) @ store64 (load64 a 8 XOR load64 b 8)"

definition xor_blocks :: "byte list \<Rightarrow> byte list \<Rightarrow> byte list" where
  "xor_blocks a b = map (\<lambda>i. a ! i XOR b ! i) [0..<16]"

definition sum_half_blocks :: "byte list \<Rightarrow> byte list \<Rightarrow> byte list" where
  "sum_half_blocks a b =
    (let a0 = load64 a 0;
         a1 = load64 a 8;
         b0 = load64 b 0;
         b1 = load64 b 8
     in store64 (a0 + b0) @ store64 (a1 + b1))"

definition swap_blocks :: "byte list \<times> byte list \<Rightarrow> byte list \<times> byte list" where
  "swap_blocks p = (snd p, fst p)"

section \<open>Filling the scratchpad and mixing it back\<close>

text \<open>
  A function \<open>f\<close> on the blocks of the text, and the loops over the text and the scratchpad; \<open>xr\<close> is
  the version of \<^verbatim>\<open>xor_blocks\<close>.
\<close>

definition crypt_text :: "(byte list \<Rightarrow> byte list) \<Rightarrow> byte list \<Rightarrow> byte list" where
  "crypt_text f text = fold (\<lambda>j text. put (16 * j) (f (read_block (16 * j) text)) text) [0..<8] text"

definition fill_pad :: "(byte list \<Rightarrow> byte list) \<Rightarrow> nat \<Rightarrow> byte list \<Rightarrow> byte list \<Rightarrow> byte list" where
  "fill_pad g mem text pad =
    snd (fold (\<lambda>i (text, pad). let text = g text in (text, put (i * 128) text pad)) [0..<mem div 128] (text, pad))"

definition mix_text ::
  "(byte list \<Rightarrow> byte list \<Rightarrow> byte list) \<Rightarrow> (byte list \<Rightarrow> byte list) \<Rightarrow> byte list \<Rightarrow> byte list \<Rightarrow> byte list" where
  "mix_text xr f pad text =
    fold (\<lambda>j text.
      let text = put (16 * j) (xr (read_block (16 * j) text) (read_block (16 * j) pad)) text
      in put (16 * j) (f (read_block (16 * j) text)) text) [0..<8] text"

definition mix_pad :: "(byte list \<Rightarrow> byte list \<Rightarrow> byte list) \<Rightarrow> nat \<Rightarrow> byte list \<Rightarrow> byte list \<Rightarrow> byte list" where
  "mix_pad g mem pad text = fold (\<lambda>i text. g (drop (i * 128) pad) text) [0..<mem div 128] text"

text \<open>The end: the text goes back into the Keccak state, and two bits of that choose the hash.\<close>

definition finish_hash :: "(byte list \<Rightarrow> byte list) list \<Rightarrow> byte list \<Rightarrow> byte list \<Rightarrow> byte list" where
  "finish_hash extra_hashes hs text =
    (let hs = put 64 text hs;
         b = state_bytes (hash_permutation (map (\<lambda>i. load64 hs (8 * i)) [0..<25]))
     in (extra_hashes ! unat (b ! 0 AND 3)) b)"

section \<open>The key schedules\<close>

text \<open>
  \<^verbatim>\<open>oaes_key_import_data\<close> and the access to the expanded key, without a look at the return code.
  The outcomes of the callocs are \<open>ms\<close>.
\<close>

definition oaes_expanded :: "bool \<times> bool \<times> bool \<Rightarrow> oaes_ctx option \<Rightarrow> byte list \<Rightarrow> (oaes_ctx option \<times> byte list) option" where
  "oaes_expanded ms ctx key =
    (case ms of (m1, m2, m3) \<Rightarrow>
       (case oaes_key_import_data m1 m2 m3 ctx (Some key) 32 of
          (rc, None) \<Rightarrow> None
        | (rc, Some x) \<Rightarrow>
            (case c_key x of
               None \<Rightarrow> None
             | Some k \<Rightarrow> Some (Some x, k_exp_data k))))"

text \<open>
  The instructions of SSE2 that \<^verbatim>\<open>aes_expand_key\<close> uses: the selector of a shuffle is \<open>0xff\<close> (all
  four double words are the last one) or \<open>0xaa\<close> (the third).
\<close>

definition dword :: "byte list \<Rightarrow> nat \<Rightarrow> byte list" where
  "dword x i = take 4 (drop (4 * i) x)"

definition shuffle_epi32 :: "byte list \<Rightarrow> nat \<Rightarrow> byte list" where
  "shuffle_epi32 x m = dword x (m mod 4) @ dword x (m div 4 mod 4) @ dword x (m div 16 mod 4) @ dword x (m div 64 mod 4)"

definition slli_si128 :: "byte list \<Rightarrow> nat \<Rightarrow> byte list" where
  "slli_si128 x n = take 16 (replicate n 0 @ x)"

definition aes_256_assist1 :: "byte list \<Rightarrow> byte list \<Rightarrow> byte list" where
  "aes_256_assist1 t1 t2 =
    (let t2 = shuffle_epi32 t2 0xff;
         t4 = slli_si128 t1 0x04;
         t1 = xor_bytes t1 t4;
         t4 = slli_si128 t4 0x04;
         t1 = xor_bytes t1 t4;
         t4 = slli_si128 t4 0x04;
         t1 = xor_bytes t1 t4
     in xor_bytes t1 t2)"

definition aes_256_assist2 :: "(byte list \<Rightarrow> byte \<Rightarrow> byte list) \<Rightarrow> byte list \<Rightarrow> byte list \<Rightarrow> byte list" where
  "aes_256_assist2 assist t1 t3 =
    (let t4 = assist t1 0x00;
         t2 = shuffle_epi32 t4 0xaa;
         t4 = slli_si128 t3 0x04;
         t3 = xor_bytes t3 t4;
         t4 = slli_si128 t4 0x04;
         t3 = xor_bytes t3 t4;
         t4 = slli_si128 t4 0x04;
         t3 = xor_bytes t3 t4
     in xor_bytes t3 t2)"

definition aes_expand_key :: "(byte list \<Rightarrow> byte \<Rightarrow> byte list) \<Rightarrow> byte list \<Rightarrow> byte list \<Rightarrow> byte list" where
  "aes_expand_key assist key expandedKey =
    (let t1 = read_block 0 key;
         t3 = read_block 16 key;
         ek = [t1, t3];
         t1 = aes_256_assist1 t1 (assist t3 0x01);
         ek = ek @ [t1];
         t3 = aes_256_assist2 assist t1 t3;
         ek = ek @ [t3];
         t1 = aes_256_assist1 t1 (assist t3 0x02);
         ek = ek @ [t1];
         t3 = aes_256_assist2 assist t1 t3;
         ek = ek @ [t3];
         t1 = aes_256_assist1 t1 (assist t3 0x04);
         ek = ek @ [t1];
         t3 = aes_256_assist2 assist t1 t3;
         ek = ek @ [t3];
         t1 = aes_256_assist1 t1 (assist t3 0x08);
         ek = ek @ [t1];
         t3 = aes_256_assist2 assist t1 t3;
         ek = ek @ [t3];
         t1 = aes_256_assist1 t1 (assist t3 0x10);
         ek = ek @ [t1]
     in put 0 (concat ek) expandedKey)"

text \<open>The two pseudo rounds with the AES instruction, in place as they are called.\<close>

definition aesenc_10 :: "(byte list \<Rightarrow> byte list \<Rightarrow> byte list) \<Rightarrow> byte list \<Rightarrow> byte list \<Rightarrow> byte list" where
  "aesenc_10 aesenc k d =
    (let d = aesenc d (read_block 0 k);
         d = aesenc d (read_block 16 k);
         d = aesenc d (read_block 32 k);
         d = aesenc d (read_block 48 k);
         d = aesenc d (read_block 64 k);
         d = aesenc d (read_block 80 k);
         d = aesenc d (read_block 96 k);
         d = aesenc d (read_block 112 k);
         d = aesenc d (read_block 128 k)
     in aesenc d (read_block 144 k))"

definition aes_pseudo_round :: "(byte list \<Rightarrow> byte list \<Rightarrow> byte list) \<Rightarrow> byte list \<Rightarrow> byte list \<Rightarrow> nat \<Rightarrow> byte list" where
  "aes_pseudo_round aesenc inp expandedKey nblocks =
    fold (\<lambda>i out. put (16 * i) (aesenc_10 aesenc expandedKey (read_block (16 * i) out)) out) [0..<nblocks] inp"

definition aes_pseudo_round_xor ::
  "(byte list \<Rightarrow> byte list \<Rightarrow> byte list) \<Rightarrow> byte list \<Rightarrow> byte list \<Rightarrow> byte list \<Rightarrow> nat \<Rightarrow> byte list" where
  "aes_pseudo_round_xor aesenc inp expandedKey xr nblocks =
    fold (\<lambda>i out.
      let d = read_block (16 * i) out;
          d = xor_bytes d (read_block (16 * i) xr)
      in put (16 * i) (aesenc_10 aesenc expandedKey d) out) [0..<nblocks] inp"

section \<open>The x86-64 version\<close>

definition state_index :: "nat \<Rightarrow> u64 list \<Rightarrow> nat" where
  "state_index mem x = unat (push_bit 4 (drop_bit 4 (x ! 0) AND of_nat (mem div 16 - 1)))"

text \<open>
  One iteration: \<^verbatim>\<open>pre_aes()\<close>, the round, \<^verbatim>\<open>post_aes()\<close>, on the scratchpad, \<^verbatim>\<open>a\<close> and \<^verbatim>\<open>_b\<close>; the other
  variables are written before they are read.
\<close>

definition x86_step ::
  "(byte list \<Rightarrow> byte list \<Rightarrow> byte list) \<Rightarrow> nat \<Rightarrow> byte list \<times> u64 list \<times> byte list \<Rightarrow> byte list \<times> u64 list \<times> byte list" where
  "x86_step rnd mem s =
    (case s of (hp_state, a, b') \<Rightarrow>
       let j = state_index mem a;
           c' = read_block j hp_state;
           a' = state_bytes a;
           c' = rnd c' a';
           c = [load64 c' 0, load64 c' 8];
           b' = xor_bytes b' c';
           hp_state = put j b' hp_state;
           j = state_index mem c;
           b = [load64 (read_block j hp_state) 0, load64 (read_block j hp_state) 8];
           hi = mul_hi (c ! 0) (b ! 0);
           lo = c ! 0 * b ! 0;
           a = [a ! 0 + hi, a ! 1 + lo];
           hp_state = put j (state_bytes a) hp_state;
           a = [a ! 0 XOR b ! 0, a ! 1 XOR b ! 1];
           b' = c'
       in (hp_state, a, b'))"

text \<open>The thread's scratchpad, and which allocator it came from.\<close>

record scratchpad =
  hp_state :: "byte list option"
  hp_allocated :: bool

text \<open>
  \<^verbatim>\<open>mmap\<close> (or \<^verbatim>\<open>VirtualAlloc\<close>) and \<^verbatim>\<open>malloc\<close> give a buffer of the size asked for, or none.
\<close>

definition slow_hash_allocate_state :: "byte list option \<Rightarrow> byte list option \<Rightarrow> scratchpad \<Rightarrow> scratchpad" where
  "slow_hash_allocate_state mapped malloced s =
    (if hp_state s \<noteq> None then s
     else
       let s = s\<lparr>hp_state := mapped\<rparr>;
           s = s\<lparr>hp_allocated := True\<rparr>
       in if hp_state s = None then s\<lparr>hp_allocated := False, hp_state := malloced\<rparr> else s)"

datatype release = Free "byte list" | Munmap "byte list"

definition slow_hash_free_state :: "scratchpad \<Rightarrow> scratchpad \<times> release option" where
  "slow_hash_free_state s =
    (case hp_state s of
       None \<Rightarrow> (s, None)
     | Some p \<Rightarrow>
         (s\<lparr>hp_state := None, hp_allocated := False\<rparr>, Some (if \<not> hp_allocated s then Free p else Munmap p)))"

text \<open>
  \<^verbatim>\<open>force_software_aes\<close> and \<^verbatim>\<open>check_aes_hw\<close>, with their static variables: the environment variable,
  and the feature word of \<^verbatim>\<open>cpuid\<close>.
\<close>

definition force_software_aes :: "string option \<Rightarrow> int \<Rightarrow> bool \<times> int" where
  "force_software_aes env uses =
    (if uses \<noteq> -1 then (uses \<noteq> 0, uses)
     else
       let uses =
         (case env of
            None \<Rightarrow> 0
          | Some e \<Rightarrow> if e = ''0'' \<or> e = ''no'' then 0 else 1)
       in (uses \<noteq> 0, uses))"

definition check_aes_hw :: "u32 \<Rightarrow> int \<Rightarrow> bool \<times> int" where
  "check_aes_hw cpuid_results_2 supported =
    (if 0 \<le> supported then (supported \<noteq> 0, supported)
     else let supported = sint (cpuid_results_2 AND push_bit 25 1) in (supported \<noteq> 0, supported))"

text \<open>
  What the environment decides: the outcomes of the callocs of the AES context and of its keys,
  the bytes of \<^verbatim>\<open>rand()\<close>, and the contents of buffers on the stack.
\<close>

record outcomes =
  o_alloc :: bool
  o_rand :: "byte list"
  o_key1 :: "bool \<times> bool \<times> bool"
  o_key2 :: "bool \<times> bool \<times> bool"
  o_buf :: "byte list"
  o_pad :: "byte list"

definition x86_rounds ::
  "(byte list \<Rightarrow> byte list \<Rightarrow> byte list) \<Rightarrow> nat \<Rightarrow> nat \<Rightarrow> byte list \<Rightarrow> byte list \<Rightarrow> byte list" where
  "x86_rounds rnd mem iter hs pad =
    (let a = [load64 hs 0 XOR load64 hs 32, load64 hs 8 XOR load64 hs 40];
         b = [load64 hs 16 XOR load64 hs 48, load64 hs 24 XOR load64 hs 56]
     in fst ((x86_step rnd mem ^^ (iter div 2)) (pad, a, state_bytes b)))"

definition x86_slow_hash ::
  "(byte list \<Rightarrow> byte list \<Rightarrow> byte list) \<Rightarrow> (byte list \<Rightarrow> byte \<Rightarrow> byte list) \<Rightarrow> nat \<Rightarrow> nat \<Rightarrow> (byte list \<Rightarrow> byte list) list \<Rightarrow>
    outcomes \<Rightarrow> byte list option \<Rightarrow> byte list option \<Rightarrow> bool \<Rightarrow> scratchpad \<Rightarrow> byte list \<Rightarrow> (byte list \<times> scratchpad) option" where
  "x86_slow_hash aesenc assist mem iter extra_hashes oc mapped malloced useAes s data =
    (let s = (if hp_state s = None then slow_hash_allocate_state mapped malloced s else s)
     in case hp_state s of
          None \<Rightarrow> None
        | Some pad \<Rightarrow>
            let hs = hash_process data;
                text = take 128 (drop 64 hs)
            in if useAes then
                 let ek = aes_expand_key assist hs (o_buf oc);
                     pad = fill_pad (\<lambda>text. aes_pseudo_round aesenc text ek 8) mem text pad;
                     pad = x86_rounds aesenc mem iter hs pad;
                     ek = aes_expand_key assist (drop 32 hs) ek;
                     text = mix_pad (\<lambda>p text. aes_pseudo_round_xor aesenc text ek p 8) mem pad text
                 in Some (finish_hash extra_hashes hs text, s\<lparr>hp_state := Some pad\<rparr>)
               else
                 (case oaes_expanded (o_key1 oc) (oaes_alloc (o_alloc oc) (o_rand oc)) hs of
                    None \<Rightarrow> None
                  | Some (ctx, ek) \<Rightarrow>
                      let pad = fill_pad (crypt_text (\<lambda>b. aesb_pseudo_round b ek)) mem text pad;
                          pad = x86_rounds aesb_single_round mem iter hs pad
                      in (case oaes_expanded (o_key2 oc) ctx (drop 32 hs) of
                            None \<Rightarrow> None
                          | Some (ctx, ek) \<Rightarrow>
                              let text = mix_pad (mix_text xor_blocks64 (\<lambda>b. aesb_pseudo_round b ek)) mem pad text
                              in Some (finish_hash extra_hashes hs text, s\<lparr>hp_state := Some pad\<rparr>))))"

section \<open>The version for ARM\<close>

definition arm_index :: "nat \<Rightarrow> byte list \<Rightarrow> nat" where
  "arm_index mem x = unat ((word_of_int (le_val (take 4 x)) :: u32) AND of_nat ((mem div 16 - 1) * 2 ^ 4))"

text \<open>\<^verbatim>\<open>p\<close> points to the block at \<open>j\<close>.\<close>

definition arm_step :: "nat \<Rightarrow> byte list \<times> byte list \<times> byte list \<Rightarrow> byte list \<times> byte list \<times> byte list" where
  "arm_step mem s =
    (case s of (long_state, a, b) \<Rightarrow>
       let j = arm_index mem a;
           long_state = put j (aesb_single_round (read_block j long_state) a) long_state;
           b = xor_blocks64 b (read_block j long_state);
           (b, p) = swap_blocks (b, read_block j long_state);
           long_state = put j p long_state;
           (a, b) = swap_blocks (a, b);
           j = arm_index mem a;
           d = arm_mul a (read_block j long_state);
           b = sum_half_blocks b d;
           (b, p) = swap_blocks (b, read_block j long_state);
           long_state = put j p long_state;
           b = xor_blocks64 b (read_block j long_state);
           (a, b) = swap_blocks (a, b)
       in (long_state, a, b))"

definition arm_slow_hash ::
  "nat \<Rightarrow> nat \<Rightarrow> (byte list \<Rightarrow> byte list) list \<Rightarrow> outcomes \<Rightarrow> byte list \<Rightarrow> byte list option" where
  "arm_slow_hash mem iter extra_hashes oc data =
    (let hs = hash_process data;
         text = take 128 (drop 64 hs)
     in case oaes_expanded (o_key1 oc) (oaes_alloc (o_alloc oc) (o_rand oc)) hs of
          None \<Rightarrow> None
        | Some (ctx, ek) \<Rightarrow>
            let ek = put 0 ek (o_buf oc);
                pad = fill_pad (crypt_text (\<lambda>b. aesb_pseudo_round b ek)) mem text (o_pad oc);
                a = store64 (load64 hs 0 XOR load64 hs 32) @ store64 (load64 hs 8 XOR load64 hs 40);
                b = store64 (load64 hs 16 XOR load64 hs 48) @ store64 (load64 hs 24 XOR load64 hs 56);
                (pad, a, b) = (arm_step mem ^^ (iter div 2)) (pad, a, b)
            in (case oaes_expanded (o_key2 oc) ctx (drop 32 hs) of
                  None \<Rightarrow> None
                | Some (ctx, ek') \<Rightarrow>
                    let ek = put 0 ek' ek;
                        text = mix_pad (mix_text xor_blocks64 (\<lambda>b. aesb_pseudo_round b ek)) mem pad text
                    in Some (finish_hash extra_hashes hs text)))"

section \<open>The portable version\<close>

definition e2i :: "byte list \<Rightarrow> nat \<Rightarrow> nat" where
  "e2i a count = unat (load64 a 0 div 16 AND of_nat (count - 1))"

definition portable_step :: "nat \<Rightarrow> byte list \<times> byte list \<times> byte list \<Rightarrow> (byte list \<times> byte list \<times> byte list) option" where
  "portable_step mem s =
    (case s of (long_state, a, b) \<Rightarrow>
       let j = e2i a (mem div 16);
           c = read_block (j * 16) long_state;
           c = aesb_single_round c a;
           b = xor_blocks b c;
           (b, c) = swap_blocks (b, c);
           long_state = put (j * 16) c long_state
       in if j \<noteq> e2i a (mem div 16) then None
          else
            let (a, b) = swap_blocks (a, b);
                j = e2i a (mem div 16);
                c = read_block (j * 16) long_state
            in (case mul a c of
                  None \<Rightarrow> None
                | Some d \<Rightarrow>
                    let b = sum_half_blocks b d;
                        (b, c) = swap_blocks (b, c);
                        b = xor_blocks b c;
                        long_state = put (j * 16) c long_state
                    in if j \<noteq> e2i a (mem div 16) then None
                       else let (a, b) = swap_blocks (a, b) in Some (long_state, a, b)))"

primrec iterate :: "nat \<Rightarrow> ('s \<Rightarrow> 's option) \<Rightarrow> 's \<Rightarrow> 's option" where
  "iterate 0 f s = Some s"
| "iterate (Suc n) f s = Option.bind (f s) (iterate n f)"

definition portable_slow_hash ::
  "nat \<Rightarrow> nat \<Rightarrow> (byte list \<Rightarrow> byte list) list \<Rightarrow> outcomes \<Rightarrow> byte list \<Rightarrow> byte list option" where
  "portable_slow_hash mem iter extra_hashes oc data =
    (let hs = hash_process data;
         text = take 128 (drop 64 hs);
         aes_key = take 32 hs
     in case oaes_expanded (o_key1 oc) (oaes_alloc (o_alloc oc) (o_rand oc)) aes_key of
          None \<Rightarrow> None
        | Some (ctx, ek) \<Rightarrow>
            let pad = fill_pad (crypt_text (\<lambda>b. aesb_pseudo_round b ek)) mem text (o_pad oc);
                a = map (\<lambda>i. hs ! i XOR hs ! (32 + i)) [0..<16];
                b = map (\<lambda>i. hs ! (16 + i) XOR hs ! (48 + i)) [0..<16]
            in (case iterate (iter div 2) (portable_step mem) (pad, a, b) of
                  None \<Rightarrow> None
                | Some (pad, a, b) \<Rightarrow>
                    (case oaes_expanded (o_key2 oc) ctx (drop 32 hs) of
                       None \<Rightarrow> None
                     | Some (ctx, ek) \<Rightarrow>
                         let text = mix_pad (mix_text xor_blocks (\<lambda>b. aesb_pseudo_round b ek)) mem pad text
                         in Some (finish_hash extra_hashes hs text))))"

end
