(* ===== verification/Slow_Memory.thy ===== *)
theory Slow_Memory
  imports Slow_Hash
begin

text \<open>
  Reading and writing the flat memory of \<^verbatim>\<open>slow-hash.c\<close>: its 64-bit words, and its division into
  blocks, with the three ways of computing the index of a block.
\<close>

section \<open>Little-endian words\<close>

lemma bit_le_val: "bit (le_val bs) n \<longleftrightarrow> n < 8 * length bs \<and> bit (bs ! (n div 8)) (n mod 8)"
proof (induction bs arbitrary: n)
  case (Cons b bs)
  have "uint b AND push_bit 8 (le_val bs) = 0"
    by (rule bit_eqI) (auto simp: bit_simps dest: bit_imp_le_length)
  then have "le_val (b # bs) = uint b OR push_bit 8 (le_val bs)"
    by (simp add: disjunctive_add_eq_or push_bit_eq_mult mult.commute flip: disjunctive_add_eq_or)
  then have bit: "bit (le_val (b # bs)) n \<longleftrightarrow> bit b n \<or> 8 \<le> n \<and> bit (le_val bs) (n - 8)"
    by (auto simp: bit_simps dest: bit_imp_le_length)
  show ?case
  proof (cases "n < 8")
    case True
    then show ?thesis by (simp add: bit del: le_val.simps)
  next
    case False
    then have "n div 8 = Suc ((n - 8) div 8)" "n mod 8 = (n - 8) mod 8"
      by (simp_all add: le_div_geq le_mod_geq)
    moreover have "\<not> bit b n"
      using False by (auto dest: bit_imp_le_length)
    ultimately show ?thesis
      using False by (auto simp: bit Cons.IH simp del: le_val.simps)
  qed
qed simp

lemma bit_load64:
  assumes "k + 8 \<le> length s"
  shows "bit (load64 s k) n \<longleftrightarrow> n < 64 \<and> bit (s ! (k + n div 8)) (n mod 8)"
proof -
  have "bit (load64 s k) n \<longleftrightarrow> n < 64 \<and> bit (le_val (take 8 (drop k s))) n"
    by (simp add: load64_def bit_word_of_int_iff)
  moreover have "n div 8 < 8" if "n < 64"
    using that by (simp add: less_mult_imp_div_less)
  ultimately show ?thesis
    using assms by (auto simp: bit_le_val)
qed

lemma upt_8: "[0..<8] = [0, 1, 2, 3, 4, 5, 6, 7]"
  by code_simp

lemma store64_map: "store64 w = map (\<lambda>i. ucast (drop_bit (8 * i) w)) [0..<8]"
  by (simp add: store64_def upt_8 del: upt_rec_numeral)

lemma bit_store64: "i < 8 \<Longrightarrow> bit (store64 w ! i) n \<longleftrightarrow> n < 8 \<and> bit w (8 * i + n)"
  by (simp add: store64_map bit_ucast_iff bit_drop_bit_eq del: upt_rec_numeral)

lemma store64_load64: "k + 8 \<le> length s \<Longrightarrow> store64 (load64 s k) = take 8 (drop k s)"
proof (rule nth_equalityI)
  fix i
  assume k: "k + 8 \<le> length s" and "i < length (store64 (load64 s k))"
  then have i: "i < 8"
    by simp
  show "store64 (load64 s k) ! i = take 8 (drop k s) ! i"
  proof (rule bit_word_eqI)
    fix n
    assume n: "n < LENGTH(8)"
    then have "(8 * i + n) div 8 = i" "(8 * i + n) mod 8 = n" "8 * i + n < 64"
      using i by simp_all
    then show "bit (store64 (load64 s k) ! i) n = bit (take 8 (drop k s) ! i) n"
      using n i k by (simp add: bit_store64 bit_load64)
  qed
qed simp

lemma load64_store64:
  assumes "k + 8 \<le> length s" and "take 8 (drop k s) = store64 w"
  shows "load64 s k = w"
proof (rule bit_word_eqI)
  fix n
  assume "n < LENGTH(64)"
  then have n: "n < 64" "n div 8 < 8" "8 * (n div 8) + n mod 8 = n"
    by (simp_all add: less_mult_imp_div_less)
  have "s ! (k + n div 8) = store64 w ! (n div 8)"
    using n assms(1) by (simp flip: assms(2))
  then show "bit (load64 s k) n = bit w n"
    using n assms(1) by (simp add: bit_load64 bit_store64)
qed

lemma load64_pair: "load64 (store64 v @ store64 w) 0 = v" "load64 (store64 v @ store64 w) 8 = w"
  by (rule load64_store64; simp)+

lemma store64_pair: "length s = 16 \<Longrightarrow> store64 (load64 s 0) @ store64 (load64 s 8) = s"
  using append_take_drop_id [of 8 s] by (simp add: store64_load64)

lemma load64_read: "j + 16 \<le> length s \<Longrightarrow> load64 (read_block j s) 0 = load64 s j"
  "j + 16 \<le> length s \<Longrightarrow> load64 (read_block j s) 8 = load64 s (j + 8)"
  by (simp_all add: read_block_def load64_def min_def take_drop add.commute)

lemma store64_xor: "store64 (v XOR w) = xor_bytes (store64 v) (store64 w)"
  by (simp add: store64_def xor_bytes_def unsigned_xor_eq drop_bit_xor)

lemma xor_bytes_append: "length a = length c \<Longrightarrow> xor_bytes (a @ b) (c @ d) = xor_bytes a c @ xor_bytes b d"
  by (simp add: xor_bytes_def zip_append)

lemma xor_blocks64_eq:
  assumes "length a = 16" "length b = 16"
  shows "xor_blocks64 a b = xor_bytes a b"
proof -
  have "xor_blocks64 a b = xor_bytes (store64 (load64 a 0) @ store64 (load64 a 8)) (store64 (load64 b 0) @ store64 (load64 b 8))"
    by (simp add: xor_blocks64_def store64_xor xor_bytes_append)
  then show ?thesis
    by (simp add: store64_pair assms)
qed

lemma xor_blocks_eq:
  assumes "length a = 16" "length b = 16"
  shows "xor_blocks a b = xor_bytes a b"
  unfolding xor_blocks_def xor_bytes_def using assms by (intro nth_equalityI) (simp_all del: upt_rec_numeral)

section \<open>Blocks of equal length\<close>

definition uniform :: "nat \<Rightarrow> byte list list \<Rightarrow> bool" where
  "uniform n P \<longleftrightarrow> (\<forall>p\<in>set P. length p = n)"

lemma uniform_simps [simp]:
  "uniform n []" "uniform n (p # P) \<longleftrightarrow> length p = n \<and> uniform n P" "uniform n (P @ Q) \<longleftrightarrow> uniform n P \<and> uniform n Q"
  by (auto simp: uniform_def)

lemma uniform_nth: "uniform n P \<Longrightarrow> i < length P \<Longrightarrow> length (P ! i) = n"
  by (simp add: uniform_def)

lemma uniform_update: "uniform n P \<Longrightarrow> length x = n \<Longrightarrow> uniform n (P[i := x])"
  by (auto simp: uniform_def dest: set_update_subset_insert [THEN subsetD])

lemma uniform_map: "(\<And>p. length p = n \<Longrightarrow> length (f p) = n) \<Longrightarrow> uniform n P \<Longrightarrow> uniform n (map f P)"
  by (simp add: uniform_def)

lemma length_concat_uniform: "uniform n P \<Longrightarrow> length (concat P) = n * length P"
  by (induction P) simp_all

lemma concat_split:
  assumes "uniform n P" "i < length P"
  shows "concat P = concat (take i P) @ P ! i @ concat (drop (Suc i) P)" "length (concat (take i P)) = n * i"
proof -
  have "P = take i P @ P ! i # drop (Suc i) P"
    using assms(2) by (rule id_take_nth_drop)
  then show "concat P = concat (take i P) @ P ! i @ concat (drop (Suc i) P)"
    by (metis concat.simps(2) concat_append)
  have "uniform n (take i P)"
    using assms(1) by (auto simp: uniform_def dest: in_set_takeD)
  then show "length (concat (take i P)) = n * i"
    using assms(2) by (simp add: length_concat_uniform)
qed

lemma take_drop_concat:
  assumes "uniform n P" "i < length P"
  shows "take n (drop (n * i) (concat P @ ys)) = P ! i"
  using concat_split [OF assms] uniform_nth [OF assms] by simp

lemma read_concat: "uniform 16 P \<Longrightarrow> i < length P \<Longrightarrow> read_block (16 * i) (concat P) = P ! i"
  using take_drop_concat [of 16 P i "[]"] by (simp add: read_block_def)

lemma put_concat:
  assumes "uniform n P" "i < length P" "length x = n"
  shows "put (n * i) x (concat P) = concat (P[i := x])"
proof -
  note s = concat_split [OF assms(1,2)]
  have "put (n * i) x (concat P) = concat (take i P) @ x @ concat (drop (Suc i) P)"
    unfolding s(1) using put_append [OF s(2), of x] uniform_nth [OF assms(1,2)] assms(3) by simp
  also have "\<dots> = concat (P[i := x])"
    using assms(2) by (simp add: upd_conv_take_nth_drop)
  finally show ?thesis .
qed

text \<open>A loop that treats one block after the other.\<close>

lemma fold_blocks:
  assumes "n \<le> length T"
  shows "fold (\<lambda>j T. T[j := f j (T ! j)]) [0..<n] T = map (\<lambda>j. f j (T ! j)) [0..<n] @ drop n T"
  using assms
proof (induction n)
  case (Suc n)
  then have "drop n T = T ! n # drop (Suc n) T"
    by (simp add: Cons_nth_drop_Suc)
  then show ?case
    using Suc by (simp add: nth_append list_update_append)
qed simp

lemma fold_put_blocks:
  assumes "uniform 16 T" "n \<le> length T"
    and step: "\<And>j T. uniform 16 T \<Longrightarrow> n \<le> length T \<Longrightarrow> j < n \<Longrightarrow> step j (concat T) = concat (T[j := f j (T ! j)])"
    and len: "\<And>j x. j < n \<Longrightarrow> length x = 16 \<Longrightarrow> length (f j x) = 16"
  shows "fold step [0..<n] (concat T) = concat (map (\<lambda>j. f j (T ! j)) [0..<n] @ drop n T)"
proof -
  have "m \<le> n \<Longrightarrow> uniform 16 (fold (\<lambda>j T. T[j := f j (T ! j)]) [0..<m] T) \<and> length (fold (\<lambda>j T. T[j := f j (T ! j)]) [0..<m] T) = length T \<and>
      fold step [0..<m] (concat T) = concat (fold (\<lambda>j T. T[j := f j (T ! j)]) [0..<m] T)" for m
  proof (induction m)
    case 0
    then show ?case using assms(1) by simp
  next
    case (Suc m)
    define U where "U = fold (\<lambda>j T. T[j := f j (T ! j)]) [0..<m] T"
    have U: "uniform 16 U" "length U = length T" "fold step [0..<m] (concat T) = concat U"
      using Suc by (simp_all add: U_def)
    have "length (U ! m) = 16"
      using U Suc.prems assms(2) by (intro uniform_nth) simp_all
    then have "uniform 16 (U[m := f m (U ! m)])"
      using Suc.prems by (intro uniform_update U len) simp_all
    then show ?case
      using U Suc.prems assms(2) step [of U m] by (simp add: U_def)
  qed
  from this [of n] show ?thesis
    using fold_blocks [OF assms(2), of f] by simp
qed

section \<open>The index of a block\<close>

definition pad_index :: "nat \<Rightarrow> byte list \<Rightarrow> nat" where
  "pad_index N a = unat (load64 a 0) div 16 mod N"

lemma pad_index_less: "0 < N \<Longrightarrow> pad_index N a < N"
  by (simp add: pad_index_def)

lemma e2i_index:
  assumes "N = 2 ^ k" "k \<le> 60"
  shows "e2i a N = pad_index N a"
proof -
  have "of_nat (N - 1) = (mask k :: u64)"
    using assms by (simp add: mask_eq_exp_minus_1 of_nat_diff)
  then have "load64 a 0 div 16 AND of_nat (N - 1) = take_bit k (load64 a 0 div 16)"
    by (simp add: take_bit_eq_mask)
  then have "e2i a N = take_bit k (unat (load64 a 0 div 16))"
    by (simp add: e2i_def unsigned_take_bit_eq)
  then show ?thesis
    by (simp add: pad_index_def unat_div take_bit_eq_mod assms)
qed

lemma state_index_index:
  assumes "N = 2 ^ k" "k + 4 \<le> 32" "x ! 0 = load64 a 0"
  shows "state_index (16 * N) x = 16 * pad_index N a"
proof -
  have "of_nat (N - 1) = (mask k :: u64)"
    using assms by (simp add: mask_eq_exp_minus_1 of_nat_diff)
  then have e: "push_bit 4 (drop_bit 4 (x ! 0) AND of_nat (16 * N div 16 - 1)) = push_bit 4 (take_bit k (drop_bit 4 (load64 a 0)))"
    by (simp add: take_bit_eq_mask assms(3))
  have d: "drop_bit 4 (load64 a 0) = load64 a 0 div 16"
    by (simp add: drop_bit_eq_div)
  have "unat (take_bit k (drop_bit 4 (load64 a 0))) = pad_index N a"
    unfolding pad_index_def unsigned_take_bit_eq d unat_div by (simp add: take_bit_eq_mod assms(1))
  moreover have "pad_index N a < 2 ^ 28"
  proof -
    have "pad_index N a < 2 ^ k" "(2 :: nat) ^ k \<le> 2 ^ 28"
      using assms(1,2) pad_index_less [of N a] by (simp, intro power_increasing) simp_all
    then show ?thesis by linarith
  qed
  ultimately show ?thesis
    unfolding state_index_def e unsigned_push_bit_eq by (simp add: push_bit_eq_mult take_bit_nat_eq_self)
qed

lemma arm_index_index:
  assumes "N = 2 ^ k" "k + 4 \<le> 32" "8 \<le> length x"
  shows "arm_index (16 * N) x = 16 * pad_index N x"
proof -
  define w :: u32 where "w = word_of_int (le_val (take 4 x))"
  define X where "X = unat (load64 x 0)"
  have w: "bit w i \<longleftrightarrow> i < 32 \<and> bit X i" for i
  proof -
    have "i div 8 < 4" if "i < 32"
      using that by (simp add: less_mult_imp_div_less)
    then have "bit w i \<longleftrightarrow> i < 32 \<and> bit (x ! (i div 8)) (i mod 8)"
      using assms(3) by (auto simp: w_def bit_word_of_int_iff bit_le_val)
    then show ?thesis
      using assms(3) by (auto simp: X_def bit_unsigned_iff bit_load64)
  qed
  have "of_nat ((16 * N div 16 - 1) * 2 ^ 4) = (push_bit 4 (mask k) :: u32)"
    using assms(1) by (simp add: push_bit_eq_mult mask_eq_exp_minus_1 of_nat_diff)
  then have "arm_index (16 * N) x = unat (w AND push_bit 4 (mask k))"
    by (simp only: arm_index_def w_def)
  also have "\<dots> = push_bit 4 (take_bit k (drop_bit 4 X))"
    using assms(2) by (intro bit_eqI) (auto simp: bit_unsigned_iff bit_and_iff bit_push_bit_iff bit_mask_iff bit_take_bit_iff bit_drop_bit_eq w)
  also have "\<dots> = 16 * (X div 16 mod N)"
    by (simp add: push_bit_eq_mult take_bit_eq_mod drop_bit_eq_div assms(1))
  finally show ?thesis
    by (simp add: pad_index_def X_def)
qed

end
