(* ===== verification/Slow_Correct.thy ===== *)
theory Slow_Correct
  imports Slow_Memory
begin

text \<open>
  CryptoNight as a function on a scratchpad of blocks, and that the three versions of the inner
  loop of \<^verbatim>\<open>slow-hash.c\<close>, on flat memory, compute it.
\<close>

section \<open>The reference\<close>

definition mul_block :: "byte list \<Rightarrow> byte list \<Rightarrow> byte list" where
  "mul_block a b = store64 (mul_hi (load64 a 0) (load64 b 0)) @ store64 (load64 a 0 * load64 b 0)"

type_synonym cn_state = "byte list list \<times> byte list \<times> byte list"

definition cn_step :: "nat \<Rightarrow> cn_state \<Rightarrow> cn_state" where
  "cn_step N s =
    (case s of (P, a, b) \<Rightarrow>
       let i = pad_index N a;
           c = aes_round a (P ! i);
           P = P[i := xor_bytes b c];
           i = pad_index N c;
           d = P ! i;
           e = sum_half_blocks a (mul_block c d)
       in (P[i := e], xor_bytes e d, c))"

definition pseudo_cipher :: "byte list \<Rightarrow> byte list \<Rightarrow> byte list" where
  "pseudo_cipher K s = fold (\<lambda>j. aes_round (schedule_key K j)) [0..<10] s"

definition cn_fill :: "(byte list \<Rightarrow> byte list) \<Rightarrow> nat \<Rightarrow> byte list list \<Rightarrow> byte list list" where
  "cn_fill f n T = concat (map (\<lambda>i. (map f ^^ Suc i) T) [0..<n])"

definition cn_mix :: "(byte list \<Rightarrow> byte list) \<Rightarrow> nat \<Rightarrow> byte list list \<Rightarrow> byte list list \<Rightarrow> byte list list" where
  "cn_mix f n P T = fold (\<lambda>i T. map f (map2 xor_bytes T (take 8 (drop (8 * i) P)))) [0..<n] T"

definition cryptonight :: "nat \<Rightarrow> nat \<Rightarrow> (byte list \<Rightarrow> byte list) list \<Rightarrow> byte list \<Rightarrow> byte list" where
  "cryptonight N iter extra_hashes data =
    (let hs = hash_process data;
         T = map (\<lambda>j. read_block (64 + 16 * j) hs) [0..<8];
         a = xor_bytes (read_block 0 hs) (read_block 32 hs);
         b = xor_bytes (read_block 16 hs) (read_block 48 hs);
         P = cn_fill (pseudo_cipher (take 32 hs)) (N div 8) T;
         (P, a, b) = (cn_step N ^^ (iter div 2)) (P, a, b);
         T = cn_mix (pseudo_cipher (take 32 (drop 32 hs))) (N div 8) P T
     in finish_hash extra_hashes hs (concat T))"

section \<open>One iteration\<close>

definition cn_ok :: "nat \<Rightarrow> cn_state \<Rightarrow> bool" where
  "cn_ok N s \<longleftrightarrow> (case s of (P, a, b) \<Rightarrow> uniform 16 P \<and> length P = N \<and> length a = 16 \<and> length b = 16)"

lemma length_sum_half_blocks [simp]: "length (sum_half_blocks a b) = 16"
  by (simp add: sum_half_blocks_def Let_def)

lemma cn_step_ok:
  assumes "0 < N" "cn_ok N s"
  shows "cn_ok N (cn_step N s)"
proof -
  obtain P a b where s: "s = (P, a, b)"
    by (cases s)
  define c where "c = aes_round a (P ! pad_index N a)"
  define Q where "Q = P[pad_index N a := xor_bytes b c]"
  have "length a = 16" "length b = 16" "length c = 16"
    using assms(2) by (simp_all add: s cn_ok_def c_def length_aes_round)
  then have Q: "uniform 16 Q" "length Q = N" "length c = 16"
    using assms(2) by (simp_all add: Q_def s cn_ok_def uniform_update)
  then have "length (Q ! pad_index N c) = 16"
    using pad_index_less [OF assms(1)] by (intro uniform_nth) simp_all
  with Q show ?thesis
    by (simp add: cn_step_def s cn_ok_def Let_def uniform_update flip: c_def Q_def)
qed

lemma mul_block_load: "load64 (mul_block a b) 0 = mul_hi (load64 a 0) (load64 b 0)" "load64 (mul_block a b) 8 = load64 a 0 * load64 b 0"
  by (simp_all add: mul_block_def load64_pair)

lemma state_bytes_pair: "state_bytes [v, w] = store64 v @ store64 w"
  by (simp add: state_bytes_def)

lemma load64_xor:
  assumes "length a = 16" "length b = 16"
  shows "load64 (xor_bytes a b) 0 = load64 a 0 XOR load64 b 0" "load64 (xor_bytes a b) 8 = load64 a 8 XOR load64 b 8"
  unfolding xor_blocks64_eq [OF assms, symmetric] xor_blocks64_def by (rule load64_pair)+

text \<open>
  The values of a step: the block read at the first index, the cipher text, the scratchpad after the
  first write, the block at the second index and the sum that replaces it. Below is what the three
  versions read from and write to flat memory.
\<close>

definition cn_values ::
  "nat \<Rightarrow> byte list list \<Rightarrow> byte list \<Rightarrow> byte list \<Rightarrow> byte list \<Rightarrow> byte list list \<Rightarrow> byte list \<Rightarrow> byte list \<Rightarrow> bool" where
  "cn_values N P a b c Q d e \<longleftrightarrow> 0 < N \<and> cn_ok N (P, a, b) \<and>
    c = aes_round a (P ! pad_index N a) \<and> Q = P[pad_index N a := xor_bytes b c] \<and>
    d = Q ! pad_index N c \<and> e = sum_half_blocks a (mul_block c d)"

lemma cn_values_exist:
  assumes "cn_ok N (P, a, b)" "0 < N"
  obtains c Q d e where "cn_values N P a b c Q d e"
  using assms unfolding cn_values_def by blast

lemma cn_values_step: "cn_values N P a b c Q d e \<Longrightarrow> cn_step N (P, a, b) = (Q[pad_index N c := e], xor_bytes e d, c)"
  by (simp add: cn_values_def cn_step_def Let_def)

lemma cn_values_lengths:
  assumes "cn_values N P a b c Q d e"
  shows "length a = 16" "length b = 16" "length c = 16" "length d = 16" "length e = 16"
    "length (P ! pad_index N a) = 16" "length (xor_bytes b c) = 16"
proof -
  have v: "0 < N" "uniform 16 P" "length P = N" and "length a = 16" "length b = 16"
    using assms by (simp_all add: cn_values_def cn_ok_def)
  then show "length a = 16" "length b = 16" and c: "length c = 16" and x: "length (xor_bytes b c) = 16"
    using assms by (simp_all add: cn_values_def length_aes_round)
  show "length e = 16"
    using assms by (simp add: cn_values_def)
  have "uniform 16 Q" "length Q = N"
    using assms v x by (simp_all add: cn_values_def uniform_update)
  then show "length d = 16"
    using assms pad_index_less [OF v(1)] by (simp add: cn_values_def uniform_nth)
  show "length (P ! pad_index N a) = 16"
    using v pad_index_less [OF v(1)] by (simp add: uniform_nth)
qed

lemma cn_values_memory:
  assumes "cn_values N P a b c Q d e"
  shows "read_block (16 * pad_index N a) (concat P) = P ! pad_index N a"
    "length x = 16 \<Longrightarrow> put (16 * pad_index N a) x (concat P) = concat (P[pad_index N a := x])"
    "put (16 * pad_index N a) (xor_bytes b c) (concat P) = concat Q"
    "read_block (16 * pad_index N c) (concat Q) = d"
    "length x = 16 \<Longrightarrow> put (16 * pad_index N c) x (concat Q) = concat (Q[pad_index N c := x])"
proof -
  note l = cn_values_lengths [OF assms]
  have P: "uniform 16 P" "length P = N" and Q: "uniform 16 Q" "length Q = N" and i: "pad_index N y < N" for y
    using assms l pad_index_less [of N] by (simp_all add: cn_values_def cn_ok_def uniform_update)
  show "read_block (16 * pad_index N a) (concat P) = P ! pad_index N a"
    using P i by (intro read_concat) simp_all
  show w: "length x = 16 \<Longrightarrow> put (16 * pad_index N a) x (concat P) = concat (P[pad_index N a := x])" for x
    using P i by (intro put_concat) simp_all
  show "put (16 * pad_index N a) (xor_bytes b c) (concat P) = concat Q"
    using assms w [OF l(7)] by (simp add: cn_values_def)
  show "read_block (16 * pad_index N c) (concat Q) = d"
    using assms Q i read_concat [of Q "pad_index N c"] by (simp add: cn_values_def)
  show "length x = 16 \<Longrightarrow> put (16 * pad_index N c) x (concat Q) = concat (Q[pad_index N c := x])"
    using Q i by (intro put_concat) simp_all
qed

lemma cn_values_sum:
  assumes "cn_values N P a b c Q d e"
  shows "e = store64 (load64 a 0 + mul_hi (load64 c 0) (load64 d 0)) @ store64 (load64 a 8 + load64 c 0 * load64 d 0)"
    "load64 e 0 = load64 a 0 + mul_hi (load64 c 0) (load64 d 0)" "load64 e 8 = load64 a 8 + load64 c 0 * load64 d 0"
  using assms by (simp_all add: cn_values_def sum_half_blocks_def Let_def load64_pair mul_block_load)

text \<open>
  A unit that computes AES rounds: the single round, and ten rounds with an expanded key. The
  software and the instructions of the processor both are one.
\<close>

locale cn_cipher =
  fixes single :: "byte list \<Rightarrow> byte list \<Rightarrow> byte list"
    and ten :: "byte list \<Rightarrow> byte list \<Rightarrow> byte list"
    and expand :: "byte list \<Rightarrow> byte list \<Rightarrow> byte list"
  assumes single_round: "length s = 16 \<Longrightarrow> length key = 16 \<Longrightarrow> single s key = aes_round key s"
    and ten_rounds: "length s = 16 \<Longrightarrow> 32 \<le> length key \<Longrightarrow> ten (expand buf key) s = pseudo_cipher (take 32 key) s"
begin

lemma step_eq:
  assumes "N = 2 ^ k" "k + 4 \<le> 32" and "cn_ok N (P, a, b)"
  shows "x86_step single (16 * N) (concat P, [load64 a 0, load64 a 8], b) =
    (case cn_step N (P, a, b) of (P, a, b) \<Rightarrow> (concat P, [load64 a 0, load64 a 8], b))"
proof -
  have "0 < N"
    using assms(1) by simp
  then obtain c Q d e where v: "cn_values N P a b c Q d e"
    using cn_values_exist [OF assms(3)] by blast
  note l = cn_values_lengths [OF v] and mem = cn_values_memory [OF v]
  have a: "state_bytes [load64 a 0, load64 a 8] = a"
    using l by (simp add: state_bytes_pair store64_pair)
  have r: "single (P ! pad_index N a) a = c"
    using single_round l v by (simp add: cn_values_def)
  have i: "state_index (16 * N) [load64 a 0, load64 a 8] = 16 * pad_index N a" "state_index (16 * N) [load64 c 0, load64 c 8] = 16 * pad_index N c"
    by (rule state_index_index [OF assms(1,2)]; simp)+
  show ?thesis
    unfolding cn_values_step [OF v] x86_step_def prod.case Let_def a i mem(1) r mem(3,4)
    by (simp add: state_bytes_pair mem(5) load64_xor [OF l(5,4)] cn_values_sum(2,3) [OF v] l(5)
        flip: cn_values_sum(1) [OF v])
qed

lemma steps_eq:
  assumes "N = 2 ^ k" "k + 4 \<le> 32" and "cn_ok N (P, a, b)"
  shows "cn_ok N ((cn_step N ^^ n) (P, a, b)) \<and>
    (x86_step single (16 * N) ^^ n) (concat P, [load64 a 0, load64 a 8], b) =
      (case (cn_step N ^^ n) (P, a, b) of (P, a, b) \<Rightarrow> (concat P, [load64 a 0, load64 a 8], b))"
proof (induction n)
  case (Suc n)
  obtain P' a' b' where s: "(cn_step N ^^ n) (P, a, b) = (P', a', b')"
    by (cases "(cn_step N ^^ n) (P, a, b)")
  then show ?case
    using Suc step_eq [OF assms(1,2), of P' a' b'] cn_step_ok [of N "(P', a', b')"] assms(1) by simp
qed (simp add: assms(3))

end

section \<open>The versions for ARM and for other processors\<close>

lemma read_put: "j + length x \<le> length s \<Longrightarrow> length x = 16 \<Longrightarrow> read_block j (put j x s) = x"
  by (simp add: read_block_def put_def)

lemma put_put: "j + length x \<le> length s \<Longrightarrow> length y = length x \<Longrightarrow> put j y (put j x s) = put j y s"
  by (simp add: put_def)

lemma xor_bytes_commute: "xor_bytes a b = xor_bytes b a"
  by (induction a b rule: list_induct2') (simp_all add: xor_bytes_def xor.commute)

lemma cn_values_room:
  assumes "cn_values N P a b c Q d e"
  shows "16 * pad_index N x + 16 \<le> length (concat P)" "16 * pad_index N x + 16 \<le> length (concat Q)"
proof -
  have "uniform 16 P" "length P = N" "uniform 16 Q" "length Q = N" "pad_index N x < N"
    using assms cn_values_lengths [OF assms] pad_index_less [of N] by (simp_all add: cn_values_def cn_ok_def uniform_update)
  then show "16 * pad_index N x + 16 \<le> length (concat P)" "16 * pad_index N x + 16 \<le> length (concat Q)"
    by (simp_all add: length_concat_uniform)
qed

lemma arm_step_eq:
  assumes "N = 2 ^ k" "k + 4 \<le> 32" and "cn_ok N (P, a, b)"
  shows "arm_step (16 * N) (concat P, a, b) = (case cn_step N (P, a, b) of (P, a, b) \<Rightarrow> (concat P, a, b))"
proof -
  have "0 < N"
    using assms(1) by simp
  then obtain c Q d e where v: "cn_values N P a b c Q d e"
    using cn_values_exist [OF assms(3)] by blast
  note l = cn_values_lengths [OF v] and mem = cn_values_memory [OF v] and room = cn_values_room [OF v]
  define i j where "i = 16 * pad_index N a" and "j = 16 * pad_index N c"
  have ij: "arm_index (16 * N) a = i" "arm_index (16 * N) c = j"
    unfolding i_def j_def using l by (intro arm_index_index [OF assms(1,2)]; simp)+
  have 1: "read_block i (concat P) = P ! pad_index N a" "aesb_single_round (P ! pad_index N a) a = c" "xor_blocks64 b c = xor_bytes b c"
    using mem(1) single_round_eq l v by (simp_all add: i_def cn_values_def xor_blocks64_eq)
  have 2: "read_block i (put i c (concat P)) = c" "put i (xor_bytes b c) (put i c (concat P)) = concat Q"
    using room(1) [of a] l mem(3) by (simp_all add: i_def read_put put_put)
  have 3: "read_block j (concat Q) = d" "sum_half_blocks a (arm_mul c d) = e"
    using mem(4) v by (simp_all add: j_def cn_values_def arm_mul_correct mul_block_def)
  have 4: "read_block j (put j e (concat Q)) = e" "xor_blocks64 d e = xor_bytes e d"
    using room(2) [of c] l by (simp_all add: j_def read_put xor_blocks64_eq xor_bytes_commute)
  have 5: "put j e (concat Q) = concat (Q[pad_index N c := e])"
    using mem(5) [OF l(5)] by (simp add: j_def)
  show ?thesis
    unfolding cn_values_step [OF v] arm_step_def prod.case Let_def ij(1) 1 2 swap_blocks_def fst_conv snd_conv ij(2) 3 4 unfolding 5 ..
qed

lemma portable_step_eq:
  assumes "N = 2 ^ k" "k + 4 \<le> 32" and "cn_ok N (P, a, b)"
  shows "portable_step (16 * N) (concat P, a, b) = Some (case cn_step N (P, a, b) of (P, a, b) \<Rightarrow> (concat P, a, b))"
proof -
  have "0 < N"
    using assms(1) by simp
  then obtain c Q d e where v: "cn_values N P a b c Q d e"
    using cn_values_exist [OF assms(3)] by blast
  note l = cn_values_lengths [OF v] and mem = cn_values_memory [OF v]
  have k: "k \<le> 60" and N: "16 * N div 16 = N"
    using assms(2) by simp_all
  have 1: "read_block (pad_index N a * 16) (concat P) = P ! pad_index N a" "aesb_single_round (P ! pad_index N a) a = c"
    "xor_blocks b c = xor_bytes b c" "put (pad_index N a * 16) (xor_bytes b c) (concat P) = concat Q"
    using mem(1,3) single_round_eq l v by (simp_all add: cn_values_def xor_blocks_eq mult.commute)
  have 2: "read_block (pad_index N c * 16) (concat Q) = d" "sum_half_blocks a (mul_block c d) = e" "xor_blocks d e = xor_bytes e d"
    "put (pad_index N c * 16) e (concat Q) = concat (Q[pad_index N c := e])"
    using mem(4) mem(5) [OF l(5)] v l by (simp_all add: cn_values_def xor_blocks_eq xor_bytes_commute mult.commute)
  show ?thesis
    unfolding cn_values_step [OF v] portable_step_def prod.case Let_def N e2i_index [OF assms(1) k] 1 swap_blocks_def fst_conv snd_conv
      2(1) mul_correct mul_block_def [symmetric] option.case 2(2,3,4) by simp
qed

lemma arm_steps_eq:
  assumes "N = 2 ^ k" "k + 4 \<le> 32" and "cn_ok N (P, a, b)"
  shows "cn_ok N ((cn_step N ^^ n) (P, a, b)) \<and>
    (arm_step (16 * N) ^^ n) (concat P, a, b) = (case (cn_step N ^^ n) (P, a, b) of (P, a, b) \<Rightarrow> (concat P, a, b))"
proof (induction n)
  case (Suc n)
  obtain P' a' b' where s: "(cn_step N ^^ n) (P, a, b) = (P', a', b')"
    by (cases "(cn_step N ^^ n) (P, a, b)")
  then show ?case
    using Suc arm_step_eq [OF assms(1,2), of P' a' b'] cn_step_ok [of N "(P', a', b')"] assms(1) by simp
qed (simp add: assms(3))

lemma portable_steps_eq:
  assumes "N = 2 ^ k" "k + 4 \<le> 32" and "cn_ok N (P, a, b)"
  shows "iterate n (portable_step (16 * N)) (concat P, a, b) =
    Some (case (cn_step N ^^ n) (P, a, b) of (P, a, b) \<Rightarrow> (concat P, a, b))"
  using assms(3)
proof (induction n arbitrary: P a b)
  case (Suc n)
  obtain P' a' b' where s: "cn_step N (P, a, b) = (P', a', b')"
    by (cases "cn_step N (P, a, b)")
  then show ?case
    using Suc.IH [of P' a' b'] portable_step_eq [OF assms(1,2) Suc.prems] cn_step_ok [OF _ Suc.prems] assms(1)
    by (simp add: funpow_swap1)
qed simp

end
