(* ===== verification/Slow_Cipher.thy ===== *)
theory Slow_Cipher
  imports Slow_Correct
begin

text \<open>
  The AES units behind the scratchpad hash: the software of \<^verbatim>\<open>aesb.c\<close> with the key expansion of
  \<^verbatim>\<open>oaes_lib.c\<close>, and the instructions of the processor with \<^verbatim>\<open>aes_expand_key\<close>.
\<close>

section \<open>The software\<close>

lemma exp_data_expanded: "length K = 32 \<Longrightarrow> k_exp_data (expanded K) = schedule K 60"
  by (simp add: expanded_def)

lemma length_schedule_key: "length K = 32 \<Longrightarrow> length (schedule_key K i) = 16"
proof -
  assume "length K = 32"
  then have "length (key_word K n) = 4" for n
    by (intro length_key_word [of K 8]) simp_all
  moreover have "[4 * i..<4 * i + 4] = [4 * i, 4 * i + 1, 4 * i + 2, 4 * i + 3]"
    by (simp add: upt_conv_Cons)
  ultimately show ?thesis
    by (simp add: schedule_key_def)
qed

lemma length_pseudo_cipher:
  assumes "length K = 32" "length s = 16"
  shows "length (pseudo_cipher K s) = 16"
proof -
  have "length (fold (\<lambda>j. aes_round (schedule_key K j)) js s) = 16" for js
    using assms(2) by (induction js arbitrary: s) (simp_all add: length_aes_round length_schedule_key assms(1))
  then show ?thesis
    by (simp add: pseudo_cipher_def)
qed

lemma software_ten:
  assumes "length s = 16" "length K = 32"
  shows "aesb_pseudo_round s (schedule K 60 @ ys) = pseudo_cipher K s"
proof -
  have l: "length (schedule K 60) = 240"
    using length_schedule [of K 8 60] assms(2) by simp
  have "key_block (schedule K 60 @ ys) j = schedule_key K j" if "j < 10" for j
    using that schedule_blocks [of K 8 j 60] assms(2) l by (simp add: key_block_def)
  then have "fold (\<lambda>j. aes_round (key_block (schedule K 60 @ ys) j)) [0..<10] s = pseudo_cipher K s"
    unfolding pseudo_cipher_def by (intro fold_cong) (simp_all del: upt_rec_numeral)
  then show ?thesis
    using pseudo_round_eq [OF assms(1), of "schedule K 60 @ ys"] l by simp
qed

text \<open>The expanded key where \<^verbatim>\<open>oaes_lib.c\<close> keeps it, and its copy in a buffer of the caller.\<close>

interpretation software: cn_cipher aesb_single_round "\<lambda>ek s. aesb_pseudo_round s ek" "\<lambda>buf key. k_exp_data (expanded (take 32 key))"
proof
  fix s key buf :: "byte list"
  show "length s = 16 \<Longrightarrow> length key = 16 \<Longrightarrow> aesb_single_round s key = aes_round key s"
    using single_round_eq [of s key] by simp
  show "length s = 16 \<Longrightarrow> 32 \<le> length key \<Longrightarrow> aesb_pseudo_round s (k_exp_data (expanded (take 32 key))) = pseudo_cipher (take 32 key) s"
    using software_ten [of s "take 32 key" "[]"] by (simp add: exp_data_expanded)
qed

interpretation copied: cn_cipher aesb_single_round "\<lambda>ek s. aesb_pseudo_round s ek" "\<lambda>buf key. put 0 (k_exp_data (expanded (take 32 key))) buf"
proof
  fix s key buf :: "byte list"
  show "length s = 16 \<Longrightarrow> length key = 16 \<Longrightarrow> aesb_single_round s key = aes_round key s"
    using single_round_eq [of s key] by simp
  show "length s = 16 \<Longrightarrow> 32 \<le> length key \<Longrightarrow>
      aesb_pseudo_round s (put 0 (k_exp_data (expanded (take 32 key))) buf) = pseudo_cipher (take 32 key) s"
    using software_ten [of s "take 32 key"] by (simp add: exp_data_expanded put_def)
qed

section \<open>The instructions\<close>

text \<open>
  What the documentation of the processor says of \<^verbatim>\<open>AESENC\<close> and \<^verbatim>\<open>AESKEYGENASSIST\<close>.
\<close>

definition doc_aesenc :: "byte list \<Rightarrow> byte list \<Rightarrow> byte list" where
  "doc_aesenc d k = aes_round k d"

definition doc_assist :: "byte list \<Rightarrow> byte \<Rightarrow> byte list" where
  "doc_assist x r =
    (let x1 = sub_bytes (dword x 1);
         x3 = sub_bytes (dword x 3)
     in x1 @ xor_bytes (rot_word x1) [r, 0, 0, 0] @ x3 @ xor_bytes (rot_word x3) [r, 0, 0, 0])"

locale aes_instructions =
  fixes aesenc :: "byte list \<Rightarrow> byte list \<Rightarrow> byte list"
    and assist :: "byte list \<Rightarrow> byte \<Rightarrow> byte list"
  assumes aesenc: "length d = 16 \<Longrightarrow> length k = 16 \<Longrightarrow> aesenc d k = doc_aesenc d k"
    and assist: "length x = 16 \<Longrightarrow> assist x r = doc_assist x r"

interpretation documented: aes_instructions doc_aesenc doc_assist
  by unfold_locales simp_all

lemma length_16_words:
  "length t = 16 \<longleftrightarrow> (\<exists>a b c d. t = a @ b @ c @ d \<and> length a = 4 \<and> length b = 4 \<and> length c = 4 \<and> length d = 4)"
proof
  assume t: "length t = 16"
  have "t = take 4 t @ take 4 (drop 4 t) @ take 4 (drop 8 t) @ take 4 (drop 12 t)"
    using t take_add [of 4 4 t] take_add [of 8 4 t] take_add [of 12 4 t] by simp
  with t show "\<exists>a b c d. t = a @ b @ c @ d \<and> length a = 4 \<and> length b = 4 \<and> length c = 4 \<and> length d = 4"
    by (intro exI [of _ "take 4 t"] exI [of _ "take 4 (drop 4 t)"] exI [of _ "take 4 (drop 8 t)"] exI [of _ "take 4 (drop 12 t)"]) simp
qed auto

lemma slli_words: "length a = 4 \<Longrightarrow> length b = 4 \<Longrightarrow> length c = 4 \<Longrightarrow> length d = 4 \<Longrightarrow>
    slli_si128 (a @ b @ c @ d) 4 = replicate 4 0 @ a @ b @ c"
  by (simp add: slli_si128_def)

lemma dwords:
  "length a = 4 \<Longrightarrow> length b = 4 \<Longrightarrow> length c = 4 \<Longrightarrow> length d = 4 \<Longrightarrow>
    dword (a @ b @ c @ d) 0 = a \<and> dword (a @ b @ c @ d) 1 = b \<and> dword (a @ b @ c @ d) 2 = c \<and> dword (a @ b @ c @ d) 3 = d"
  by (simp add: dword_def)

text \<open>The shifts and exclusive ors make the running sum of the four words.\<close>

definition running :: "byte list \<Rightarrow> byte list \<Rightarrow> byte list \<Rightarrow> byte list \<Rightarrow> byte list \<Rightarrow> byte list" where
  "running a b c d g =
    (let n0 = xor_bytes a g; n1 = xor_bytes b n0; n2 = xor_bytes c n1; n3 = xor_bytes d n2 in n0 @ n1 @ n2 @ n3)"

lemma running_shifts:
  assumes "length a = 4" "length b = 4" "length c = 4" "length d = 4" "length g = 4" and t: "t = a @ b @ c @ d"
  shows "(let t4 = slli_si128 t 0x04; t = xor_bytes t t4; t4 = slli_si128 t4 0x04; t = xor_bytes t t4;
       t4 = slli_si128 t4 0x04; t = xor_bytes t t4 in xor_bytes t (g @ g @ g @ g)) = running a b c d g"
proof -
  obtain a0 a1 a2 a3 b0 b1 b2 b3 c0 c1 c2 c3 d0 d1 d2 d3 g0 g1 g2 g3 where
    "a = [a0, a1, a2, a3]" "b = [b0, b1, b2, b3]" "c = [c0, c1, c2, c3]" "d = [d0, d1, d2, d3]" "g = [g0, g1, g2, g3]"
    using assms(1-5) by (auto simp: length_4)
  then show ?thesis
    by (simp add: t running_def slli_si128_def xor_bytes_def numeral_eq_Suc xor_ac)
qed

lemma assist1_running:
  assumes "length a = 4" "length b = 4" "length c = 4" "length d = 4" "length (dword t2 3) = 4"
  shows "aes_256_assist1 (a @ b @ c @ d) t2 = running a b c d (dword t2 3)"
  using running_shifts [OF assms refl] by (simp add: aes_256_assist1_def Let_def shuffle_epi32_def)

lemma assist2_running:
  assumes "length a = 4" "length b = 4" "length c = 4" "length d = 4" "length (dword (assist t1 0) 2) = 4"
  shows "aes_256_assist2 assist t1 (a @ b @ c @ d) = running a b c d (dword (assist t1 0) 2)"
  using running_shifts [OF assms refl] by (simp add: aes_256_assist2_def Let_def shuffle_epi32_def)

lemma schedule_key_words:
  "schedule_key K (2 * p) = key_word K (8 * p) @ key_word K (8 * p + 1) @ key_word K (8 * p + 2) @ key_word K (8 * p + 3)"
  "schedule_key K (2 * p + 1) = key_word K (8 * p + 4) @ key_word K (8 * p + 5) @ key_word K (8 * p + 6) @ key_word K (8 * p + 7)"
proof -
  have u: "[n..<n + 4] = [n, n + 1, n + 2, n + 3]" for n
    by (simp add: upt_conv_Cons)
  have e: "4 * (2 * p) = 8 * p" "4 * (2 * p + 1) = 8 * p + 4"
    by simp_all
  show "schedule_key K (2 * p) = key_word K (8 * p) @ key_word K (8 * p + 1) @ key_word K (8 * p + 2) @ key_word K (8 * p + 3)"
    "schedule_key K (2 * p + 1) = key_word K (8 * p + 4) @ key_word K (8 * p + 5) @ key_word K (8 * p + 6) @ key_word K (8 * p + 7)"
    unfolding schedule_key_def e u by (simp_all add: ac_simps)
qed

lemma key_word_8:
  assumes "length K = 32"
  shows "key_word K (8 * p + 8) = xor_bytes (key_word K (8 * p)) (xor_bytes (sub_bytes (rot_word (key_word K (8 * p + 7)))) (rcon (p + 1)))"
    "key_word K (8 * p + 12) = xor_bytes (key_word K (8 * p + 4)) (sub_bytes (key_word K (8 * p + 11)))"
    "r \<in> {1, 2, 3, 5, 6, 7} \<Longrightarrow> key_word K (8 * p + 8 + r) = xor_bytes (key_word K (8 * p + r)) (key_word K (8 * p + 7 + r))"
proof -
  have u: "8 \<le> i \<Longrightarrow> key_word K i = xor_bytes (key_word K (i - 8))
    (if i mod 8 = 0 then xor_bytes (sub_bytes (rot_word (key_word K (i - 1)))) (rcon (i div 8))
     else if i mod 8 = 4 then sub_bytes (key_word K (i - 1)) else key_word K (i - 1))" for i
    using key_word_unfold [of K 8 i] assms by simp
  have i: "8 * p + 8 = Suc (8 * p + 7)" "8 * p + 12 = Suc (8 * p + 11)"
    by simp_all
  have "(8 * p + 8) mod 8 = 0" "(8 * p + 8) div 8 = p + 1" "(8 * p + 8) - 8 = 8 * p" "(8 * p + 8) - 1 = 8 * p + 7"
    by simp_all
  then show "key_word K (8 * p + 8) = xor_bytes (key_word K (8 * p)) (xor_bytes (sub_bytes (rot_word (key_word K (8 * p + 7)))) (rcon (p + 1)))"
    using u [of "8 * p + 8"] by (simp add: ac_simps)
  have "(8 * p + 12) mod 8 = 4" "(8 * p + 12) - 8 = 8 * p + 4" "(8 * p + 12) - 1 = 8 * p + 11"
    using mod_mult_self4 [of 8 p 12] by simp_all
  then show "key_word K (8 * p + 12) = xor_bytes (key_word K (8 * p + 4)) (sub_bytes (key_word K (8 * p + 11)))"
    using u [of "8 * p + 12"] by (simp add: ac_simps)
  assume r: "r \<in> {1, 2, 3, 5, 6, 7}"
  have "(8 * p + (8 + r)) mod 8 = (8 + r) mod 8"
    by (rule mod_mult_self4)
  then have "(8 * p + 8 + r) mod 8 = r" "r \<noteq> 0" "r \<noteq> 4" "8 * p + 8 + r - 8 = 8 * p + r" "8 * p + 8 + r - 1 = 8 * p + 7 + r"
    using r by auto
  then show "key_word K (8 * p + 8 + r) = xor_bytes (key_word K (8 * p + r)) (key_word K (8 * p + 7 + r))"
    using u [of "8 * p + 8 + r"] r by (simp add: ac_simps)
qed

lemma schedule_running:
  assumes "length K = 32"
  shows "schedule_key K (2 * p + 2) = running (key_word K (8 * p)) (key_word K (8 * p + 1)) (key_word K (8 * p + 2)) (key_word K (8 * p + 3))
      (xor_bytes (sub_bytes (rot_word (key_word K (8 * p + 7)))) (rcon (p + 1)))"
    "schedule_key K (2 * p + 3) = running (key_word K (8 * p + 4)) (key_word K (8 * p + 5)) (key_word K (8 * p + 6)) (key_word K (8 * p + 7))
      (sub_bytes (key_word K (8 * p + 11)))"
proof -
  define w where "w i = key_word K (8 * p + i)" for i
  have s: "schedule_key K (2 * p + 2) = w 8 @ w 9 @ w 10 @ w 11" "schedule_key K (2 * p + 3) = w 12 @ w 13 @ w 14 @ w 15"
    using schedule_key_words [of K "p + 1"] by (simp_all add: w_def ac_simps numeral_3_eq_3)
  have k: "w 8 = xor_bytes (w 0) (xor_bytes (sub_bytes (rot_word (w 7))) (rcon (p + 1)))"
    "w 9 = xor_bytes (w 1) (w 8)" "w 10 = xor_bytes (w 2) (w 9)" "w 11 = xor_bytes (w 3) (w 10)"
    using key_word_8(1) [OF assms, of p] key_word_8(3) [OF assms, of 1 p] key_word_8(3) [OF assms, of 2 p] key_word_8(3) [OF assms, of 3 p]
    by (simp_all add: w_def ac_simps)
  have "schedule_key K (2 * p + 2) = running (w 0) (w 1) (w 2) (w 3) (xor_bytes (sub_bytes (rot_word (w 7))) (rcon (p + 1)))"
    unfolding s running_def Let_def k ..
  then show "schedule_key K (2 * p + 2) = running (key_word K (8 * p)) (key_word K (8 * p + 1)) (key_word K (8 * p + 2)) (key_word K (8 * p + 3))
      (xor_bytes (sub_bytes (rot_word (key_word K (8 * p + 7)))) (rcon (p + 1)))"
    by (simp add: w_def)
  have k: "w 12 = xor_bytes (w 4) (sub_bytes (w 11))"
    "w 13 = xor_bytes (w 5) (w 12)" "w 14 = xor_bytes (w 6) (w 13)" "w 15 = xor_bytes (w 7) (w 14)"
    using key_word_8(2) [OF assms, of p] key_word_8(3) [OF assms, of 5 p] key_word_8(3) [OF assms, of 6 p] key_word_8(3) [OF assms, of 7 p]
    by (simp_all add: w_def ac_simps)
  have "schedule_key K (2 * p + 3) = running (w 4) (w 5) (w 6) (w 7) (sub_bytes (w 11))"
    unfolding s running_def Let_def k ..
  then show "schedule_key K (2 * p + 3) = running (key_word K (8 * p + 4)) (key_word K (8 * p + 5)) (key_word K (8 * p + 6)) (key_word K (8 * p + 7))
      (sub_bytes (key_word K (8 * p + 11)))"
    by (simp add: w_def)
qed

context aes_instructions
begin

lemma assist_words:
  assumes "length t = 16"
  shows "dword (assist t r) 3 = xor_bytes (rot_word (sub_bytes (dword t 3))) [r, 0, 0, 0]" "dword (assist t r) 2 = sub_bytes (dword t 3)"
proof -
  obtain a b c d where t: "t = a @ b @ c @ d" "length a = 4" "length b = 4" "length c = 4" "length d = 4"
    using assms by (auto simp: length_16_words)
  have l: "length (rot_word w) = 4" if "length w = 4" for w
    using that by (auto simp: length_4 rot_word_def)
  show "dword (assist t r) 3 = xor_bytes (rot_word (sub_bytes (dword t 3))) [r, 0, 0, 0]" "dword (assist t r) 2 = sub_bytes (dword t 3)"
    using t dwords [OF t(2-5)] assist [OF assms, of r] l by (simp_all add: doc_assist_def Let_def dwords)
qed

lemma expand_even:
  assumes "length K = 32" "rcon (p + 1) = [r, 0, 0, 0]"
  shows "aes_256_assist1 (schedule_key K (2 * p)) (assist (schedule_key K (2 * p + 1)) r) = schedule_key K (2 * p + 2)"
proof -
  have l: "length (key_word K n) = 4" for n
    using assms(1) by (intro length_key_word [of K 8]) simp_all
  have rot: "rot_word (sub_bytes w) = sub_bytes (rot_word w)" if "length w = 4" for w
    using that by (auto simp: length_4 rot_word_def sub_bytes_def)
  have "dword (assist (schedule_key K (2 * p + 1)) r) 3 = xor_bytes (sub_bytes (rot_word (key_word K (8 * p + 7)))) (rcon (p + 1))"
    unfolding assist_words(1) [OF length_schedule_key [OF assms(1)]] unfolding schedule_key_words(2)
    by (simp add: dwords [OF l l l l] rot l assms(2) [simplified])
  moreover have "length (rot_word w) = 4" if "length w = 4" for w
    using that by (auto simp: length_4 rot_word_def)
  ultimately show ?thesis
    unfolding schedule_running(1) [OF assms(1)] schedule_key_words(1) by (subst assist1_running) (simp_all add: l rcon_def)
qed

lemma expand_odd:
  assumes "length K = 32"
  shows "aes_256_assist2 assist (schedule_key K (2 * p + 2)) (schedule_key K (2 * p + 1)) = schedule_key K (2 * p + 3)"
proof -
  have l: "length (key_word K n) = 4" for n
    using assms(1) by (intro length_key_word [of K 8]) simp_all
  have e: "2 * p + 2 = 2 * (p + 1)"
    by simp
  have "dword (assist (schedule_key K (2 * p + 2)) 0) 2 = sub_bytes (key_word K (8 * p + 11))"
    unfolding assist_words(2) [OF length_schedule_key [OF assms(1)]] unfolding e schedule_key_words(1)
    by (simp add: dwords [OF l l l l] ac_simps)
  then show ?thesis
    unfolding schedule_running(2) [OF assms(1)] schedule_key_words(2) by (subst assist2_running) (simp_all add: l)
qed

lemma expand_key:
  assumes "32 \<le> length key"
  shows "aes_expand_key assist key buf = put 0 (concat (map (schedule_key (take 32 key)) [0, 1, 2, 3, 4, 5, 6, 7, 8, 9, 10])) buf"
proof -
  define K where "K = take 32 key"
  have K: "length K = 32"
    using assms by (simp add: K_def)
  have w: "key_word K n = take 4 (drop (4 * n) K)" if "n < 8" for n
    using that K by (simp add: key_word.simps)
  have t: "take 16 (drop n K) = take 4 (drop n K) @ take 4 (drop (n + 4) K) @ take 4 (drop (n + 8) K) @ take 4 (drop (n + 12) K)" for n
    using take_add [of 4 4 "drop n K"] take_add [of 8 4 "drop n K"] take_add [of 12 4 "drop n K"] by (simp add: add.commute)
  have k: "read_block 0 key = take 16 (drop 0 K)" "read_block 16 key = take 16 (drop 16 K)"
    by (simp_all add: read_block_def K_def drop_take)
  have start: "read_block 0 key = schedule_key K 0" "read_block 16 key = schedule_key K 1"
    unfolding k t using schedule_key_words [of K 0] by (simp_all add: w)
  have r: "rcon (Suc 0) = [0x01, 0, 0, 0]" "rcon (Suc (Suc 0)) = [0x02, 0, 0, 0]" "rcon 3 = [0x04, 0, 0, 0]" "rcon 4 = [0x08, 0, 0, 0]" "rcon 5 = [0x10, 0, 0, 0]"
    using gf_8_rcon [of 0] gf_8_rcon [of 1] gf_8_rcon [of 2] gf_8_rcon [of 3] gf_8_rcon [of 4]
    by (simp_all add: rcon_def oaes_gf_8_def)
  have e: "aes_256_assist1 (schedule_key K 0) (assist (schedule_key K 1) 0x01) = schedule_key K 2"
    "aes_256_assist1 (schedule_key K 2) (assist (schedule_key K 3) 0x02) = schedule_key K 4"
    "aes_256_assist1 (schedule_key K 4) (assist (schedule_key K 5) 0x04) = schedule_key K 6"
    "aes_256_assist1 (schedule_key K 6) (assist (schedule_key K 7) 0x08) = schedule_key K 8"
    "aes_256_assist1 (schedule_key K 8) (assist (schedule_key K 9) 0x10) = schedule_key K 10"
    using r expand_even [OF K, of 0 "0x01"] expand_even [OF K, of 1 "0x02"] expand_even [OF K, of 2 "0x04"] expand_even [OF K, of 3 "0x08"] expand_even [OF K, of 4 "0x10"]
    by (simp_all add: numeral_eq_Suc)
  have o: "aes_256_assist2 assist (schedule_key K 2) (schedule_key K 1) = schedule_key K 3"
    "aes_256_assist2 assist (schedule_key K 4) (schedule_key K 3) = schedule_key K 5"
    "aes_256_assist2 assist (schedule_key K 6) (schedule_key K 5) = schedule_key K 7"
    "aes_256_assist2 assist (schedule_key K 8) (schedule_key K 7) = schedule_key K 9"
    using expand_odd [OF K, of 0] expand_odd [OF K, of 1] expand_odd [OF K, of 2] expand_odd [OF K, of 3]
    by (simp_all add: numeral_eq_Suc)
  show ?thesis
    unfolding aes_expand_key_def Let_def start K_def [symmetric] e o by simp
qed

lemma ten_instructions:
  assumes "length s = 16" "32 \<le> length key"
  shows "aesenc_10 aesenc (aes_expand_key assist key buf) s = pseudo_cipher (take 32 key) s"
proof -
  define K where "K = take 32 key"
  have K: "length K = 32"
    using assms(2) by (simp add: K_def)
  define L where "L = map (schedule_key K) [0, 1, 2, 3, 4, 5, 6, 7, 8, 9, 10]"
  have u: "uniform 16 L" "length L = 11"
    by (simp_all add: L_def length_schedule_key K)
  have r: "read_block (16 * j) (aes_expand_key assist key buf) = schedule_key K j" if "j < 11" for j
  proof -
    have "L ! j = schedule_key K j"
      using that unfolding L_def by (auto simp: less_Suc_eq numeral_eq_Suc)
    moreover have "aes_expand_key assist key buf = concat L @ drop (length (concat L)) buf"
      unfolding expand_key [OF assms(2)] K_def [symmetric] L_def [symmetric] by (simp add: put_def)
    ultimately show ?thesis
      using take_drop_concat [OF u(1), of j "drop (length (concat L)) buf"] u(2) that by (simp add: read_block_def)
  qed
  have "aesenc_10 aesenc (aes_expand_key assist key buf) s = fold (\<lambda>k d. aesenc d k) (map (schedule_key K) [0, 1, 2, 3, 4, 5, 6, 7, 8, 9]) s"
    using r [of 0] r [of 1] r [of 2] r [of 3] r [of 4] r [of 5] r [of 6] r [of 7] r [of 8] r [of 9]
    unfolding aesenc_10_def by simp
  also have "\<dots> = fold (\<lambda>k d. aesenc d k) (take 10 L) s"
    by (simp add: L_def)
  also have "\<dots> = fold (\<lambda>k d. aes_round k d) (take 10 L) s"
  proof -
    have "uniform 16 ks \<Longrightarrow> length d = 16 \<Longrightarrow> fold (\<lambda>k d. aesenc d k) ks d = fold (\<lambda>k d. aes_round k d) ks d" for ks d
      by (induction ks arbitrary: d) (simp_all add: aesenc doc_aesenc_def length_aes_round)
    moreover have "uniform 16 (take 10 L)"
      using u(1) by (auto simp: uniform_def dest: in_set_takeD)
    ultimately show ?thesis
      using assms(1) by simp
  qed
  also have "\<dots> = pseudo_cipher K s"
  proof -
    have "[0..<10] = [0, 1, 2, 3, 4, 5, 6, 7, 8, 9]"
      by code_simp
    then show ?thesis
      by (simp add: pseudo_cipher_def L_def del: upt_rec_numeral)
  qed
  finally show ?thesis
    by (simp add: K_def)
qed

end

sublocale aes_instructions \<subseteq> hardware: cn_cipher aesenc "\<lambda>ek. aesenc_10 aesenc ek" "\<lambda>buf key. aes_expand_key assist key buf"
  by unfold_locales (simp_all add: aesenc doc_aesenc_def ten_instructions)

end
