(* ===== verification/Slow_Text.thy ===== *)
theory Slow_Text
  imports Slow_Cipher
begin

text \<open>
  The first and the last part of the scratchpad hash, on texts of eight blocks, and the whole
  function: every version computes \<open>cryptonight\<close>.
\<close>

section \<open>Texts of eight blocks\<close>

definition cn_text :: "byte list list \<Rightarrow> bool" where
  "cn_text T \<longleftrightarrow> uniform 16 T \<and> length T = 8"

lemma cn_text_map: "cn_text T \<Longrightarrow> (\<And>s. length s = 16 \<Longrightarrow> length (F s) = 16) \<Longrightarrow> cn_text (map F T)"
  by (simp add: cn_text_def uniform_map)

lemma length_cn_text: "cn_text T \<Longrightarrow> length (concat T) = 128"
  using length_concat_uniform [of 16 T] by (simp add: cn_text_def)

lemma crypt_text_eq:
  assumes "cn_text T" and f: "\<And>s. length s = 16 \<Longrightarrow> length (f s) = 16"
  shows "crypt_text f (concat T) = concat (map f T)"
proof -
  have u: "uniform 16 T" "length T = 8"
    using assms(1) by (simp_all add: cn_text_def)
  have "fold (\<lambda>j text. put (16 * j) (f (read_block (16 * j) text)) text) [0..<8] (concat T) =
      concat (map (\<lambda>j. f (T ! j)) [0..<8] @ drop 8 T)"
  proof (rule fold_put_blocks [OF u(1), where f = "\<lambda>j. f"])
    show "put (16 * j) (f (read_block (16 * j) (concat U))) (concat U) = concat (U[j := f (U ! j)])"
      if "uniform 16 U" "8 \<le> length U" "j < 8" for j U
      using that by (simp add: read_concat put_concat uniform_nth f)
  qed (simp_all add: u f)
  also have "map (\<lambda>j. f (T ! j)) [0..<8] = map f T"
    using u(2) by (intro nth_equalityI) (simp_all del: upt_rec_numeral)
  finally show ?thesis
    using u(2) by (simp add: crypt_text_def del: upt_rec_numeral)
qed

lemma mix_text_eq:
  assumes "cn_text T" "cn_text B" and f: "\<And>s. length s = 16 \<Longrightarrow> length (f s) = 16"
    and xr: "\<And>a b. length a = 16 \<Longrightarrow> length b = 16 \<Longrightarrow> xr a b = xor_bytes a b"
  shows "mix_text xr f (concat B @ ys) (concat T) = concat (map f (map2 xor_bytes T B))"
proof -
  have u: "uniform 16 T" "length T = 8" "uniform 16 B" "length B = 8"
    using assms(1,2) by (simp_all add: cn_text_def)
  define step where "step j t =
      (let t = put (16 * j) (xr (read_block (16 * j) t) (read_block (16 * j) (concat B @ ys))) t
       in put (16 * j) (f (read_block (16 * j) t)) t)" for j t
  have "fold step [0..<8] (concat T) = concat (map (\<lambda>j. f (xor_bytes (T ! j) (B ! j))) [0..<8] @ drop 8 T)"
  proof (rule fold_put_blocks [OF u(1)])
    fix j U
    assume U: "uniform 16 U" "8 \<le> length U" and j: "j < (8 :: nat)"
    have B: "read_block (16 * j) (concat B @ ys) = B ! j" "length (B ! j) = 16" "length (U ! j) = 16"
      using take_drop_concat [OF u(3), of j ys] u(3,4) U j by (simp_all add: read_block_def uniform_nth)
    define x where "x = xor_bytes (U ! j) (B ! j)"
    have x: "length x = 16" "length (f x) = 16"
      using B by (simp_all add: x_def f)
    then have "uniform 16 (U[j := x])"
      by (simp add: uniform_update U)
    then show "step j (concat U) = concat (U[j := f (xor_bytes (U ! j) (B ! j))])"
      using U j B x by (simp add: step_def read_concat put_concat xr flip: x_def)
  next
    show "length (f (xor_bytes x (B ! j))) = 16" if "j < 8" "length x = 16" for j x
      using that u(3,4) by (intro f) (simp add: uniform_nth)
  qed (simp add: u)
  also have "map (\<lambda>j. f (xor_bytes (T ! j) (B ! j))) [0..<8] = map f (map2 xor_bytes T B)"
    using u by (intro nth_equalityI) (simp_all del: upt_rec_numeral)
  finally show ?thesis
    using u(2) by (simp add: mix_text_def step_def [abs_def] del: upt_rec_numeral)
qed

section \<open>The scratchpad\<close>

lemma map_funpow_text:
  assumes "cn_text T" and "\<And>s. length s = 16 \<Longrightarrow> length (F s) = 16"
  shows "cn_text ((map F ^^ n) T)"
  using assms by (induction n) (simp_all add: cn_text_map)

lemma cn_fill_pad:
  assumes "cn_text T" and "\<And>s. length s = 16 \<Longrightarrow> length (F s) = 16"
  shows "uniform 16 (cn_fill F n T) \<and> length (cn_fill F n T) = 8 * n"
proof (induction n)
  case (Suc n)
  have "cn_text ((map F ^^ Suc n) T)"
    by (rule map_funpow_text [OF assms])
  then show ?case
    using Suc by (simp add: cn_fill_def cn_text_def)
qed (simp add: cn_fill_def)

lemma fill_pad_eq:
  assumes "cn_text T" and F: "\<And>s. length s = 16 \<Longrightarrow> length (F s) = 16"
    and g: "\<And>T. cn_text T \<Longrightarrow> g (concat T) = concat (map F T)" and "length pad = 128 * n"
  shows "fill_pad g (128 * n) (concat T) pad = concat (cn_fill F n T)"
proof -
  have "fold (\<lambda>i (text, pad). let text = g text in (text, put (i * 128) text pad)) [0..<m] (concat T, pad) =
      (concat ((map F ^^ m) T), concat (cn_fill F m T) @ drop (128 * m) pad)" for m
  proof (induction m)
    case 0
    then show ?case by (simp add: cn_fill_def)
  next
    case (Suc m)
    define U where "U = (map F ^^ m) T"
    have U: "cn_text U" "g (concat U) = concat (map F U)" "length (concat (map F U)) = 128"
      using map_funpow_text [where F = F and n = m, OF assms(1) F] cn_text_map [OF map_funpow_text [where F = F and n = m, OF assms(1) F] F]
      by (simp_all add: U_def g length_cn_text)
    have "length (concat (cn_fill F m T)) = m * 128"
      using cn_fill_pad [where F = F and n = m, OF assms(1) F] length_concat_uniform [of 16 "cn_fill F m T"] by simp
    from put_append [OF this, of "concat (map F U)" "drop (128 * m) pad"]
    have "put (m * 128) (concat (map F U)) (concat (cn_fill F m T) @ drop (128 * m) pad) =
        concat (cn_fill F m T) @ concat (map F U) @ drop (128 * Suc m) pad"
      using U(3) by (simp add: ac_simps)
    moreover have "cn_fill F (Suc m) T = cn_fill F m T @ map F U"
      by (simp add: cn_fill_def U_def)
    ultimately show ?case
      using Suc.IH U(2) by (simp add: Let_def flip: U_def)
  qed
  from this [of n] show ?thesis
    using assms(4) by (simp add: fill_pad_def)
qed

lemma mix_pad_eq:
  assumes "cn_text T" and F: "\<And>s. length s = 16 \<Longrightarrow> length (F s) = 16"
    and g: "\<And>T B ys. cn_text T \<Longrightarrow> cn_text B \<Longrightarrow> g (concat B @ ys) (concat T) = concat (map F (map2 xor_bytes T B))"
    and P: "uniform 16 P" "length P = 8 * n"
  shows "mix_pad g (128 * n) (concat P) (concat T) = concat (cn_mix F n P T)"
proof -
  have "m \<le> n \<Longrightarrow> cn_text (cn_mix F m P T) \<and>
      fold (\<lambda>i. g (drop (i * 128) (concat P))) [0..<m] (concat T) = concat (cn_mix F m P T)" for m
  proof (induction m)
    case 0
    then show ?case using assms(1) by (simp add: cn_mix_def)
  next
    case (Suc m)
    define U where "U = cn_mix F m P T"
    define B where "B = take 8 (drop (8 * m) P)"
    have U: "cn_text U" "fold (\<lambda>i. g (drop (i * 128) (concat P))) [0..<m] (concat T) = concat U"
      using Suc by (simp_all add: U_def)
    have u: "uniform 16 (take (8 * m) P)" "uniform 16 B" "length B = 8" "length (take (8 * m) P) = 8 * m"
      using P Suc.prems by (auto simp: uniform_def B_def dest: in_set_takeD in_set_dropD)
    have "P = take (8 * m) P @ B @ drop 8 (drop (8 * m) P)"
      unfolding B_def append_take_drop_id ..
    then have "concat P = concat (take (8 * m) P) @ concat B @ concat (drop 8 (drop (8 * m) P))"
      by (metis concat_append)
    moreover have "length (concat (take (8 * m) P)) = m * 128"
      using length_concat_uniform [OF u(1)] u(4) by simp
    ultimately have d: "drop (m * 128) (concat P) = concat B @ concat (drop 8 (drop (8 * m) P))"
      by simp
    have B: "cn_text B"
      using u by (simp add: cn_text_def)
    have "cn_text (map2 xor_bytes U B)"
      using U(1) B by (auto simp: cn_text_def uniform_def set_zip)
    then have "cn_text (map F (map2 xor_bytes U B))"
      by (rule cn_text_map [OF _ F])
    moreover have "cn_mix F (Suc m) P T = map F (map2 xor_bytes U B)"
      by (simp add: cn_mix_def U_def B_def)
    moreover have "fold (\<lambda>i. g (drop (i * 128) (concat P))) [0..<Suc m] (concat T) = g (drop (m * 128) (concat P)) (concat U)"
      using U(2) by simp
    ultimately show ?case
      using g [OF U(1) B] d by simp
  qed
  from this [of n] show ?thesis
    by (simp add: mix_pad_def)
qed

end
