(* ===== verification/Slow_Versions.thy ===== *)
theory Slow_Versions
  imports Slow_Text
begin

text \<open>
  The three versions of the whole function compute \<open>cryptonight\<close>, or call through a null pointer when
  memory is short.
\<close>

section \<open>The scratchpad with a cipher\<close>

lemma map_uniform_cong: "uniform n T \<Longrightarrow> (\<And>s. length s = n \<Longrightarrow> f s = g s) \<Longrightarrow> map f T = map g T"
  by (simp add: uniform_def)

context cn_cipher
begin

lemma ten_length: "length s = 16 \<Longrightarrow> 32 \<le> length key \<Longrightarrow> length (ten (expand buf key) s) = 16"
  by (simp add: ten_rounds length_pseudo_cipher)

lemma fill_eq:
  assumes "cn_text T" "32 \<le> length key" "length pad = 128 * n"
  shows "fill_pad (crypt_text (ten (expand buf key))) (128 * n) (concat T) pad = concat (cn_fill (pseudo_cipher (take 32 key)) n T)"
proof (rule fill_pad_eq [OF assms(1) _ _ assms(3)])
  show "length s = 16 \<Longrightarrow> length (pseudo_cipher (take 32 key) s) = 16" for s
    using assms(2) by (simp add: length_pseudo_cipher)
  fix U
  assume U: "cn_text U"
  have "crypt_text (ten (expand buf key)) (concat U) = concat (map (ten (expand buf key)) U)"
    by (rule crypt_text_eq [OF U ten_length [OF _ assms(2)]])
  also have "map (ten (expand buf key)) U = map (pseudo_cipher (take 32 key)) U"
    using U by (intro map_uniform_cong [of 16]) (simp_all add: cn_text_def ten_rounds assms(2))
  finally show "crypt_text (ten (expand buf key)) (concat U) = concat (map (pseudo_cipher (take 32 key)) U)" .
qed

lemma mix_cipher:
  assumes "cn_text T" "cn_text B" "32 \<le> length key"
  shows "map (ten (expand buf key)) (map2 xor_bytes T B) = map (pseudo_cipher (take 32 key)) (map2 xor_bytes T B)"
proof (rule map_uniform_cong [of 16])
  show "uniform 16 (map2 xor_bytes T B)"
    using assms(1,2) by (auto simp: cn_text_def uniform_def set_zip)
qed (simp add: ten_rounds assms(3))

lemma mix_eq:
  assumes "cn_text T" "32 \<le> length key" "uniform 16 P" "length P = 8 * n"
    and xr: "\<And>a b. length a = 16 \<Longrightarrow> length b = 16 \<Longrightarrow> xr a b = xor_bytes a b"
  shows "mix_pad (mix_text xr (ten (expand buf key))) (128 * n) (concat P) (concat T) =
    concat (cn_mix (pseudo_cipher (take 32 key)) n P T)"
proof (rule mix_pad_eq [OF assms(1) _ _ assms(3,4)])
  show "length s = 16 \<Longrightarrow> length (pseudo_cipher (take 32 key) s) = 16" for s
    using assms(2) by (simp add: length_pseudo_cipher)
  fix U B ys
  assume U: "cn_text U" "cn_text B"
  show "mix_text xr (ten (expand buf key)) (concat B @ ys) (concat U) = concat (map (pseudo_cipher (take 32 key)) (map2 xor_bytes U B))"
    unfolding mix_cipher [OF U assms(2), of buf, symmetric] by (rule mix_text_eq [OF U ten_length [OF _ assms(2)] xr])
qed

end

text \<open>The loop of \<^verbatim>\<open>aes_pseudo_round_xor\<close> writes each block once.\<close>

lemma pseudo_round_crypt: "aes_pseudo_round aesenc t ek 8 = crypt_text (aesenc_10 aesenc ek) t"
  by (simp add: aes_pseudo_round_def crypt_text_def)

lemma pseudo_round_xor_mix:
  assumes "cn_text T" "cn_text B" and f: "\<And>s. length s = 16 \<Longrightarrow> length (aesenc_10 aesenc ek s) = 16"
  shows "aes_pseudo_round_xor aesenc (concat T) ek (concat B @ ys) 8 = concat (map (aesenc_10 aesenc ek) (map2 xor_bytes T B))"
proof -
  let ?f = "\<lambda>j x. aesenc_10 aesenc ek (xor_bytes x (B ! j))"
  have u: "uniform 16 T" "length T = 8" "uniform 16 B" "length B = 8"
    using assms(1,2) by (simp_all add: cn_text_def)
  have "aes_pseudo_round_xor aesenc (concat T) ek (concat B @ ys) 8 = concat (map (\<lambda>j. ?f j (T ! j)) [0..<8] @ drop 8 T)"
    unfolding aes_pseudo_round_xor_def
  proof (rule fold_put_blocks [OF u(1)])
    fix j U
    assume U: "uniform 16 U" "8 \<le> length U" and j: "j < (8 :: nat)"
    have "read_block (16 * j) (concat B @ ys) = B ! j" "length (B ! j) = 16" "length (U ! j) = 16"
      using take_drop_concat [OF u(3), of j ys] u(3,4) U j by (simp_all add: read_block_def uniform_nth)
    then show "(let d = read_block (16 * j) (concat U); d = xor_bytes d (read_block (16 * j) (concat B @ ys))
        in put (16 * j) (aesenc_10 aesenc ek d) (concat U)) = concat (U[j := ?f j (U ! j)])"
      using U j by (simp add: read_concat put_concat f)
  next
    show "length (?f j x) = 16" if "j < 8" "length x = 16" for j x
      using that u(3,4) by (intro f) (simp add: uniform_nth)
  qed (simp add: u)
  also have "map (\<lambda>j. ?f j (T ! j)) [0..<8] = map (aesenc_10 aesenc ek) (map2 xor_bytes T B)"
    using u by (intro nth_equalityI) (simp_all del: upt_rec_numeral)
  finally show ?thesis
    using u(2) by simp
qed

context aes_instructions
begin

lemma mix_instructions:
  assumes "cn_text T" "32 \<le> length key" "uniform 16 P" "length P = 8 * n"
  shows "mix_pad (\<lambda>p t. aes_pseudo_round_xor aesenc t (aes_expand_key assist key buf) p 8) (128 * n) (concat P) (concat T) =
    concat (cn_mix (pseudo_cipher (take 32 key)) n P T)"
proof (rule mix_pad_eq [OF assms(1) _ _ assms(3,4)])
  show "length s = 16 \<Longrightarrow> length (pseudo_cipher (take 32 key) s) = 16" for s
    using assms(2) by (simp add: length_pseudo_cipher)
  fix U B ys
  assume U: "cn_text U" "cn_text B"
  show "aes_pseudo_round_xor aesenc (concat U) (aes_expand_key assist key buf) (concat B @ ys) 8 =
      concat (map (pseudo_cipher (take 32 key)) (map2 xor_bytes U B))"
    unfolding hardware.mix_cipher [OF U assms(2), of buf, symmetric] by (rule pseudo_round_xor_mix [OF U hardware.ten_length [OF _ assms(2)]])
qed

end

section \<open>The start\<close>

text \<open>The text and the two blocks that the inner loop starts with.\<close>

definition cn_start :: "byte list \<Rightarrow> byte list list" where
  "cn_start hs = map (\<lambda>j. read_block (64 + 16 * j) hs) [0..<8]"

definition cn_a :: "byte list \<Rightarrow> byte list" where
  "cn_a hs = xor_bytes (read_block 0 hs) (read_block 32 hs)"

definition cn_b :: "byte list \<Rightarrow> byte list" where
  "cn_b hs = xor_bytes (read_block 16 hs) (read_block 48 hs)"

lemma cn_start_text:
  assumes "length hs = 200"
  shows "cn_text (cn_start hs)" "concat (cn_start hs) = take 128 (drop 64 hs)"
proof -
  show "cn_text (cn_start hs)"
    using assms by (auto simp: cn_text_def cn_start_def uniform_def read_block_def simp del: upt_rec_numeral)
  have "concat (map (\<lambda>j. read_block (64 + 16 * j) hs) [0..<n]) = take (16 * n) (drop 64 hs)" for n
  proof (induction n)
    case (Suc n)
    then show ?case
      using take_add [of "16 * n" 16 "drop 64 hs"] by (simp add: read_block_def add.commute)
  qed simp
  from this [of 8] show "concat (cn_start hs) = take 128 (drop 64 hs)"
    by (simp add: cn_start_def del: upt_rec_numeral)
qed

lemma cn_ab:
  assumes "length hs = 200"
  shows "length (cn_a hs) = 16" "length (cn_b hs) = 16"
    "load64 (cn_a hs) 0 = load64 hs 0 XOR load64 hs 32" "load64 (cn_a hs) 8 = load64 hs 8 XOR load64 hs 40"
    "load64 (cn_b hs) 0 = load64 hs 16 XOR load64 hs 48" "load64 (cn_b hs) 8 = load64 hs 24 XOR load64 hs 56"
proof -
  have l: "length (read_block j hs) = 16" if "j \<le> 184" for j
    using assms that by (simp add: read_block_def)
  then show "length (cn_a hs) = 16" "length (cn_b hs) = 16"
    by (simp_all add: cn_a_def cn_b_def)
  show "load64 (cn_a hs) 0 = load64 hs 0 XOR load64 hs 32" "load64 (cn_a hs) 8 = load64 hs 8 XOR load64 hs 40"
    "load64 (cn_b hs) 0 = load64 hs 16 XOR load64 hs 48" "load64 (cn_b hs) 8 = load64 hs 24 XOR load64 hs 56"
    using assms by (simp_all add: cn_a_def cn_b_def load64_xor l load64_read)
qed

lemma cn_ab_words:
  assumes "length hs = 200"
  shows "store64 (load64 hs 0 XOR load64 hs 32) @ store64 (load64 hs 8 XOR load64 hs 40) = cn_a hs"
    "store64 (load64 hs 16 XOR load64 hs 48) @ store64 (load64 hs 24 XOR load64 hs 56) = cn_b hs"
  using store64_pair [of "cn_a hs"] store64_pair [of "cn_b hs"] cn_ab [OF assms] by simp_all

lemma cn_ab_bytes:
  assumes "length hs = 200"
  shows "map (\<lambda>i. hs ! i XOR hs ! (32 + i)) [0..<16] = cn_a hs" "map (\<lambda>i. hs ! (16 + i) XOR hs ! (48 + i)) [0..<16] = cn_b hs"
  unfolding cn_a_def cn_b_def xor_bytes_def read_block_def using assms by (intro nth_equalityI; simp del: upt_rec_numeral)+

definition cn_loop :: "nat \<Rightarrow> nat \<Rightarrow> byte list \<Rightarrow> cn_state" where
  "cn_loop N iter hs = (cn_step N ^^ (iter div 2)) (cn_fill (pseudo_cipher (take 32 hs)) (N div 8) (cn_start hs), cn_a hs, cn_b hs)"

lemma cryptonight_loop:
  "cryptonight N iter eh data =
    finish_hash eh (hash_process data)
      (concat (cn_mix (pseudo_cipher (take 32 (drop 32 (hash_process data)))) (N div 8) (fst (cn_loop N iter (hash_process data)))
        (cn_start (hash_process data))))"
  unfolding cryptonight_def cn_loop_def cn_start_def cn_a_def cn_b_def Let_def by (simp split: prod.split del: upt_rec_numeral)

lemma cn_start_ok:
  assumes "length hs = 200" "8 dvd N"
  shows "cn_ok N (cn_fill (pseudo_cipher (take 32 hs)) (N div 8) (cn_start hs), cn_a hs, cn_b hs)"
  using cn_fill_pad [OF cn_start_text(1) [OF assms(1)], of "pseudo_cipher (take 32 hs)" "N div 8"] assms cn_ab [OF assms(1)]
  by (simp add: cn_ok_def length_pseudo_cipher)

lemma cn_loop_ok:
  assumes "length hs = 200" "8 dvd N" "0 < N"
  shows "cn_ok N (cn_loop N iter hs)"
proof -
  have "cn_ok N s \<Longrightarrow> cn_ok N ((cn_step N ^^ n) s)" for n s
    by (induction n) (simp_all add: cn_step_ok assms(3))
  then show ?thesis
    using cn_start_ok [OF assms(1,2)] by (simp add: cn_loop_def)
qed

section \<open>Memory\<close>

text \<open>All the callocs succeed.\<close>

definition keys_available :: "outcomes \<Rightarrow> bool" where
  "keys_available oc \<longleftrightarrow> o_alloc oc \<and> o_key1 oc = (True, True, True) \<and> o_key2 oc = (True, True, True)"

lemma oaes_alloc_None: "oaes_alloc m rnd = None \<longleftrightarrow> \<not> m"
  by (simp add: oaes_alloc_def oaes_set_option_def)

lemma expanded_None: "oaes_expanded ms None key = None"
  by (simp add: oaes_expanded_def oaes_key_import_data_def split: prod.split)

lemma expanded_Some:
  assumes "32 \<le> length key"
  shows "oaes_expanded ms (Some c) key =
    (if ms = (True, True, True) then Some (Some (c\<lparr>c_key := Some (expanded (take 32 key))\<rparr>), k_exp_data (expanded (take 32 key))) else None)"
proof -
  obtain m1 m2 m3 where ms: "ms = (m1, m2, m3)"
    by (cases ms)
  have "length (take 32 key) \<in> {16, 24, 32}"
    using assms by simp
  from set_key_cases [OF this, of m1 m2 m3 c] show ?thesis
    by (auto simp: ms oaes_expanded_def oaes_key_import_data_def)
qed

lemma two_keys:
  assumes "32 \<le> length key" "32 \<le> length key'"
  shows "(case oaes_expanded (o_key1 oc) (oaes_alloc (o_alloc oc) rnd) key of
       None \<Rightarrow> None
     | Some (ctx, ek) \<Rightarrow>
         (case F ek of
            None \<Rightarrow> None
          | Some x \<Rightarrow> (case oaes_expanded (o_key2 oc) ctx key' of None \<Rightarrow> None | Some (ctx, ek') \<Rightarrow> Some (G ek x ek')))) =
    (if keys_available oc
     then map_option (\<lambda>x. G (k_exp_data (expanded (take 32 key))) x (k_exp_data (expanded (take 32 key')))) (F (k_exp_data (expanded (take 32 key))))
     else None)"
proof (cases "oaes_alloc (o_alloc oc) rnd")
  case None
  then show ?thesis
    using oaes_alloc_None [of "o_alloc oc" rnd] by (simp add: expanded_None keys_available_def)
next
  case (Some c)
  then have "o_alloc oc"
    using oaes_alloc_None [of "o_alloc oc" rnd] by simp
  then show ?thesis
    unfolding Some by (simp add: expanded_Some [OF assms(1)] expanded_Some [OF assms(2)] keys_available_def split: option.split)
qed

section \<open>The three versions\<close>

lemma dvd_8: "N = 2 ^ k \<Longrightarrow> 3 \<le> k \<Longrightarrow> 8 dvd (N :: nat)"
  using le_imp_power_dvd [of 3 k "2 :: nat"] by simp

lemma cn_loop_pad:
  assumes "length hs = 200" "8 dvd N" "0 < N"
  shows "uniform 16 (fst (cn_loop N iter hs))" "length (fst (cn_loop N iter hs)) = 8 * (N div 8)"
proof -
  obtain P a b where s: "cn_loop N iter hs = (P, a, b)"
    by (cases "cn_loop N iter hs")
  show "uniform 16 (fst (cn_loop N iter hs))" "length (fst (cn_loop N iter hs)) = 8 * (N div 8)"
    using cn_loop_ok [OF assms, of iter] assms(2) unfolding s by (simp_all add: cn_ok_def)
qed

context cn_cipher
begin

lemma fill_start:
  assumes "length hs = 200" "8 dvd N" "length pad = 16 * N"
  shows "fill_pad (crypt_text (ten (expand buf hs))) (16 * N) (take 128 (drop 64 hs)) pad =
    concat (cn_fill (pseudo_cipher (take 32 hs)) (N div 8) (cn_start hs))"
proof -
  have n: "16 * N = 128 * (N div 8)"
    using assms(2) by (elim dvdE) simp
  have "32 \<le> length hs" "length pad = 128 * (N div 8)"
    using assms n by simp_all
  then show ?thesis
    unfolding n cn_start_text(2) [OF assms(1), symmetric] by (rule fill_eq [OF cn_start_text(1) [OF assms(1)]])
qed

lemma mix_start:
  assumes "length hs = 200" "8 dvd N" "0 < N"
    and xr: "\<And>a b. length a = 16 \<Longrightarrow> length b = 16 \<Longrightarrow> xr a b = xor_bytes a b"
  shows "mix_pad (mix_text xr (ten (expand buf (drop 32 hs)))) (16 * N) (concat (fst (cn_loop N iter hs))) (take 128 (drop 64 hs)) =
    concat (cn_mix (pseudo_cipher (take 32 (drop 32 hs))) (N div 8) (fst (cn_loop N iter hs)) (cn_start hs))"
proof -
  have n: "16 * N = 128 * (N div 8)" and l: "32 \<le> length (drop 32 hs)"
    using assms(1,2) by (elim dvdE, simp_all)
  show ?thesis
    unfolding n cn_start_text(2) [OF assms(1), symmetric]
    by (rule mix_eq [OF cn_start_text(1) [OF assms(1)] l cn_loop_pad [OF assms(1-3)] xr])
qed

lemma rounds_start:
  assumes "length hs = 200" "N = 2 ^ k" "3 \<le> k" "k + 4 \<le> 32"
  shows "x86_rounds single (16 * N) iter hs (concat (cn_fill (pseudo_cipher (take 32 hs)) (N div 8) (cn_start hs))) =
    concat (fst (cn_loop N iter hs))"
  using steps_eq [OF assms(2,4) cn_start_ok [OF assms(1) dvd_8 [OF assms(2,3)]], of "iter div 2"] cn_ab [OF assms(1)]
    cn_ab_words [OF assms(1)]
  by (simp add: x86_rounds_def cn_loop_def state_bytes_pair Let_def split: prod.splits)

end

lemma fst_state: "fst (case x of (P, a, b) \<Rightarrow> (concat P, a, b)) = concat (fst x)"
  by (simp split: prod.split)

lemma portable_eq:
  assumes N: "N = 2 ^ k" "3 \<le> k" "k + 4 \<le> 32" and pad: "length (o_pad oc) = 16 * N"
  shows "portable_slow_hash (16 * N) iter eh oc data = (if keys_available oc then Some (cryptonight N iter eh data) else None)"
proof -
  define hs where "hs = hash_process data"
  have l: "length hs = 200" "32 \<le> length (take 32 hs)" "32 \<le> length (drop 32 hs)"
    by (simp_all add: hs_def hash_process_def length_keccak1600)
  have N': "8 dvd N" "0 < N"
    using dvd_8 [OF N(1,2)] N(1) by simp_all
  have loop: "iterate (iter div 2) (portable_step (16 * N)) (concat (cn_fill (pseudo_cipher (take 32 hs)) (N div 8) (cn_start hs)), cn_a hs, cn_b hs) =
      Some (case cn_loop N iter hs of (P, a, b) \<Rightarrow> (concat P, a, b))"
    using portable_steps_eq [OF N(1,3) cn_start_ok [OF l(1) N'(1)], of "iter div 2"] by (simp add: cn_loop_def)
  define F where "F ek =
    iterate (iter div 2) (portable_step (16 * N)) (fill_pad (crypt_text (\<lambda>b. aesb_pseudo_round b ek)) (16 * N) (take 128 (drop 64 hs)) (o_pad oc), cn_a hs, cn_b hs)" for ek
  define G where "G x ek = finish_hash eh hs (mix_pad (mix_text xor_blocks (\<lambda>b. aesb_pseudo_round b ek)) (16 * N) (fst x) (take 128 (drop 64 hs)))"
    for x :: "byte list \<times> byte list \<times> byte list" and ek
  have "portable_slow_hash (16 * N) iter eh oc data =
    (case oaes_expanded (o_key1 oc) (oaes_alloc (o_alloc oc) (o_rand oc)) (take 32 hs) of
       None \<Rightarrow> None
     | Some (ctx, ek) \<Rightarrow>
         (case F ek of
            None \<Rightarrow> None
          | Some x \<Rightarrow> (case oaes_expanded (o_key2 oc) ctx (drop 32 hs) of None \<Rightarrow> None | Some (ctx, ek') \<Rightarrow> Some (G x ek'))))"
    unfolding portable_slow_hash_def Let_def hs_def [symmetric] cn_ab_bytes [OF l(1)] F_def G_def
    by (simp split: option.split prod.split)
  also have "\<dots> = (if keys_available oc
      then map_option (\<lambda>x. G x (k_exp_data (expanded (take 32 (drop 32 hs))))) (F (k_exp_data (expanded (take 32 hs)))) else None)"
    using two_keys [OF l(2,3), where oc = oc and rnd = "o_rand oc" and F = F and G = "\<lambda>_. G"] by simp
  also have "F (k_exp_data (expanded (take 32 hs))) = Some (case cn_loop N iter hs of (P, a, b) \<Rightarrow> (concat P, a, b))"
    using loop software.fill_start [OF l(1) N'(1) pad] by (simp add: F_def)
  finally have "portable_slow_hash (16 * N) iter eh oc data =
      (if keys_available oc then Some (G (case cn_loop N iter hs of (P, a, b) \<Rightarrow> (concat P, a, b)) (k_exp_data (expanded (take 32 (drop 32 hs))))) else None)"
    by simp
  also have "G (case cn_loop N iter hs of (P, a, b) \<Rightarrow> (concat P, a, b)) (k_exp_data (expanded (take 32 (drop 32 hs)))) = cryptonight N iter eh data"
    unfolding G_def fst_state cryptonight_loop hs_def [symmetric]
    by (rule arg_cong [where f = "finish_hash eh hs"], rule software.mix_start [OF l(1) N' xor_blocks_eq])
  finally show ?thesis .
qed

lemma arm_eq:
  assumes N: "N = 2 ^ k" "3 \<le> k" "k + 4 \<le> 32" and pad: "length (o_pad oc) = 16 * N"
  shows "arm_slow_hash (16 * N) iter eh oc data = (if keys_available oc then Some (cryptonight N iter eh data) else None)"
proof -
  define hs where "hs = hash_process data"
  have l: "length hs = 200" "32 \<le> length hs" "32 \<le> length (drop 32 hs)"
    by (simp_all add: hs_def hash_process_def length_keccak1600)
  have N': "8 dvd N" "0 < N"
    using dvd_8 [OF N(1,2)] N(1) by simp_all
  have loop: "(arm_step (16 * N) ^^ (iter div 2)) (concat (cn_fill (pseudo_cipher (take 32 hs)) (N div 8) (cn_start hs)), cn_a hs, cn_b hs) =
      (case cn_loop N iter hs of (P, a, b) \<Rightarrow> (concat P, a, b))"
    using arm_steps_eq [OF N(1,3) cn_start_ok [OF l(1) N'(1)], of "iter div 2"] by (simp add: cn_loop_def)
  define F where "F ek = (arm_step (16 * N) ^^ (iter div 2))
    (fill_pad (crypt_text (\<lambda>b. aesb_pseudo_round b (put 0 ek (o_buf oc)))) (16 * N) (take 128 (drop 64 hs)) (o_pad oc), cn_a hs, cn_b hs)" for ek
  define G where "G ek x ek' = finish_hash eh hs
    (mix_pad (mix_text xor_blocks64 (\<lambda>b. aesb_pseudo_round b (put 0 ek' (put 0 ek (o_buf oc))))) (16 * N) (fst x) (take 128 (drop 64 hs)))"
    for ek ek' and x :: "byte list \<times> byte list \<times> byte list"
  have "arm_slow_hash (16 * N) iter eh oc data =
    (case oaes_expanded (o_key1 oc) (oaes_alloc (o_alloc oc) (o_rand oc)) hs of
       None \<Rightarrow> None
     | Some (ctx, ek) \<Rightarrow>
         (case Some (F ek) of
            None \<Rightarrow> None
          | Some x \<Rightarrow> (case oaes_expanded (o_key2 oc) ctx (drop 32 hs) of None \<Rightarrow> None | Some (ctx, ek') \<Rightarrow> Some (G ek x ek'))))"
    unfolding arm_slow_hash_def Let_def hs_def [symmetric] cn_ab_words [OF l(1)] F_def G_def
    by (simp split: option.split prod.split)
  also have "\<dots> = (if keys_available oc
      then Some (G (k_exp_data (expanded (take 32 hs))) (F (k_exp_data (expanded (take 32 hs)))) (k_exp_data (expanded (take 32 (drop 32 hs))))) else None)"
    using two_keys [OF l(2,3), where oc = oc and rnd = "o_rand oc" and F = "\<lambda>ek. Some (F ek)" and G = G] by simp
  also have "F (k_exp_data (expanded (take 32 hs))) = (case cn_loop N iter hs of (P, a, b) \<Rightarrow> (concat P, a, b))"
    using loop copied.fill_start [OF l(1) N'(1) pad] by (simp add: F_def)
  also have "G (k_exp_data (expanded (take 32 hs))) (case cn_loop N iter hs of (P, a, b) \<Rightarrow> (concat P, a, b)) (k_exp_data (expanded (take 32 (drop 32 hs)))) =
      cryptonight N iter eh data"
    unfolding G_def fst_state cryptonight_loop hs_def [symmetric]
    by (rule arg_cong [where f = "finish_hash eh hs"], rule copied.mix_start [OF l(1) N' xor_blocks64_eq])
  finally show ?thesis .
qed

text \<open>The scratchpad that the x86-64 version works on.\<close>

definition scratch_buffer :: "byte list option \<Rightarrow> byte list option \<Rightarrow> scratchpad \<Rightarrow> byte list option" where
  "scratch_buffer mapped malloced s =
    (case hp_state s of Some p \<Rightarrow> Some p | None \<Rightarrow> (case mapped of Some p \<Rightarrow> Some p | None \<Rightarrow> malloced))"

definition ensure_state :: "byte list option \<Rightarrow> byte list option \<Rightarrow> scratchpad \<Rightarrow> scratchpad" where
  "ensure_state mapped malloced s = (if hp_state s = None then slow_hash_allocate_state mapped malloced s else s)"

lemma allocate_buffer: "hp_state (ensure_state mapped malloced s) = scratch_buffer mapped malloced s"
  by (cases "hp_state s"; cases mapped) (simp_all add: scratch_buffer_def ensure_state_def slow_hash_allocate_state_def)

text \<open>What the function returns: the hash, and its scratchpad for the next call.\<close>

definition hashed ::
  "nat \<Rightarrow> nat \<Rightarrow> (byte list \<Rightarrow> byte list) list \<Rightarrow> byte list option \<Rightarrow> byte list option \<Rightarrow> scratchpad \<Rightarrow> byte list \<Rightarrow> byte list \<times> scratchpad" where
  "hashed N iter eh mapped malloced s data =
    (cryptonight N iter eh data, (ensure_state mapped malloced s)\<lparr>hp_state := Some (concat (fst (cn_loop N iter (hash_process data))))\<rparr>)"

lemma x86_software_eq:
  assumes N: "N = 2 ^ k" "3 \<le> k" "k + 4 \<le> 32"
    and pad: "\<And>p. scratch_buffer mapped malloced s = Some p \<Longrightarrow> length p = 16 * N"
  shows "x86_slow_hash aesenc assist (16 * N) iter eh oc mapped malloced False s data =
    (if scratch_buffer mapped malloced s \<noteq> None \<and> keys_available oc then Some (hashed N iter eh mapped malloced s data) else None)"
proof (cases "scratch_buffer mapped malloced s")
  case None
  then show ?thesis
    by (simp add: x86_slow_hash_def allocate_buffer flip: ensure_state_def)
next
  case (Some p)
  define hs where "hs = hash_process data"
  have l: "length hs = 200" "32 \<le> length hs" "32 \<le> length (drop 32 hs)"
    by (simp_all add: hs_def hash_process_def length_keccak1600)
  have N': "8 dvd N" "0 < N"
    using dvd_8 [OF N(1,2)] N(1) by simp_all
  define S where "S = ensure_state mapped malloced s"
  define F where "F ek = x86_rounds aesb_single_round (16 * N) iter hs
    (fill_pad (crypt_text (\<lambda>b. aesb_pseudo_round b ek)) (16 * N) (take 128 (drop 64 hs)) p)" for ek
  define G where "G x ek =
    (finish_hash eh hs (mix_pad (mix_text xor_blocks64 (\<lambda>b. aesb_pseudo_round b ek)) (16 * N) x (take 128 (drop 64 hs))), S\<lparr>hp_state := Some x\<rparr>)"
    for x ek
  have S: "hp_state S = Some p"
    unfolding S_def allocate_buffer by (rule Some)
  have "x86_slow_hash aesenc assist (16 * N) iter eh oc mapped malloced False s data =
    (case oaes_expanded (o_key1 oc) (oaes_alloc (o_alloc oc) (o_rand oc)) hs of
       None \<Rightarrow> None
     | Some (ctx, ek) \<Rightarrow>
         (case Some (F ek) of
            None \<Rightarrow> None
          | Some x \<Rightarrow> (case oaes_expanded (o_key2 oc) ctx (drop 32 hs) of None \<Rightarrow> None | Some (ctx, ek') \<Rightarrow> Some (G x ek'))))"
    unfolding x86_slow_hash_def ensure_state_def [symmetric] Let_def hs_def [symmetric] F_def G_def S_def [symmetric] S by (simp split: option.split prod.split)
  also have "\<dots> = (if keys_available oc then Some (G (F (k_exp_data (expanded (take 32 hs)))) (k_exp_data (expanded (take 32 (drop 32 hs))))) else None)"
    using two_keys [OF l(2,3), where oc = oc and rnd = "o_rand oc" and F = "\<lambda>ek. Some (F ek)" and G = "\<lambda>_. G"] by simp
  also have "F (k_exp_data (expanded (take 32 hs))) = concat (fst (cn_loop N iter hs))"
    unfolding F_def software.fill_start [OF l(1) N'(1) pad [OF Some]] by (rule software.rounds_start [OF l(1) N])
  also have "G (concat (fst (cn_loop N iter hs))) (k_exp_data (expanded (take 32 (drop 32 hs)))) = hashed N iter eh mapped malloced s data"
    unfolding G_def hashed_def cryptonight_loop hs_def [symmetric] S_def
    by (rule arg_cong [where f = "\<lambda>x. (finish_hash eh hs x, _)"], rule software.mix_start [OF l(1) N' xor_blocks64_eq])
  finally show ?thesis
    by (simp add: Some)
qed

context aes_instructions
begin

lemma x86_hardware_eq:
  assumes N: "N = 2 ^ k" "3 \<le> k" "k + 4 \<le> 32"
    and pad: "\<And>p. scratch_buffer mapped malloced s = Some p \<Longrightarrow> length p = 16 * N"
  shows "x86_slow_hash aesenc assist (16 * N) iter eh oc mapped malloced True s data =
    (if scratch_buffer mapped malloced s \<noteq> None then Some (hashed N iter eh mapped malloced s data) else None)"
proof (cases "scratch_buffer mapped malloced s")
  case None
  then show ?thesis
    by (simp add: x86_slow_hash_def allocate_buffer flip: ensure_state_def)
next
  case (Some p)
  define hs where "hs = hash_process data"
  have l: "length hs = 200" "32 \<le> length hs" "32 \<le> length (drop 32 hs)"
    by (simp_all add: hs_def hash_process_def length_keccak1600)
  have N': "8 dvd N" "0 < N"
    using dvd_8 [OF N(1,2)] N(1) by simp_all
  have n: "16 * N = 128 * (N div 8)"
    using N'(1) by (elim dvdE) simp
  define S where "S = ensure_state mapped malloced s"
  have S: "hp_state S = Some p"
    unfolding S_def allocate_buffer by (rule Some)
  have fill: "fill_pad (\<lambda>text. aes_pseudo_round aesenc text (aes_expand_key assist hs (o_buf oc)) 8) (16 * N) (take 128 (drop 64 hs)) p =
      concat (cn_fill (pseudo_cipher (take 32 hs)) (N div 8) (cn_start hs))"
    unfolding pseudo_round_crypt by (rule hardware.fill_start [OF l(1) N'(1) pad [OF Some]])
  have mix: "mix_pad (\<lambda>q text. aes_pseudo_round_xor aesenc text (aes_expand_key assist (drop 32 hs) ek) q 8) (16 * N)
      (concat (fst (cn_loop N iter hs))) (take 128 (drop 64 hs)) =
    concat (cn_mix (pseudo_cipher (take 32 (drop 32 hs))) (N div 8) (fst (cn_loop N iter hs)) (cn_start hs))" for ek
    unfolding n cn_start_text(2) [OF l(1), symmetric]
    by (rule mix_instructions [OF cn_start_text(1) [OF l(1)] l(3) cn_loop_pad [OF l(1) N']])
  show ?thesis
    unfolding x86_slow_hash_def ensure_state_def [symmetric] Let_def hs_def [symmetric] S_def [symmetric] S option.case if_True fill
      hardware.rounds_start [OF l(1) N] mix
    by (simp add: Some cryptonight_loop hashed_def S_def flip: hs_def)
qed

end

end
