(* ===== verification/Slow_Pad.thy ===== *)
theory Slow_Pad
  imports Slow_Versions
begin

text \<open>
  The hash functions with the choice of the AES unit, and the life of a thread's scratchpad: when
  it is allocated, used and released, and by which allocator.
\<close>

section \<open>The choice of the unit\<close>

text \<open>
  The static variables of \<^verbatim>\<open>force_software_aes\<close> and \<^verbatim>\<open>check_aes_hw\<close> are \<open>uses\<close> and \<open>supported\<close>; the
  result holds their new values.
\<close>

definition use_aes :: "string option \<Rightarrow> u32 \<Rightarrow> int \<times> int \<Rightarrow> bool \<times> int \<times> int" where
  "use_aes env cpuid_results_2 statics =
    (let (forced, uses) = force_software_aes env (fst statics)
     in if forced then (False, uses, snd statics)
        else let (hw, supported) = check_aes_hw cpuid_results_2 (snd statics) in (hw, uses, supported))"

definition cn_slow_hash ::
  "(byte list \<Rightarrow> byte list \<Rightarrow> byte list) \<Rightarrow> (byte list \<Rightarrow> byte \<Rightarrow> byte list) \<Rightarrow> (byte list \<Rightarrow> byte list) list \<Rightarrow> outcomes \<Rightarrow>
    byte list option \<Rightarrow> byte list option \<Rightarrow> string option \<Rightarrow> u32 \<Rightarrow> (int \<times> int) \<times> scratchpad \<Rightarrow> byte list \<Rightarrow>
    (byte list \<times> (int \<times> int) \<times> scratchpad) option" where
  "cn_slow_hash aesenc assist extra_hashes oc mapped malloced env cpuid_results_2 st data =
    (let (useAes, statics) = use_aes env cpuid_results_2 (fst st)
     in map_option (\<lambda>(hash, s). (hash, statics, s))
          (x86_slow_hash aesenc assist (2 ^ 21) (2 ^ 20) extra_hashes oc mapped malloced useAes (snd st) data))"

definition cn_slow_hash_lite ::
  "(byte list \<Rightarrow> byte list \<Rightarrow> byte list) \<Rightarrow> (byte list \<Rightarrow> byte \<Rightarrow> byte list) \<Rightarrow> (byte list \<Rightarrow> byte list) list \<Rightarrow> outcomes \<Rightarrow>
    byte list option \<Rightarrow> byte list option \<Rightarrow> string option \<Rightarrow> u32 \<Rightarrow> (int \<times> int) \<times> scratchpad \<Rightarrow> byte list \<Rightarrow>
    (byte list \<times> (int \<times> int) \<times> scratchpad) option" where
  "cn_slow_hash_lite aesenc assist extra_hashes oc mapped malloced env cpuid_results_2 st data =
    (let (useAes, statics) = use_aes env cpuid_results_2 (fst st)
     in map_option (\<lambda>(hash, s). (hash, statics, s))
          (x86_slow_hash aesenc assist (2 ^ 20) (2 ^ 19) extra_hashes oc mapped malloced useAes (snd st) data))"

text \<open>The unit is chosen at the first call and stays.\<close>

lemma feature_bit: "sint (c AND push_bit 25 1 :: u32) = (if bit c 25 then 2 ^ 25 else 0)"
proof -
  have "c AND push_bit 25 1 = (if bit c 25 then push_bit 25 1 else 0)"
    unfolding push_bit_of_1 by (rule bit_word_eqI) (auto simp only: bit_and_iff bit_exp_iff bit_0_eq bot_apply bot_bool_def split: if_splits)
  then show ?thesis
    by simp
qed

lemma force_software_aes_first: "force_software_aes env (-1) = (if env = None \<or> env = Some ''0'' \<or> env = Some ''no'' then (False, 0) else (True, 1))"
  by (simp add: force_software_aes_def split: option.split)

lemma check_aes_hw_first: "check_aes_hw c (-1) = (bit c 25, if bit c 25 then 2 ^ 25 else 0)"
  unfolding check_aes_hw_def Let_def feature_bit by simp

lemma use_aes_first:
  "use_aes env c (-1, -1) =
    (if env = None \<or> env = Some ''0'' \<or> env = Some ''no'' then (bit c 25, 0, if bit c 25 then 2 ^ 25 else 0) else (False, 1, -1))"
  unfolding use_aes_def fst_conv snd_conv force_software_aes_first check_aes_hw_first by simp

lemma use_aes_later:
  "use_aes env c (0, 0) = (False, 0, 0)" "use_aes env c (0, 2 ^ 25) = (True, 0, 2 ^ 25)" "use_aes env c (1, n) = (False, 1, n)"
  by (simp_all add: use_aes_def force_software_aes_def check_aes_hw_def)

lemma use_aes_stable:
  assumes "use_aes env c (-1, -1) = (hw, statics)"
  shows "use_aes env' c' statics = (hw, statics)"
  using assms unfolding use_aes_first by (auto simp: use_aes_later [simplified] split: if_splits)

definition sized :: "nat \<Rightarrow> byte list option \<Rightarrow> bool" where
  "sized n p \<longleftrightarrow> (\<forall>b. p = Some b \<longrightarrow> length b = n)"

lemma x86_eq:
  assumes "N = 2 ^ k" "3 \<le> k" "k + 4 \<le> 32" "aes_instructions aesenc assist" "sized (16 * N) (scratch_buffer mapped malloced s)"
  shows "map_option fst (x86_slow_hash aesenc assist (16 * N) iter eh oc mapped malloced useAes s data) =
    (if scratch_buffer mapped malloced s \<noteq> None \<and> (useAes \<or> keys_available oc) then Some (cryptonight N iter eh data) else None)"
proof -
  have pad: "\<And>p. scratch_buffer mapped malloced s = Some p \<Longrightarrow> length p = 16 * N"
    using assms(5) by (simp add: sized_def)
  show ?thesis
    using x86_software_eq [OF assms(1-3) pad, of mapped malloced s aesenc assist iter eh oc data]
      aes_instructions.x86_hardware_eq [OF assms(4,1-3) pad, of mapped malloced s iter eh oc data]
    by (cases useAes) (simp_all add: hashed_def)
qed

lemma cn_slow_hash_eq:
  assumes "aes_instructions aesenc assist" "sized (2 ^ 21) (scratch_buffer mapped malloced (snd st))"
  shows "map_option fst (cn_slow_hash aesenc assist eh oc mapped malloced env cpuid st data) =
    (if scratch_buffer mapped malloced (snd st) \<noteq> None \<and> (fst (use_aes env cpuid (fst st)) \<or> keys_available oc)
     then Some (cryptonight (2 ^ 17) (2 ^ 20) eh data) else None)"
proof -
  have e: "16 * 2 ^ 17 = (2 :: nat) ^ 21"
    by simp
  have f: "fst \<circ> (\<lambda>(hash, s). (hash, x, s)) = fst" for x :: "int \<times> int"
    by auto
  obtain hw statics where u: "use_aes env cpuid (fst st) = (hw, statics)"
    by (cases "use_aes env cpuid (fst st)")
  show ?thesis
    using x86_eq [OF refl _ _ assms(1), of 17 mapped malloced "snd st" "2 ^ 20" eh oc hw data] assms(2)
    unfolding e by (simp add: cn_slow_hash_def u option.map_comp f del: power_numeral)
qed

lemma cn_slow_hash_lite_eq:
  assumes "aes_instructions aesenc assist" "sized (2 ^ 20) (scratch_buffer mapped malloced (snd st))"
  shows "map_option fst (cn_slow_hash_lite aesenc assist eh oc mapped malloced env cpuid st data) =
    (if scratch_buffer mapped malloced (snd st) \<noteq> None \<and> (fst (use_aes env cpuid (fst st)) \<or> keys_available oc)
     then Some (cryptonight (2 ^ 16) (2 ^ 19) eh data) else None)"
proof -
  have e: "16 * 2 ^ 16 = (2 :: nat) ^ 20"
    by simp
  have f: "fst \<circ> (\<lambda>(hash, s). (hash, x, s)) = fst" for x :: "int \<times> int"
    by auto
  obtain hw statics where u: "use_aes env cpuid (fst st) = (hw, statics)"
    by (cases "use_aes env cpuid (fst st)")
  show ?thesis
    using x86_eq [OF refl _ _ assms(1), of 16 mapped malloced "snd st" "2 ^ 19" eh oc hw data] assms(2)
    unfolding e by (simp add: cn_slow_hash_lite_def u option.map_comp f del: power_numeral)
qed

section \<open>The life of a scratchpad\<close>

datatype pad_event = Mapped | Malloced | Unmapped | Freed

definition acquired :: "byte list option \<Rightarrow> byte list option \<Rightarrow> scratchpad \<Rightarrow> pad_event list" where
  "acquired mapped malloced s =
    (if hp_state s \<noteq> None then [] else if mapped \<noteq> None then [Mapped] else if malloced \<noteq> None then [Malloced] else [])"

definition released :: "release option \<Rightarrow> pad_event list" where
  "released r = (case r of None \<Rightarrow> [] | Some (Free p) \<Rightarrow> [Freed] | Some (Munmap p) \<Rightarrow> [Unmapped])"

text \<open>
  A thread calls the three functions in any order. The events are the calls that acquire and
  release the buffer.
\<close>

inductive pad_run ::
  "(byte list \<Rightarrow> byte list \<Rightarrow> byte list) \<Rightarrow> (byte list \<Rightarrow> byte \<Rightarrow> byte list) \<Rightarrow> nat \<Rightarrow> nat \<Rightarrow> (byte list \<Rightarrow> byte list) list \<Rightarrow>
    pad_event list \<Rightarrow> scratchpad \<Rightarrow> bool"
  for aesenc assist mem iter eh where
  start: "pad_run aesenc assist mem iter eh [] \<lparr>hp_state = None, hp_allocated = False\<rparr>"
| allocate: "pad_run aesenc assist mem iter eh es s \<Longrightarrow> sized mem mapped \<Longrightarrow> sized mem malloced \<Longrightarrow>
    pad_run aesenc assist mem iter eh (es @ acquired mapped malloced s) (slow_hash_allocate_state mapped malloced s)"
| hash: "pad_run aesenc assist mem iter eh es s \<Longrightarrow> sized mem mapped \<Longrightarrow> sized mem malloced \<Longrightarrow>
    x86_slow_hash aesenc assist mem iter eh oc mapped malloced useAes s data = Some (h, s') \<Longrightarrow>
    pad_run aesenc assist mem iter eh (es @ acquired mapped malloced s) s'"
| free: "pad_run aesenc assist mem iter eh es s \<Longrightarrow> slow_hash_free_state s = (s', r) \<Longrightarrow>
    pad_run aesenc assist mem iter eh (es @ released r) s'"

text \<open>
  The contract of the allocators: one buffer at a time, given back to where it came from. The
  result is the allocator of the buffer that is held, or \<open>None\<close> after a violation.
\<close>

fun held :: "pad_event option \<Rightarrow> pad_event list \<Rightarrow> pad_event option option" where
  "held h [] = Some h"
| "held None (Mapped # es) = held (Some Mapped) es"
| "held None (Malloced # es) = held (Some Malloced) es"
| "held (Some Mapped) (Unmapped # es) = held None es"
| "held (Some Malloced) (Freed # es) = held None es"
| "held h (e # es) = None"

lemma held_append: "held h es = Some h' \<Longrightarrow> held h (es @ fs) = held h' fs"
  by (induction h es rule: held.induct) simp_all

definition pad_ok :: "nat \<Rightarrow> pad_event list \<Rightarrow> scratchpad \<Rightarrow> bool" where
  "pad_ok mem es s \<longleftrightarrow> sized mem (hp_state s) \<and>
    held None es = Some (if hp_state s = None then None else Some (if hp_allocated s then Mapped else Malloced)) \<and>
    (hp_state s = None \<longrightarrow> \<not> hp_allocated s)"

lemma ensure_allocate: "ensure_state mapped malloced s = slow_hash_allocate_state mapped malloced s"
  by (simp add: ensure_state_def slow_hash_allocate_state_def)

lemma pad_ok_allocate:
  assumes "pad_ok mem es s" "sized mem mapped" "sized mem malloced"
  shows "pad_ok mem (es @ acquired mapped malloced s) (slow_hash_allocate_state mapped malloced s)"
  using assms
  by (cases "hp_state s"; cases mapped; cases malloced)
    (simp_all add: pad_ok_def acquired_def slow_hash_allocate_state_def sized_def held_append [where h' = None] split: if_splits)

lemma pad_ok_free:
  assumes "pad_ok mem es s" "slow_hash_free_state s = (s', r)"
  shows "pad_ok mem (es @ released r) s' \<and> hp_state s' = None"
proof (cases "hp_state s")
  case (Some p)
  then have "held None es = Some (Some (if hp_allocated s then Mapped else Malloced))"
    using assms(1) by (simp add: pad_ok_def)
  from held_append [OF this] show ?thesis
    using Some assms by (auto simp: slow_hash_free_state_def pad_ok_def released_def sized_def)
qed (use assms in \<open>simp add: slow_hash_free_state_def released_def\<close>)

lemma pad_ok_hash:
  assumes ok: "pad_ok (16 * N) es s" "sized (16 * N) mapped" "sized (16 * N) malloced"
    and N: "N = 2 ^ k" "3 \<le> k" "k + 4 \<le> 32" and "aes_instructions aesenc assist"
    and run: "x86_slow_hash aesenc assist (16 * N) iter eh oc mapped malloced useAes s data = Some (h, s')"
  shows "pad_ok (16 * N) (es @ acquired mapped malloced s) s'"
proof -
  let ?s = "slow_hash_allocate_state mapped malloced s"
  have ok': "pad_ok (16 * N) (es @ acquired mapped malloced s) ?s"
    by (rule pad_ok_allocate [OF ok])
  have b: "hp_state ?s = scratch_buffer mapped malloced s"
    using allocate_buffer [of mapped malloced s] by (simp add: ensure_allocate)
  then have pad: "\<And>p. scratch_buffer mapped malloced s = Some p \<Longrightarrow> length p = 16 * N"
    using ok' by (simp add: pad_ok_def sized_def)
  have s: "scratch_buffer mapped malloced s \<noteq> None" "s' = ?s\<lparr>hp_state := Some (concat (fst (cn_loop N iter (hash_process data))))\<rparr>"
    using run x86_software_eq [OF N pad, of mapped malloced s aesenc assist iter eh oc data]
      aes_instructions.x86_hardware_eq [OF assms(7) N pad, of mapped malloced s iter eh oc data]
    by (cases useAes; simp add: hashed_def ensure_allocate split: if_splits)+
  have l: "length (hash_process data) = 200" and N': "8 dvd N" "0 < N"
    using dvd_8 [OF N(1,2)] N(1) by (simp_all add: hash_process_def length_keccak1600)
  have "length (concat (fst (cn_loop N iter (hash_process data)))) = 16 * N"
    using length_concat_uniform [OF cn_loop_pad(1) [OF l N', of iter]] cn_loop_pad(2) [OF l N', of iter] N'(1) by simp
  then show ?thesis
    using ok' s b by (simp add: pad_ok_def sized_def)
qed

lemma pad_run_ok:
  assumes "pad_run aesenc assist (16 * N) iter eh es s"
    and "N = 2 ^ k" "3 \<le> k" "k + 4 \<le> 32" "aes_instructions aesenc assist"
  shows "pad_ok (16 * N) es s"
  using assms(1)
proof induction
  case start
  then show ?case by (simp add: pad_ok_def sized_def)
next
  case (allocate es s mapped malloced)
  then show ?case by (simp add: pad_ok_allocate)
next
  case (hash es s mapped malloced oc useAes data h s')
  then show ?case by (intro pad_ok_hash [OF _ _ _ assms(2-5)])
next
  case (free es s s' r)
  then show ?case using pad_ok_free by blast
qed

end
