(* ===== verification/Slow_Properties.thy ===== *)
theory Slow_Properties
  imports Slow_Pad
begin





lemma product_halves: "unat (mul_hi x y) * 2 ^ 64 + unat (x * y) = unat x * unat y"
proof -
  have "unat x * unat y < 2 ^ 64 * 2 ^ 64"
    using unsigned_less [of x] unsigned_less [of y] by (intro mult_strict_mono) simp_all
  then have "unat x * unat y div 2 ^ 64 < 2 ^ 64"
    by (rule less_mult_imp_div_less)
  then show ?thesis
    by (simp add: mul_hi_def unat_of_nat take_bit_nat_eq_self unat_word_ariths)
qed

text \<open>
  C35: the 128-bit products that the versions use, by 32-bit halves with carries, the same with
  additions at the positions of the halves, and from the bytes of two blocks, are the full product of
  the two 64-bit numbers; the assertion that the carries do not overflow holds for all operands.
\<close>

theorem mul128_full:
  "(\<exists>hi lo. mul128 x y = Some (hi, lo) \<and> unat hi * 2 ^ 64 + unat lo = unat x * unat y) \<and>
   unat (load64 (arm_mul a b) 0) * 2 ^ 64 + unat (load64 (arm_mul a b) 8) = unat (load64 a 0) * unat (load64 b 0) \<and>
   mul a b = Some (arm_mul a b)"
  using product_halves [of x y] product_halves [of "load64 a 0" "load64 b 0"]
  by (simp add: mul128_correct arm_mul_correct mul_correct load64_pair)

text \<open>
  C36: a thread that calls the functions to allocate, to hash and to release in any order holds at most
  one buffer, of the right size, gives every buffer back, before it gets another one, to the allocator
  it came from, and never gives one back twice; its flag says which allocator that is.
\<close>

theorem scratchpad_invariant:
  assumes "pad_run aesenc assist (16 * N) iter eh es s"
    and "N = 2 ^ k" "3 \<le> k" "k + 4 \<le> 32" "aes_instructions aesenc assist"
  shows "sized (16 * N) (hp_state s) \<and> (hp_state s = None \<longrightarrow> \<not> hp_allocated s) \<and>
    held None es = Some (if hp_state s = None then None else Some (if hp_allocated s then Mapped else Malloced)) \<and>
    (\<forall>s' r. slow_hash_free_state s = (s', r) \<longrightarrow> held None (es @ released r) = Some None)"
proof -
  have ok: "pad_ok (16 * N) es s"
    by (rule pad_run_ok [OF assms])
  then show ?thesis
    using pad_ok_free [OF ok] by (auto simp: pad_ok_def)
qed

theorem scratchpad_invariant_witness:
  "held None [Mapped, Unmapped] = Some None"
proof -
  let ?s = "\<lparr>hp_state = None, hp_allocated = False\<rparr>" and ?p = "replicate 128 0"
  have "pad_run doc_aesenc doc_assist (16 * 8) 2 [] ([] @ acquired (Some ?p) None ?s) (slow_hash_allocate_state (Some ?p) None ?s)"
    by (intro pad_run.allocate pad_run.start) (simp_all add: sized_def)
  then have "pad_run doc_aesenc doc_assist (16 * 8) 2 [] [Mapped] \<lparr>hp_state = Some ?p, hp_allocated = True\<rparr>"
    by (simp add: acquired_def slow_hash_allocate_state_def)
  from scratchpad_invariant [OF this, of 3] show ?thesis
    by (simp add: slow_hash_free_state_def released_def documented.aes_instructions_axioms)
qed

end
