(* ===== verification/Chacha8.thy ===== *)
theory Chacha8
  imports Slow_Correct Blake256
begin

text \<open>
  The stream cipher of \<^verbatim>\<open>chacha8.c\<close>: ChaCha with eight rounds, a key of 32 bytes and an
  initialization vector of 8, for a little-endian machine. Against it stands the cipher as its
  author describes it: the state is a matrix of four rows, all of whose columns, and then all
  diagonals, go through the quarter round at once; the key stream is the sequence of the blocks for
  the counters 0, 1, 2 and so on.
\<close>

section \<open>The code\<close>

definition rol32 :: "u32 \<Rightarrow> nat \<Rightarrow> u32" where
  "rol32 x r = push_bit (r mod 32) x OR drop_bit ((32 - r mod 32) mod 32) x"

definition U8TO32_LITTLE :: "byte list \<Rightarrow> nat \<Rightarrow> u32" where
  "U8TO32_LITTLE p k = word_of_int (le_val (take 4 (drop k p)))"

definition U32TO8_LITTLE :: "u32 \<Rightarrow> byte list" where
  "U32TO8_LITTLE v = map (\<lambda>i. ucast (drop_bit (8 * i) v)) [0, 1, 2, 3]"

text \<open>The variables \<^verbatim>\<open>x0\<close> to \<^verbatim>\<open>x15\<close> are a list.\<close>

definition QUARTERROUND :: "nat \<Rightarrow> nat \<Rightarrow> nat \<Rightarrow> nat \<Rightarrow> u32 list \<Rightarrow> u32 list" where
  "QUARTERROUND a b c d x =
    (let x = x[a := x ! a + x ! b];
         x = x[d := rol32 (x ! d XOR x ! a) 16];
         x = x[c := x ! c + x ! d];
         x = x[b := rol32 (x ! b XOR x ! c) 12];
         x = x[a := x ! a + x ! b];
         x = x[d := rol32 (x ! d XOR x ! a) 8];
         x = x[c := x ! c + x ! d]
     in x[b := rol32 (x ! b XOR x ! c) 7])"

definition double_round :: "u32 list \<Rightarrow> u32 list" where
  "double_round x =
    (let x = QUARTERROUND 0 4 8 12 x;
         x = QUARTERROUND 1 5 9 13 x;
         x = QUARTERROUND 2 6 10 14 x;
         x = QUARTERROUND 3 7 11 15 x;
         x = QUARTERROUND 0 5 10 15 x;
         x = QUARTERROUND 1 6 11 12 x;
         x = QUARTERROUND 2 7 8 13 x
     in QUARTERROUND 3 4 9 14 x)"

text \<open>\<^verbatim>\<open>expand 32-byte k\<close>\<close>

definition chacha_sigma :: "byte list" where
  "chacha_sigma = [101, 120, 112, 97, 110, 100, 32, 51, 50, 45, 98, 121, 116, 101, 32, 107]"

definition chacha8_setup :: "byte list \<Rightarrow> byte list \<Rightarrow> u32 list" where
  "chacha8_setup key iv =
    [U8TO32_LITTLE chacha_sigma 0, U8TO32_LITTLE chacha_sigma 4, U8TO32_LITTLE chacha_sigma 8, U8TO32_LITTLE chacha_sigma 12,
     U8TO32_LITTLE key 0, U8TO32_LITTLE key 4, U8TO32_LITTLE key 8, U8TO32_LITTLE key 12,
     U8TO32_LITTLE key 16, U8TO32_LITTLE key 20, U8TO32_LITTLE key 24, U8TO32_LITTLE key 28,
     0, 0, U8TO32_LITTLE iv 0, U8TO32_LITTLE iv 4]"

text \<open>
  The loop. \<open>rest\<close> is what the buffer \<^verbatim>\<open>tmp\<close> contains at first: \<^verbatim>\<open>memcpy\<close> overwrites only the
  beginning of it. The value is what is written to \<^verbatim>\<open>cipher\<close>.
\<close>

definition chacha8_block :: "u32 list \<Rightarrow> byte list \<Rightarrow> byte list" where
  "chacha8_block j inp =
    (let x = j;
         x = (double_round ^^ 4) x;
         x = map2 (+) x j;
         x = map2 (XOR) x (map (\<lambda>i. U8TO32_LITTLE inp (4 * i)) [0..<16])
     in concat (map U32TO8_LITTLE x))"

definition next_counter :: "u32 list \<Rightarrow> u32 list" where
  "next_counter j = (let j = j[12 := j ! 12 + 1] in if j ! 12 = 0 then j[13 := j ! 13 + 1] else j)"

function chacha8_loop :: "byte list \<Rightarrow> u32 list \<Rightarrow> byte list \<Rightarrow> byte list" where
  "chacha8_loop rest j data =
    (let inp = (if length data < 64 then put 0 data rest else data);
         out = chacha8_block j inp;
         j = next_counter j
     in if length data \<le> 64 then take (length data) out
        else out @ chacha8_loop rest j (drop 64 data))"
  by pat_completeness auto

termination
  by (relation "measure (\<lambda>(rest, j, data). length data)") auto

declare chacha8_loop.simps [simp del]

definition chacha8 :: "byte list \<Rightarrow> byte list \<Rightarrow> byte list \<Rightarrow> byte list \<Rightarrow> byte list" where
  "chacha8 rest data key iv = (if data = [] then [] else chacha8_loop rest (chacha8_setup key iv) data)"

section \<open>The cipher\<close>

type_synonym row = "u32 list"

definition quarter :: "row \<times> row \<times> row \<times> row \<Rightarrow> row \<times> row \<times> row \<times> row" where
  "quarter s =
    (case s of (a, b, c, d) \<Rightarrow>
       let a = map2 (+) a b; d = map (word_rotl 16) (map2 (XOR) d a);
           c = map2 (+) c d; b = map (word_rotl 12) (map2 (XOR) b c);
           a = map2 (+) a b; d = map (word_rotl 8) (map2 (XOR) d a);
           c = map2 (+) c d; b = map (word_rotl 7) (map2 (XOR) b c)
       in (a, b, c, d))"

definition diagonals :: "row \<times> row \<times> row \<times> row \<Rightarrow> row \<times> row \<times> row \<times> row" where
  "diagonals s = (case s of (a, b, c, d) \<Rightarrow> (a, rotate 1 b, rotate 2 c, rotate 3 d))"

definition columns :: "row \<times> row \<times> row \<times> row \<Rightarrow> row \<times> row \<times> row \<times> row" where
  "columns s = (case s of (a, b, c, d) \<Rightarrow> (a, rotate 3 b, rotate 2 c, rotate 1 d))"

definition matrix :: "u32 list \<Rightarrow> row \<times> row \<times> row \<times> row" where
  "matrix x = (take 4 x, take 4 (drop 4 x), take 4 (drop 8 x), take 4 (drop 12 x))"

definition unmatrix :: "row \<times> row \<times> row \<times> row \<Rightarrow> u32 list" where
  "unmatrix s = (case s of (a, b, c, d) \<Rightarrow> a @ b @ c @ d)"

definition chacha_permute :: "u32 list \<Rightarrow> u32 list" where
  "chacha_permute x = unmatrix (((columns \<circ> quarter \<circ> diagonals \<circ> quarter) ^^ 4) (matrix x))"

definition chacha_state :: "byte list \<Rightarrow> byte list \<Rightarrow> nat \<Rightarrow> u32 list" where
  "chacha_state key iv n =
    map (U8TO32_LITTLE chacha_sigma) [0, 4, 8, 12] @ map (\<lambda>i. U8TO32_LITTLE key (4 * i)) [0..<8] @
    [of_nat n, of_nat (n div 2 ^ 32), U8TO32_LITTLE iv 0, U8TO32_LITTLE iv 4]"

definition chacha_block :: "byte list \<Rightarrow> byte list \<Rightarrow> nat \<Rightarrow> byte list" where
  "chacha_block key iv n =
    concat (map U32TO8_LITTLE (map2 (+) (chacha_permute (chacha_state key iv n)) (chacha_state key iv n)))"

definition key_stream :: "byte list \<Rightarrow> byte list \<Rightarrow> nat \<Rightarrow> byte list" where
  "key_stream key iv n = take n (concat (map (chacha_block key iv) [0..<n div 64 + 1]))"

section \<open>The rounds\<close>

lemma rol32_rotl: "0 < r \<Longrightarrow> r < 32 \<Longrightarrow> rol32 x r = word_rotl r x"
  using rotl_eq [of r x] by (simp add: rol32_def)

definition quarter_words :: "u32 \<Rightarrow> u32 \<Rightarrow> u32 \<Rightarrow> u32 \<Rightarrow> u32 \<times> u32 \<times> u32 \<times> u32" where
  "quarter_words a b c d =
    (let a = a + b; d = word_rotl 16 (d XOR a); c = c + d; b = word_rotl 12 (b XOR c);
         a = a + b; d = word_rotl 8 (d XOR a); c = c + d; b = word_rotl 7 (b XOR c)
     in (a, b, c, d))"

lemma QUARTERROUND_quad:
  assumes "a < length x" "b < length x" "c < length x" "d < length x" "distinct [a, b, c, d]"
  shows "QUARTERROUND a b c d x =
    (case quarter_words (x ! a) (x ! b) (x ! c) (x ! d) of (p, q, r, s) \<Rightarrow> x[a := p, b := q, c := r, d := s])"
proof -
  note q = quad_nth [OF assms] quad_update [OF assms]
  have "QUARTERROUND a b c d (quad a b c d x (x ! a) (x ! b) (x ! c) (x ! d)) =
      (case quarter_words (x ! a) (x ! b) (x ! c) (x ! d) of (p, q, r, s) \<Rightarrow> x[a := p, b := q, c := r, d := s])"
    unfolding QUARTERROUND_def Let_def q by (simp add: quarter_words_def rol32_rotl Let_def quad_def)
  then show ?thesis
    by (simp only: quad_start [symmetric])
qed

lemma quarter_Nil: "quarter ([], [], [], []) = ([], [], [], [])"
  by (simp add: quarter_def)

lemma quarter_Cons:
  assumes "quarter_words a b c d = (p, q, r, u)" "quarter (av, bv, cv, dv) = (pv, qv, rv, uv)"
  shows "quarter (a # av, b # bv, c # cv, d # dv) = (p # pv, q # qv, r # rv, u # uv)"
  using assms unfolding quarter_def quarter_words_def Let_def prod.case prod.inject
  by (elim conjE) (hypsubst, simp only: list.map zip_Cons_Cons prod.case simp_thms)

lemma quarter_quads:
  assumes "quarter_words a0 b0 c0 d0 = (p0, q0, r0, s0)" "quarter_words a1 b1 c1 d1 = (p1, q1, r1, s1)"
    "quarter_words a2 b2 c2 d2 = (p2, q2, r2, s2)" "quarter_words a3 b3 c3 d3 = (p3, q3, r3, s3)"
  shows "quarter ([a0, a1, a2, a3], [b0, b1, b2, b3], [c0, c1, c2, c3], [d0, d1, d2, d3]) =
    ([p0, p1, p2, p3], [q0, q1, q2, q3], [r0, r1, r2, r3], [s0, s1, s2, s3])"
  by (rule quarter_Cons [OF assms(1) quarter_Cons [OF assms(2) quarter_Cons [OF assms(3) quarter_Cons [OF assms(4) quarter_Nil]]]])

lemma length_16_elim:
  assumes "length x = 16"
  obtains x0 x1 x2 x3 x4 x5 x6 x7 x8 x9 x10 x11 x12 x13 x14 x15 where
    "x = [x0, x1, x2, x3, x4, x5, x6, x7, x8, x9, x10, x11, x12, x13, x14, x15]"
proof -
  have "x = map ((!) x) [0..<16]"
    using map_nth [of x] assms by metis
  then show thesis
    unfolding upt_16_list list.map by (rule that)
qed

lemma quad_obtain:
  obtains p q r s where "quarter_words a b c d = (p, q, r, s)"
  by (cases "quarter_words a b c d")

lemma double_round_matrix:
  assumes "length x = 16"
  shows "double_round x = unmatrix (columns (quarter (diagonals (quarter (matrix x)))))"
    "matrix (double_round x) = columns (quarter (diagonals (quarter (matrix x))))" "length (double_round x) = 16"
proof -
  obtain x0 x1 x2 x3 x4 x5 x6 x7 x8 x9 x10 x11 x12 x13 x14 x15 where
    x: "x = [x0, x1, x2, x3, x4, x5, x6, x7, x8, x9, x10, x11, x12, x13, x14, x15]"
    using assms by (rule length_16_elim)
  obtain a0 b0 c0 d0 where 0: "quarter_words x0 x4 x8 x12 = (a0, b0, c0, d0)" by (rule quad_obtain)
  obtain a1 b1 c1 d1 where 1: "quarter_words x1 x5 x9 x13 = (a1, b1, c1, d1)" by (rule quad_obtain)
  obtain a2 b2 c2 d2 where 2: "quarter_words x2 x6 x10 x14 = (a2, b2, c2, d2)" by (rule quad_obtain)
  obtain a3 b3 c3 d3 where 3: "quarter_words x3 x7 x11 x15 = (a3, b3, c3, d3)" by (rule quad_obtain)
  obtain e0 f0 g0 h0 where 4: "quarter_words a0 b1 c2 d3 = (e0, f0, g0, h0)" by (rule quad_obtain)
  obtain e1 f1 g1 h1 where 5: "quarter_words a1 b2 c3 d0 = (e1, f1, g1, h1)" by (rule quad_obtain)
  obtain e2 f2 g2 h2 where 6: "quarter_words a2 b3 c0 d1 = (e2, f2, g2, h2)" by (rule quad_obtain)
  obtain e3 f3 g3 h3 where 7: "quarter_words a3 b0 c1 d2 = (e3, f3, g3, h3)" by (rule quad_obtain)
  have d: "double_round x = [e0, e1, e2, e3, f3, f0, f1, f2, g2, g3, g0, g1, h1, h2, h3, h0]"
    unfolding double_round_def Let_def x by (simp add: QUARTERROUND_quad 0 1 2 3 4 5 6 7)
  have "matrix x = ([x0, x1, x2, x3], [x4, x5, x6, x7], [x8, x9, x10, x11], [x12, x13, x14, x15])"
    by (simp add: matrix_def x)
  moreover have "diagonals ([a0, a1, a2, a3], [b0, b1, b2, b3], [c0, c1, c2, c3], [d0, d1, d2, d3]) =
      ([a0, a1, a2, a3], [b1, b2, b3, b0], [c2, c3, c0, c1], [d3, d0, d1, d2])"
    by (simp add: diagonals_def numeral_eq_Suc)
  ultimately have "quarter (diagonals (quarter (matrix x))) = ([e0, e1, e2, e3], [f0, f1, f2, f3], [g0, g1, g2, g3], [h0, h1, h2, h3])"
    by (simp add: quarter_quads [OF 0 1 2 3] quarter_quads [OF 4 5 6 7])
  then show "double_round x = unmatrix (columns (quarter (diagonals (quarter (matrix x)))))"
    and "matrix (double_round x) = columns (quarter (diagonals (quarter (matrix x))))"
    by (simp_all add: d columns_def matrix_def unmatrix_def numeral_eq_Suc)
  show "length (double_round x) = 16"
    by (simp add: d)
qed

lemma matrix_unmatrix: "length x = 16 \<Longrightarrow> unmatrix (matrix x) = x"
  using append_take_drop_id [of 4 x] take_add [of 4 4 x] take_add [of 8 4 x] take_add [of 12 4 x]
  by (simp add: matrix_def unmatrix_def)

lemma permute_eq:
  assumes "length x = 16"
  shows "(double_round ^^ 4) x = chacha_permute x" "length (chacha_permute x) = 16"
proof -
  define D where "D = columns \<circ> quarter \<circ> diagonals \<circ> quarter"
  have D: "D m = columns (quarter (diagonals (quarter m)))" for m
    by (simp add: D_def)
  have "length ((double_round ^^ n) x) = 16 \<and> matrix ((double_round ^^ n) x) = (D ^^ n) (matrix x)" for n
  proof (induction n)
    case (Suc n)
    define y where "y = (double_round ^^ n) x"
    have y: "length y = 16" "matrix y = (D ^^ n) (matrix x)"
      using Suc by (simp_all add: y_def)
    have "matrix (double_round y) = D (matrix y)"
      using double_round_matrix(2) [OF y(1)] by (simp add: D)
    then show ?case
      using y double_round_matrix(3) [OF y(1)] by (simp add: y_def)
  qed (simp add: assms)
  from this [of 4] have 4: "length ((double_round ^^ 4) x) = 16" "matrix ((double_round ^^ 4) x) = (D ^^ 4) (matrix x)"
    by simp_all
  show e: "(double_round ^^ 4) x = chacha_permute x"
    using matrix_unmatrix [OF 4(1)] unfolding 4(2) chacha_permute_def D_def ..
  show "length (chacha_permute x) = 16"
    using 4(1) unfolding e .
qed

section \<open>The blocks\<close>

lemma length_U32TO8_LITTLE [simp]: "length (U32TO8_LITTLE v) = 4"
  by (simp add: U32TO8_LITTLE_def)

lemma U32TO8_U8TO32:
  assumes "length s = 4"
  shows "U32TO8_LITTLE (U8TO32_LITTLE s 0) = s"
proof (rule nth_equalityI)
  fix i
  assume "i < length (U32TO8_LITTLE (U8TO32_LITTLE s 0))"
  then have i: "i < 4"
    by simp
  have e: "U32TO8_LITTLE w ! i = ucast (drop_bit (8 * i) w)" for w
    using i by (auto simp: U32TO8_LITTLE_def less_Suc_eq numeral_eq_Suc)
  show "U32TO8_LITTLE (U8TO32_LITTLE s 0) ! i = s ! i"
    unfolding e U8TO32_LITTLE_def
  proof (rule bit_word_eqI)
    fix n
    assume n: "n < LENGTH(8)"
    then have "(8 * i + n) div 8 = i" "(8 * i + n) mod 8 = n" "8 * i + n < 32"
      using i by simp_all
    then show "bit (ucast (drop_bit (8 * i) (word_of_int (le_val (take 4 (drop 0 s))) :: u32)) :: byte) n = bit (s ! i) n"
      using n i assms by (simp add: bit_ucast_iff bit_drop_bit_eq bit_word_of_int_iff bit_le_val)
  qed
qed (simp add: assms)

lemma U32TO8_xor:
  "k + 4 \<le> length s \<Longrightarrow> U32TO8_LITTLE (v XOR U8TO32_LITTLE s k) = xor_bytes (U32TO8_LITTLE v) (take 4 (drop k s))"
proof -
  assume "k + 4 \<le> length s"
  then have "take 4 (drop k s) = U32TO8_LITTLE (U8TO32_LITTLE (take 4 (drop k s)) 0)"
    by (simp add: U32TO8_U8TO32)
  also have "U8TO32_LITTLE (take 4 (drop k s)) 0 = U8TO32_LITTLE s k"
    by (simp add: U8TO32_LITTLE_def)
  finally have "take 4 (drop k s) = U32TO8_LITTLE (U8TO32_LITTLE s k)" .
  then show ?thesis
    by (simp add: U32TO8_LITTLE_def xor_bytes_def unsigned_xor_eq drop_bit_xor)
qed

lemma xor_words:
  assumes "length s = 4 * length X"
  shows "concat (map U32TO8_LITTLE (map2 (XOR) X (map (\<lambda>i. U8TO32_LITTLE s (4 * i)) [0..<length X]))) =
    xor_bytes (concat (map U32TO8_LITTLE X)) s"
  using assms
proof (induction X arbitrary: s rule: rev_induct)
  case Nil
  then show ?case by (simp add: xor_bytes_def)
next
  case (snoc x X)
  define t where "t = take (4 * length X) s"
  have t: "length t = 4 * length X" "s = t @ take 4 (drop (4 * length X) s)"
    using snoc.prems append_take_drop_id [of "4 * length X" s] by (simp_all add: t_def)
  have words: "map (\<lambda>i. U8TO32_LITTLE s (4 * i)) [0..<length X] = map (\<lambda>i. U8TO32_LITTLE t (4 * i)) [0..<length X]"
  proof (rule map_cong [OF refl])
    fix i
    assume "i \<in> set [0..<length X]"
    then have "take 4 (drop (4 * i) t) = take 4 (drop (4 * i) s)"
      unfolding t_def by (simp add: drop_take min_def)
    then show "U8TO32_LITTLE s (4 * i) = U8TO32_LITTLE t (4 * i)"
      by (simp add: U8TO32_LITTLE_def)
  qed
  have "concat (map U32TO8_LITTLE (map2 (XOR) (X @ [x]) (map (\<lambda>i. U8TO32_LITTLE s (4 * i)) [0..<length (X @ [x])]))) =
      xor_bytes (concat (map U32TO8_LITTLE X)) t @ xor_bytes (U32TO8_LITTLE x) (take 4 (drop (4 * length X) s))"
    using snoc.IH [OF t(1)] snoc.prems by (simp add: U32TO8_xor words del: map_map map_eq_conv)
  also have "\<dots> = xor_bytes (concat (map U32TO8_LITTLE X) @ U32TO8_LITTLE x) (t @ take 4 (drop (4 * length X) s))"
    using t(1) by (intro xor_bytes_append [symmetric]) (simp add: length_concat comp_def sum_list_triv)
  finally show ?case
    using t(2) by simp
qed

lemma length_chacha_state: "length (chacha_state key iv n) = 16"
  by (simp add: chacha_state_def)

lemma length_chacha_block: "length (chacha_block key iv n) = 64"
  by (simp add: chacha_block_def length_concat comp_def sum_list_triv length_chacha_state permute_eq(2))

lemma chacha8_block_eq:
  assumes "length s = 64"
  shows "chacha8_block (chacha_state key iv n) s = xor_bytes s (chacha_block key iv n)"
proof -
  let ?x = "map2 (+) (chacha_permute (chacha_state key iv n)) (chacha_state key iv n)"
  have l: "length ?x = 16"
    by (simp add: length_chacha_state permute_eq(2))
  have "chacha8_block (chacha_state key iv n) s = xor_bytes (concat (map U32TO8_LITTLE ?x)) s"
    using xor_words [of s ?x] assms unfolding l chacha8_block_def Let_def permute_eq(1) [OF length_chacha_state] by simp
  then show ?thesis
    by (simp add: chacha_block_def xor_bytes_commute)
qed

section \<open>The stream\<close>

lemma setup_state: "chacha8_setup key iv = chacha_state key iv 0"
  by (simp add: chacha8_setup_def chacha_state_def upt_8 del: upt_rec_numeral)

lemma next_counter_state: "next_counter (chacha_state key iv n) = chacha_state key iv (Suc n)"
proof -
  define K where "K = map (U8TO32_LITTLE chacha_sigma) [0, 4, 8, 12] @ map (\<lambda>i. U8TO32_LITTLE key (4 * i)) [0..<8]"
  have K: "length K = 12"
    by (simp add: K_def)
  have u: "(K @ w)[12 := v] = K @ w[0 := v]" "(K @ w)[13 := v] = K @ w[1 := v]" "(K @ w) ! 12 = w ! 0" "(K @ w) ! 13 = w ! 1" for w v
    using K by (simp_all add: list_update_append nth_append)
  have z: "(of_nat (Suc n) :: u32) = 0 \<longleftrightarrow> Suc n mod 2 ^ 32 = 0"
    using word_of_nat_eq_0_iff [of "Suc n", where 'a = 32] by (simp add: dvd_eq_mod_eq_0)
  have "(of_nat (Suc n div 2 ^ 32) :: u32) = (if (of_nat (Suc n) :: u32) = 0 then of_nat (n div 2 ^ 32) + 1 else of_nat (n div 2 ^ 32))"
    unfolding z by (simp add: div_Suc)
  then show ?thesis
    unfolding next_counter_def Let_def chacha_state_def K_def [symmetric] append_assoc [symmetric] u by (simp add: add.commute)
qed

lemma take_xor_bytes: "take k (xor_bytes a b) = xor_bytes (take k a) (take k b)"
  by (simp add: xor_bytes_def take_map take_zip)

lemma xor_bytes_prefix: "xor_bytes a (take (length a) b) = xor_bytes a b"
  by (induction a b rule: list_induct2') (simp_all add: xor_bytes_def)

lemma xor_bytes_more: "length a \<le> length b \<Longrightarrow> xor_bytes a (b @ c) = xor_bytes a b"
  using xor_bytes_prefix [of a "b @ c"] xor_bytes_prefix [of a b] by simp

lemma stream_Cons:
  "concat (map (chacha_block key iv) [n..<n + Suc k]) = chacha_block key iv n @ concat (map (chacha_block key iv) [Suc n..<Suc n + k])"
  by (simp add: upt_conv_Cons del: upt_Suc)

lemma chacha8_block_take: "64 < length data \<Longrightarrow> chacha8_block j data = chacha8_block j (take 64 data)"
proof -
  have "map (\<lambda>i. U8TO32_LITTLE data (4 * i)) [0..<16] = map (\<lambda>i. U8TO32_LITTLE (take 64 data) (4 * i)) [0..<16]"
    by (rule map_cong [OF refl]) (simp add: U8TO32_LITTLE_def drop_take min_def del: upt_rec_numeral)
  then show ?thesis
    by (simp only: chacha8_block_def)
qed

lemma loop_stream:
  assumes "length rest = 64" "data \<noteq> []"
  shows "chacha8_loop rest (chacha_state key iv n) data =
    xor_bytes data (concat (map (chacha_block key iv) [n..<n + Suc (length data div 64)]))"
  using assms(2)
proof (induction "length data" arbitrary: n data rule: less_induct)
  case less
  note stream = stream_Cons [of key iv n "length data div 64"]
  show ?case
  proof (cases "length data \<le> 64")
    case True
    define inp where "inp = (if length data < 64 then put 0 data rest else data)"
    have inp: "length inp = 64" "take (length data) inp = data"
      using True assms by (auto simp: inp_def put_def)
    have "chacha8_loop rest (chacha_state key iv n) data = take (length data) (xor_bytes inp (chacha_block key iv n))"
      using True by (subst chacha8_loop.simps) (simp add: inp_def [symmetric] chacha8_block_eq inp(1))
    also have "\<dots> = xor_bytes data (chacha_block key iv n)"
      unfolding take_xor_bytes inp(2) by (rule xor_bytes_prefix)
    also have "\<dots> = xor_bytes data (concat (map (chacha_block key iv) [n..<n + Suc (length data div 64)]))"
      unfolding stream using True by (intro xor_bytes_more [symmetric]) (simp add: length_chacha_block)
    finally show ?thesis .
  next
    case False
    define d where "d = drop 64 data"
    have d: "data = take 64 data @ d" "length (take 64 data) = 64" "length d < length data" "d \<noteq> []" "length data div 64 = Suc (length d div 64)"
      using False by (simp_all add: d_def div_if [of "length data" 64])
    have "chacha8_loop rest (chacha_state key iv n) data =
        xor_bytes (take 64 data) (chacha_block key iv n) @ chacha8_loop rest (chacha_state key iv (Suc n)) d"
      using False by (subst chacha8_loop.simps)
        (simp add: Let_def chacha8_block_eq d(2) next_counter_state chacha8_block_take [of data] flip: d_def)
    also have "chacha8_loop rest (chacha_state key iv (Suc n)) d = xor_bytes d (concat (map (chacha_block key iv) [Suc n..<Suc n + Suc (length d div 64)]))"
      using less.hyps [OF d(3,4)] .
    also have "xor_bytes (take 64 data) (chacha_block key iv n) @ \<dots> =
        xor_bytes (take 64 data @ d) (chacha_block key iv n @ concat (map (chacha_block key iv) [Suc n..<Suc n + Suc (length d div 64)]))"
      using d(2) by (intro xor_bytes_append [symmetric]) (simp add: length_chacha_block)
    finally show ?thesis
      unfolding d(1) [symmetric] stream_Cons [symmetric] unfolding d(5) .
  qed
qed

lemma length_stream: "length (concat (map (chacha_block key iv) [n..<n + k])) = 64 * k"
  by (simp add: length_concat comp_def length_chacha_block sum_list_triv)

lemma length_key_stream [simp]: "length (key_stream key iv n) = n"
  using length_stream [of key iv 0 "n div 64 + 1"] by (simp add: key_stream_def)

lemma chacha8_key_stream:
  assumes "length rest = 64"
  shows "chacha8 rest data key iv = xor_bytes data (key_stream key iv (length data))"
proof (cases "data = []")
  case True
  then show ?thesis by (simp add: chacha8_def xor_bytes_def)
next
  case False
  then show ?thesis
    using loop_stream [OF assms False, of key iv 0]
    unfolding chacha8_def setup_state key_stream_def xor_bytes_prefix by simp
qed

text \<open>The key stream of a shorter message is a beginning of that of a longer one.\<close>

lemma key_stream_prefix:
  assumes "m \<le> n"
  shows "take m (key_stream key iv n) = key_stream key iv m"
proof -
  have "[0..<n div 64 + 1] = [0..<m div 64 + 1] @ [m div 64 + 1..<n div 64 + 1]"
    using div_le_mono [OF assms, of 64] upt_add_eq_append [of 0 "m div 64 + 1" "n div 64 - m div 64"] by simp
  then show ?thesis
    using assms length_stream [of key iv 0 "m div 64 + 1"] by (simp add: key_stream_def del: upt_Suc)
qed

end
