(* ===== verification/Random_Source.thy ===== *)
theory Random_Source
  imports Slow_Hash
begin

text \<open>
  The random bytes of \<^verbatim>\<open>random.c\<close>: the seed that is read from \<^verbatim>\<open>/dev/urandom\<close>, and the generator, a
  Keccak state that is permuted for every 136 bytes of output, with the variable \<^verbatim>\<open>curstate\<close> and its
  assertions, which are meant to catch concurrent calls. The seed on Windows comes from a service of
  the system and is not modelled.
\<close>

section \<open>Reading the seed\<close>

text \<open>
  The system is a parameter: what the call of \<^verbatim>\<open>read\<close> number \<open>i\<close> does when it is asked for \<open>n\<close> bytes.
  It is interrupted by a signal (\<^verbatim>\<open>EINTR\<close>), or fails otherwise, or stores bytes, none at the end of the
  file. The result \<open>None\<close> is a loop that goes on forever.
\<close>

datatype read_result = Stored "byte list" | Interrupted | Failed

datatype system_error = OpenFailed | ReadFailed | EndOfFile | CloseFailed

type_synonym reads = "nat \<Rightarrow> nat \<Rightarrow> read_result"

text \<open>A negative result of \<^verbatim>\<open>read\<close>, as a \<^verbatim>\<open>size_t\<close>, is \<open>2 ^ 64 - 1\<close>.\<close>

partial_function (option) read_loop :: "reads \<Rightarrow> nat \<Rightarrow> nat \<Rightarrow> byte list \<Rightarrow> (system_error + byte list) option" where
  "read_loop sys i n out =
    (case sys i n of
       Stored bs \<Rightarrow>
         if length bs = n then Some (Inr (out @ bs))
         else if bs = [] then Some (Inl EndOfFile)
         else read_loop sys (Suc i) (n - length bs) (out @ bs)
     | Interrupted \<Rightarrow> if n = 2 ^ 64 - 1 then Some (Inr out) else read_loop sys (Suc i) n out
     | Failed \<Rightarrow> if n = 2 ^ 64 - 1 then Some (Inr out) else Some (Inl ReadFailed))"

definition generate_system_random_bytes :: "bool \<Rightarrow> bool \<Rightarrow> reads \<Rightarrow> nat \<Rightarrow> (system_error + byte list) option" where
  "generate_system_random_bytes opens closes sys n =
    (if \<not> opens then Some (Inl OpenFailed)
     else case read_loop sys 0 n [] of
            None \<Rightarrow> None
          | Some (Inl e) \<Rightarrow> Some (Inl e)
          | Some (Inr bs) \<Rightarrow> if closes then Some (Inr bs) else Some (Inl CloseFailed))"

text \<open>
  The documented behaviour of \<^verbatim>\<open>read\<close>: it stores at most as many bytes as it is asked for. And it is
  not interrupted forever.
\<close>

definition reads_progress :: "reads \<Rightarrow> bool" where
  "reads_progress sys \<longleftrightarrow> (\<forall>i n bs. sys i n = Stored bs \<longrightarrow> length bs \<le> n) \<and> (\<forall>i n. \<exists>j\<ge>i. sys j n \<noteq> Interrupted)"

text \<open>What the calls from number \<open>i\<close> on store, for a request of \<open>n\<close> bytes that is met.\<close>

inductive delivers :: "reads \<Rightarrow> nat \<Rightarrow> nat \<Rightarrow> byte list \<Rightarrow> bool" for sys where
  complete: "sys i n = Stored bs \<Longrightarrow> length bs = n \<Longrightarrow> delivers sys i n bs"
| short: "sys i n = Stored bs \<Longrightarrow> bs \<noteq> [] \<Longrightarrow> length bs < n \<Longrightarrow> delivers sys (Suc i) (n - length bs) cs \<Longrightarrow> delivers sys i n (bs @ cs)"
| again: "sys i n = Interrupted \<Longrightarrow> delivers sys (Suc i) n bs \<Longrightarrow> delivers sys i n bs"

lemma delivers_length: "delivers sys i n bs \<Longrightarrow> length bs = n"
  by (induction rule: delivers.induct) simp_all

lemma skip_interrupted:
  assumes "reads_progress sys" "n < 2 ^ 64 - 1"
  obtains j where "i \<le> j" "sys j n \<noteq> Interrupted" "read_loop sys i n out = read_loop sys j n out"
    "\<And>bs. delivers sys j n bs \<Longrightarrow> delivers sys i n bs"
proof -
  define P where "P k \<longleftrightarrow> sys (i + k) n \<noteq> Interrupted" for k
  obtain j where "i \<le> j" "sys j n \<noteq> Interrupted"
    using assms(1) unfolding reads_progress_def by blast
  then have "P (j - i)"
    by (simp add: P_def)
  then have "P (LEAST k. P k)" and least: "\<And>k. k < (LEAST k. P k) \<Longrightarrow> \<not> P k"
    by (rule LeastI) (rule not_less_Least)
  have "k \<le> (LEAST k. P k) \<Longrightarrow> read_loop sys i n out = read_loop sys (i + k) n out \<and> (\<forall>bs. delivers sys (i + k) n bs \<longrightarrow> delivers sys i n bs)" for k
  proof (induction k)
    case (Suc k)
    then have "sys (i + k) n = Interrupted"
      using least [of k] by (simp add: P_def)
    then show ?case
      using Suc assms by (auto simp: read_loop.simps [of sys "i + k"] intro: delivers.again)
  qed simp
  from this [of "LEAST k. P k"] \<open>P (LEAST k. P k)\<close> show ?thesis
    by (intro that [of "i + (LEAST k. P k)"]) (simp_all add: P_def)
qed

lemma read_loop_returns:
  assumes "reads_progress sys" "n < 2 ^ 64 - 1"
  shows "(\<exists>e. e \<in> {EndOfFile, ReadFailed} \<and> read_loop sys i n out = Some (Inl e)) \<or>
    (\<exists>bs. delivers sys i n bs \<and> read_loop sys i n out = Some (Inr (out @ bs)))"
  using assms(2)
proof (induction n arbitrary: i out rule: less_induct)
  case (less n)
  obtain j where j: "i \<le> j" "sys j n \<noteq> Interrupted" "read_loop sys i n out = read_loop sys j n out"
      "\<And>bs. delivers sys j n bs \<Longrightarrow> delivers sys i n bs"
    using skip_interrupted [OF assms(1) less.prems] by blast
  show ?case
  proof (cases "sys j n")
    case (Stored bs)
    note le = assms(1) [unfolded reads_progress_def, THEN conjunct1, rule_format, OF Stored]
    show ?thesis
    proof (cases "length bs = n \<or> bs = []")
      case True
      then show ?thesis
        using Stored j(3) j(4) [OF delivers.complete [of sys j n bs, OF Stored]] by (auto simp: read_loop.simps [of sys j])
    next
      case False
      then have "length bs < n"
        using le by simp
      moreover have "n - length bs < n" "n - length bs < 2 ^ 64 - 1"
        using False le less.prems by (cases bs; simp)+
      moreover have e: "read_loop sys i n out = read_loop sys (Suc j) (n - length bs) (out @ bs)"
        using j(3) Stored False by (simp add: read_loop.simps [of sys j])
      moreover have "delivers sys (Suc j) (n - length bs) cs \<Longrightarrow> delivers sys i n (bs @ cs)" for cs
        using False \<open>length bs < n\<close> by (intro j(4) delivers.short [of sys j n bs, OF Stored]) simp_all
      ultimately show ?thesis
        using less.IH [of "n - length bs" "Suc j" "out @ bs"] unfolding append_assoc by metis
    qed
  next
    case Interrupted
    then show ?thesis using j(2) by simp
  next
    case Failed
    then show ?thesis
      using j(3) less.prems by (simp add: read_loop.simps [of sys j])
  qed
qed

text \<open>Without progress the loop does not return.\<close>

lemma read_loop_stuck:
  assumes "\<And>i. sys i n = Interrupted" "n < 2 ^ 64 - 1"
  shows "read_loop sys i n out = None"
proof (rule ccontr)
  assume "read_loop sys i n out \<noteq> None"
  then obtain r where "read_loop sys i n out = Some r"
    by blast
  moreover have "read_loop s i m out = Some r \<Longrightarrow> s = sys \<longrightarrow> m \<noteq> n" for s i m out r
  proof (rule read_loop.raw_induct [where P = "\<lambda>s i m out r. s = sys \<longrightarrow> m \<noteq> n"])
    fix f s i m out r
    assume IH: "\<And>s i m out r. f s i m out = Some r \<Longrightarrow> s = sys \<longrightarrow> m \<noteq> n"
      and r: "(case s i m of
         Stored bs \<Rightarrow> if length bs = m then Some (Inr (out @ bs)) else if bs = [] then Some (Inl EndOfFile) else f s (Suc i) (m - length bs) (out @ bs)
       | Interrupted \<Rightarrow> if m = 2 ^ 64 - 1 then Some (Inr out) else f s (Suc i) m out
       | Failed \<Rightarrow> if m = 2 ^ 64 - 1 then Some (Inr out) else Some (Inl ReadFailed)) = Some r"
    show "s = sys \<longrightarrow> m \<noteq> n"
      using IH [of s "Suc i" m out r] r assms by auto
  qed
  ultimately show False
    by blast
qed

section \<open>The generator\<close>

text \<open>The static state, in bytes, and \<^verbatim>\<open>curstate\<close>. A failed assertion is \<open>None\<close>.\<close>

record generator =
  g_state :: "byte list"
  curstate :: int

definition permute_bytes :: "byte list \<Rightarrow> byte list" where
  "permute_bytes st = state_bytes (hash_permutation (map (\<lambda>i. load64 st (8 * i)) [0..<25]))"

definition init_random :: "byte list \<Rightarrow> generator \<Rightarrow> generator option" where
  "init_random seed g =
    (let g = g\<lparr>g_state := put 0 seed (g_state g)\<rparr>
     in if curstate g \<noteq> 0 then None else Some (g\<lparr>curstate := 1\<rparr>))"

definition deinit_random :: "generator \<Rightarrow> generator option" where
  "deinit_random g =
    (if curstate g \<noteq> 1 then None
     else let g = g\<lparr>curstate := 0\<rparr> in Some (g\<lparr>g_state := replicate 200 0\<rparr>))"

text \<open>The loop: the final state and what is written to \<^verbatim>\<open>result\<close>; \<^verbatim>\<open>HASH_DATA_AREA\<close> is 136.\<close>

function random_loop :: "nat \<Rightarrow> byte list \<Rightarrow> byte list \<times> byte list" where
  "random_loop n st =
    (let st = permute_bytes st
     in if n \<le> 136 then (st, take n st)
        else let (st', out) = random_loop (n - 136) st in (st', take 136 st @ out))"
  by pat_completeness auto

termination
  by (relation "measure fst") auto

declare random_loop.simps [simp del]

definition generate_random_bytes :: "nat \<Rightarrow> generator \<Rightarrow> (byte list \<times> generator) option" where
  "generate_random_bytes n g =
    (if curstate g \<noteq> 1 then None
     else
       let g = g\<lparr>curstate := 2\<rparr>
       in if n = 0 then (if curstate g \<noteq> 2 then None else Some ([], g\<lparr>curstate := 1\<rparr>))
          else
            let (st, out) = random_loop n (g_state g);
                g = g\<lparr>g_state := st\<rparr>
            in if curstate g \<noteq> 2 then None else Some (out, g\<lparr>curstate := 1\<rparr>))"

text \<open>A sequence of requests.\<close>

fun random_requests :: "nat list \<Rightarrow> generator \<Rightarrow> (byte list list \<times> generator) option" where
  "random_requests [] g = Some ([], g)"
| "random_requests (n # ns) g =
    (case generate_random_bytes n g of
       None \<Rightarrow> None
     | Some (out, g) \<Rightarrow> map_option (\<lambda>(outs, g). (out # outs, g)) (random_requests ns g))"

text \<open>
  The stream of output blocks from a state, and how many of them a request takes.
\<close>

definition random_blocks :: "byte list \<Rightarrow> nat \<Rightarrow> byte list" where
  "random_blocks st k = concat (map (\<lambda>i. take 136 ((permute_bytes ^^ Suc i) st)) [0..<k])"

definition blocks_taken :: "nat \<Rightarrow> nat" where
  "blocks_taken n = (n + 135) div 136"

lemma length_permute [simp]: "length (permute_bytes st) = 200"
proof -
  have "length (keccakf (map (\<lambda>i. load64 st (8 * i)) [0..<25]) 24) = 25"
    by (metis keccakf_keccak_f keccakf_spec length_map length_upt diff_zero order_refl)
  then show ?thesis
    by (simp add: permute_bytes_def hash_permutation_def length_state_bytes)
qed

lemma random_blocks_Suc:
  "random_blocks st (Suc k) = take 136 (permute_bytes st) @ random_blocks (permute_bytes st) k"
proof -
  have "[0..<Suc k] = 0 # map Suc [0..<k]"
    by (simp add: upt_conv_Cons map_Suc_upt del: upt_Suc)
  then show ?thesis
    by (simp add: random_blocks_def comp_def funpow_swap1 del: upt_Suc)
qed

lemma random_loop_blocks:
  assumes "0 < n"
  shows "random_loop n st = ((permute_bytes ^^ blocks_taken n) st, take n (random_blocks st (blocks_taken n)))"
  using assms
proof (induction n arbitrary: st rule: less_induct)
  case (less n)
  show ?case
  proof (cases "n \<le> 136")
    case True
    then have "blocks_taken n = Suc 0"
      using less.prems by (simp add: blocks_taken_def)
    then show ?thesis
      using True by (simp add: random_loop.simps [of n] Let_def random_blocks_def)
  next
    case False
    then have b: "blocks_taken n = Suc (blocks_taken (n - 136))"
      by (simp add: blocks_taken_def div_if [of "n + 135"])
    show ?thesis
      using less.IH [of "n - 136" "permute_bytes st"] False
      unfolding b random_blocks_Suc by (simp add: random_loop.simps [of n] Let_def funpow_swap1)
  qed
qed

lemma length_random_blocks: "length (random_blocks st k) = 136 * k"
  by (induction k arbitrary: st) (simp_all add: random_blocks_Suc, simp add: random_blocks_def)

lemma generate_eq:
  assumes "curstate g = 1"
  shows "generate_random_bytes n g =
    Some (take n (random_blocks (g_state g) (blocks_taken n)), g\<lparr>g_state := (permute_bytes ^^ blocks_taken n) (g_state g)\<rparr>)"
proof (cases "n = 0")
  case True
  then show ?thesis
    using assms by (cases g) (simp add: generate_random_bytes_def blocks_taken_def)
next
  case False
  then show ?thesis
    using assms by (cases g) (simp add: generate_random_bytes_def random_loop_blocks)
qed

text \<open>A sequence of requests takes blocks from one stream, each request whole blocks.\<close>

fun random_outputs :: "byte list \<Rightarrow> nat list \<Rightarrow> byte list list" where
  "random_outputs st [] = []"
| "random_outputs st (n # ns) = take n (random_blocks st (blocks_taken n)) # random_outputs ((permute_bytes ^^ blocks_taken n) st) ns"

lemma blocks_enough: "n \<le> 136 * blocks_taken n"
  unfolding blocks_taken_def using dividend_less_times_div [of 136 "n + 135"] by simp

lemma lengths_outputs: "map length (random_outputs st ns) = ns"
  by (induction ns arbitrary: st) (simp_all add: length_random_blocks blocks_enough)

lemma permute_add: "(permute_bytes ^^ m) ((permute_bytes ^^ k) st) = (permute_bytes ^^ (k + m)) st"
  by (simp add: funpow_add add.commute [of k])

lemma requests_eq:
  assumes "curstate g = 1"
  shows "random_requests ns g =
    Some (random_outputs (g_state g) ns, g\<lparr>g_state := (permute_bytes ^^ sum_list (map blocks_taken ns)) (g_state g)\<rparr>)"
  using assms
  by (induction ns arbitrary: g) (simp_all add: generate_eq permute_add)

section \<open>Concurrent calls\<close>

text \<open>
  The accesses of several threads to \<^verbatim>\<open>curstate\<close> while they are in the function, each atomic: the
  first assertion, \<^verbatim>\<open>curstate = 2\<close>, the second assertion after the work on the state, \<^verbatim>\<open>curstate = 1\<close>.
  A failed assertion ends the program: the successor is \<open>None\<close>.
\<close>

datatype phase = Idle | Checked | Inside | Leaving

type_synonym threads = "int \<times> (nat \<Rightarrow> phase)"

inductive race_step :: "nat \<Rightarrow> threads \<Rightarrow> threads option \<Rightarrow> bool" where
  check: "p t = Idle \<Longrightarrow> race_step t (c, p) (if c = 1 then Some (c, p(t := Checked)) else None)"
| enter: "p t = Checked \<Longrightarrow> race_step t (c, p) (Some (2, p(t := Inside)))"
| verify: "p t = Inside \<Longrightarrow> race_step t (c, p) (if c = 2 then Some (c, p(t := Leaving)) else None)"
| leave: "p t = Leaving \<Longrightarrow> race_step t (c, p) (Some (1, p(t := Idle)))"

inductive_cases race_stepE: "race_step t (c, p) r"

inductive_simps race_step_simps: "race_step t (c, p) r"

text \<open>Only one thread at a time is not idle.\<close>

definition exclusive :: "threads \<Rightarrow> bool" where
  "exclusive s \<longleftrightarrow> (\<forall>t u. snd s t \<noteq> Idle \<longrightarrow> snd s u \<noteq> Idle \<longrightarrow> t = u)"

definition at_rest :: threads where
  "at_rest = (1, \<lambda>t. Idle)"

inductive race_run :: "(threads \<Rightarrow> bool) \<Rightarrow> threads \<Rightarrow> threads \<Rightarrow> bool" for P where
  stop: "P s \<Longrightarrow> race_run P s s"
| step: "race_run P r s \<Longrightarrow> race_step t s (Some s') \<Longrightarrow> P s' \<Longrightarrow> race_run P r s'"

definition curstate_ok :: "threads \<Rightarrow> bool" where
  "curstate_ok s \<longleftrightarrow> fst s = (if \<exists>t. snd s t = Inside \<or> snd s t = Leaving then 2 else 1)"

lemma exclusive_step:
  assumes "race_step t s (Some s')" "exclusive s" "exclusive s'" "curstate_ok s"
  shows "curstate_ok s'"
proof -
  obtain c p where s: "s = (c, p)"
    by (cases s)
  have alone: "p u = Idle" if "p t \<noteq> Idle" "u \<noteq> t" for u
    using that assms(2) by (auto simp: exclusive_def s)
  have fresh: "p u = Idle" if "snd s' t \<noteq> Idle" "u \<noteq> t" "snd s' u = p u" for u
    using assms(3) [unfolded exclusive_def, rule_format, of t u] that by metis
  from assms(1) [unfolded s race_step_simps] consider
      "p t = Idle" "c = 1" "s' = (1, p(t := Checked))"
    | "p t = Checked" "s' = (2, p(t := Inside))"
    | "p t = Inside" "c = 2" "s' = (2, p(t := Leaving))"
    | "p t = Leaving" "s' = (1, p(t := Idle))"
    by (auto split: if_splits)
  then show ?thesis
  proof cases
    case 1
    then show ?thesis using fresh by (force simp: curstate_ok_def)
  next
    case 4
    then show ?thesis using alone by (force simp: curstate_ok_def)
  qed (auto simp: curstate_ok_def)
qed

lemma exclusive_run: "race_run exclusive r s \<Longrightarrow> curstate_ok r \<Longrightarrow> exclusive s \<and> curstate_ok s"
proof (induction rule: race_run.induct)
  case (step r s t s')
  then show ?case using exclusive_step by blast
qed simp

text \<open>No false alarm: a thread that is alone in the function never fails.\<close>

lemma no_false_alarm:
  assumes "race_run exclusive at_rest s" "\<And>u. u \<noteq> t \<Longrightarrow> snd s u = Idle"
  shows "\<not> race_step t s None"
proof
  assume f: "race_step t s None"
  obtain c p where s: "s = (c, p)"
    by (cases s)
  have "c = (if \<exists>u. p u = Inside \<or> p u = Leaving then 2 else 1)"
    using exclusive_run [OF assms(1)] by (simp add: curstate_ok_def s at_rest_def)
  moreover have "p u = Idle" if "u \<noteq> t" for u
    using assms(2) that by (simp add: s)
  ultimately have c: "c = (if p t = Inside \<or> p t = Leaving then 2 else 1)"
    by (metis phase.distinct(3,5))
  show False
    using f c unfolding s race_step_simps by (auto split: if_splits)
qed

text \<open>A missed race: both threads pass the first assertion before either sets \<^verbatim>\<open>curstate\<close>.\<close>

definition two_threads :: "phase \<Rightarrow> phase \<Rightarrow> nat \<Rightarrow> phase" where
  "two_threads a b t = (if t = 0 then a else if t = 1 then b else Idle)"

lemma two_threads_update: "(two_threads a b)(0 := x) = two_threads x b" "(two_threads a b)(1 := x) = two_threads a x"
  by (auto simp: two_threads_def)

lemma two_threads_nth: "two_threads a b 0 = a" "two_threads a b 1 = b"
  by (simp_all add: two_threads_def)

lemma step_first:
  "race_step 0 (1, two_threads Idle b) (Some (1, two_threads Checked b))"
  "race_step 0 (c, two_threads Checked b) (Some (2, two_threads Inside b))"
  "race_step 0 (2, two_threads Inside b) (Some (2, two_threads Leaving b))"
  "race_step 0 (c, two_threads Leaving b) (Some (1, two_threads Idle b))"
  unfolding race_step_simps by (simp_all add: two_threads_nth two_threads_update)

lemma step_second:
  "race_step 1 (1, two_threads a Idle) (Some (1, two_threads a Checked))"
  "race_step 1 (c, two_threads a Checked) (Some (2, two_threads a Inside))"
  "race_step 1 (2, two_threads a Inside) (Some (2, two_threads a Leaving))"
  "race_step 1 (c, two_threads a Leaving) (Some (1, two_threads a Idle))"
  unfolding race_step_simps by (simp_all add: two_threads_nth two_threads_update del: One_nat_def)

lemma missed_race:
  "race_run (\<lambda>s. True) at_rest (2, two_threads Inside Inside)" "race_run (\<lambda>s. True) (2, two_threads Inside Inside) at_rest"
proof -
  have rest: "at_rest = (1, two_threads Idle Idle)"
    by (auto simp: at_rest_def two_threads_def)
  show "race_run (\<lambda>s. True) at_rest (2, two_threads Inside Inside)"
    unfolding rest
    by (rule race_run.step [OF race_run.step [OF race_run.step [OF race_run.step [OF race_run.stop
      step_first(1)] step_second(1)] step_first(2)] step_second(2)]; rule TrueI)
  show "race_run (\<lambda>s. True) (2, two_threads Inside Inside) at_rest"
    unfolding rest
    by (rule race_run.step [OF race_run.step [OF race_run.step [OF race_run.step [OF race_run.stop
      step_first(3)] step_second(3)] step_first(4)] step_second(4)]; rule TrueI)
qed

end
