(* ===== verification/Stream_Properties.thy ===== *)
theory Stream_Properties
  imports Chacha8 Random_Source
begin

text \<open>
  The properties of the stream cipher \<^verbatim>\<open>chacha8.c\<close> and of the random bytes of \<^verbatim>\<open>random.c\<close>.
\<close>



text \<open>
  C38: when \<^verbatim>\<open>read\<close> stores no more than it is asked for and is not interrupted forever,
  \<^verbatim>\<open>generate_system_random_bytes\<close> returns: with all the bytes, as the calls of \<^verbatim>\<open>read\<close> stored them one
  after the other, or with the error that stopped it. Without progress it does not return.
\<close>

theorem system_random_returns:
  assumes "reads_progress sys" "n < 2 ^ 64 - 1"
  shows "(\<exists>r. generate_system_random_bytes opens closes sys n = Some r \<and>
      (\<forall>bs. r = Inr bs \<longrightarrow> opens \<and> closes \<and> delivers sys 0 n bs \<and> length bs = n) \<and>
      (\<forall>e. r = Inl e \<longrightarrow> (e = OpenFailed \<longleftrightarrow> \<not> opens) \<and> (e = CloseFailed \<longrightarrow> \<not> closes))) \<and>
    (\<forall>sys'. (\<forall>i. sys' i n = Interrupted) \<longrightarrow> generate_system_random_bytes True closes sys' n = None)"
proof (intro conjI allI impI)
  have "(\<exists>e. e \<in> {EndOfFile, ReadFailed} \<and> read_loop sys 0 n [] = Some (Inl e)) \<or>
      (\<exists>bs. delivers sys 0 n bs \<and> length bs = n \<and> read_loop sys 0 n [] = Some (Inr bs))"
    using read_loop_returns [OF assms, of 0 "[]"] delivers_length by fastforce
  then show "\<exists>r. generate_system_random_bytes opens closes sys n = Some r \<and>
      (\<forall>bs. r = Inr bs \<longrightarrow> opens \<and> closes \<and> delivers sys 0 n bs \<and> length bs = n) \<and>
      (\<forall>e. r = Inl e \<longrightarrow> (e = OpenFailed \<longleftrightarrow> \<not> opens) \<and> (e = CloseFailed \<longrightarrow> \<not> closes))"
    by (auto simp: generate_system_random_bytes_def)
  show "generate_system_random_bytes True closes sys' n = None" if "\<forall>i. sys' i n = Interrupted" for sys'
    using read_loop_stuck [of sys' n 0 "[]"] that assms(2) by (simp add: generate_system_random_bytes_def)
qed

definition sample_reads :: reads where
  "sample_reads i n = (if even i then Interrupted else Stored (replicate (min n 20) 7))"

lemma sample_progress: "reads_progress sample_reads"
proof -
  have "\<exists>j\<ge>i. odd j" for i :: nat
    by (rule exI [of _ "Suc (2 * i)"]) simp
  then show ?thesis
    by (auto simp: reads_progress_def sample_reads_def split: if_splits)
qed

theorem system_random_returns_witness:
  "generate_system_random_bytes True True sample_reads 32 = Some (Inr (replicate 32 7)) \<and>
   (\<exists>r. generate_system_random_bytes True True sample_reads 32 = Some r)"
proof
  show "\<exists>r. generate_system_random_bytes True True sample_reads 32 = Some r"
    using system_random_returns [OF sample_progress, of 32 True True] by simp blast
  show "generate_system_random_bytes True True sample_reads 32 = Some (Inr (replicate 32 7))"
    by (simp add: generate_system_random_bytes_def read_loop.simps sample_reads_def flip: replicate_add)
qed

text \<open>
  C39: after \<^verbatim>\<open>init_random\<close> any sequence of requests passes the assertions. The requests get, in this
  order, bytes of one stream: the first 136 bytes of each state that the Keccak permutation makes from
  the seed in the zeroed state; a request takes whole blocks of it. Then \<^verbatim>\<open>deinit_random\<close> succeeds and
  erases the state.
\<close>

theorem random_generator_correct:
  assumes "length seed = 32"
  shows "\<exists>g g'. init_random seed \<lparr>g_state = replicate 200 0, curstate = 0\<rparr> = Some g \<and>
    random_requests ns g = Some (random_outputs (seed @ replicate 168 0) ns, g') \<and>
    map length (random_outputs (seed @ replicate 168 0) ns) = ns \<and>
    g_state g' = (permute_bytes ^^ sum_list (map blocks_taken ns)) (seed @ replicate 168 0) \<and>
    deinit_random g' = Some \<lparr>g_state = replicate 200 0, curstate = 0\<rparr>"
proof -
  have g: "init_random seed \<lparr>g_state = replicate 200 0, curstate = 0\<rparr> = Some \<lparr>g_state = seed @ replicate 168 0, curstate = 1\<rparr>"
    using assms by (simp add: init_random_def put_def)
  have l: "map length (random_outputs st ns) = ns" for st
    by (rule lengths_outputs)
  show ?thesis
    unfolding g using requests_eq [of "\<lparr>g_state = seed @ replicate 168 0, curstate = 1\<rparr>" ns] l
    by (simp add: deinit_random_def)
qed

theorem random_generator_correct_witness:
  "\<exists>g g'. init_random (replicate 32 7) \<lparr>g_state = replicate 200 0, curstate = 0\<rparr> = Some g \<and>
    random_requests [32, 0, 300] g = Some (random_outputs (replicate 32 7 @ replicate 168 0) [32, 0, 300], g') \<and>
    g_state g' = (permute_bytes ^^ 4) (replicate 32 7 @ replicate 168 0)"
  using random_generator_correct [of "replicate 32 7" "[32, 0, 300]"] by (auto simp: blocks_taken_def)

end
