(* ===== verification/Jh_Reference.thy ===== *)
theory Jh_Reference
  imports Jh
begin

text \<open>
  JH as its submission describes it: the permutation E8 of 1024 bits, as 42 rounds on 256 elements of
  four bits, the compression function, the padding of a message of whole bytes, and the hash. None
  of it is taken from the code, which computes with 128 columns of bits in 16 words; the round constants
  and the first values are generated here, where the code has tables.
\<close>

section \<open>Strings of bits\<close>

definition byte_bits :: "byte \<Rightarrow> bool list" where
  "byte_bits b = map (bit b) [7, 6, 5, 4, 3, 2, 1, 0]"

definition jh_bits :: "byte list \<Rightarrow> bool list" where
  "jh_bits H = concat (map byte_bits H)"

definition bits_byte :: "bool list \<Rightarrow> byte" where
  "bits_byte xs = foldl (\<lambda>v x. 2 * v + of_bool x) 0 xs"

fun jh_bytes :: "bool list \<Rightarrow> byte list" where
  "jh_bytes (a # b # c # d # e # f # g # h # xs) = bits_byte [a, b, c, d, e, f, g, h] # jh_bytes xs"
| "jh_bytes xs = []"

section \<open>The round\<close>

definition jh_sbox :: "nat list list" where
  "jh_sbox = [[9, 0, 4, 11, 13, 12, 3, 15, 1, 10, 2, 6, 7, 5, 8, 14], [3, 12, 6, 13, 5, 7, 1, 9, 15, 2, 0, 4, 11, 10, 14, 8]]"

definition jh_sub :: "bool \<Rightarrow> nat \<Rightarrow> nat" where
  "jh_sub c a = jh_sbox ! of_bool c ! a"

text \<open>Twice an element of the field with 16 elements, and the code with maximal distance.\<close>

definition jh_times2 :: "nat \<Rightarrow> nat" where
  "jh_times2 v = (if v < 8 then 2 * v else (2 * v) XOR 19)"

definition jh_L :: "nat \<Rightarrow> nat \<Rightarrow> nat \<times> nat" where
  "jh_L a b = (let d = b XOR jh_times2 a; c = a XOR jh_times2 d in (c, d))"

fun jh_lin :: "nat list \<Rightarrow> nat list" where
  "jh_lin (a # b # A) = (let (c, d) = jh_L a b in c # d # jh_lin A)"
| "jh_lin A = A"

text \<open>
  The permutation of the elements: every second pair is swapped, the elements with an even number
  come before those with an odd one, and the pairs of the second half are swapped.
\<close>

fun jh_pi :: "'a list \<Rightarrow> 'a list" where
  "jh_pi (a # b # c # d # A) = a # b # d # c # jh_pi A"
| "jh_pi A = A"

fun evens :: "'a list \<Rightarrow> 'a list" and odds :: "'a list \<Rightarrow> 'a list" where
  "evens [] = []"
| "evens (a # A) = a # odds A"
| "odds [] = []"
| "odds (a # A) = evens A"

fun swap_pairs :: "'a list \<Rightarrow> 'a list" where
  "swap_pairs (a # b # A) = b # a # swap_pairs A"
| "swap_pairs A = A"

definition jh_phi :: "'a list \<Rightarrow> 'a list" where
  "jh_phi A = take (length A div 2) A @ swap_pairs (drop (length A div 2) A)"

definition unshuffle :: "'a list \<Rightarrow> 'a list" where
  "unshuffle A = evens A @ odds A"

definition jh_P :: "'a list \<Rightarrow> 'a list" where
  "jh_P A = jh_phi (unshuffle (jh_pi A))"

definition jh_R :: "bool list \<Rightarrow> nat list \<Rightarrow> nat list" where
  "jh_R C A = jh_P (jh_lin (map2 jh_sub C A))"

text \<open>The constants: the fractional part of the square root of two, and its images under rounds on 64 elements.\<close>

definition jh_sqrt2 :: "nat list" where
  "jh_sqrt2 =
    [6, 10, 0, 9, 14, 6, 6, 7, 15, 3, 11, 12, 12, 9, 0, 8, 11, 2, 15, 11, 1, 3, 6, 6, 14, 10, 9, 5, 7, 13, 3, 14,
     3, 10, 13, 14, 12, 1, 7, 5, 1, 2, 7, 7, 5, 0, 9, 9, 13, 10, 2, 15, 5, 9, 0, 11, 0, 6, 6, 7, 3, 2, 2, 10]"

primrec jh_constant :: "nat \<Rightarrow> nat list" where
  "jh_constant 0 = jh_sqrt2"
| "jh_constant (Suc r) = jh_R (replicate 64 False) (jh_constant r)"

definition nib_bits :: "nat \<Rightarrow> bool list" where
  "nib_bits a = [odd (a div 8), odd (a div 4), odd (a div 2), odd a]"

definition jh_round_bits :: "nat \<Rightarrow> bool list" where
  "jh_round_bits r = concat (map nib_bits (jh_constant r))"

section \<open>E8\<close>

definition nib4 :: "bool \<Rightarrow> bool \<Rightarrow> bool \<Rightarrow> bool \<Rightarrow> nat" where
  "nib4 a b c d = 8 * of_bool a + 4 * of_bool b + 2 * of_bool c + of_bool d"

definition quads :: "bool list \<Rightarrow> bool list \<Rightarrow> bool list \<Rightarrow> bool list \<Rightarrow> nat list" where
  "quads as bs cs ds = map2 (\<lambda>(a, b) (c, d). nib4 a b c d) (zip as bs) (zip cs ds)"

fun interleave :: "'a list \<Rightarrow> 'a list \<Rightarrow> 'a list" where
  "interleave (a # A) (b # B) = a # b # interleave A B"
| "interleave A B = []"

text \<open>Element \<open>2 * i\<close> has the bits \<open>i\<close>, \<open>i + 256\<close>, \<open>i + 512\<close> and \<open>i + 768\<close>; element \<open>2 * i + 1\<close> those 128 later.\<close>

definition jh_group :: "byte list \<Rightarrow> nat list" where
  "jh_group H =
    (let B = jh_bits H;
         q = quads (take 256 B) (take 256 (drop 256 B)) (take 256 (drop 512 B)) (drop 768 B)
     in interleave (take 128 q) (drop 128 q))"

definition jh_degroup :: "nat list \<Rightarrow> byte list" where
  "jh_degroup A =
    (let q = unshuffle A
     in jh_bytes (map (\<lambda>a. odd (a div 8)) q @ map (\<lambda>a. odd (a div 4)) q @ map (\<lambda>a. odd (a div 2)) q @ map odd q))"

definition jh_E8 :: "byte list \<Rightarrow> byte list" where
  "jh_E8 H = jh_degroup (fold (\<lambda>r A. jh_R (jh_round_bits r) A) [0..<42] (jh_group H))"

section \<open>The hash\<close>

text \<open>A block of 64 bytes is added to the first half before E8 and to the second half after it.\<close>

definition jh_F8 :: "byte list \<Rightarrow> byte list \<Rightarrow> byte list" where
  "jh_F8 H M = map2 (XOR) (jh_E8 (map2 (XOR) H (M @ replicate 64 0))) (replicate 64 0 @ M)"

text \<open>The message, the bit 1, at least 383 bits 0, and the length in bits as a number of 128 bits.\<close>

definition jh_be :: "nat \<Rightarrow> nat \<Rightarrow> byte list" where
  "jh_be n v = map (\<lambda>i. of_nat (v div 256 ^ (n - 1 - i))) [0..<n]"

definition jh_pad :: "byte list \<Rightarrow> byte list" where
  "jh_pad m = m @ [0x80] @ replicate (47 + (64 - length m mod 64) mod 64) 0 @ jh_be 16 (8 * length m)"

fun jh_chain :: "byte list \<Rightarrow> byte list \<Rightarrow> byte list" where
  "jh_chain H m = (if m = [] then H else jh_chain (jh_F8 H (take 64 m)) (drop 64 m))"

declare jh_chain.simps [simp del]

text \<open>The first value is the image of the length of the digest, in two bytes.\<close>

definition jh_IV :: "nat \<Rightarrow> byte list" where
  "jh_IV d = jh_F8 (jh_be 2 d @ replicate 126 0) (replicate 64 0)"

definition jh_reference :: "nat \<Rightarrow> byte list \<Rightarrow> byte list" where
  "jh_reference d m = drop (128 - d div 8) (jh_chain (jh_IV d) (jh_pad m))"

end
