(* ===== verification/Jh_Layers.thy ===== *)
theory Jh_Layers
  imports Jh_Reference
begin

text \<open>
  The substitution and the linear layer on the four bits at one position of the rows, which are those of
  the reference; and the permutation of the elements, as operations on the two lists of elements with
  an even and an odd number.
\<close>

section \<open>The layers on bits\<close>

definition ss_bits :: "bool \<Rightarrow> bool \<times> bool \<times> bool \<times> bool \<Rightarrow> bool \<times> bool \<times> bool \<times> bool" where
  "ss_bits c m =
    (case m of (m0, m1, m2, m3) \<Rightarrow>
       let m3 = (\<not> m3); m0 = (m0 \<noteq> (\<not> m2 \<and> c)); t = (c \<noteq> (m0 \<and> m1)); m0 = (m0 \<noteq> (m2 \<and> m3));
           m3 = (m3 \<noteq> (\<not> m1 \<and> m2)); m1 = (m1 \<noteq> (m0 \<and> m2)); m2 = (m2 \<noteq> (m0 \<and> \<not> m3));
           m0 = (m0 \<noteq> (m1 \<or> m3)); m3 = (m3 \<noteq> (m1 \<and> m2)); m1 = (m1 \<noteq> (t \<and> m0)); m2 = (m2 \<noteq> t)
       in (m0, m1, m2, m3))"

definition nibble :: "bool \<times> bool \<times> bool \<times> bool \<Rightarrow> nat" where
  "nibble m = (case m of (a, b, c, d) \<Rightarrow> nib4 a b c d)"

lemma ss_sbox: "nibble (ss_bits c (m0, m1, m2, m3)) = jh_sub c (nibble (m0, m1, m2, m3))"
  by (cases c; cases m0; cases m1; cases m2; cases m3; simp add: ss_bits_def nibble_def nib4_def jh_sub_def jh_sbox_def)

definition mds_bits :: "(bool \<times> bool \<times> bool \<times> bool) \<Rightarrow> (bool \<times> bool \<times> bool \<times> bool) \<Rightarrow>
    (bool \<times> bool \<times> bool \<times> bool) \<times> (bool \<times> bool \<times> bool \<times> bool)" where
  "mds_bits a b =
    (case a of (m0, m1, m2, m3) \<Rightarrow> case b of (m4, m5, m6, m7) \<Rightarrow>
       let m4 = (m4 \<noteq> m1); m5 = (m5 \<noteq> m2); m6 = (m6 \<noteq> (m0 \<noteq> m3)); m7 = (m7 \<noteq> m0);
           m0 = (m0 \<noteq> m5); m1 = (m1 \<noteq> m6); m2 = (m2 \<noteq> (m4 \<noteq> m7)); m3 = (m3 \<noteq> m4)
       in ((m0, m1, m2, m3), (m4, m5, m6, m7)))"

lemma mds_L: "map_prod nibble nibble (mds_bits (m0, m1, m2, m3) (m4, m5, m6, m7)) = jh_L (nibble (m0, m1, m2, m3)) (nibble (m4, m5, m6, m7))"
  by (cases m0; cases m1; cases m2; cases m3; cases m4; cases m5; cases m6; cases m7;
    simp add: mds_bits_def nibble_def nib4_def jh_L_def jh_times2_def numeral_2_eq_2 [symmetric])

text \<open>The four bits at position \<open>n\<close> of the even and of the odd rows of a column.\<close>

definition even_bits :: "jh_column \<Rightarrow> nat \<Rightarrow> bool \<times> bool \<times> bool \<times> bool" where
  "even_bits m n = (case m of ((m0, m1, m2, m3), _) \<Rightarrow> (bit m0 n, bit m1 n, bit m2 n, bit m3 n))"

definition odd_bits :: "jh_column \<Rightarrow> nat \<Rightarrow> bool \<times> bool \<times> bool \<times> bool" where
  "odd_bits m n = (case m of (_, m4, m5, m6, m7) \<Rightarrow> (bit m4 n, bit m5 n, bit m6 n, bit m7 n))"

lemma SS_bits:
  assumes "n < 64"
  shows "even_bits (SS cc0 cc1 m) n = ss_bits (bit cc0 n) (even_bits m n)"
    "odd_bits (SS cc0 cc1 m) n = ss_bits (bit cc1 n) (odd_bits m n)"
proof -
  obtain m0 m1 m2 m3 m4 m5 m6 m7 where m: "m = ((m0, m1, m2, m3), m4, m5, m6, m7)"
    by (metis surj_pair)
  show "even_bits (SS cc0 cc1 m) n = ss_bits (bit cc0 n) (even_bits m n)"
    "odd_bits (SS cc0 cc1 m) n = ss_bits (bit cc1 n) (odd_bits m n)"
    using assms
    by (simp_all only: m SS_def ss_bits_def even_bits_def odd_bits_def Let_def prod.case bit_and_iff bit_or_iff bit_xor_iff bit_not_iff)
      (simp_all add: possible_bit_def)
qed

lemma MDS_bits: "(even_bits (MDS m) n, odd_bits (MDS m) n) = mds_bits (even_bits m n) (odd_bits m n)"
proof -
  obtain m0 m1 m2 m3 m4 m5 m6 m7 where m: "m = ((m0, m1, m2, m3), m4, m5, m6, m7)"
    by (metis surj_pair)
  show ?thesis
    by (simp only: m MDS_def mds_bits_def even_bits_def odd_bits_def Let_def prod.case bit_xor_iff)
qed

lemma SS_MDS_nibbles:
  assumes "n < 64"
  shows "(nibble (even_bits (MDS (SS cc0 cc1 m)) n), nibble (odd_bits (MDS (SS cc0 cc1 m)) n)) =
    jh_L (jh_sub (bit cc0 n) (nibble (even_bits m n))) (jh_sub (bit cc1 n) (nibble (odd_bits m n)))"
proof -
  let ?y = "SS cc0 cc1 m"
  obtain e0 e1 e2 e3 where e: "even_bits ?y n = (e0, e1, e2, e3)"
    by (metis surj_pair)
  obtain d0 d1 d2 d3 where d: "odd_bits ?y n = (d0, d1, d2, d3)"
    by (metis surj_pair)
  have "(nibble (even_bits (MDS ?y) n), nibble (odd_bits (MDS ?y) n)) = map_prod nibble nibble (mds_bits (even_bits ?y n) (odd_bits ?y n))"
    using MDS_bits [of ?y n] by (metis map_prod_simp)
  also have "\<dots> = jh_L (nibble (even_bits ?y n)) (nibble (odd_bits ?y n))"
    unfolding e d by (rule mds_L)
  also have "nibble (even_bits ?y n) = jh_sub (bit cc0 n) (nibble (even_bits m n))"
    unfolding SS_bits(1) [OF assms] by (cases "even_bits m n") (simp only: ss_sbox)
  also have "nibble (odd_bits ?y n) = jh_sub (bit cc1 n) (nibble (odd_bits m n))"
    unfolding SS_bits(2) [OF assms] by (cases "odd_bits m n") (simp only: ss_sbox)
  finally show ?thesis .
qed

end
