(* ===== verification/Jh_Permutation.thy ===== *)
theory Jh_Permutation
  imports Jh_Reference
begin

text \<open>
  The permutation of the elements in a round, as an operation on the two lists of those with an even
  and those with an odd number: each is shuffled back, and the second one has its neighbouring blocks
  swapped. The shuffle has order seven on 128 elements, which is why the code can leave it out and
  swap blocks of 1, 2, 4 up to 64 bits in turn.
\<close>

section \<open>Even and odd elements\<close>

lemma evens_odds_pair: "evens (a # b # A) = a # evens A" "odds (a # b # A) = b # odds A"
  by simp_all

lemma evens_odds_append:
  "evens (A @ B) = (if even (length A) then evens A @ evens B else evens A @ odds B)"
  "odds (A @ B) = (if even (length A) then odds A @ odds B else odds A @ evens B)"
  by (induction A) auto

lemma length_evens_odds: "length (evens A) = (length A + 1) div 2" "length (odds A) = length A div 2"
  by (induction A) auto

lemma length_unshuffle [simp]: "length (unshuffle A) = length A"
  by (simp add: unshuffle_def length_evens_odds)

lemma evens_odds_map: "evens (map f A) = map f (evens A)" "odds (map f A) = map f (odds A)"
  by (induction A) auto

lemma unshuffle_map: "unshuffle (map f A) = map f (unshuffle A)"
  by (simp add: unshuffle_def evens_odds_map)

lemma evens_odds_map2:
  assumes "length A = length B"
  shows "evens (map2 f A B) = map2 f (evens A) (evens B) \<and> odds (map2 f A B) = map2 f (odds A) (odds B)"
  using assms by (induction A B rule: list_induct2) auto

lemma unshuffle_map2: "length A = length B \<Longrightarrow> unshuffle (map2 f A B) = map2 f (unshuffle A) (unshuffle B)"
  by (simp add: unshuffle_def evens_odds_map2 length_evens_odds)

lemma length_unshuffles [simp]: "length ((unshuffle ^^ k) A) = length A"
  by (induction k) auto

lemma unshuffles_map: "(unshuffle ^^ k) (map f A) = map f ((unshuffle ^^ k) A)"
  by (induction k) (auto simp: unshuffle_map)

lemma unshuffles_map2: "length A = length B \<Longrightarrow> (unshuffle ^^ k) (map2 f A B) = map2 f ((unshuffle ^^ k) A) ((unshuffle ^^ k) B)"
  by (induction k) (auto simp: unshuffle_map2)

section \<open>Interleaving\<close>

lemma length_interleave [simp]: "length A = length B \<Longrightarrow> length (interleave A B) = 2 * length A"
  by (induction A B rule: list_induct2) auto

lemma unshuffle_interleave: "length A = length B \<Longrightarrow> unshuffle (interleave A B) = A @ B"
proof -
  assume "length A = length B"
  then have "evens (interleave A B) = A \<and> odds (interleave A B) = B"
    by (induction A B rule: list_induct2) auto
  then show ?thesis
    by (simp add: unshuffle_def)
qed

lemma interleave_map2:
  "length A = length B \<Longrightarrow> length B = length C \<Longrightarrow> length C = length D \<Longrightarrow>
    map2 f (interleave A B) (interleave C D) = interleave (map2 f A C) (map2 f B D)"
  by (induction A B C D rule: list_induct4) auto

lemma jh_lin_interleave:
  "length A = length B \<Longrightarrow>
    jh_lin (interleave A B) = interleave (map2 (\<lambda>a b. fst (jh_L a b)) A B) (map2 (\<lambda>a b. snd (jh_L a b)) A B)"
  by (induction A B rule: list_induct2) (auto simp: case_prod_unfold Let_def)

section \<open>Blocks\<close>

function swap_blocks :: "nat \<Rightarrow> 'a list \<Rightarrow> 'a list" where
  "swap_blocks n A = (if n = 0 \<or> A = [] then [] else take n (drop n A) @ take n A @ swap_blocks n (drop (2 * n) A))"
  by pat_completeness auto

termination
  by (relation "measure (\<lambda>(n, A). length A)") auto

declare swap_blocks.simps [simp del]

lemma swap_blocks_Nil [simp]: "swap_blocks n [] = []"
  by (simp add: swap_blocks.simps)

lemma swap_blocks_two: "0 < n \<Longrightarrow> length A = n \<Longrightarrow> length B = n \<Longrightarrow> swap_blocks n (A @ B @ C) = B @ A @ swap_blocks n C"
  by (subst swap_blocks.simps) auto

text \<open>A list of \<open>m\<close> pairs of blocks.\<close>

fun paired :: "nat \<Rightarrow> nat \<Rightarrow> 'a list \<Rightarrow> bool" where
  "paired n m A \<longleftrightarrow> 0 < n \<and> length A = m * (2 * n)"

declare paired.simps [simp del]

lemma paired_induct [consumes 1, case_names Nil Step]:
  assumes "paired n m A"
    and "P 0 []"
    and "\<And>m X Y A. 0 < n \<Longrightarrow> length X = n \<Longrightarrow> length Y = n \<Longrightarrow> paired n m A \<Longrightarrow> P m A \<Longrightarrow> P (Suc m) (X @ Y @ A)"
  shows "P m A"
  using assms(1)
proof (induction m arbitrary: A)
  case 0
  then show ?case using assms(2) by (simp add: paired.simps)
next
  case (Suc m)
  have n: "0 < n" and l: "length A = n + n + m * (2 * n)"
    using Suc.prems by (simp_all add: paired.simps)
  have "paired n m (drop n (drop n A))"
    using n l by (simp add: paired.simps)
  from assms(3) [OF n _ _ this Suc.IH [OF this], of "take n A" "take n (drop n A)"]
  have "P (Suc m) (take n A @ take n (drop n A) @ drop n (drop n A))"
    using l by simp
  then show ?case
    by (simp only: append_take_drop_id)
qed

lemma length_swap_blocks: "paired n m A \<Longrightarrow> length (swap_blocks n A) = length A"
  by (induction rule: paired_induct) (simp_all add: swap_blocks_two)

lemma swap_blocks_append: "paired n m A \<Longrightarrow> swap_blocks n (A @ B) = swap_blocks n A @ swap_blocks n B"
  by (induction rule: paired_induct) (simp_all add: swap_blocks_two)

lemma swap_blocks_map: "paired n m A \<Longrightarrow> swap_blocks n (map f A) = map f (swap_blocks n A)"
  by (induction rule: paired_induct) (simp_all add: swap_blocks_two)

lemma swap_blocks_zip:
  assumes "paired n m A" "paired n m B"
  shows "swap_blocks n (zip A B) = zip (swap_blocks n A) (swap_blocks n B)"
proof -
  have l: "length A = length B"
    using assms by (simp add: paired.simps)
  have p: "paired n m (zip A B)"
    using assms by (simp add: paired.simps)
  have "map fst (swap_blocks n (zip A B)) = swap_blocks n A" "map snd (swap_blocks n (zip A B)) = swap_blocks n B"
    unfolding swap_blocks_map [OF p, symmetric] using l by simp_all
  then show ?thesis
    by (metis zip_map_fst_snd)
qed

lemma swap_blocks_map2: "paired n m A \<Longrightarrow> paired n m B \<Longrightarrow> swap_blocks n (map2 f A B) = map2 f (swap_blocks n A) (swap_blocks n B)"
  by (subst swap_blocks_map [of n m]) (auto simp: paired.simps swap_blocks_zip)

text \<open>Blocks of twice the size, in the even and in the odd elements.\<close>

lemma evens_odds_swap_blocks:
  assumes "paired (2 * n) m A" "0 < n"
  shows "evens (swap_blocks (2 * n) A) = swap_blocks n (evens A) \<and> odds (swap_blocks (2 * n) A) = swap_blocks n (odds A)"
  using assms(1)
proof (induction rule: paired_induct)
  case Nil
  then show ?case by simp
next
  case (Step m X Y A)
  have "length (evens X) = n" "length (evens Y) = n" "length (odds X) = n" "length (odds Y) = n"
    using Step by (simp_all add: length_evens_odds)
  then show ?case
    using Step assms(2) by (simp add: swap_blocks_two evens_odds_append)
qed

lemma paired_evens_odds: "paired (2 * n) m A \<Longrightarrow> paired n m (evens A) \<and> paired n m (odds A)"
  by (auto simp: paired.simps length_evens_odds)

lemma unshuffle_swap_blocks:
  assumes "paired (2 * n) m A" "0 < n"
  shows "unshuffle (swap_blocks (2 * n) A) = swap_blocks n (unshuffle A)"
  using evens_odds_swap_blocks [OF assms] paired_evens_odds [OF assms(1)]
  by (simp add: unshuffle_def swap_blocks_append [of n m])

lemma unshuffles_swap_blocks:
  "paired (2 ^ k) m A \<Longrightarrow> (unshuffle ^^ k) (swap_blocks (2 ^ k) A) = swap_blocks 1 ((unshuffle ^^ k) A)"
proof (induction k arbitrary: A m)
  case 0
  then show ?case by simp
next
  case (Suc k)
  have p: "paired (2 * 2 ^ k) m A"
    using Suc.prems by simp
  have "paired (2 ^ k) (2 * m) (unshuffle A)"
    using p by (simp add: paired.simps)
  from Suc.IH [OF this]
  show ?case
    using unshuffle_swap_blocks [OF p] by (simp add: funpow_Suc_right del: funpow.simps)
qed

lemma swap_one: "swap_blocks 1 (a # b # A) = b # a # swap_blocks 1 A"
  by (subst swap_blocks.simps) simp

lemma unshuffle_swap_one: "even (length A) \<Longrightarrow> unshuffle (swap_blocks 1 A) = odds A @ evens A"
proof -
  assume "even (length A)"
  then have "evens (swap_blocks 1 A) = odds A \<and> odds (swap_blocks 1 A) = evens A"
    by (induction A rule: induct_list012) (auto simp: swap_one [simplified])
  then show ?thesis
    by (simp add: unshuffle_def)
qed

section \<open>The permutation\<close>

lemma interleave_append: "length A = length B \<Longrightarrow> interleave A B @ interleave C D = interleave (A @ C) (B @ D)"
  by (induction A B rule: list_induct2) auto

lemma swap_pairs_interleave: "length A = length B \<Longrightarrow> swap_pairs (interleave A B) = interleave B A"
  by (induction A B rule: list_induct2) auto

lemma jh_pi_interleave:
  assumes "length A = length B" "even (length A)"
  shows "evens (jh_pi (interleave A B)) = interleave (evens A) (odds B) \<and>
    odds (jh_pi (interleave A B)) = interleave (evens B) (odds A)"
  using assms
proof (induction A arbitrary: B rule: induct_list012)
  case (3 a b A)
  obtain c d B' where "B = c # d # B'"
    using 3 by (metis length_Cons length_Suc_conv)
  then show ?case
    using 3 by simp
qed auto

lemma jh_P_interleave:
  assumes "length A = length B" "even (length A)"
  shows "jh_P (interleave A B) = interleave (unshuffle A) (unshuffle (swap_blocks 1 B))"
proof -
  have l: "length (evens A) = length (odds B)" "length (evens B) = length (odds A)" "length (evens A) = length (evens B)"
    using assms by (auto simp: length_evens_odds)
  have "jh_P (interleave A B) = jh_phi (interleave (evens A) (odds B) @ interleave (evens B) (odds A))"
    unfolding jh_P_def unshuffle_def using jh_pi_interleave [OF assms] by simp
  also have "\<dots> = interleave (evens A) (odds B) @ swap_pairs (interleave (evens B) (odds A))"
    using l by (simp add: jh_phi_def)
  also have "\<dots> = interleave (evens A @ odds A) (odds B @ evens B)"
    using l by (simp add: swap_pairs_interleave interleave_append)
  finally show ?thesis
    using assms unshuffle_swap_one [of B] by (simp add: unshuffle_def)
qed

lemma jh_P_unshuffles:
  assumes "length A = length B" "paired (2 ^ k) m B"
  shows "jh_P (interleave ((unshuffle ^^ k) A) ((unshuffle ^^ k) B)) =
    interleave ((unshuffle ^^ Suc k) A) ((unshuffle ^^ Suc k) (swap_blocks (2 ^ k) B))"
proof -
  have "even (length A)"
    using assms by (simp add: paired.simps)
  then show ?thesis
    using assms unshuffles_swap_blocks [OF assms(2)] by (simp add: jh_P_interleave)
qed

text \<open>The shuffle of 128 elements has order seven.\<close>

lemma unshuffle_seven:
  assumes "length A = 128"
  shows "(unshuffle ^^ 7) A = A"
proof -
  have "unshuffle (unshuffle (unshuffle (unshuffle (unshuffle (unshuffle (unshuffle [0..127 :: int])))))) = [0..127]"
    by code_simp
  then have e: "(unshuffle ^^ 7) [0..127 :: int] = [0..127]"
    by (simp add: eval_nat_numeral)
  have "map (\<lambda>i. A ! nat i) [0..127] = A"
    using assms by (intro nth_equalityI) auto
  then show ?thesis
    using unshuffles_map [of 7 "\<lambda>i. A ! nat i" "[0..127]"] unfolding e by simp
qed

end
