(* ===== verification/Jh_Columns.thy ===== *)
theory Jh_Columns
  imports Jh_Layers Jh_Permutation
begin

text \<open>
  The bit-sliced state as lists of elements: the 64 bits of a word are in the order of its bytes, each
  from the most significant bit, and the elements with an even (odd) number are in the even (odd) rows.
  A layer of the code on the words is then a layer of the reference on these lists, with a swap of blocks
  of the odd elements.
\<close>

section \<open>Bits of words\<close>

definition columns :: "nat list" where
  "columns = [7, 6, 5, 4, 3, 2, 1, 0, 15, 14, 13, 12, 11, 10, 9, 8, 23, 22, 21, 20, 19, 18, 17, 16, 31, 30, 29, 28, 27, 26, 25, 24,
     39, 38, 37, 36, 35, 34, 33, 32, 47, 46, 45, 44, 43, 42, 41, 40, 55, 54, 53, 52, 51, 50, 49, 48, 63, 62, 61, 60, 59, 58, 57, 56]"

lemma length_columns [simp]: "length columns = 64"
  by (simp add: columns_def)

lemma columns_less: "n \<in> set columns \<Longrightarrow> n < 64"
proof -
  have "list_all (\<lambda>n. n < 64) columns"
    by (simp add: columns_def)
  then show "n \<in> set columns \<Longrightarrow> n < 64"
    by (simp add: list_all_iff)
qed

definition cols :: "u64 \<Rightarrow> bool list" where
  "cols w = map (bit w) columns"

lemma length_cols [simp]: "length (cols w) = 64"
  by (simp add: cols_def)

lemma jh_bits_store64: "jh_bits (store64 w) = cols w"
  by (simp add: jh_bits_def store64_def byte_bits_def cols_def columns_def bit_ucast_iff bit_drop_bit_eq)

lemma jh_bits_append: "jh_bits (A @ B) = jh_bits A @ jh_bits B"
  by (simp add: jh_bits_def)

lemma jh_bits_state_bytes: "jh_bits (state_bytes x) = concat (map cols x)"
  by (induction x) (simp_all add: state_bytes_def jh_bits_append jh_bits_store64 del: upt.simps, simp add: jh_bits_def)

lemma jh_bits_load64: "k + 8 \<le> length s \<Longrightarrow> cols (load64 s k) = jh_bits (take 8 (drop k s))"
  by (simp add: jh_bits_store64 [symmetric] store64_load64)

lemma bits_byte_bits: "bits_byte (byte_bits b) = b"
proof -
  have h: "bits_byte xs = horner_sum of_bool 2 (rev xs)" for xs
    by (induction xs rule: rev_induct) (simp_all add: bits_byte_def)
  have "rev (byte_bits b) = map (bit b) [0..<8]"
    by (simp add: byte_bits_def upt_rec_numeral numeral_eq_Suc)
  then show ?thesis
    by (simp only: h horner_sum_bit_eq_take_bit) (simp add: take_bit_word_eq_self)
qed

lemma jh_bytes_bits: "jh_bytes (jh_bits H) = H"
proof (induction H)
  case Nil
  then show ?case by (simp add: jh_bits_def)
next
  case (Cons b H)
  have "jh_bits (b # H) = byte_bits b @ jh_bits H"
    by (simp add: jh_bits_def)
  then show ?case
    using Cons bits_byte_bits [of b] by (simp add: byte_bits_def)
qed

section \<open>The swaps\<close>

lemma bit_SWAP:
  assumes "n < 64"
  shows "bit (SWAP k lo hi x) n \<longleftrightarrow> (k \<le> n \<and> bit lo (n - k) \<and> bit x (n - k)) \<or> (bit hi (n + k) \<and> bit x (n + k))"
  using assms by (auto simp: SWAP_def bit_or_iff bit_push_bit_iff bit_drop_bit_eq bit_and_iff possible_bit_def add.commute)

lemma bit_numerals:
  fixes w :: u64
  shows "bit w (Suc (Suc 0)) = bit w 2" "bit w (Suc (Suc (Suc 0))) = bit w 3" "64 \<le> n \<Longrightarrow> \<not> bit w n"
  by (simp_all add: numeral_2_eq_2 numeral_3_eq_3) (auto dest: bit_imp_le_length)

lemmas swap_unroll = cols_def columns_def bit_SWAP swap_blocks.simps bit_numerals

lemma cols_SWAP1: "cols (SWAP1 w) = swap_blocks 1 (cols w)"
  by (simp add: SWAP1_def swap_unroll)

lemma cols_SWAP2: "cols (SWAP2 w) = swap_blocks 2 (cols w)"
  by (simp add: SWAP2_def swap_unroll)

lemma cols_SWAP4: "cols (SWAP4 w) = swap_blocks 4 (cols w)"
  by (simp add: SWAP4_def swap_unroll)

lemma cols_SWAP8: "cols (SWAP8 w) = swap_blocks 8 (cols w)"
  by (simp add: SWAP8_def swap_unroll)

lemma cols_SWAP16: "cols (SWAP16 w) = swap_blocks 16 (cols w)"
  by (simp add: SWAP16_def swap_unroll)

lemma cols_SWAP32: "cols (SWAP32 w) = swap_blocks 32 (cols w)"
  by (simp add: SWAP32_def cols_def columns_def swap_blocks.simps bit_numerals bit_or_iff bit_push_bit_iff bit_drop_bit_eq)

section \<open>Elements\<close>

type_synonym jh_words = "u64 \<times> u64 \<times> u64 \<times> u64"

definition nibs :: "jh_words \<Rightarrow> nat list" where
  "nibs m = (case m of (m0, m1, m2, m3) \<Rightarrow> quads (cols m0) (cols m1) (cols m2) (cols m3))"

lemma length_nibs [simp]: "length (nibs m) = 64"
  by (cases m) (simp add: nibs_def quads_def)

lemma nth_nibs: "i < 64 \<Longrightarrow> nibs (m0, m1, m2, m3) ! i = nibble (bit m0 (columns ! i), bit m1 (columns ! i), bit m2 (columns ! i), bit m3 (columns ! i))"
  by (simp add: nibs_def quads_def cols_def nibble_def)

lemma nibs_even: "i < 64 \<Longrightarrow> nibs (fst m) ! i = nibble (even_bits m (columns ! i))"
  by (cases m rule: prod_cases4) (auto simp: nth_nibs even_bits_def)

lemma nibs_odd: "i < 64 \<Longrightarrow> nibs (snd m) ! i = nibble (odd_bits m (columns ! i))"
  by (cases m rule: prod_cases4) (auto simp: nth_nibs odd_bits_def)

definition lin_even :: "nat list \<Rightarrow> nat list \<Rightarrow> nat list" where
  "lin_even = map2 (\<lambda>a b. fst (jh_L a b))"

definition lin_odd :: "nat list \<Rightarrow> nat list \<Rightarrow> nat list" where
  "lin_odd = map2 (\<lambda>a b. snd (jh_L a b))"

lemma nibs_SS_MDS:
  fixes m :: jh_column and cc0 cc1 :: u64
  defines "y \<equiv> MDS (SS cc0 cc1 m)"
    and "e \<equiv> map2 jh_sub (cols cc0) (nibs (fst m))" and "d \<equiv> map2 jh_sub (cols cc1) (nibs (snd m))"
  shows "nibs (fst y) = lin_even e d" "nibs (snd y) = lin_odd e d"
proof -
  have *: "nibs (fst y) ! i = fst (jh_L (e ! i) (d ! i)) \<and> nibs (snd y) ! i = snd (jh_L (e ! i) (d ! i))" if i: "i < 64" for i
  proof -
    have "columns ! i < 64"
      using i by (intro columns_less) simp
    from SS_MDS_nibbles [OF this, of cc0 cc1 m] show ?thesis
      using i unfolding y_def e_def d_def
      by (simp add: nibs_even nibs_odd cols_def prod_eq_iff)
  qed
  show "nibs (fst y) = lin_even e d" "nibs (snd y) = lin_odd e d"
    using * by (auto intro!: nth_equalityI simp: lin_even_def lin_odd_def e_def d_def)
qed

lemma quads_append:
  "length A = length B \<Longrightarrow> length B = length C \<Longrightarrow> length C = length D \<Longrightarrow>
    quads (A @ A') (B @ B') (C @ C') (D @ D') = quads A B C D @ quads A' B' C' D'"
  by (simp add: quads_def)

lemma quads_swap_blocks:
  assumes "paired n m A" "paired n m B" "paired n m C" "paired n m D"
  shows "quads (swap_blocks n A) (swap_blocks n B) (swap_blocks n C) (swap_blocks n D) = swap_blocks n (quads A B C D)"
proof -
  have "paired n m (zip A B)" "paired n m (zip C D)"
    using assms by (simp_all add: paired.simps)
  then show ?thesis
    using assms by (simp add: quads_def swap_blocks_map2 swap_blocks_zip)
qed

text \<open>A swap of the bits of a word, which a swap of blocks of the columns describes.\<close>

definition swaps :: "nat \<Rightarrow> (u64 \<Rightarrow> u64) \<Rightarrow> bool" where
  "swaps n f \<longleftrightarrow> (\<exists>m. 0 < n \<and> 64 = m * (2 * n)) \<and> (\<forall>w. cols (f w) = swap_blocks n (cols w))"

lemma swaps_code: "swaps 1 SWAP1" "swaps 2 SWAP2" "swaps 4 SWAP4" "swaps 8 SWAP8" "swaps 16 SWAP16" "swaps 32 SWAP32"
  by (simp_all add: swaps_def cols_SWAP1 [simplified] cols_SWAP2 cols_SWAP4 cols_SWAP8 cols_SWAP16 cols_SWAP32 exI [of _ 32]
    exI [of _ 16] exI [of _ 8] exI [of _ 4] exI [of _ 2] exI [of _ 1])

lemma nibs_swap:
  assumes "swaps n f"
  shows "nibs (snd (swap_odd f y)) = swap_blocks n (nibs (snd y))" "fst (swap_odd f y) = fst y"
proof -
  obtain m where "0 < n" "64 = m * (2 * n)" and f: "\<And>w. cols (f w) = swap_blocks n (cols w)"
    using assms by (auto simp: swaps_def)
  then have p: "paired n m (cols w)" for w
    by (simp add: paired.simps)
  obtain e m4 m5 m6 m7 where y: "y = (e, m4, m5, m6, m7)"
    by (metis surj_pair)
  show "nibs (snd (swap_odd f y)) = swap_blocks n (nibs (snd y))"
    unfolding y swap_odd_def by (simp add: nibs_def f quads_swap_blocks [OF p p p p])
  show "fst (swap_odd f y) = fst y"
    unfolding y swap_odd_def by simp
qed

end
