(* ===== verification/Jh_Constants.thy ===== *)
theory Jh_Constants
  imports Jh_Layers Jh_Permutation
begin

text \<open>
  The tables of constants: the rows of round constants are those of the reference, brought to the order of the
  columns in that round. They are evaluated on quadruples of bits.
\<close>

type_synonym quad = "bool \<times> bool \<times> bool \<times> bool"

fun quad_lin :: "quad list \<Rightarrow> quad list" where
  "quad_lin (a # b # A) = (case mds_bits a b of (c, d) \<Rightarrow> c # d # quad_lin A)"
| "quad_lin A = A"

definition quad_R :: "quad list \<Rightarrow> quad list" where
  "quad_R A = jh_P (quad_lin (map (ss_bits False) A))"

fun quad_bits :: "quad list \<Rightarrow> bool list" where
  "quad_bits ((a, b, c, d) # A) = a # b # c # d # quad_bits A"
| "quad_bits [] = []"

definition quad_of :: "nat \<Rightarrow> quad" where
  "quad_of a = (odd (a div 8), odd (a div 4), odd (a div 2), odd a)"

text \<open>The rows of the table against the constants from \<open>A\<close> on, in the rounds from the \<open>k\<close>th of seven on.\<close>

fun check_rows :: "nat \<Rightarrow> quad list \<Rightarrow> byte list list \<Rightarrow> bool" where
  "check_rows k A [] \<longleftrightarrow> True"
| "check_rows k A (rc # rcs) \<longleftrightarrow>
    interleave ((unshuffle ^^ k) (jh_bits (take 16 rc))) ((unshuffle ^^ k) (jh_bits (drop 16 rc))) = quad_bits A \<and>
    check_rows (if k = 6 then 0 else Suc k) (quad_R A) rcs"

lemma check_table: "check_rows 0 (map quad_of jh_sqrt2) E8_bitslice_roundconstant"
  by code_simp


lemma check_rows_nth:
  assumes "check_rows k A rcs" "k < 7" "i < length rcs"
  shows "interleave ((unshuffle ^^ ((k + i) mod 7)) (jh_bits (take 16 (rcs ! i)))) ((unshuffle ^^ ((k + i) mod 7)) (jh_bits (drop 16 (rcs ! i)))) =
    quad_bits ((quad_R ^^ i) A)"
  using assms
proof (induction k A rcs arbitrary: i rule: check_rows.induct)
  case (2 k A rc rcs)
  show ?case
  proof (cases i)
    case 0
    then show ?thesis using 2 by simp
  next
    case (Suc j)
    have "((if k = 6 then 0 else Suc k) + j) mod 7 = (k + i) mod 7"
      using 2 Suc by (auto simp: mod_add_left_eq [of 7 7 j, simplified])
    moreover have "(quad_R ^^ i) A = (quad_R ^^ j) (quad_R A)"
      using Suc by (simp add: funpow_Suc_right del: funpow.simps)
    ultimately show ?thesis
      using 2 Suc by (auto split: if_splits)
  qed
qed simp

section \<open>The constants as numbers\<close>

lemma jh_P_map: "jh_P (map f A) = map f (jh_P A)"
proof -
  have "jh_pi (map f A) = map f (jh_pi A)"
    by (induction A rule: jh_pi.induct) simp_all
  moreover have "swap_pairs (map f B) = map f (swap_pairs B)" for B
    by (induction B rule: swap_pairs.induct) simp_all
  ultimately show ?thesis
    by (simp add: jh_P_def jh_phi_def unshuffle_map take_map drop_map)
qed

lemma quad_lin_nibble: "map nibble (quad_lin A) = jh_lin (map nibble A)"
proof (induction A rule: quad_lin.induct)
  case (1 a b A)
  obtain a0 a1 a2 a3 b0 b1 b2 b3 where "a = (a0, a1, a2, a3)" "b = (b0, b1, b2, b3)"
    by (metis surj_pair)
  then show ?case
    using 1 mds_L [of a0 a1 a2 a3 b0 b1 b2 b3] by (auto split: prod.split)
qed simp_all

lemma ss_nibble: "nibble (ss_bits c a) = jh_sub c (nibble a)"
  by (cases a) (simp only: ss_sbox)

lemma quad_R_nibble:
  assumes "length A = 64"
  shows "map nibble (quad_R A) = jh_R (replicate 64 False) (map nibble A)"
proof -
  have "map2 jh_sub (replicate 64 False) (map nibble A) = map nibble (map (ss_bits False) A)"
    using assms by (simp add: zip_replicate1 ss_nibble)
  then show ?thesis
    by (simp only: quad_R_def jh_R_def quad_lin_nibble jh_P_map [symmetric])
qed

lemma length_quad_R: "length (quad_R A) = length A"
proof -
  have "length (quad_lin B) = length B" for B
    by (induction B rule: quad_lin.induct) (simp_all split: prod.split)
  moreover have "length (jh_pi B) = length B" for B :: "quad list"
    by (induction B rule: jh_pi.induct) simp_all
  moreover have "length (swap_pairs B) = length B" for B :: "quad list"
    by (induction B rule: swap_pairs.induct) simp_all
  ultimately show ?thesis
    by (simp add: quad_R_def jh_P_def jh_phi_def)
qed

lemma quad_of_nibble: "list_all (\<lambda>a. a < 16) A \<Longrightarrow> map nibble (map quad_of A) = A"
proof (induction A)
  case (Cons a A)
  then have "a \<in> set [0..<16]"
    by simp
  moreover have "list_all (\<lambda>a. nibble (quad_of a) = a) [0..<16]"
    by code_simp
  ultimately have "nibble (quad_of a) = a"
    unfolding list_all_iff by blast
  then show ?case
    using Cons by simp
qed simp

lemma quad_constant:
  "length ((quad_R ^^ r) (map quad_of jh_sqrt2)) = 64 \<and> map nibble ((quad_R ^^ r) (map quad_of jh_sqrt2)) = jh_constant r"
proof (induction r)
  case 0
  have "list_all (\<lambda>a. a < 16) jh_sqrt2" "length jh_sqrt2 = 64"
    by (simp_all add: jh_sqrt2_def)
  then show ?case
    using quad_of_nibble by simp
next
  case (Suc r)
  then show ?case
    by (simp add: length_quad_R quad_R_nibble)
qed

lemma nib_bits_nibble: "nib_bits (nibble (a, b, c, d)) = [a, b, c, d]"
  by (cases a; cases b; cases c; cases d; simp add: nib_bits_def nibble_def nib4_def)

lemma quad_bits_nibble: "quad_bits A = concat (map nib_bits (map nibble A))"
  by (induction A rule: quad_bits.induct) (simp_all add: nib_bits_nibble)

lemma length_E8_table: "length E8_bitslice_roundconstant = 42"
  by (simp add: E8_bitslice_roundconstant_def)

lemma length_E8_row: "r < 42 \<Longrightarrow> length (E8_bitslice_roundconstant ! r) = 32"
proof -
  have "list_all (\<lambda>rc. length rc = 32) E8_bitslice_roundconstant"
    by (simp add: E8_bitslice_roundconstant_def)
  then show "r < 42 \<Longrightarrow> length (E8_bitslice_roundconstant ! r) = 32"
    by (simp add: list_all_length length_E8_table)
qed

lemma round_constant:
  assumes "r < 42"
  shows "interleave ((unshuffle ^^ (r mod 7)) (jh_bits (take 16 (E8_bitslice_roundconstant ! r))))
      ((unshuffle ^^ (r mod 7)) (jh_bits (drop 16 (E8_bitslice_roundconstant ! r)))) = jh_round_bits r"
  using check_rows_nth [OF check_table _, of r] assms quad_constant [of r]
  by (simp add: quad_bits_nibble length_E8_table jh_round_bits_def)

end
