(* ===== verification/Jh_Correct.thy ===== *)
theory Jh_Correct
  imports Jh_Columns Jh_Constants
begin

text \<open>
  The bit-sliced permutation computes E8: in the round with number \<open>r\<close> the elements of the reference are
  those in the rows of the code, shuffled back \<open>r mod 7\<close> times. The compression function follows.
\<close>

section \<open>The elements of a state\<close>

definition elems_even :: "u64 list \<Rightarrow> nat list" where
  "elems_even x = nibs (fst (get_column 0 x)) @ nibs (fst (get_column 1 x))"

definition elems_odd :: "u64 list \<Rightarrow> nat list" where
  "elems_odd x = nibs (snd (get_column 0 x)) @ nibs (snd (get_column 1 x))"

definition elems :: "nat \<Rightarrow> u64 list \<Rightarrow> nat list" where
  "elems k x = interleave ((unshuffle ^^ k) (elems_even x)) ((unshuffle ^^ k) (elems_odd x))"

lemma length_elems [simp]: "length (elems_even x) = 128" "length (elems_odd x) = 128"
  by (simp_all add: elems_even_def elems_odd_def)

lemma elems_seven: "elems 7 x = elems 0 x"
  by (simp add: elems_def unshuffle_seven)

lemma words_16:
  assumes "length x = 16"
  obtains x0 x1 x2 x3 x4 x5 x6 x7 x8 x9 x10 x11 x12 x13 x14 x15
  where "x = [x0, x1, x2, x3, x4, x5, x6, x7, x8, x9, x10, x11, x12, x13, x14, x15]"
proof -
  have "x = [x ! 0, x ! 1, x ! 2, x ! 3, x ! 4, x ! 5, x ! 6, x ! 7, x ! 8, x ! 9, x ! 10, x ! 11, x ! 12, x ! 13, x ! 14, x ! 15]"
    using assms by (auto simp: numeral_eq_Suc length_Suc_conv)
  then show thesis
    by (rule that)
qed

lemma get_put_column:
  assumes "length x = 16"
  shows "get_column 0 (put_column 0 m x) = m" "get_column 1 (put_column 1 m x) = m"
    "get_column 0 (put_column 1 m x) = get_column 0 x" "get_column 1 (put_column 0 m x) = get_column 1 x"
    "length (put_column i m x) = 16"
  using assms by (auto simp: get_column_def put_column_def nth_list_update split: prod.split)

section \<open>A layer\<close>

definition row_even :: "nat \<Rightarrow> bool list" where
  "row_even r = jh_bits (take 16 (E8_bitslice_roundconstant ! r))"

definition row_odd :: "nat \<Rightarrow> bool list" where
  "row_odd r = jh_bits (drop 16 (E8_bitslice_roundconstant ! r))"

lemma row_cols:
  assumes "r < 42"
  shows "row_even r = cols (load64 (E8_bitslice_roundconstant ! r) (8 * 0)) @ cols (load64 (E8_bitslice_roundconstant ! r) (8 * 1))"
    "row_odd r = cols (load64 (E8_bitslice_roundconstant ! r) (8 * (0 + 2))) @ cols (load64 (E8_bitslice_roundconstant ! r) (8 * (1 + 2)))"
proof -
  let ?c = "E8_bitslice_roundconstant ! r"
  have l: "length ?c = 32"
    using assms by (rule length_E8_row)
  have "take 16 ?c = take 8 ?c @ take 8 (drop 8 ?c)" "drop 16 ?c = take 8 (drop 16 ?c) @ drop 24 ?c"
    using l take_add [of 8 8 ?c] take_add [of 8 8 "drop 16 ?c"] by simp_all
  then have "jh_bits (take 16 ?c) = jh_bits (take 8 ?c) @ jh_bits (take 8 (drop 8 ?c))"
    "jh_bits (drop 16 ?c) = jh_bits (take 8 (drop 16 ?c)) @ jh_bits (drop 24 ?c)"
    by (metis jh_bits_append)+
  then show "row_even r = cols (load64 ?c (8 * 0)) @ cols (load64 ?c (8 * 1))"
    "row_odd r = cols (load64 ?c (8 * (0 + 2))) @ cols (load64 ?c (8 * (1 + 2)))"
    using l by (simp_all add: row_even_def row_odd_def jh_bits_load64)
qed

lemma length_row [simp]: "r < 42 \<Longrightarrow> length (row_even r) = 128" "r < 42 \<Longrightarrow> length (row_odd r) = 128"
  by (simp_all add: row_cols)

lemma lin_append:
  assumes "length A = length B"
  shows "lin_even (A @ C) (B @ D) = lin_even A B @ lin_even C D" "lin_odd (A @ C) (B @ D) = lin_odd A B @ lin_odd C D"
  using assms by (simp_all add: lin_even_def lin_odd_def)

lemma E8_layer_elems:
  assumes "r < 42" "length x = 16" "\<And>y. nibs (snd (swap_odd f y)) = G (nibs (snd y))" "\<And>y. fst (swap_odd f y) = fst y"
    and "\<And>A B. length A = 64 \<Longrightarrow> length B = 64 \<Longrightarrow> H (A @ B) = G A @ G B"
  defines "e \<equiv> map2 jh_sub (row_even r) (elems_even x)" and "d \<equiv> map2 jh_sub (row_odd r) (elems_odd x)"
  shows "elems_even (E8_layer f r x) = lin_even e d" "elems_odd (E8_layer f r x) = H (lin_odd e d)" "length (E8_layer f r x) = 16"
proof -
  let ?c = "E8_bitslice_roundconstant ! r"
  let ?y = "\<lambda>i. MDS (SS (load64 ?c (8 * i)) (load64 ?c (8 * (i + 2))) (get_column i x))"
  let ?e = "\<lambda>i. map2 jh_sub (cols (load64 ?c (8 * i))) (nibs (fst (get_column i x)))"
  let ?d = "\<lambda>i. map2 jh_sub (cols (load64 ?c (8 * (i + 2)))) (nibs (snd (get_column i x)))"
  have l: "E8_layer f r x = put_column 1 (swap_odd f (?y 1)) (put_column 0 (swap_odd f (?y 0)) x)"
    using assms(2) by (simp add: E8_layer_def Let_def get_put_column [simplified])
  have g: "get_column 0 (E8_layer f r x) = swap_odd f (?y 0)" "get_column 1 (E8_layer f r x) = swap_odd f (?y 1)"
    unfolding l using assms(2) by (simp_all add: get_put_column [simplified])
  have ed: "e = ?e 0 @ ?e 1" "d = ?d 0 @ ?d 1"
    unfolding e_def d_def row_cols [OF assms(1)] elems_even_def elems_odd_def by simp_all
  have len: "length (?e i) = 64" "length (?d i) = 64" for i
    by simp_all
  show "elems_even (E8_layer f r x) = lin_even e d"
    unfolding elems_even_def [of "E8_layer f r x"] g assms(4) nibs_SS_MDS ed using len by (simp only: lin_append)
  have "elems_odd (E8_layer f r x) = G (lin_odd (?e 0) (?d 0)) @ G (lin_odd (?e 1) (?d 1))"
    unfolding elems_odd_def [of "E8_layer f r x"] g assms(3) nibs_SS_MDS ..
  also have "\<dots> = H (lin_odd e d)"
    unfolding ed using len by (subst lin_append) (simp_all add: assms(5) lin_odd_def)
  finally show "elems_odd (E8_layer f r x) = H (lin_odd e d)" .
  show "length (E8_layer f r x) = 16"
    unfolding l using assms(2) by (simp add: get_put_column)
qed

text \<open>The round on shuffled elements.\<close>

lemma jh_R_interleave:
  assumes "length A = 128" "length B = 128" "length C = 128" "length D = 128" "k < 7"
  defines "e \<equiv> map2 jh_sub C A" and "d \<equiv> map2 jh_sub D B"
  shows "jh_R (interleave ((unshuffle ^^ k) C) ((unshuffle ^^ k) D)) (interleave ((unshuffle ^^ k) A) ((unshuffle ^^ k) B)) =
    interleave ((unshuffle ^^ Suc k) (lin_even e d)) ((unshuffle ^^ Suc k) (swap_blocks (2 ^ k) (lin_odd e d)))"
proof -
  have l: "length e = 128" "length d = 128"
    using assms by simp_all
  have "map2 jh_sub (interleave ((unshuffle ^^ k) C) ((unshuffle ^^ k) D)) (interleave ((unshuffle ^^ k) A) ((unshuffle ^^ k) B)) =
      interleave ((unshuffle ^^ k) e) ((unshuffle ^^ k) d)"
    using assms by (simp add: interleave_map2 unshuffles_map2)
  then have "jh_R (interleave ((unshuffle ^^ k) C) ((unshuffle ^^ k) D)) (interleave ((unshuffle ^^ k) A) ((unshuffle ^^ k) B)) =
      jh_P (interleave ((unshuffle ^^ k) (lin_even e d)) ((unshuffle ^^ k) (lin_odd e d)))"
    using l by (simp add: jh_R_def jh_lin_interleave lin_even_def lin_odd_def unshuffles_map2)
  also have "\<dots> = interleave ((unshuffle ^^ Suc k) (lin_even e d)) ((unshuffle ^^ Suc k) (swap_blocks (2 ^ k) (lin_odd e d)))"
  proof (rule jh_P_unshuffles)
    have "k \<in> {0, 1, 2, 3, 4, 5, 6}"
      using assms by auto
    then have "128 = 2 ^ (6 - k) * (2 * 2 ^ k :: nat)"
      by auto
    then show "paired (2 ^ k) (2 ^ (6 - k)) (lin_odd e d)"
      using l by (simp add: paired.simps lin_odd_def)
  qed (simp add: lin_even_def lin_odd_def l)
  finally show ?thesis .
qed

lemma round_constant_rows: "r < 42 \<Longrightarrow> jh_round_bits r = interleave ((unshuffle ^^ (r mod 7)) (row_even r)) ((unshuffle ^^ (r mod 7)) (row_odd r))"
  by (simp add: round_constant row_even_def row_odd_def)

lemma E8_layer_swap:
  assumes "r < 42" "r mod 7 = k" "length x = 16" "swaps (2 ^ k) f" "j = Suc k"
  shows "elems j (E8_layer f r x) = jh_R (jh_round_bits r) (elems k x)" "length (E8_layer f r x) = 16"
proof -
  obtain m where m: "64 = m * (2 * 2 ^ k :: nat)"
    using assms(4) by (auto simp: swaps_def)
  have "swap_blocks (2 ^ k) (A @ B) = swap_blocks (2 ^ k) A @ swap_blocks (2 ^ k) B" if "length A = 64" for A B :: "nat list"
    using that m by (intro swap_blocks_append [of _ m]) (simp add: paired.simps)
  note L = E8_layer_elems [OF assms(1,3) nibs_swap [OF assms(4)] this]
  show "length (E8_layer f r x) = 16"
    by (rule L(3))
  have k: "k < 7"
    using assms(2) by auto
  show "elems j (E8_layer f r x) = jh_R (jh_round_bits r) (elems k x)"
    unfolding round_constant_rows [OF assms(1)] assms(2) elems_def [of k x]
    by (subst jh_R_interleave) (use assms(1,5) k L in \<open>simp_all add: elems_def\<close>)
qed

section \<open>Seven rounds, and all\<close>

lemma swap_halves_elems:
  assumes "length x = 16"
  shows "elems_even (swap_halves x) = elems_even x" "elems_odd (swap_halves x) = swap_blocks 64 (elems_odd x)" "length (swap_halves x) = 16"
proof -
  have g: "get_column 0 (swap_halves x) = (fst (get_column 0 x), snd (get_column 1 x))"
    "get_column 1 (swap_halves x) = (fst (get_column 1 x), snd (get_column 0 x))"
    using assms by (simp_all add: swap_halves_def get_column_def Let_def nth_list_update)
  show "elems_even (swap_halves x) = elems_even x"
    unfolding elems_even_def g fst_conv ..
  show "elems_odd (swap_halves x) = swap_blocks 64 (elems_odd x)"
    unfolding elems_odd_def g snd_conv
    using swap_blocks_two [of 64 "nibs (snd (get_column 0 x))" "nibs (snd (get_column 1 x))" "[]"] by simp
  show "length (swap_halves x) = 16"
    using assms by (simp add: swap_halves_def Let_def)
qed

lemma E8_layer_last:
  assumes "r < 42" "r mod 7 = 6" "length x = 16"
  shows "elems 7 (swap_halves (E8_layer (\<lambda>w. w) r x)) = jh_R (jh_round_bits r) (elems 6 x)"
    "length (swap_halves (E8_layer (\<lambda>w. w) r x)) = 16"
proof -
  have *: "nibs (snd (swap_odd (\<lambda>w. w) y)) = (\<lambda>A. A) (nibs (snd y))" "fst (swap_odd (\<lambda>w. w) y) = fst y" for y
    by (simp_all add: swap_odd_def split: prod.split)
  note L = E8_layer_elems [OF assms(1,3) *, of "\<lambda>A. A"]
  note W = swap_halves_elems [OF L(3)]
  show "length (swap_halves (E8_layer (\<lambda>w. w) r x)) = 16"
    by (rule W(3)) simp
  show "elems 7 (swap_halves (E8_layer (\<lambda>w. w) r x)) = jh_R (jh_round_bits r) (elems 6 x)"
    unfolding round_constant_rows [OF assms(1)] assms(2) elems_def [of 6 x]
    by (subst jh_R_interleave) (use assms(1) L W in \<open>simp_all add: elems_def numeral_eq_Suc\<close>)
qed

definition jh_rounds :: "nat \<Rightarrow> nat \<Rightarrow> nat list \<Rightarrow> nat list" where
  "jh_rounds a b A = fold (\<lambda>r A. jh_R (jh_round_bits r) A) [a..<b] A"

lemma jh_rounds_append: "a \<le> b \<Longrightarrow> b \<le> c \<Longrightarrow> jh_rounds b c (jh_rounds a b A) = jh_rounds a c A"
  using upt_add_eq_append [of a b "c - b"] by (simp add: jh_rounds_def)

lemma E8_rounds_elems:
  assumes "q < 6" "length x = 16"
  shows "elems 0 (E8_rounds (7 * q) x) = jh_rounds (7 * q) (7 * Suc q) (elems 0 x) \<and> length (E8_rounds (7 * q) x) = 16"
proof -
  define n where "n = 7 * q"
  have n: "n + 6 < 42" "n mod 7 = 0"
    using assms by (simp_all add: n_def)
  have m: "Suc n mod 7 = Suc 0" "(n + 2) mod 7 = 2" "(n + 3) mod 7 = 3" "(n + 4) mod 7 = 4" "(n + 5) mod 7 = 5" "(n + 6) mod 7 = 6"
    using mod_add_eq [of n 7 1, symmetric] mod_add_eq [of n 7 2, symmetric] mod_add_eq [of n 7 3, symmetric]
      mod_add_eq [of n 7 4, symmetric] mod_add_eq [of n 7 5, symmetric] mod_add_eq [of n 7 6, symmetric] unfolding n(2) by simp_all
  let ?f = "\<lambda>k. jh_R (jh_round_bits (n + k))"
  define x1 where "x1 = E8_layer SWAP1 (n + 0) x"
  define x2 where "x2 = E8_layer SWAP2 (n + 1) x1"
  define x3 where "x3 = E8_layer SWAP4 (n + 2) x2"
  define x4 where "x4 = E8_layer SWAP8 (n + 3) x3"
  define x5 where "x5 = E8_layer SWAP16 (n + 4) x4"
  define x6 where "x6 = E8_layer SWAP32 (n + 5) x5"
  define x7 where "x7 = swap_halves (E8_layer (\<lambda>w. w) (n + 6) x6)"
  have e1: "elems 1 x1 = ?f 0 (elems 0 x)" "length x1 = 16"
    unfolding x1_def by (rule E8_layer_swap [where k = 0]; use n assms(2) swaps_code(1) in simp)+
  have e2: "elems 2 x2 = ?f 1 (elems 1 x1)" "length x2 = 16"
    unfolding x2_def by (rule E8_layer_swap [where k = 1]; use n(1) m(1) e1(2) swaps_code(2) in simp)+
  have e3: "elems 3 x3 = ?f 2 (elems 2 x2)" "length x3 = 16"
    unfolding x3_def by (rule E8_layer_swap [where k = 2]; use n(1) m(2) e2(2) swaps_code(3) in simp)+
  have e4: "elems 4 x4 = ?f 3 (elems 3 x3)" "length x4 = 16"
    unfolding x4_def by (rule E8_layer_swap [where k = 3]; use n(1) m(3) e3(2) swaps_code(4) in simp)+
  have e5: "elems 5 x5 = ?f 4 (elems 4 x4)" "length x5 = 16"
    unfolding x5_def by (rule E8_layer_swap [where k = 4]; use n(1) m(4) e4(2) swaps_code(5) in simp)+
  have e6: "elems 6 x6 = ?f 5 (elems 5 x5)" "length x6 = 16"
    unfolding x6_def by (rule E8_layer_swap [where k = 5]; use n(1) m(5) e5(2) swaps_code(6) in simp)+
  have e7: "elems 7 x7 = ?f 6 (elems 6 x6)" "length x7 = 16"
    unfolding x7_def by (rule E8_layer_last; use n(1) m(6) e6(2) in simp)+
  have "elems 0 x7 = ?f 6 (?f 5 (?f 4 (?f 3 (?f 2 (?f 1 (?f 0 (elems 0 x)))))))"
    unfolding elems_seven [symmetric] e7(1) e6(1) e5(1) e4(1) e3(1) e2(1) unfolding e1(1) elems_seven ..
  moreover have "[n..<n + 7] = [n + 0, n + 1, n + 2, n + 3, n + 4, n + 5, n + 6]"
    using map_add_upt [of n 7] by (simp add: numeral_eq_Suc)
  moreover have "E8_rounds n x = x7"
    unfolding E8_rounds_def Let_def x1_def x2_def x3_def x4_def x5_def x6_def x7_def ..
  ultimately show ?thesis
    using e7(2) by (simp add: n_def jh_rounds_def add.commute)
qed

lemma E8_elems:
  assumes "length x = 16"
  shows "elems 0 (E8 x) = jh_rounds 0 42 (elems 0 x) \<and> length (E8 x) = 16"
proof -
  have *: "elems 0 (fold E8_rounds (map ((*) 7) [0..<q]) x) = jh_rounds 0 (7 * q) (elems 0 x) \<and>
      length (fold E8_rounds (map ((*) 7) [0..<q]) x) = 16" if "q \<le> 6" for q
    using that
  proof (induction q)
    case 0
    then show ?case using assms by (simp add: jh_rounds_def)
  next
    case (Suc q)
    then show ?case
      using E8_rounds_elems [of q "fold E8_rounds (map ((*) 7) [0..<q]) x"] jh_rounds_append [of 0 "7 * q" "7 * Suc q"] by simp
  qed
  have "map ((*) 7) [0..<6] = [0, 7, 14, 21, 28, 35]"
    by (simp add: numeral_eq_Suc)
  then show ?thesis
    using * [of 6] by (simp add: E8_def)
qed

end
