(* ===== verification/Jh_Message.thy ===== *)
theory Jh_Message
  imports Jh_Correct
begin

text \<open>
  From the permutation to the hash: states as strings of bytes, the compression function, the blocks of a
  message, and its last block or two.
\<close>

section \<open>States as bytes\<close>

lemma quads_bits:
  assumes "length A = length B" "length B = length C" "length C = length D"
  shows "map (\<lambda>a. odd (a div 8)) (quads A B C D) = A" "map (\<lambda>a. odd (a div 4)) (quads A B C D) = B"
    "map (\<lambda>a. odd (a div 2)) (quads A B C D) = C" "map odd (quads A B C D) = D"
proof -
  have *: "odd (nib4 a b c d div 8) = a \<and> odd (nib4 a b c d div 4) = b \<and> odd (nib4 a b c d div 2) = c \<and> odd (nib4 a b c d) = d" for a b c d
    by (cases a; cases b; cases c; cases d; simp add: nib4_def)
  have "map (\<lambda>a. odd (a div 8)) (quads A B C D) = A \<and> map (\<lambda>a. odd (a div 4)) (quads A B C D) = B \<and>
    map (\<lambda>a. odd (a div 2)) (quads A B C D) = C \<and> map odd (quads A B C D) = D"
    using assms by (induction A B C D rule: list_induct4) (simp_all add: quads_def *)
  then show "map (\<lambda>a. odd (a div 8)) (quads A B C D) = A" "map (\<lambda>a. odd (a div 4)) (quads A B C D) = B"
    "map (\<lambda>a. odd (a div 2)) (quads A B C D) = C" "map odd (quads A B C D) = D"
    by simp_all
qed

definition row_bits :: "nat \<Rightarrow> u64 list \<Rightarrow> bool list" where
  "row_bits r x = cols (x ! (4 * r)) @ cols (x ! (4 * r + 1)) @ cols (x ! (4 * r + 2)) @ cols (x ! (4 * r + 3))"

lemma length_row_bits [simp]: "length (row_bits r x) = 256"
  by (simp add: row_bits_def)

lemma elems_quads: "elems_even x @ elems_odd x = quads (row_bits 0 x) (row_bits 1 x) (row_bits 2 x) (row_bits 3 x)"
  by (simp add: elems_even_def elems_odd_def get_column_def row_bits_def nibs_def quads_append numeral_eq_Suc)

lemma jh_bits_rows:
  assumes "length x = 16"
  shows "jh_bits (state_bytes x) = row_bits 0 x @ row_bits 1 x @ row_bits 2 x @ row_bits 3 x"
proof -
  obtain x0 x1 x2 x3 x4 x5 x6 x7 x8 x9 x10 x11 x12 x13 x14 x15
    where "x = [x0, x1, x2, x3, x4, x5, x6, x7, x8, x9, x10, x11, x12, x13, x14, x15]"
    by (rule words_16 [OF assms])
  then show ?thesis
    by (simp add: jh_bits_state_bytes row_bits_def)
qed

lemma jh_group_elems: "length x = 16 \<Longrightarrow> jh_group (state_bytes x) = elems 0 x"
  by (simp add: jh_group_def Let_def jh_bits_rows elems_quads [symmetric, simplified] elems_def)

lemma jh_degroup_elems: "length x = 16 \<Longrightarrow> jh_degroup (elems 0 x) = state_bytes x"
  using jh_bytes_bits [of "state_bytes x"]
  by (simp add: jh_degroup_def Let_def elems_def unshuffle_interleave elems_quads quads_bits jh_bits_rows)

lemma jh_E8_correct: "length x = 16 \<Longrightarrow> jh_E8 (state_bytes x) = state_bytes (E8 x)"
  using E8_elems [of x] by (simp add: jh_E8_def jh_group_elems jh_rounds_def [symmetric]) (metis jh_degroup_elems)

section \<open>The compression function\<close>

lemma store64_map2: "store64 (v XOR w) = map2 (XOR) (store64 v) (store64 w)"
  by (simp add: store64_xor xor_bytes_def)

lemma state_bytes_Cons: "state_bytes (w # x) = store64 w @ state_bytes x"
  by (simp add: state_bytes_def)

lemma state_bytes_append: "state_bytes (x @ y) = state_bytes x @ state_bytes y"
  by (simp add: state_bytes_def)

lemma state_bytes_xor: "length x = length y \<Longrightarrow> state_bytes (map2 (XOR) x y) = map2 (XOR) (state_bytes x) (state_bytes y)"
  by (induction x y rule: list_induct2) (simp_all add: state_bytes_Cons store64_map2, simp add: state_bytes_def)

lemma state_bytes_load:
  "length M = 8 * n \<Longrightarrow> state_bytes (map (\<lambda>i. load64 M (8 * i)) [0..<n]) = M"
proof -
  have "k \<le> n \<Longrightarrow> state_bytes (map (\<lambda>i. load64 M (8 * i)) [0..<k]) = take (8 * k) M" if "length M = 8 * n" for k
    using that
  proof (induction k)
    case (Suc k)
    then show ?case
      using take_add [of "8 * k" 8 M] by (simp add: state_bytes_append store64_load64 state_bytes_def add.commute)
  qed (simp add: state_bytes_def)
  then show "length M = 8 * n \<Longrightarrow> state_bytes (map (\<lambda>i. load64 M (8 * i)) [0..<n]) = M"
    by (metis order_refl take_all)
qed

lemma state_bytes_zero: "state_bytes (replicate 8 0) = replicate 64 0"
  by (simp add: state_bytes_def store64_def numeral_eq_Suc)

lemma F8_folds:
  assumes "length x = 16"
  shows "fold (\<lambda>i x. x[i := x ! i XOR g i]) [0..<8] x = map2 (XOR) x (map g [0..<8] @ replicate 8 0)"
    "fold (\<lambda>i x. x[8 + i := x ! (8 + i) XOR g i]) [0..<8] x = map2 (XOR) x (replicate 8 0 @ map g [0..<8])"
proof -
  obtain x0 x1 x2 x3 x4 x5 x6 x7 x8 x9 x10 x11 x12 x13 x14 x15
    where "x = [x0, x1, x2, x3, x4, x5, x6, x7, x8, x9, x10, x11, x12, x13, x14, x15]"
    by (rule words_16 [OF assms])
  then show "fold (\<lambda>i x. x[i := x ! i XOR g i]) [0..<8] x = map2 (XOR) x (map g [0..<8] @ replicate 8 0)"
    "fold (\<lambda>i x. x[8 + i := x ! (8 + i) XOR g i]) [0..<8] x = map2 (XOR) x (replicate 8 0 @ map g [0..<8])"
    by (simp_all add: numeral_eq_Suc)
qed

lemma F8_correct:
  assumes "length x = 16" "length M = 64"
  shows "state_bytes (F8 M x) = jh_F8 (state_bytes x) M" "length (F8 M x) = 16"
proof -
  let ?w = "map (\<lambda>i. load64 M (8 * i)) [0..<8]"
  let ?y = "map2 (XOR) x (?w @ replicate 8 0)"
  have l: "length ?w = 8"
    by simp
  have w: "state_bytes ?w = M"
    using assms(2) by (intro state_bytes_load) simp
  have y: "length ?y = 16"
    using assms(1) l by simp
  then have e: "length (E8 ?y) = 16"
    using E8_elems by blast
  have f: "F8 M x = map2 (XOR) (E8 ?y) (replicate 8 0 @ ?w)"
    unfolding F8_def Let_def F8_folds(1) [OF assms(1)] F8_folds(2) [OF e] ..
  show "length (F8 M x) = 16"
    unfolding f using e l by simp
  have "state_bytes (F8 M x) = map2 (XOR) (state_bytes (E8 ?y)) (replicate 64 0 @ M)"
    unfolding f using e l by (subst state_bytes_xor) (simp_all only: state_bytes_append state_bytes_zero w length_append length_replicate)
  also have "state_bytes (E8 ?y) = jh_E8 (map2 (XOR) (state_bytes x) (M @ replicate 64 0))"
    unfolding jh_E8_correct [OF y, symmetric]
    using assms(1) l by (subst state_bytes_xor) (simp_all only: state_bytes_append state_bytes_zero w length_append length_replicate)
  finally show "state_bytes (F8 M x) = jh_F8 (state_bytes x) M"
    by (simp only: jh_F8_def)
qed

section \<open>Blocks\<close>

lemma jh_chain_Nil [simp]: "jh_chain H [] = H"
  by (simp add: jh_chain.simps)

lemma jh_chain_block: "length M = 64 \<Longrightarrow> jh_chain H (M @ m) = jh_chain (jh_F8 H M) m"
  by (subst jh_chain.simps) auto

lemma jh_chain_append: "length A = 64 * n \<Longrightarrow> jh_chain H (A @ B) = jh_chain (jh_chain H A) B"
proof (induction n arbitrary: H A)
  case (Suc n)
  have "length (take 64 A) = 64" "length (drop 64 A) = 64 * n" and a: "A = take 64 A @ drop 64 A"
    using Suc.prems by simp_all
  then show ?case
    using Suc.IH [of "drop 64 A" "jh_F8 H (take 64 A)"] jh_chain_block [of "take 64 A"] by (metis append.assoc)
qed simp

definition jh_data :: "byte list \<Rightarrow> jh_state \<Rightarrow> bool" where
  "jh_data H S \<longleftrightarrow> length (jh_x S) = 16 \<and> length (jh_buffer S) = 64 \<and> state_bytes (jh_x S) = H"

lemma jh_data_block:
  assumes "jh_data H S" "length M = 64"
  shows "jh_data (jh_F8 H M) (S\<lparr>jh_buffer := M, jh_x := F8 M (jh_x S)\<rparr>)"
  using assms by (simp add: jh_data_def F8_correct)

lemma put_block: "length b = 64 \<Longrightarrow> length M = 64 \<Longrightarrow> put 0 M b = M"
  by (simp add: put_def)

lemma jh_blocks_chain:
  assumes "jh_data H S" "i + n = length data"
  shows "\<exists>S'. jh_blocks data i (8 * n) S = Some (i + 64 * (n div 64), 8 * (n mod 64), S') \<and>
    jh_data (jh_chain H (take (64 * (n div 64)) (drop i data))) S' \<and>
    jh_hashbitlen S' = jh_hashbitlen S \<and> jh_databitlen S' = jh_databitlen S \<and> jh_datasize S' = jh_datasize S"
  using assms
proof (induction n arbitrary: i H S rule: less_induct)
  case (less n)
  show ?case
  proof (cases "n < 64")
    case True
    then show ?thesis
      using less.prems by (simp add: jh_blocks.simps)
  next
    case False
    define M where "M = take 64 (drop i data)"
    define T where "T = S\<lparr>jh_buffer := M, jh_x := F8 M (jh_x S)\<rparr>"
    have M: "length M = 64"
      using False less.prems by (simp add: M_def)
    have T: "jh_data (jh_F8 H M) T"
      unfolding T_def by (rule jh_data_block [OF less.prems(1) M])
    have copy: "jh_copy (jh_buffer S) 0 i 64 data = Some M"
      using False less.prems M by (simp add: jh_copy_def M_def [symmetric] put_block jh_data_def)
    have b: "jh_blocks data i (8 * n) S = jh_blocks data (i + 64) (8 * (n - 64)) T"
      using False by (subst jh_blocks.simps) (simp add: copy T_def Let_def diff_mult_distrib2)
    have d: "n div 64 = Suc ((n - 64) div 64)" "n mod 64 = (n - 64) mod 64"
      using False by (simp_all add: le_div_geq le_mod_geq)
    have "take (64 * (n div 64)) (drop i data) = M @ take (64 * ((n - 64) div 64)) (drop (i + 64) data)"
      unfolding M_def d(1) using take_add [of 64 "64 * ((n - 64) div 64)" "drop i data"] by (simp add: add.commute)
    then have "jh_chain H (take (64 * (n div 64)) (drop i data)) = jh_chain (jh_F8 H M) (take (64 * ((n - 64) div 64)) (drop (i + 64) data))"
      by (simp add: jh_chain_block [OF M])
    then show ?thesis
      using less.IH [of "n - 64" "jh_F8 H M" T "i + 64"] T False less.prems(2) unfolding b by (simp add: d T_def algebra_simps)
  qed
qed

section \<open>The whole message\<close>

lemma jh_Update_message:
  fixes m :: "byte list"
  assumes "jh_data H S" "jh_datasize S = 0" "jh_databitlen S = 0"
  defines "n \<equiv> length m" and "k \<equiv> 64 * (length m div 64)"
  shows "\<exists>S'. jh_Update m (8 * n) S = Some S' \<and> jh_data (jh_chain H (take k m)) S' \<and>
    take (n mod 64) (jh_buffer S') = drop k m \<and> jh_hashbitlen S' = jh_hashbitlen S \<and>
    jh_databitlen S' = of_nat (8 * n) \<and> jh_datasize S' = 8 * (n mod 64)"
proof -
  define T where "T = S\<lparr>jh_databitlen := of_nat (8 * n)\<rparr>"
  have "jh_data H T"
    using assms(1) by (simp add: T_def jh_data_def)
  from jh_blocks_chain [OF this, of 0 n m] obtain U where
    U: "jh_blocks m 0 (8 * n) T = Some (k, 8 * (n mod 64), U)" "jh_data (jh_chain H (take k m)) U"
      "jh_hashbitlen U = jh_hashbitlen S" "jh_databitlen U = of_nat (8 * n)" "jh_datasize U = 0"
    using assms(2) by (auto simp: n_def k_def T_def)
  have rest: "length (drop k m) = n mod 64"
    by (simp add: n_def k_def minus_mult_div_eq_mod)
  have kn: "k + n mod 64 = length m"
    by (simp add: n_def k_def)
  have c: "8 * (n mod 64) mod 512 div 8 = n mod 64" "8 * (n mod 64) mod 8 = 0"
    by simp_all
  have copy: "jh_copy (jh_buffer U) 0 k (n mod 64) m = Some (put 0 (drop k m) (jh_buffer U))"
    using kn rest by (simp add: jh_copy_def)
  have t: "S\<lparr>jh_databitlen := 8 * word_of_nat n\<rparr> = T" "jh_datasize T = 0"
    using assms(2) by (simp_all add: T_def)
  have up: "jh_Update m (8 * n) S = (if 0 < n mod 64 then Some (U\<lparr>jh_buffer := put 0 (drop k m) (jh_buffer U), jh_datasize := 8 * (n mod 64)\<rparr>) else Some U)"
    unfolding jh_Update_def Let_def using assms(2,3) U(1,5) copy c t by simp
  show ?thesis
  proof (cases "n mod 64 = 0")
    case True
    then show ?thesis
      using U up rest by auto
  next
    case False
    have "n mod 64 < 64"
      by simp
    then have "length (put 0 (drop k m) (jh_buffer U)) = 64" "take (n mod 64) (put 0 (drop k m) (jh_buffer U)) = drop k m"
      using U(2) rest by (simp_all add: put_def jh_data_def)
    then show ?thesis
      using False U up by (simp add: jh_data_def)
  qed
qed

section \<open>The last blocks\<close>

lemma jh_length_bytes: "jh_length_bytes (of_nat v) = jh_be 8 v"
proof -
  have "ucast (drop_bit k (of_nat v :: u64)) = (of_nat (v div 2 ^ k) :: byte)" if "k \<le> 56" for k
  proof (rule bit_word_eqI)
    fix i
    assume "i < LENGTH(8)"
    then show "bit (ucast (drop_bit k (of_nat v :: u64)) :: byte) i = bit (of_nat (v div 2 ^ k) :: byte) i"
      using that by (simp add: bit_ucast_iff bit_drop_bit_eq bit_of_nat_iff add.commute flip: drop_bit_eq_div)
  qed
  from this [of 56] this [of 48] this [of 40] this [of 32] this [of 24] this [of 16] this [of 8] this [of 0] show ?thesis
    by (simp add: jh_length_bytes_def jh_be_def upt_8)
qed

lemma jh_be_16: "v < 2 ^ 64 \<Longrightarrow> jh_be 16 v = replicate 8 0 @ jh_be 8 v"
proof -
  assume v: "v < 2 ^ 64"
  have "v div 256 ^ (15 - i) = 0" if "i < 8" for i
  proof -
    have "(2 ^ 64 :: nat) = 256 ^ 8"
      by simp
    also have "\<dots> \<le> 256 ^ (15 - i)"
      using that by (intro power_increasing) auto
    finally show ?thesis
      using v by simp
  qed
  then have "map (\<lambda>i. of_nat (v div 256 ^ (15 - i)) :: byte) [0..<8] = replicate 8 0"
    by (auto intro!: nth_equalityI)
  moreover have "map (\<lambda>i. of_nat (v div 256 ^ (15 - i)) :: byte) [8..<16] = map (\<lambda>i. of_nat (v div 256 ^ (7 - i))) [0..<8]"
    by (auto intro!: nth_equalityI simp del: upt_rec_numeral)
  moreover have "[0..<16] = [0..<8] @ [8..<16 :: nat]"
    by (metis le_add1 le_add_same_cancel1 upt_add_eq_append numeral_Bit0 zero_le)
  ultimately show ?thesis
    by (simp add: jh_be_def del: upt_rec_numeral)
qed

lemma jh_low_bits:
  "of_nat (8 * n) AND (0x1ff :: u64) = of_nat (8 * (n mod 64))"
  "unat (drop_bit 3 (of_nat (8 * n) AND (0x1ff :: u64))) = n mod 64"
  "unat (of_nat (8 * n) AND (7 :: u64)) = 0"
  "of_nat (8 * n) AND (0x1ff :: u64) = 0 \<longleftrightarrow> n mod 64 = 0"
proof -
  have m: "(0x1ff :: u64) = mask 9" "(7 :: u64) = mask 3"
    by (simp_all add: mask_eq_exp_minus_1)
  have lo: "of_nat (8 * n) AND (0x1ff :: u64) = of_nat (8 * (n mod 64))"
    unfolding m take_bit_eq_mask [symmetric] take_bit_of_nat unfolding take_bit_eq_mod by (simp add: mult_mod_right del: of_nat_mult)
  show "of_nat (8 * n) AND (0x1ff :: u64) = of_nat (8 * (n mod 64))"
    by (rule lo)
  have u: "unat (of_nat (8 * (n mod 64)) :: u64) = 8 * (n mod 64)"
    using mod_less_divisor [of 64 n] by (simp add: unat_of_nat del: of_nat_mult)
  show "unat (drop_bit 3 (of_nat (8 * n) AND (0x1ff :: u64))) = n mod 64"
    unfolding lo unat_drop_bit_eq u by (simp add: drop_bit_eq_div)
  show "unat (of_nat (8 * n) AND (7 :: u64)) = 0"
    unfolding m take_bit_eq_mask [symmetric] take_bit_of_nat unfolding take_bit_eq_mod by simp
  show "of_nat (8 * n) AND (0x1ff :: u64) = 0 \<longleftrightarrow> n mod 64 = 0"
    unfolding lo using u by (metis mult_is_0 of_nat_0 unat_0 zero_neq_numeral)
qed

lemma jh_Final_message:
  assumes "jh_data (jh_chain V (take (64 * (length m div 64)) m)) S"
    "take (length m mod 64) (jh_buffer S) = drop (64 * (length m div 64)) m"
    "jh_databitlen S = of_nat (8 * length m)" "jh_datasize S = 8 * (length m mod 64)" "8 * length m < 2 ^ 64"
  shows "jh_Final S = jh_digest (jh_hashbitlen S) (jh_chain V (jh_pad m))"
proof -
  define n k H where "n = length m" and "k = 64 * (length m div 64)" and "H = jh_chain V (take k m)"
  let ?L = "jh_be 8 (8 * n)"
  have L: "jh_length_bytes (jh_databitlen S) = ?L" "length ?L = 8"
    unfolding assms(3) n_def by (rule jh_length_bytes) (simp add: jh_be_def)
  have be: "jh_be 16 (8 * n) = replicate 8 0 @ ?L"
    using assms(5) by (intro jh_be_16) (simp add: n_def)
  let ?X = "[0x80] @ replicate (47 + (64 - n mod 64) mod 64) 0 @ replicate 8 0 @ ?L"
  have "jh_pad m = take k m @ drop k m @ ?X"
    unfolding append_assoc [symmetric] append_take_drop_id by (simp add: jh_pad_def n_def be [unfolded n_def])
  moreover have "length (take k m) = 64 * (length m div 64)"
    by (simp add: k_def)
  ultimately have chain: "jh_chain V (jh_pad m) = jh_chain H (drop k m @ ?X)"
    by (simp only: jh_chain_append H_def)
  have S: "jh_data H S"
    using assms(1) by (simp add: H_def k_def)
  note low = jh_low_bits [of n, folded assms(3) [folded n_def]]
  show ?thesis
  proof (cases "n mod 64 = 0")
    case True
    define M where "M = [0x80] @ replicate 55 0 @ ?L"
    have M: "length M = 64"
      by (simp add: M_def L)
    have "take 56 ((replicate 64 0)[0 := v]) = v # replicate 55 0" for v :: byte
      by (simp add: numeral_eq_Suc)
    then have r: "take 56 ((replicate 64 0)[0 := 0x80 :: byte]) @ ?L = M"
      by (simp add: M_def)
    have z: "replicate 55 (0 :: byte) = replicate 47 0 @ replicate 8 0"
      by (simp flip: replicate_add)
    have "jh_Final S = jh_digest (jh_hashbitlen S) (state_bytes (F8 M (jh_x S)))"
      unfolding jh_Final_def Let_def low(4) L(1) r using True by simp
    moreover have "drop k m = []"
      using True by (auto simp: n_def k_def)
    moreover have "[0x80] @ replicate (47 + (64 - n mod 64) mod 64) 0 @ replicate 8 0 @ ?L = M @ []"
      using True by (simp add: M_def z)
    ultimately show ?thesis
      using jh_data_block [OF S M] jh_chain_block [OF M, of H "[]"] unfolding chain by (simp add: jh_data_def)
  next
    case False
    define M where "M = drop k m @ [0x80] @ replicate (63 - n mod 64) 0"
    define N where "N = replicate 56 0 @ ?L"
    have q: "n mod 64 < 64"
      by simp
    have d: "length (drop k m) = n mod 64"
      by (simp add: n_def k_def minus_mult_div_eq_mod)
    have M: "length M = 64"
      using d q by (simp add: M_def)
    have N: "length N = 64"
      by (simp add: N_def L)
    let ?b = "take (n mod 64) (jh_buffer S) @ replicate (64 - n mod 64) 0"
    have z: "replicate (64 - n mod 64) (0 :: byte) = 0 # replicate (63 - n mod 64) 0"
    proof -
      have "64 - n mod 64 = Suc (63 - n mod 64)"
        using q by linarith
      then show ?thesis
        by simp
    qed
    have b: "?b[n mod 64 := ?b ! (n mod 64) OR push_bit (7 - 0) 1] = M"
      unfolding assms(2) [folded k_def n_def] z using d by (simp add: nth_append list_update_append M_def)
    have "jh_Final S = jh_digest (jh_hashbitlen S) (state_bytes (F8 N (F8 M (jh_x S))))"
      unfolding jh_Final_def Let_def low(2,3,4) L(1) using False assms(4) [folded n_def] b by (simp add: N_def)
    moreover have "drop k m @ [0x80] @ replicate (47 + (64 - n mod 64) mod 64) 0 @ replicate 8 0 @ ?L = M @ N @ []"
    proof -
      have "47 + (64 - n mod 64) mod 64 + 8 = (63 - n mod 64) + 56"
        using False q by (subst mod_less) auto
      then have "replicate (47 + (64 - n mod 64) mod 64) (0 :: byte) @ replicate 8 0 = replicate (63 - n mod 64) 0 @ replicate 56 0"
        by (simp flip: replicate_add)
      then have "replicate (47 + (64 - n mod 64) mod 64) 0 @ replicate 8 0 @ ?L = replicate (63 - n mod 64) 0 @ replicate 56 0 @ ?L"
        by (metis append.assoc)
      then show ?thesis
        by (simp only: M_def N_def append_assoc append_Nil2 append_Cons append_Nil)
    qed
    ultimately show ?thesis
      using jh_data_block [OF jh_data_block [OF S M] N] jh_chain_block [OF M] jh_chain_block [OF N, of _ "[]"] unfolding chain
      by (simp add: jh_data_def)
  qed
qed

end
