(* ===== verification/Jh_Values.thy ===== *)
theory Jh_Values
  imports Jh_Columns Jh_Constants
begin

text \<open>
  The first values: the tables of the code are the images under the compression function of the length
  of the digest. E8 is evaluated on quadruples of bits, with the constants computed along.
\<close>

definition quad_round :: "bool list \<Rightarrow> quad list \<Rightarrow> quad list" where
  "quad_round C A = jh_P (quad_lin (map2 ss_bits C A))"

fun quad_rounds :: "nat \<Rightarrow> quad list \<Rightarrow> quad list \<Rightarrow> quad list" where
  "quad_rounds 0 C A = A"
| "quad_rounds (Suc n) C A = quad_rounds n (quad_R C) (quad_round (quad_bits C) A)"

definition quad_rows :: "quad list \<Rightarrow> bool list" where
  "quad_rows q = map (\<lambda>(a, b, c, d). a) q @ map (\<lambda>(a, b, c, d). b) q @ map (\<lambda>(a, b, c, d). c) q @ map (\<lambda>(a, b, c, d). d) q"

definition quad_E8 :: "quad list \<Rightarrow> bool list" where
  "quad_E8 Q = quad_rows (unshuffle (quad_rounds 42 (map quad_of jh_sqrt2) Q))"

lemma quad_round_nibble: "map nibble (quad_round C A) = jh_R C (map nibble A)"
proof -
  have "map2 jh_sub C (map nibble A) = map nibble (map2 ss_bits C A)"
    by (simp add: zip_map2 ss_nibble case_prod_unfold)
  then show ?thesis
    by (simp only: quad_round_def jh_R_def quad_lin_nibble jh_P_map [symmetric])
qed

lemma quad_rounds_nibble:
  "map nibble (quad_rounds n ((quad_R ^^ r) (map quad_of jh_sqrt2)) A) = fold (\<lambda>r A. jh_R (jh_round_bits r) A) [r..<r + n] (map nibble A)"
proof (induction n arbitrary: r A)
  case (Suc n)
  have "quad_bits ((quad_R ^^ r) (map quad_of jh_sqrt2)) = jh_round_bits r"
    using quad_constant [of r] by (simp add: quad_bits_nibble jh_round_bits_def)
  moreover have "[r..<r + Suc n] = r # [Suc r..<Suc r + n]"
    by (simp add: upt_rec [of r])
  ultimately show ?case
    using Suc.IH [of "Suc r"] by (simp add: quad_round_nibble)
qed simp

lemma quad_rows_nibble: "quad_rows q = map (\<lambda>a. odd (a div 8)) (map nibble q) @ map (\<lambda>a. odd (a div 4)) (map nibble q) @
    map (\<lambda>a. odd (a div 2)) (map nibble q) @ map odd (map nibble q)"
proof -
  have "nib_bits (nibble m) = (case m of (a, b, c, d) \<Rightarrow> [a, b, c, d])" for m
    by (cases m) (simp add: nib_bits_nibble)
  then show ?thesis
    by (auto simp: quad_rows_def nib_bits_def case_prod_unfold)
qed

lemma quad_E8_first:
  assumes "jh_group H = map nibble Q" "quad_E8 Q = jh_bits V"
  shows "jh_E8 H = V"
proof -
  have "jh_E8 H = jh_bytes (quad_E8 Q)"
    using quad_rounds_nibble [of 42 0 Q]
    by (simp add: jh_E8_def assms(1) jh_degroup_def Let_def quad_E8_def quad_rows_nibble unshuffle_map [symmetric] del: map_map)
  then show ?thesis
    by (simp add: assms(2) jh_bytes_bits)
qed

lemma map2_zero: "length A = n \<Longrightarrow> map2 (XOR) A (replicate n 0) = A" for A :: "byte list"
  by (induction A arbitrary: n) auto

lemma jh_IV_value:
  assumes "jh_group (jh_be 2 d @ replicate 126 0) = map nibble Q" "quad_E8 Q = jh_bits V" "length V = 128"
  shows "jh_IV d = V"
proof -
  have z: "replicate 64 (0 :: byte) @ replicate 64 0 = replicate 128 0"
    by (simp flip: replicate_add)
  have "map2 (XOR) (jh_be 2 d @ replicate 126 0) (replicate 128 0) = jh_be 2 d @ replicate 126 0"
    by (rule map2_zero) (simp add: jh_be_def)
  then show ?thesis
    unfolding jh_IV_def jh_F8_def z by (simp only: quad_E8_first [OF assms(1,2)] map2_zero [OF assms(3)])
qed

definition quad_zeros :: "nat \<Rightarrow> quad list" where
  "quad_zeros n = replicate n (False, False, False, False)"

definition quad_one :: quad where
  "quad_one = (True, False, False, False)"

lemma first_224: "jh_group (jh_be 2 224 @ replicate 126 0) =
    map nibble (quad_zeros 16 @ quad_one # quad_zeros 1 @ quad_one # quad_zeros 1 @ quad_one # quad_zeros 235)"
  by code_simp

lemma first_256: "jh_group (jh_be 2 256 @ replicate 126 0) = map nibble (quad_zeros 14 @ quad_one # quad_zeros 241)"
  by code_simp

lemma first_384: "jh_group (jh_be 2 384 @ replicate 126 0) = map nibble (quad_zeros 14 @ quad_one # quad_zeros 1 @ quad_one # quad_zeros 239)"
  by code_simp

lemma first_512: "jh_group (jh_be 2 512 @ replicate 126 0) = map nibble (quad_zeros 12 @ quad_one # quad_zeros 243)"
  by code_simp

lemma value_224: "quad_E8 (quad_zeros 16 @ quad_one # quad_zeros 1 @ quad_one # quad_zeros 1 @ quad_one # quad_zeros 235) = jh_bits JH224_H0"
  by code_simp

lemma value_256: "quad_E8 (quad_zeros 14 @ quad_one # quad_zeros 241) = jh_bits JH256_H0"
  by code_simp

lemma value_384: "quad_E8 (quad_zeros 14 @ quad_one # quad_zeros 1 @ quad_one # quad_zeros 239) = jh_bits JH384_H0"
  by code_simp

lemma value_512: "quad_E8 (quad_zeros 12 @ quad_one # quad_zeros 243) = jh_bits JH512_H0"
  by code_simp

lemma jh_IV_values: "jh_IV 224 = JH224_H0" "jh_IV 256 = JH256_H0" "jh_IV 384 = JH384_H0" "jh_IV 512 = JH512_H0"
  by (rule jh_IV_value, rule first_224, rule value_224, simp add: JH224_H0_def)
    (rule jh_IV_value, rule first_256, rule value_256, simp add: JH256_H0_def,
     rule jh_IV_value, rule first_384, rule value_384, simp add: JH384_H0_def,
     rule jh_IV_value, rule first_512, rule value_512, simp add: JH512_H0_def)

end
