(* ===== verification/Jh_Properties.thy ===== *)
theory Jh_Properties
  imports Jh_Message Jh_Values
begin

text \<open>
  The hash JH of the code is that of its submission, for the four lengths of digest and every message of whole
  bytes; and what the streaming interface does outside that use.
\<close>

section \<open>The length of the value\<close>

lemma jh_F8_length:
  assumes "length H = 128" "length M = 64"
  shows "length (jh_F8 H M) = 128"
proof -
  let ?x = "map (\<lambda>i. load64 H (8 * i)) [0..<16]"
  have x: "length ?x = 16" "state_bytes ?x = H"
    using assms(1) by (simp_all only: length_map length_upt) (intro state_bytes_load, simp)
  have "length (state_bytes (F8 M ?x)) = 128"
    unfolding length_state_bytes F8_correct(2) [OF x(1) assms(2)] by simp
  then show ?thesis
    unfolding F8_correct(1) [OF x(1) assms(2)] x(2) .
qed

lemma jh_chain_length: "length H = 128 \<Longrightarrow> length m = 64 * n \<Longrightarrow> length (jh_chain H m) = 128"
proof (induction n arbitrary: H m)
  case (Suc n)
  then have "length (take 64 m) = 64" "length (drop 64 m) = 64 * n"
    by simp_all
  then show ?case
    using Suc.IH [of "jh_F8 H (take 64 m)" "drop 64 m"] jh_F8_length [OF Suc.prems(1)] jh_chain_block [of "take 64 m" H "drop 64 m"]
    by simp
qed simp

lemma jh_pad_length: "\<exists>n. length (jh_pad m) = 64 * n"
proof -
  have "length (jh_pad m) = length m + (64 - length m mod 64) mod 64 + 64"
    by (simp add: jh_pad_def jh_be_def)
  moreover have "64 dvd length m + (64 - length m mod 64) mod 64"
  proof (cases "length m mod 64 = 0")
    case False
    have "length m + (64 - length m mod 64) = 64 * (length m div 64) + 64"
      using mult_div_mod_eq [of 64 "length m"] mod_less_divisor [of 64 "length m"] by linarith
    then have "64 dvd length m + (64 - length m mod 64)"
      by simp
    then show ?thesis
      using False by simp
  qed auto
  ultimately have "64 dvd length (jh_pad m)"
    by simp
  then show ?thesis
    by blast
qed

section \<open>All of it\<close>

lemma jh_H0_value:
  assumes "d \<in> {224, 256, 384, 512}"
  shows "jh_H0 (int d) = Some (jh_IV d)" "length (jh_IV d) = 128"
  using assms by (auto simp: jh_H0_def jh_IV_values JH224_H0_def JH256_H0_def JH384_H0_def JH512_H0_def)

lemma jh_digest_drop: "d \<in> {224, 256, 384, 512} \<Longrightarrow> length X = 128 \<Longrightarrow> jh_digest (int d) X = Some (drop (128 - d div 8) X)"
  by (auto simp: jh_digest_def)

lemma jh_hash_reference:
  assumes d: "d \<in> {224, 256, 384, 512}" and "length rest = 64" "8 * length m < 2 ^ 64"
  shows "jh_hash rest (int d) m (8 * length m) = Some (SUCCESS, Some (jh_reference d m))"
proof -
  let ?S = "\<lparr>jh_hashbitlen = int d, jh_databitlen = 0, jh_datasize = 0,
    jh_x = map (\<lambda>i. load64 (jh_IV d) (8 * i)) [0..<16], jh_buffer = rest\<rparr>"
  have i: "jh_Init rest (int d) = Some ?S"
    by (simp add: jh_Init_def jh_H0_value [OF d] del: upt_rec_numeral)
  have "state_bytes (map (\<lambda>i. load64 (jh_IV d) (8 * i)) [0..<16]) = jh_IV d"
    using jh_H0_value(2) [OF d] by (intro state_bytes_load) simp
  then have "jh_data (jh_IV d) ?S"
    using assms(2) by (simp add: jh_data_def del: upt_rec_numeral)
  from jh_Update_message [OF this, of m] obtain S where
    S: "jh_Update m (8 * length m) ?S = Some S" "jh_data (jh_chain (jh_IV d) (take (64 * (length m div 64)) m)) S"
      "take (length m mod 64) (jh_buffer S) = drop (64 * (length m div 64)) m" "jh_hashbitlen S = int d"
      "jh_databitlen S = of_nat (8 * length m)" "jh_datasize S = 8 * (length m mod 64)"
    by auto
  obtain n where "length (jh_pad m) = 64 * n"
    using jh_pad_length by blast
  then have "length (jh_chain (jh_IV d) (jh_pad m)) = 128"
    using jh_chain_length jh_H0_value(2) [OF d] by blast
  then have "jh_Final S = Some (jh_reference d m)"
    using jh_Final_message [OF S(2,3,5,6) assms(3)] jh_digest_drop [OF d] by (simp add: S(4) jh_reference_def)
  moreover have "int d = 224 \<or> int d = 256 \<or> int d = 384 \<or> int d = 512"
    using d by auto
  ultimately show ?thesis
    by (simp add: jh_hash_def i S(1))
qed

text \<open>
  A short second call reads past its data: whatever is missing from the block is copied, not what is given.
\<close>

lemma jh_Update_overread:
  assumes "0 < jh_datasize S" "jh_datasize S + 8 * length data < 512" "jh_datasize S mod 8 = 0"
  shows "jh_Update data (8 * length data) S = None"
proof -
  obtain q where q: "jh_datasize S = 8 * q"
    using assms(3) by auto
  then have "length data < 64 - q"
    using assms(2) by simp
  then show ?thesis
    using assms(1,2) q by (simp add: jh_Update_def Let_def jh_copy_def)
qed

section \<open>The property\<close>

text \<open>
  C40: For a digest of 224, 256, 384 or 512 bits, \<^verbatim>\<open>jh_hash\<close> of a message of whole bytes shorter than
  \<open>2 ^ 64\<close> bits succeeds with the value of JH as its submission defines it: the message is padded with a
  bit 1, zeros and its length in 128 bits, each block goes through the compression function, whose
  permutation E8 is 42 rounds of S-boxes, a linear code and a permutation on 256 elements of four bits with
  constants from the square root of two, and the first value is the image of the length of the
  digest. The code computes E8 on 16 words, with tables of constants and of first values. Another length of
  the digest is refused with \<^verbatim>\<open>BAD_HASHLEN\<close>, and the caller gets the 256-bit digest.
\<close>

theorem jh_hash_correct:
  assumes "length rest = 64" "8 * length m < 2 ^ 64"
  shows "(d \<in> {224, 256, 384, 512} \<longrightarrow> jh_hash rest (int d) m (8 * length m) = Some (SUCCESS, Some (jh_reference d m))) \<and>
    (d \<notin> {224, 256, 384, 512} \<longrightarrow> jh_hash rest (int d) m (8 * length m) = Some (BAD_HASHLEN, None)) \<and>
    hash_extra_jh rest m = Some (jh_reference 256 m)"
proof (intro conjI impI)
  show "jh_hash rest (int d) m (8 * length m) = Some (SUCCESS, Some (jh_reference d m))" if "d \<in> {224, 256, 384, 512}"
    using that assms by (rule jh_hash_reference)
  show "jh_hash rest (int d) m (8 * length m) = Some (BAD_HASHLEN, None)" if "d \<notin> {224, 256, 384, 512}"
    using that by (auto simp: jh_hash_def)
  show "hash_extra_jh rest m = Some (jh_reference 256 m)"
    using jh_hash_reference [OF _ assms, of 256] by (simp add: hash_extra_jh_def)
qed

theorem jh_hash_correct_witness:
  "jh_hash (replicate 64 0) 224 [0x61, 0x62, 0x63] 24 = Some (SUCCESS, Some (jh_reference 224 [0x61, 0x62, 0x63])) \<and>
    hash_extra_jh (replicate 64 0) [0x61, 0x62, 0x63] = Some (jh_reference 256 [0x61, 0x62, 0x63])"
  using jh_hash_correct [of "replicate 64 0" "[0x61, 0x62, 0x63]" 224] by simp

end
