(* ===== verification/Spec2Isabelle.thy ===== *)
theory Spec2Isabelle
  imports Field_Properties Scalar_Properties Group_Properties Codec_Properties Hash_Properties Blake_Properties Aes_Properties Slow_Properties Stream_Properties Jh_Properties
begin

text \<open>
  Verification of the CryptoNote hashing library of the hypepool mining pool server
  (\<^verbatim>\<open>src/Hashing/libcryptonote/crypto\<close>).
\<close>

end
